(* ===== verification/Prelude.thy ===== *)
theory Prelude
  imports
    "HOL-Library.Word"
    "HOL-Library.Char_ord"
    "HOL-Library.List_Lexorder"
    "HOL-Library.Multiset"
begin

text \<open>
  What every component shares: the machine integer types, the result type of fallible code
  with its sequencing and its loop, the two containers of the standard library the code uses
  (\<open>HashMap\<close>, filled with \<open>collect\<close>, and \<open>BTreeMap\<close>, filled with \<open>entry().or_insert()\<close>), and
  the lemmas about them.
\<close>

section \<open>Collections of facts\<close>

named_theorems res_simps \<open>sequencing of fallible steps\<close>
named_theorems tab_simps \<open>lookups in the standard containers\<close>

section \<open>Machine integers\<close>

type_synonym u8 = "8 word"
type_synonym u16 = "16 word"
type_synonym u32 = "32 word"
type_synonym u64 = "64 word"

lemma unat_u16_le: "unat (w :: u16) \<le> 65535"
  using unsigned_less [of w, where ?'a = nat] by simp

lemma unat_u32_le: "unat (w :: u32) \<le> 4294967295"
  using unsigned_less [of w, where ?'a = nat] by simp

lemma unat_u8_le: "unat (w :: u8) \<le> 255"
  using unsigned_less [of w, where ?'a = nat] by simp

section \<open>Results: \<open>Inl\<close> an error, \<open>Inr\<close> a value\<close>

text \<open>The operator \<open>?\<close> of Rust (and \<open>Result::and_then\<close>): continue with the value, or return the error.\<close>

definition and_then :: "'e + 'a \<Rightarrow> ('a \<Rightarrow> 'e + 'b) \<Rightarrow> 'e + 'b" where
  "and_then r f = (case r of Inl e \<Rightarrow> Inl e | Inr a \<Rightarrow> f a)"

lemma and_then_simps [simp]: "and_then (Inl e) f = Inl e" "and_then (Inr a) f = f a"
  by (simp_all add: and_then_def)

lemma and_then_Inr_iff [res_simps]:
  "and_then r f = Inr b \<longleftrightarrow> (\<exists>a. r = Inr a \<and> f a = Inr b)"
  by (cases r) auto

lemma and_then_Inl_iff:
  "and_then r f = Inl e \<longleftrightarrow> r = Inl e \<or> (\<exists>a. r = Inr a \<and> f a = Inl e)"
  by (cases r) auto

lemma and_then_InrE:
  assumes "and_then r f = Inr b"
  obtains a where "r = Inr a" "f a = Inr b"
  using assms by (auto simp: and_then_Inr_iff)

text \<open>\<open>map_err\<close>, and \<open>with_context\<close> where the model keeps the cause.\<close>

definition map_err :: "('e \<Rightarrow> 'f) \<Rightarrow> 'e + 'a \<Rightarrow> 'f + 'a" where
  "map_err f r = (case r of Inl e \<Rightarrow> Inl (f e) | Inr a \<Rightarrow> Inr a)"

lemma map_err_simps [simp]: "map_err f (Inl e) = Inl (f e)" "map_err f (Inr a) = Inr a"
  by (simp_all add: map_err_def)

lemma map_err_Inr_iff [res_simps]: "map_err f r = Inr a \<longleftrightarrow> r = Inr a"
  by (cases r) simp_all

text \<open>A guard that returns early with an error.\<close>

definition bail_if :: "bool \<Rightarrow> 'e \<Rightarrow> 'e + unit" where
  "bail_if c e = (if c then Inl e else Inr ())"

lemma bail_if_Inr [res_simps]: "bail_if c e = Inr u \<longleftrightarrow> \<not> c"
  by (simp add: bail_if_def)

lemma bail_if_cases [simp]: "bail_if True e = Inl e" "bail_if False e = Inr ()"
  by (simp_all add: bail_if_def)

text \<open>A loop whose body may return early with an error, collecting its results.\<close>

fun traverse :: "('a \<Rightarrow> 'e + 'b) \<Rightarrow> 'a list \<Rightarrow> 'e + 'b list" where
  "traverse f [] = Inr []"
| "traverse f (x # xs) =
     and_then (f x) (\<lambda>y. and_then (traverse f xs) (\<lambda>ys. Inr (y # ys)))"

lemma traverse_Inr_iff:
  "traverse f xs = Inr ys \<longleftrightarrow> list_all2 (\<lambda>x y. f x = Inr y) xs ys"
  by (induction xs arbitrary: ys) (auto simp: res_simps list_all2_Cons1)

lemma list_all2_right: "list_all2 P xs ys \<Longrightarrow> y \<in> set ys \<Longrightarrow> \<exists>x \<in> set xs. P x y"
  by (induction rule: list_all2_induct) auto

lemma traverse_cong [fundef_cong]:
  "xs = ys \<Longrightarrow> (\<And>x. x \<in> set ys \<Longrightarrow> f x = g x) \<Longrightarrow> traverse f xs = traverse g ys"
  by (induction xs arbitrary: ys) auto

lemma traverse_append:
  "traverse f (xs @ ys) =
     and_then (traverse f xs) (\<lambda>as. and_then (traverse f ys) (\<lambda>bs. Inr (as @ bs)))"
proof (induction xs)
  case Nil
  show ?case by (cases "traverse f ys") auto
next
  case (Cons x xs)
  then show ?case
    by (cases "f x"; cases "traverse f xs"; cases "traverse f ys") auto
qed

lemma traverse_InrD:
  assumes "traverse f xs = Inr ys" and "y \<in> set ys"
  obtains x where "x \<in> set xs" "f x = Inr y"
proof -
  from assms(1) have "list_all2 (\<lambda>x y. f x = Inr y) xs ys"
    by (simp add: traverse_Inr_iff)
  with assms(2) have "\<exists>x \<in> set xs. f x = Inr y"
    by (auto dest: list_all2_nthD2 simp: in_set_conv_nth list_all2_lengthD intro!: bexI)
  then show thesis using that by blast
qed

lemma traverse_id:
  assumes "\<And>x. x \<in> set xs \<Longrightarrow> f x = Inr x"
  shows "traverse f xs = Inr xs"
  using assms by (induction xs) auto

lemma traverse_length: "traverse f xs = Inr ys \<Longrightarrow> length ys = length xs"
  by (auto simp: traverse_Inr_iff list_all2_lengthD)

lemma traverse_map_eq:
  assumes "traverse f xs = Inr ys" and "\<And>x y. x \<in> set xs \<Longrightarrow> f x = Inr y \<Longrightarrow> g y = h x"
  shows "map g ys = map h xs"
  using assms by (induction xs arbitrary: ys) (auto simp: res_simps)

text \<open>A loop that only checks.\<close>

fun check_all :: "('a \<Rightarrow> 'e option) \<Rightarrow> 'a list \<Rightarrow> 'e + unit" where
  "check_all f [] = Inr ()"
| "check_all f (x # xs) = (case f x of Some e \<Rightarrow> Inl e | None \<Rightarrow> check_all f xs)"

lemma check_all_Inr [res_simps]: "check_all f xs = Inr u \<longleftrightarrow> (\<forall>x \<in> set xs. f x = None)"
  by (induction xs) (auto split: option.splits)

lemma check_all_Inl: "check_all f xs = Inl e \<Longrightarrow> \<exists>x \<in> set xs. f x = Some e"
  by (induction xs) (auto split: option.splits)

lemma in_set_map_filter [simp]:
  "y \<in> set (List.map_filter f xs) \<longleftrightarrow> (\<exists>x \<in> set xs. f x = Some y)"
  by (force simp: List.map_filter_def image_iff)

section \<open>Fallible steps on a mutable state\<close>

text \<open>
  A function that takes \<open>&mut\<close> state and returns \<open>Result<()>\<close>: the error, if any, and the state it
  leaves behind, also when it fails half-way. \<open>seq_do f g\<close> is \<open>f(s)?; g(s)?\<close>.
\<close>

type_synonym ('e, 's) step = "'s \<Rightarrow> 'e option \<times> 's"

definition seq_do :: "('e, 's) step \<Rightarrow> ('e, 's) step \<Rightarrow> ('e, 's) step" where
  "seq_do f g s = (case f s of (Some e, s') \<Rightarrow> (Some e, s') | (None, s') \<Rightarrow> g s')"

lemma seq_do_None [res_simps]:
  "seq_do f g s = (None, t) \<longleftrightarrow> (\<exists>u. f s = (None, u) \<and> g u = (None, t))"
  by (auto simp: seq_do_def split: prod.splits option.splits)

section \<open>Hash maps\<close>

text \<open>
  \<open>xs.iter().map(|x| (key(x), x)).collect::<HashMap>()\<close>: a later entry replaces an earlier
  one with the same key. \<open>hash_keys\<close> lists every key once. In which order a \<open>HashMap\<close> or
  \<open>HashSet\<close> yields its keys is not determined (the hasher is seeded at random), so each
  iteration goes through a function \<open>it\<close> that is an argument of the model; all that is
  relied on is that it yields every key exactly once.
\<close>

definition collect :: "('a \<Rightarrow> 'k) \<Rightarrow> 'a list \<Rightarrow> ('k \<rightharpoonup> 'a)" where
  "collect key xs = foldl (\<lambda>m x. m(key x \<mapsto> x)) Map.empty xs"

definition hash_keys :: "('a \<Rightarrow> 'k) \<Rightarrow> 'a list \<Rightarrow> 'k list" where
  "hash_keys key xs = remdups (map key xs)"

definition iterates :: "('k list \<Rightarrow> 'k list) \<Rightarrow> bool" where
  "iterates it \<longleftrightarrow> (\<forall>xs. mset (it xs) = mset xs)"

lemma iterates_id: "iterates (\<lambda>xs. xs)"
  by (simp add: iterates_def)

lemma iterates_rev: "iterates rev"
  by (simp add: iterates_def)

lemma set_iterates [tab_simps]: "iterates it \<Longrightarrow> set (it xs) = set xs"
  unfolding iterates_def by (metis set_mset_mset)

lemma distinct_iterates [tab_simps]: "iterates it \<Longrightarrow> distinct (it xs) \<longleftrightarrow> distinct xs"
  unfolding iterates_def by (metis mset_eq_imp_distinct_iff)

lemma iterates_Nil [simp]: "iterates it \<Longrightarrow> it [] = []"
  by (metis iterates_def mset_zero_iff mset.simps(1))

lemma distinct_hash_keys [simp]: "distinct (hash_keys key xs)"
  by (simp add: hash_keys_def)

lemma set_hash_keys [simp]: "set (hash_keys key xs) = key ` set xs"
  by (simp add: hash_keys_def)

lemma collect_Nil [simp]: "collect key [] = Map.empty"
  by (simp add: collect_def)

lemma collect_snoc: "collect key (xs @ [x]) = (collect key xs)(key x \<mapsto> x)"
  by (simp add: collect_def)

lemma collect_code [code]: "collect key xs = map_of (map (\<lambda>x. (key x, x)) (rev xs))"
  by (induction xs rule: rev_induct) (auto simp: collect_snoc)

lemma dom_collect [simp]: "dom (collect key xs) = key ` set xs"
  by (simp add: collect_code dom_map_of_conv_image_fst image_image)

lemma collect_None_iff [tab_simps]: "collect key xs k = None \<longleftrightarrow> k \<notin> key ` set xs"
  using dom_collect [of key xs] by blast

lemma collect_SomeD: "collect key xs k = Some x \<Longrightarrow> x \<in> set xs \<and> key x = k"
  by (induction xs rule: rev_induct) (auto simp: collect_snoc split: if_splits)

lemma collect_ex: "x \<in> set xs \<Longrightarrow> \<exists>y. collect key xs (key x) = Some y"
  using dom_collect [of key xs] by (metis domD imageI)

lemma collect_distinct:
  "distinct (map key xs) \<Longrightarrow> x \<in> set xs \<Longrightarrow> collect key xs (key x) = Some x"
proof (induction xs rule: rev_induct)
  case (snoc y ys)
  then show ?case by (cases "x = y") (auto simp: collect_snoc rev_image_eqI)
qed simp

lemma collect_Some_iff:
  "distinct (map key xs) \<Longrightarrow> collect key xs k = Some x \<longleftrightarrow> x \<in> set xs \<and> key x = k"
  by (auto dest: collect_SomeD intro: collect_distinct)

lemma collect_append: "collect key (xs @ ys) = collect key xs ++ collect key ys"
  by (simp add: collect_code)

lemma collect_filter [tab_simps]:
  "collect key (filter (\<lambda>x. P (key x)) xs) k = (if P k then collect key xs k else None)"
  by (induction xs rule: rev_induct) (auto simp: collect_snoc)

lemma collect_id [tab_simps]: "collect (\<lambda>x. x) xs k = (if k \<in> set xs then Some k else None)"
  by (induction xs rule: rev_induct) (auto simp: collect_snoc)

lemma collect_eq_SomeI:
  "distinct (map key xs) \<Longrightarrow> x \<in> set xs \<Longrightarrow> key x = k \<Longrightarrow> collect key xs k = Some x"
  using collect_distinct by metis

lemma in_keys_iff: "k \<in> key ` set xs \<longleftrightarrow> (\<exists>x. collect key xs k = Some x)"
  using collect_None_iff [of key xs k] by (cases "collect key xs k") auto

lemma collect_sub:
  assumes "distinct (map key a)" and "\<And>x. x \<in> set a \<Longrightarrow> m (key x) = Some x"
  shows "collect key a k = (if k \<in> key ` set a then m k else None)"
proof (cases "k \<in> key ` set a")
  case True
  then obtain x where x: "x \<in> set a" "key x = k" by blast
  with assms(1) have "collect key a k = Some x" by (rule collect_eq_SomeI)
  with assms(2) [OF x(1)] x(2) True show ?thesis by simp
qed (simp add: collect_None_iff)

lemma map_filter_keys:
  assumes "\<And>k x. k \<in> set ks \<Longrightarrow> f k = Some x \<Longrightarrow> key x = k"
  shows "map key (List.map_filter f ks) = filter (\<lambda>k. f k \<noteq> None) ks"
  using assms by (induction ks) (auto simp: List.map_filter_simps split: option.splits)

section \<open>Ordered maps\<close>

text \<open>
  A \<open>BTreeMap\<close> as its entries in key order. \<open>or_insert\<close> is \<open>entry(k).or_insert(v)\<close>: an
  existing entry is kept. \<open>into_values\<close> yields the values in key order.
\<close>

fun or_insert :: "'k::linorder \<Rightarrow> 'v \<Rightarrow> ('k \<times> 'v) list \<Rightarrow> ('k \<times> 'v) list" where
  "or_insert k v [] = [(k, v)]"
| "or_insert k v ((k', v') # m) =
     (if k < k' then (k, v) # (k', v') # m
      else if k = k' then (k', v') # m
      else (k', v') # or_insert k v m)"

definition into_values :: "('k \<times> 'v) list \<Rightarrow> 'v list" where
  "into_values m = map snd m"

definition ordered_map :: "('k::linorder \<times> 'v) list \<Rightarrow> bool" where
  "ordered_map m \<longleftrightarrow> sorted_wrt (<) (map fst m)"

lemma set_or_insert_keys: "fst ` set (or_insert k v m) = insert k (fst ` set m)"
  by (induction k v m rule: or_insert.induct) auto

lemma ordered_map_or_insert: "ordered_map m \<Longrightarrow> ordered_map (or_insert k v m)"
proof (induction k v m rule: or_insert.induct)
  case (2 k v k' v' m)
  have keys: "x \<in> fst ` set (or_insert k v m) \<longleftrightarrow> x = k \<or> x \<in> fst ` set m" for x
    by (simp add: set_or_insert_keys)
  have ord: "ordered_map m" and above: "\<forall>x \<in> fst ` set m. k' < x"
    using "2.prems" by (auto simp: ordered_map_def)
  consider "k < k'" | "k = k'" | "k' < k" by fastforce
  then show ?case
  proof cases
    case 1
    with ord above show ?thesis by (fastforce simp: ordered_map_def)
  next
    case 2
    with "2.prems" show ?thesis by simp
  next
    case 3
    with "2.IH" ord have "ordered_map (or_insert k v m)" by auto
    moreover have "\<forall>x \<in> fst ` set (or_insert k v m). k' < x"
      unfolding set_or_insert_keys using 3 above by simp
    ultimately show ?thesis using 3 by (auto simp: ordered_map_def)
  qed
qed (simp add: ordered_map_def)

lemma map_of_or_insert [tab_simps]:
  "ordered_map m \<Longrightarrow>
     map_of (or_insert k v m) = (map_of m)(k := Some (case map_of m k of Some w \<Rightarrow> w | None \<Rightarrow> v))"
proof (induction k v m rule: or_insert.induct)
  case (2 k v k' v' m)
  from "2.prems" have ord: "ordered_map m" and above: "\<forall>x \<in> fst ` set m. k' < x"
    by (auto simp: ordered_map_def)
  have "map_of m k = None" if "k < k'"
    using above that by (force simp: map_of_eq_None_iff)
  with "2.IH" ord show ?case by (auto simp: fun_eq_iff not_less)
qed simp

lemma ordered_map_distinct: "ordered_map m \<Longrightarrow> distinct (map fst m)"
  unfolding ordered_map_def using strict_sorted_iff by blast

lemma ordered_map_Nil [simp]: "ordered_map []"
  by (simp add: ordered_map_def)

end
