(* ===== verification/Rust_Str.thy ===== *)
theory Rust_Str
  imports Prelude
begin

text \<open>
  The operations of Rust's \<open>str\<close> and of its integer parsing and printing that the sources use.
  A \<open>string\<close> is the UTF-8 byte sequence of the Rust string (a \<open>char\<close> of HOL is a byte), so
  \<open>length\<close> is \<open>str::len\<close>, and the order on strings is that of Rust (bytewise, lexicographic).
\<close>

section \<open>Decimal numbers\<close>

definition is_ascii_digit :: "char \<Rightarrow> bool" where
  "is_ascii_digit c \<longleftrightarrow> 48 \<le> (of_char c :: nat) \<and> (of_char c :: nat) \<le> 57"

definition digit_char :: "nat \<Rightarrow> char" where
  "digit_char d = char_of (48 + d)"

definition digit_val :: "char \<Rightarrow> nat" where
  "digit_val c = of_char c - 48"

fun show_nat :: "nat \<Rightarrow> string" where
  "show_nat n = (if n < 10 then [digit_char n] else show_nat (n div 10) @ [digit_char (n mod 10)])"

declare show_nat.simps [simp del]

definition digits_val :: "string \<Rightarrow> nat" where
  "digits_val ds = foldl (\<lambda>n c. 10 * n + digit_val c) 0 ds"

text \<open>
  \<open>str::parse\<close> for an unsigned integer type with largest value \<open>m\<close>: an optional \<open>+\<close>, then at
  least one digit, leading zeros allowed, an error when the value exceeds \<open>m\<close>.
\<close>

definition parse_uint :: "nat \<Rightarrow> string \<Rightarrow> nat option" where
  "parse_uint m s =
     (let ds = (case s of [] \<Rightarrow> [] | c # cs \<Rightarrow> if c = CHR ''+'' then cs else s)
      in if ds = [] \<or> \<not> list_all is_ascii_digit ds then None
         else let n = digits_val ds in if n \<le> m then Some n else None)"

definition parse_u8 :: "string \<Rightarrow> u8 option" where
  "parse_u8 s = map_option of_nat (parse_uint 255 s)"

definition parse_u16 :: "string \<Rightarrow> u16 option" where
  "parse_u16 s = map_option of_nat (parse_uint 65535 s)"

definition parse_u32 :: "string \<Rightarrow> u32 option" where
  "parse_u32 s = map_option of_nat (parse_uint 4294967295 s)"

definition show_u16 :: "u16 \<Rightarrow> string" where
  "show_u16 w = show_nat (unat w)"

lemma of_char_digit [simp]: "d < 10 \<Longrightarrow> of_char (digit_char d) = (48 + d :: nat)"
  by (simp add: digit_char_def)

lemma is_ascii_digit_digit_char [simp]: "d < 10 \<Longrightarrow> is_ascii_digit (digit_char d)"
  by (simp add: is_ascii_digit_def)

lemma digit_val_digit_char [simp]: "d < 10 \<Longrightarrow> digit_val (digit_char d) = d"
  by (simp add: digit_val_def)

lemma show_nat_digits: "list_all is_ascii_digit (show_nat n)"
proof (induction n rule: show_nat.induct)
  case (1 n)
  then show ?case by (subst show_nat.simps) simp
qed

lemma show_nat_is_digit: "c \<in> set (show_nat n) \<Longrightarrow> is_ascii_digit c"
  using show_nat_digits [of n] by (simp add: list_all_iff)

lemma show_nat_nonempty [simp]: "show_nat n \<noteq> []"
  by (subst show_nat.simps) simp

lemma digits_val_show_nat [simp]: "digits_val (show_nat n) = n"
proof (induction n rule: show_nat.induct)
  case (1 n)
  then show ?case by (subst show_nat.simps) (auto simp: digits_val_def)
qed

lemma show_nat_inject [simp]: "show_nat a = show_nat b \<longleftrightarrow> a = b"
  by (metis digits_val_show_nat)

lemma is_ascii_digit_neq:
  "is_ascii_digit c \<Longrightarrow> c \<noteq> CHR ''+''" "is_ascii_digit c \<Longrightarrow> c \<noteq> CHR ''-''"
  "is_ascii_digit c \<Longrightarrow> c \<noteq> CHR '',''" "is_ascii_digit c \<Longrightarrow> c \<noteq> CHR ''/''"
  "is_ascii_digit c \<Longrightarrow> c \<noteq> CHR ''.''" "is_ascii_digit c \<Longrightarrow> c \<noteq> CHR '':''"
  by (auto simp: is_ascii_digit_def)

lemma parse_uint_digits:
  assumes "ds \<noteq> []" and "list_all is_ascii_digit ds"
  shows "parse_uint m ds = (if digits_val ds \<le> m then Some (digits_val ds) else None)"
  using assms by (cases ds) (auto simp: parse_uint_def Let_def dest: is_ascii_digit_neq)

lemma parse_uint_show_nat [simp]: "parse_uint m (show_nat n) = (if n \<le> m then Some n else None)"
  by (simp add: parse_uint_digits show_nat_digits)

lemma parse_uint_bound: "parse_uint m s = Some n \<Longrightarrow> n \<le> m"
  by (auto simp: parse_uint_def Let_def split: if_splits)

lemma parse_u16_show_u16 [simp]: "parse_u16 (show_u16 w) = Some w"
  using unat_u16_le [of w] by (simp add: parse_u16_def show_u16_def)

lemma show_u16_inject [simp]: "show_u16 a = show_u16 b \<longleftrightarrow> a = b"
  by (simp add: show_u16_def word_unat_eq_iff)

section \<open>Splitting and joining\<close>

text \<open>\<open>str::split(c)\<close>: the pieces between the separators, one piece when there is none.\<close>

fun split_on :: "char \<Rightarrow> string \<Rightarrow> string list" where
  "split_on c [] = [[]]"
| "split_on c (x # xs) =
     (if x = c then [] # split_on c xs
      else case split_on c xs of [] \<Rightarrow> [[x]] | y # ys \<Rightarrow> (x # y) # ys)"

text \<open>\<open>[String]::join(sep)\<close>.\<close>

fun join :: "string \<Rightarrow> string list \<Rightarrow> string" where
  "join sep [] = []"
| "join sep [s] = s"
| "join sep (s # t # ts) = s @ sep @ join sep (t # ts)"

text \<open>\<open>str::split_once(c)\<close>: what is before and after the first \<open>c\<close>.\<close>

definition split_once :: "char \<Rightarrow> string \<Rightarrow> (string \<times> string) option" where
  "split_once c s =
     (if List.member s c
      then Some (takeWhile (\<lambda>x. x \<noteq> c) s, tl (dropWhile (\<lambda>x. x \<noteq> c) s))
      else None)"

text \<open>\<open>str::rfind(c)\<close> used to cut at the last \<open>c\<close>: what is before and after it.\<close>

definition rsplit_once :: "char \<Rightarrow> string \<Rightarrow> (string \<times> string) option" where
  "rsplit_once c s = map_option (\<lambda>(a, b). (rev b, rev a)) (split_once c (rev s))"

lemma split_on_nonempty [simp]: "split_on c s \<noteq> []"
  by (cases s) (auto split: list.splits)

lemma split_on_no_sep: "c \<notin> set s \<Longrightarrow> split_on c s = [s]"
  by (induction s) auto

lemma split_on_append_sep:
  "split_on c (s @ c # t) = split_on c s @ split_on c t"
  by (induction s) (auto split: list.splits)

lemma split_on_pieces: "p \<in> set (split_on c s) \<Longrightarrow> c \<notin> set p"
  by (induction s arbitrary: p) (auto split: list.splits if_splits)

lemma join_split_on: "join [c] (split_on c s) = s"
proof (induction s)
  case (Cons x xs)
  obtain y ys where "split_on c xs = y # ys"
    by (meson list.exhaust split_on_nonempty)
  with Cons show ?case by (cases ys) auto
qed simp

lemma split_on_join:
  assumes "ss \<noteq> []" and "\<And>s. s \<in> set ss \<Longrightarrow> c \<notin> set s"
  shows "split_on c (join [c] ss) = ss"
  using assms
  by (induction "[c]" ss rule: join.induct) (auto simp: split_on_no_sep split_on_append_sep)

lemma join_eq_Nil:
  assumes "\<And>s. s \<in> set ss \<Longrightarrow> s \<noteq> []"
  shows "join sep ss = [] \<longleftrightarrow> ss = []"
  using assms by (induction sep ss rule: join.induct) auto

lemma split_once_Some:
  "split_once c s = Some (a, b) \<longleftrightarrow> s = a @ c # b \<and> c \<notin> set a"
proof
  assume h: "split_once c s = Some (a, b)"
  then have mem: "c \<in> set s" and a: "a = takeWhile (\<lambda>x. x \<noteq> c) s"
    and b: "b = tl (dropWhile (\<lambda>x. x \<noteq> c) s)"
    by (auto simp: split_once_def split: if_splits)
  from mem have ne: "dropWhile (\<lambda>x. x \<noteq> c) s \<noteq> []" by auto
  then have "hd (dropWhile (\<lambda>x. x \<noteq> c) s) = c" using hd_dropWhile by blast
  with ne have "dropWhile (\<lambda>x. x \<noteq> c) s = c # b" by (metis b list.collapse)
  then have "s = a @ c # b" using a takeWhile_dropWhile_id by metis
  moreover have "c \<notin> set a" using a by (auto dest: set_takeWhileD)
  ultimately show "s = a @ c # b \<and> c \<notin> set a" by simp
next
  assume h: "s = a @ c # b \<and> c \<notin> set a"
  then have "\<And>x. x \<in> set a \<Longrightarrow> x \<noteq> c" by blast
  then have "takeWhile (\<lambda>x. x \<noteq> c) (a @ c # b) = a" "dropWhile (\<lambda>x. x \<noteq> c) (a @ c # b) = c # b"
    by (simp_all add: takeWhile_append2 dropWhile_append2)
  with h show "split_once c s = Some (a, b)" by (simp add: split_once_def)
qed

lemma split_once_None: "split_once c s = None \<longleftrightarrow> c \<notin> set s"
  by (simp add: split_once_def)

section \<open>Prefixes, substrings, case\<close>

definition strip_prefix :: "string \<Rightarrow> string \<Rightarrow> string option" where
  "strip_prefix p s = (if take (length p) s = p then Some (drop (length p) s) else None)"

definition starts_with :: "string \<Rightarrow> string \<Rightarrow> bool" where
  "starts_with p s \<longleftrightarrow> take (length p) s = p"

fun contains_str :: "string \<Rightarrow> string \<Rightarrow> bool" where
  "contains_str p [] \<longleftrightarrow> p = []"
| "contains_str p (x # xs) \<longleftrightarrow> starts_with p (x # xs) \<or> contains_str p xs"

definition to_ascii_lower :: "string \<Rightarrow> string" where
  "to_ascii_lower s =
     map (\<lambda>c. if 65 \<le> (of_char c :: nat) \<and> (of_char c :: nat) \<le> 90
              then char_of (of_char c + 32 :: nat) else c) s"

definition eq_ignore_ascii_case :: "string \<Rightarrow> string \<Rightarrow> bool" where
  "eq_ignore_ascii_case a b \<longleftrightarrow> to_ascii_lower a = to_ascii_lower b"

text \<open>\<open>trim_start_matches(p)\<close>: remove the (non-empty) prefix as often as it occurs.\<close>

function trim_start_matches :: "string \<Rightarrow> string \<Rightarrow> string" where
  "trim_start_matches p s =
     (if p \<noteq> [] \<and> starts_with p s then trim_start_matches p (drop (length p) s) else s)"
  by pat_completeness auto
termination
proof (relation "measure (\<lambda>(p, s). length s)")
  fix p s :: string
  assume "p \<noteq> [] \<and> starts_with p s"
  then have "p \<noteq> []" and "length p \<le> length s"
    by (auto simp: starts_with_def) (metis length_take min.cobounded1)
  then show "((p, drop (length p) s), p, s) \<in> measure (\<lambda>(p, s). length s)"
    by (cases p) auto
qed simp

declare trim_start_matches.simps [simp del]

lemma strip_prefix_Some: "strip_prefix p s = Some t \<longleftrightarrow> s = p @ t"
  by (auto simp: strip_prefix_def) (metis append_take_drop_id)

lemma starts_with_iff: "starts_with p s \<longleftrightarrow> (\<exists>t. s = p @ t)"
  by (auto simp: starts_with_def) (metis append_take_drop_id)

section \<open>Trimming\<close>

text \<open>
  \<open>str::trim\<close> removes the characters with Unicode's \<open>White_Space\<close> property at both ends; these
  are their UTF-8 encodings.
\<close>

definition byte_str :: "nat list \<Rightarrow> string" where
  "byte_str bs = map char_of bs"

definition white_space :: "string list" where
  "white_space =
     map byte_str
      ([[32], [9], [10], [11], [12], [13], [194, 133], [194, 160], [225, 154, 128],
        [226, 128, 168], [226, 128, 169], [226, 128, 175], [226, 129, 159], [227, 128, 128]]
       @ map (\<lambda>b. [226, 128, b]) [128 ..< 139])"

text \<open>Remove patterns from the front until none matches.\<close>

function strip_pats :: "string list \<Rightarrow> string \<Rightarrow> string" where
  "strip_pats ps s =
     (case find (\<lambda>p. p \<noteq> [] \<and> starts_with p s) ps of
        None \<Rightarrow> s
      | Some p \<Rightarrow> strip_pats ps (drop (length p) s))"
  by pat_completeness auto
termination
proof (relation "measure (\<lambda>(ps, s). length s)")
  fix ps :: "string list" and s p :: string
  assume "find (\<lambda>p. p \<noteq> [] \<and> starts_with p s) ps = Some p"
  then have "p \<noteq> []" and "starts_with p s" by (auto simp: find_Some_iff)
  then have "p \<noteq> []" and "length p \<le> length s" by (auto simp: starts_with_iff)
  then show "((ps, drop (length p) s), ps, s) \<in> measure (\<lambda>(ps, s). length s)"
    by (cases p) auto
qed simp

declare strip_pats.simps [simp del]

definition trim_start :: "string \<Rightarrow> string" where
  "trim_start s = strip_pats white_space s"

definition trim_end :: "string \<Rightarrow> string" where
  "trim_end s = rev (strip_pats (map rev white_space) (rev s))"

definition trim :: "string \<Rightarrow> string" where
  "trim s = trim_end (trim_start s)"

text \<open>No pattern at the front.\<close>

definition no_pat :: "string list \<Rightarrow> string \<Rightarrow> bool" where
  "no_pat ps s \<longleftrightarrow> (\<forall>p \<in> set ps. p \<noteq> [] \<longrightarrow> \<not> starts_with p s)"

lemma strip_pats_no_pat: "no_pat ps (strip_pats ps s)"
proof (induction ps s rule: strip_pats.induct)
  case (1 ps s)
  then show ?case
    by (subst strip_pats.simps) (auto simp: no_pat_def find_None_iff split: option.splits)
qed

lemma strip_pats_id: "no_pat ps s \<Longrightarrow> strip_pats ps s = s"
  by (subst strip_pats.simps) (auto simp: no_pat_def find_None_iff find_Some_iff split: option.splits)

lemma strip_pats_suffix: "\<exists>t. s = t @ strip_pats ps s"
proof (induction ps s rule: strip_pats.induct)
  case (1 ps s)
  show ?case
  proof (cases "find (\<lambda>p. p \<noteq> [] \<and> starts_with p s) ps")
    case None
    then show ?thesis by (subst strip_pats.simps) simp
  next
    case (Some p)
    with "1.IH" obtain t where t: "drop (length p) s = t @ strip_pats ps (drop (length p) s)"
      by blast
    from Some have "s = p @ drop (length p) s"
      by (auto simp: find_Some_iff starts_with_iff)
    with t have "s = (p @ t) @ strip_pats ps (drop (length p) s)" by (metis append_assoc)
    with Some show ?thesis by (subst strip_pats.simps) (metis option.simps(5))
  qed
qed

lemma no_pat_prefix: "no_pat ps (s @ t) \<Longrightarrow> no_pat ps s"
  by (auto simp: no_pat_def starts_with_iff)

lemma trim_ends: "no_pat white_space (trim s)" "no_pat (map rev white_space) (rev (trim s))"
proof -
  obtain t where "rev (trim_start s) = t @ rev (trim s)"
    using strip_pats_suffix [of "rev (trim_start s)" "map rev white_space"]
    by (auto simp: trim_def trim_end_def)
  then have "trim_start s = trim s @ rev t" by (metis rev_append rev_rev_ident)
  then show "no_pat white_space (trim s)"
    by (metis no_pat_prefix strip_pats_no_pat trim_start_def)
  show "no_pat (map rev white_space) (rev (trim s))"
    by (simp add: trim_def trim_end_def strip_pats_no_pat)
qed

lemma trim_idI:
  "no_pat white_space s \<Longrightarrow> no_pat (map rev white_space) (rev s) \<Longrightarrow> trim s = s"
  by (simp add: trim_def trim_start_def trim_end_def strip_pats_id)

lemma trim_trim [simp]: "trim (trim s) = trim s"
  by (intro trim_idI trim_ends)

lemma set_trim_subset: "set (trim s) \<subseteq> set s"
proof -
  obtain t where t: "s = t @ trim_start s"
    using strip_pats_suffix [of s white_space] by (auto simp: trim_start_def)
  obtain u where u: "rev (trim_start s) = u @ rev (trim s)"
    using strip_pats_suffix [of "rev (trim_start s)" "map rev white_space"]
    by (auto simp: trim_def trim_end_def)
  have "set (trim s) \<subseteq> set (trim_start s)" using u by (metis Un_upper2 set_append set_rev)
  also have "\<dots> \<subseteq> set s" using t by (metis Un_upper2 set_append)
  finally show ?thesis .
qed

text \<open>
  Trimming literals: a string between two visible ASCII characters is trimmed; a leading space
  goes away.
\<close>

definition visible :: "char \<Rightarrow> bool" where
  "visible c \<longleftrightarrow> 33 \<le> (of_char c :: nat) \<and> (of_char c :: nat) \<le> 126"

lemma white_space_invisible: "w \<in> set white_space \<Longrightarrow> c \<in> set w \<Longrightarrow> \<not> visible c"
  by (auto simp: white_space_def byte_str_def visible_def)

lemma no_pat_visible:
  assumes "\<And>w c. w \<in> set ps \<Longrightarrow> c \<in> set w \<Longrightarrow> \<not> visible c" and "visible c"
  shows "no_pat ps (c # t)"
proof (unfold no_pat_def, intro ballI impI notI)
  fix w assume w: "w \<in> set ps" "w \<noteq> []" and "starts_with w (c # t)"
  have "c \<in> set w"
  proof (cases w)
    case Nil
    with w(2) show ?thesis by simp
  next
    case (Cons u us)
    with \<open>starts_with w (c # t)\<close> show ?thesis by (simp add: starts_with_def)
  qed
  with assms w(1) show False by blast
qed

lemma trim_visible:
  assumes "s \<noteq> []" and "visible (hd s)" and "visible (last s)"
  shows "trim s = s"
proof (rule trim_idI)
  show "no_pat white_space s"
    using no_pat_visible [of white_space "hd s" "tl s"] white_space_invisible assms by auto
  have "rev s = last s # rev (butlast s)"
    using assms(1) by (metis append_butlast_last_id rev.simps(2) rev_rev_ident rev_swap)
  moreover have "no_pat (map rev white_space) (last s # rev (butlast s))"
    using white_space_invisible assms(3) by (intro no_pat_visible) auto
  ultimately show "no_pat (map rev white_space) (rev s)" by (simp only:)
qed

lemma trim_space: "trim (CHR '' '' # s) = trim s"
proof -
  have "find (\<lambda>p. p \<noteq> [] \<and> starts_with p (CHR '' '' # s)) white_space = Some '' ''"
    by (simp add: white_space_def byte_str_def starts_with_def eq_commute [of "CHR '' ''"] char_of_eq_iff)
  then have "strip_pats white_space (CHR '' '' # s) = strip_pats white_space s"
    by (subst strip_pats.simps) simp
  then show ?thesis by (simp add: trim_def trim_start_def)
qed

section \<open>Evaluation on literals\<close>

lemma eq_char_of_iff: "c = char_of (n :: nat) \<longleftrightarrow> of_char c = take_bit 8 n"
  using char_of_eq_iff [of n c] by (metis)

lemma digit_char_literals:
  "digit_char 0 = CHR ''0''" "digit_char 1 = CHR ''1''" "digit_char (Suc 0) = CHR ''1''"
  "digit_char 2 = CHR ''2''" "digit_char 3 = CHR ''3''" "digit_char 4 = CHR ''4''"
  "digit_char 5 = CHR ''5''" "digit_char 6 = CHR ''6''" "digit_char 7 = CHR ''7''"
  "digit_char 8 = CHR ''8''" "digit_char 9 = CHR ''9''"
  by (simp_all add: digit_char_def char_of_eq_iff)

lemmas num_eval =
  parse_u8_def parse_u16_def parse_u32_def parse_uint_def digits_val_def digit_val_def
  is_ascii_digit_def show_u16_def show_nat.simps digit_char_literals

lemmas str_eval =
  starts_with_def strip_prefix_def split_once_def rsplit_once_def trim_start_matches.simps
  to_ascii_lower_def eq_ignore_ascii_case_def char_of_eq_iff eq_char_of_iff

lemmas trim_eval = trim_visible trim_space visible_def

end
