(* ===== verification/Models.thy ===== *)
theory Models
  imports Rust_Str
begin

text \<open>
  The data model of \<open>models.rs\<close>: switch models and their port capabilities, VLANs, ports,
  mirrors, SNMP, the switch configuration, the switch state and the difference between the
  two, with the operations \<open>models.rs\<close> defines on them. Field names carry a prefix for their
  struct (\<open>v_\<close> Vlan, \<open>p_\<close> Port, \<open>m_\<close> PortMirror, \<open>c_\<close> SnmpCommunity, \<open>r_\<close> SnmpTrapReceiver, \<open>s_\<close>
  SwitchConfig, \<open>st_\<close> SwitchState), because the fields of a record are global constants.
\<close>

section \<open>Switch models and port capabilities\<close>

datatype vendor = Aruba | Fortiswitch | Cisco

datatype switch_model =
    Aruba2530_24G_POE
  | Aruba2530_8G_POE
  | Aruba2530_48G_2SFP
  | Aruba2540_24G
  | Aruba2540_48G_4SFP
  | Aruba2930F
  | Fortiswitch124F_FPOE
  | CiscoCatalyst9300_24P_UPOE

datatype speed_duplex =
  Auto | TenHalf | TenFull | HundredHalf | HundredFull | ThousandFull | TenGFull

datatype port_type = Copper | Sfp | SfpPlus | QsfpPlus | Qsfp28

datatype poe_standard = PoE | PoEPlus | PoEPlusPlus | PoEPlusPlusPlus

record port_capabilities =
  cap_port_type :: port_type
  cap_poe_support :: "poe_standard option"
  cap_supported_speeds :: "speed_duplex list"
  cap_max_speed_gbps :: u16
  cap_is_uplink :: bool
  cap_port_number :: u16

fun model_vendor :: "switch_model \<Rightarrow> vendor" where
  "model_vendor Aruba2530_24G_POE = Aruba"
| "model_vendor Aruba2530_8G_POE = Aruba"
| "model_vendor Aruba2530_48G_2SFP = Aruba"
| "model_vendor Aruba2540_24G = Aruba"
| "model_vendor Aruba2540_48G_4SFP = Aruba"
| "model_vendor Aruba2930F = Aruba"
| "model_vendor Fortiswitch124F_FPOE = Fortiswitch"
| "model_vendor CiscoCatalyst9300_24P_UPOE = Cisco"

abbreviation gigabit_speeds :: "speed_duplex list" where
  "gigabit_speeds \<equiv> [Auto, TenHalf, TenFull, HundredHalf, HundredFull, ThousandFull]"

fun supported_speeds :: "switch_model \<Rightarrow> speed_duplex list" where
  "supported_speeds Aruba2530_24G_POE = gigabit_speeds"
| "supported_speeds Aruba2530_8G_POE = gigabit_speeds"
| "supported_speeds Aruba2530_48G_2SFP = gigabit_speeds @ [TenGFull]"
| "supported_speeds Aruba2540_24G = gigabit_speeds"
| "supported_speeds Aruba2540_48G_4SFP = gigabit_speeds @ [TenGFull]"
| "supported_speeds Aruba2930F = gigabit_speeds @ [TenGFull]"
| "supported_speeds Fortiswitch124F_FPOE = gigabit_speeds"
| "supported_speeds CiscoCatalyst9300_24P_UPOE = gigabit_speeds @ [TenGFull]"

definition supports_speed :: "switch_model \<Rightarrow> speed_duplex \<Rightarrow> bool" where
  "supports_speed m speed \<longleftrightarrow> List.member (supported_speeds m) speed"

definition has_10g_uplinks :: "switch_model \<Rightarrow> bool" where
  "has_10g_uplinks m \<longleftrightarrow>
     m = Aruba2530_48G_2SFP \<or> m = Aruba2540_48G_4SFP \<or> m = Aruba2930F \<or>
     m = CiscoCatalyst9300_24P_UPOE"

definition parse_port_number :: "switch_model \<Rightarrow> string \<Rightarrow> u16 option" where
  "parse_port_number m port_id =
     (case model_vendor m of
        Aruba \<Rightarrow> parse_u16 port_id
      | Cisco \<Rightarrow> parse_u16 (last (split_on (CHR ''/'') port_id))
      | Fortiswitch \<Rightarrow> parse_u16 (trim_start_matches ''port'' port_id))"

fun total_ports :: "switch_model \<Rightarrow> u16" where
  "total_ports Aruba2530_8G_POE = 8"
| "total_ports Aruba2530_24G_POE = 26"
| "total_ports Aruba2530_48G_2SFP = 50"
| "total_ports Aruba2540_24G = 28"
| "total_ports Aruba2540_48G_4SFP = 52"
| "total_ports Aruba2930F = 52"
| "total_ports Fortiswitch124F_FPOE = 28"
| "total_ports CiscoCatalyst9300_24P_UPOE = 24"

definition standard_1g_copper :: "u16 \<Rightarrow> port_capabilities" where
  "standard_1g_copper n =
     \<lparr> cap_port_type = Copper, cap_poe_support = None, cap_supported_speeds = gigabit_speeds,
       cap_max_speed_gbps = 1, cap_is_uplink = False, cap_port_number = n \<rparr>"

definition poe_plus_1g_copper :: "u16 \<Rightarrow> port_capabilities" where
  "poe_plus_1g_copper n = (standard_1g_copper n)\<lparr> cap_poe_support := Some PoEPlus \<rparr>"

definition sfp_plus_10g_uplink :: "u16 \<Rightarrow> port_capabilities" where
  "sfp_plus_10g_uplink n =
     \<lparr> cap_port_type = SfpPlus, cap_poe_support = None,
       cap_supported_speeds = [ThousandFull, TenGFull],
       cap_max_speed_gbps = 10, cap_is_uplink = True, cap_port_number = n \<rparr>"

text \<open>The capabilities of port number \<open>n\<close>: the match of \<open>port_capabilities\<close> after the number is parsed.\<close>

fun capabilities_of :: "switch_model \<Rightarrow> u16 \<Rightarrow> port_capabilities option" where
  "capabilities_of Aruba2530_24G_POE n =
     (if n \<ge> 1 \<and> n \<le> 24 then Some (poe_plus_1g_copper n)
      else if n \<ge> 25 \<and> n \<le> 26 then
        Some \<lparr> cap_port_type = Sfp, cap_poe_support = None, cap_supported_speeds = [ThousandFull],
               cap_max_speed_gbps = 1, cap_is_uplink = True, cap_port_number = n \<rparr>
      else None)"
| "capabilities_of Aruba2530_8G_POE n =
     (if n \<ge> 1 \<and> n \<le> 8 then
        (let has_poe = (n = 1 \<or> n = 3 \<or> n = 5 \<or> n = 7)
         in Some (if has_poe then poe_plus_1g_copper n else standard_1g_copper n))
      else None)"
| "capabilities_of Aruba2530_48G_2SFP n =
     (if n \<ge> 1 \<and> n \<le> 48 then Some (standard_1g_copper n)
      else if n \<ge> 49 \<and> n \<le> 50 then Some (sfp_plus_10g_uplink n) else None)"
| "capabilities_of Aruba2540_24G n =
     (if n \<ge> 1 \<and> n \<le> 24 then Some (standard_1g_copper n)
      else if n \<ge> 25 \<and> n \<le> 28 then Some (sfp_plus_10g_uplink n) else None)"
| "capabilities_of Aruba2540_48G_4SFP n =
     (if n \<ge> 1 \<and> n \<le> 48 then Some (standard_1g_copper n)
      else if n \<ge> 49 \<and> n \<le> 52 then Some (sfp_plus_10g_uplink n) else None)"
| "capabilities_of Aruba2930F n =
     (if n \<ge> 1 \<and> n \<le> 48 then Some (poe_plus_1g_copper n)
      else if n \<ge> 49 \<and> n \<le> 52 then Some (sfp_plus_10g_uplink n) else None)"
| "capabilities_of Fortiswitch124F_FPOE n =
     (if n \<ge> 1 \<and> n \<le> 24 then Some (poe_plus_1g_copper n)
      else if n \<ge> 25 \<and> n \<le> 28 then Some (sfp_plus_10g_uplink n) else None)"
| "capabilities_of CiscoCatalyst9300_24P_UPOE n =
     (if n \<ge> 1 \<and> n \<le> 24 then
        Some \<lparr> cap_port_type = Copper, cap_poe_support = Some PoEPlusPlus,
               cap_supported_speeds = gigabit_speeds, cap_max_speed_gbps = 1,
               cap_is_uplink = False, cap_port_number = n \<rparr>
      else None)"

definition port_capabilities_for :: "switch_model \<Rightarrow> string \<Rightarrow> port_capabilities option" where
  "port_capabilities_for m port_id =
     (case parse_port_number m port_id of None \<Rightarrow> None | Some n \<Rightarrow> capabilities_of m n)"

definition supports_poe_cap :: "port_capabilities \<Rightarrow> bool" where
  "supports_poe_cap c \<longleftrightarrow> cap_poe_support c \<noteq> None"

fun max_watts :: "poe_standard \<Rightarrow> u16" where
  "max_watts PoE = 15"
| "max_watts PoEPlus = 30"
| "max_watts PoEPlusPlus = 60"
| "max_watts PoEPlusPlusPlus = 90"

definition max_poe_watts :: "port_capabilities \<Rightarrow> u16" where
  "max_poe_watts c = (case cap_poe_support c of None \<Rightarrow> 0 | Some std \<Rightarrow> max_watts std)"

definition cap_supports_speed :: "port_capabilities \<Rightarrow> speed_duplex \<Rightarrow> bool" where
  "cap_supports_speed c speed \<longleftrightarrow> List.member (cap_supported_speeds c) speed"

definition all_port_capabilities :: "switch_model \<Rightarrow> port_capabilities list" where
  "all_port_capabilities m =
     List.map_filter (\<lambda>n. port_capabilities_for m (show_nat n)) [1 ..< Suc (unat (total_ports m))]"

definition port_supports_poe :: "switch_model \<Rightarrow> string \<Rightarrow> bool" where
  "port_supports_poe m port_id =
     (case port_capabilities_for m port_id of None \<Rightarrow> False | Some c \<Rightarrow> supports_poe_cap c)"

definition supports_poe :: "switch_model \<Rightarrow> bool" where
  "supports_poe m \<longleftrightarrow>
     m = Aruba2530_24G_POE \<or> m = Aruba2530_8G_POE \<or> m = Aruba2930F \<or>
     m = Fortiswitch124F_FPOE \<or> m = CiscoCatalyst9300_24P_UPOE"

definition implicit_vlans :: "switch_model \<Rightarrow> u16 list" where
  "implicit_vlans m = [1]"

definition supports_vlan_description :: "switch_model \<Rightarrow> bool" where
  "supports_vlan_description m \<longleftrightarrow> m = Fortiswitch124F_FPOE \<or> m = CiscoCatalyst9300_24P_UPOE"

definition max_vlan_name_length :: "switch_model \<Rightarrow> nat" where
  "max_vlan_name_length m = (case model_vendor m of Aruba \<Rightarrow> 32 | Cisco \<Rightarrow> 32 | Fortiswitch \<Rightarrow> 63)"

fun product_numbers :: "switch_model \<Rightarrow> string list" where
  "product_numbers Aruba2530_24G_POE = [''J9773A'', ''J9779A'', ''J9854A'']"
| "product_numbers Aruba2530_8G_POE = [''J9774A'', ''J9780A'']"
| "product_numbers Aruba2530_48G_2SFP = [''J9855A'']"
| "product_numbers Aruba2540_24G = [''JL354A'']"
| "product_numbers Aruba2540_48G_4SFP = [''JL355A'']"
| "product_numbers Aruba2930F =
     [''JL253A'', ''JL254A'', ''JL255A'', ''JL256A'', ''JL258A'', ''JL261A'', ''JL262A'',
      ''JL263A'', ''JL264A'']"
| "product_numbers Fortiswitch124F_FPOE = [''FortiSwitch-124F-FPOE'', ''S124F'']"
| "product_numbers CiscoCatalyst9300_24P_UPOE = [''c9300-24u'', ''C9300-24U'', ''C9300-24P'']"

definition uses_legacy_mirror_syntax :: "switch_model \<Rightarrow> bool" where
  "uses_legacy_mirror_syntax m \<longleftrightarrow>
     m = Aruba2530_24G_POE \<or> m = Aruba2530_8G_POE \<or> m = Aruba2530_48G_2SFP \<or>
     m = Aruba2540_24G \<or> m = Aruba2540_48G_4SFP"

definition poe_capable_ports :: "switch_model \<Rightarrow> u16 list" where
  "poe_capable_ports m = map cap_port_number (filter supports_poe_cap (all_port_capabilities m))"

datatype port_speed_error = InvalidPort string | SpeedNotSupported string speed_duplex "speed_duplex list"

definition validate_port_speed :: "switch_model \<Rightarrow> string \<Rightarrow> speed_duplex \<Rightarrow> port_speed_error + unit" where
  "validate_port_speed m port_id speed =
     (case port_capabilities_for m port_id of
        None \<Rightarrow> Inl (InvalidPort port_id)
      | Some c \<Rightarrow> if cap_supports_speed c speed then Inr ()
                  else Inl (SpeedNotSupported port_id speed (cap_supported_speeds c)))"

section \<open>Speed and duplex\<close>

fun to_aruba_syntax :: "speed_duplex \<Rightarrow> string" where
  "to_aruba_syntax Auto = ''auto''"
| "to_aruba_syntax TenHalf = ''10-half''"
| "to_aruba_syntax TenFull = ''10-full''"
| "to_aruba_syntax HundredHalf = ''100-half''"
| "to_aruba_syntax HundredFull = ''100-full''"
| "to_aruba_syntax ThousandFull = ''1000-full''"
| "to_aruba_syntax TenGFull = ''10g-full''"

fun to_cisco_speed :: "speed_duplex \<Rightarrow> string" where
  "to_cisco_speed Auto = ''auto''"
| "to_cisco_speed TenHalf = ''10''"
| "to_cisco_speed TenFull = ''10''"
| "to_cisco_speed HundredHalf = ''100''"
| "to_cisco_speed HundredFull = ''100''"
| "to_cisco_speed ThousandFull = ''1000''"
| "to_cisco_speed TenGFull = ''10000''"

fun to_cisco_duplex :: "speed_duplex \<Rightarrow> string" where
  "to_cisco_duplex Auto = ''auto''"
| "to_cisco_duplex TenHalf = ''half''"
| "to_cisco_duplex HundredHalf = ''half''"
| "to_cisco_duplex TenFull = ''full''"
| "to_cisco_duplex HundredFull = ''full''"
| "to_cisco_duplex ThousandFull = ''full''"
| "to_cisco_duplex TenGFull = ''full''"

text \<open>
  \<open>to_lowercase\<close> is Unicode-aware; on the strings it is compared with (no letter \<open>k\<close> or \<open>s\<close> of
  which a non-ASCII character is the upper case) the ASCII mapping decides the same matches.
\<close>

definition from_aruba_output :: "string \<Rightarrow> speed_duplex option" where
  "from_aruba_output s =
     (let l = to_ascii_lower s in
      if l = ''auto'' then Some Auto
      else if l \<in> {''10-half'', ''10half'', ''10hdx''} then Some TenHalf
      else if l \<in> {''10-full'', ''10full'', ''10fdx''} then Some TenFull
      else if l \<in> {''100-half'', ''100half'', ''100hdx''} then Some HundredHalf
      else if l \<in> {''100-full'', ''100full'', ''100fdx''} then Some HundredFull
      else if l \<in> {''1000-full'', ''1000full'', ''1000fdx''} then Some ThousandFull
      else if l \<in> {''10g-full'', ''10gfull'', ''10gfdx''} then Some TenGFull
      else None)"

section \<open>Properties\<close>

lemmas capability_defs =
  standard_1g_copper_def poe_plus_1g_copper_def sfp_plus_10g_uplink_def

text \<open>Word bounds in the form the range checks of \<open>capabilities_of\<close> use them.\<close>

lemma u16_between: "(a :: u16) \<le> n \<and> n \<le> b \<longleftrightarrow> unat a \<le> unat n \<and> unat n \<le> unat b"
  by (simp add: word_le_nat_alt)

lemma capabilities_of_number: "capabilities_of m n = Some c \<Longrightarrow> cap_port_number c = n"
  by (cases m) (auto simp: capability_defs Let_def split: if_splits)

lemma capabilities_of_range: "capabilities_of m n = Some c \<Longrightarrow> 1 \<le> n \<and> n \<le> total_ports m"
  by (cases m) (auto simp: word_le_nat_alt split: if_splits)

lemma capabilities_of_total:
  assumes "1 \<le> n" and "n \<le> total_ports m"
  shows "\<exists>c. capabilities_of m n = Some c"
  using assms by (cases m) (auto simp: word_le_nat_alt Let_def)

lemma split_on_slash_show: "split_on (CHR ''/'') (show_nat n) = [show_nat n]"
  by (rule split_on_no_sep) (auto dest: show_nat_is_digit is_ascii_digit_neq)

lemma no_port_prefix_show: "\<not> starts_with ''port'' (show_nat n)"
proof
  assume "starts_with ''port'' (show_nat n)"
  then have "CHR ''p'' \<in> set (show_nat n)" by (auto simp: starts_with_iff)
  then have "is_ascii_digit (CHR ''p'')" by (rule show_nat_is_digit)
  then show False by (simp add: is_ascii_digit_def)
qed

lemma parse_port_number_show:
  "n \<le> 65535 \<Longrightarrow> parse_port_number m (show_nat n) = Some (of_nat n)"
  by (cases "model_vendor m")
    (simp_all add: parse_port_number_def parse_u16_def split_on_slash_show
      trim_start_matches.simps no_port_prefix_show)

text \<open>Whatever port identifier is asked for, a port with capabilities is one whose number the
  model's own parser reads from the identifier, that lies between 1 and \<open>total_ports\<close>, and the
  capabilities returned are labelled with exactly that number.\<close>

theorem port_capabilities_sound:
  assumes "port_capabilities_for m port_id = Some c"
  shows "parse_port_number m port_id = Some (cap_port_number c) \<and>
         1 \<le> cap_port_number c \<and> cap_port_number c \<le> total_ports m"
  using assms capabilities_of_number capabilities_of_range
  by (fastforce simp: port_capabilities_for_def split: option.splits)

theorem port_capabilities_sound_witness:
  "\<exists>c. port_capabilities_for Fortiswitch124F_FPOE ''port24'' = Some c \<and>
       parse_port_number Fortiswitch124F_FPOE ''port24'' = Some (cap_port_number c) \<and>
       1 \<le> cap_port_number c \<and> cap_port_number c \<le> total_ports Fortiswitch124F_FPOE"
proof -
  have h: "port_capabilities_for Fortiswitch124F_FPOE ''port24'' = Some (poe_plus_1g_copper 24)"
    by (simp add: port_capabilities_for_def parse_port_number_def num_eval str_eval)
  from port_capabilities_sound [OF h] h show ?thesis by blast
qed

lemma map_filter_total:
  "(\<And>x. x \<in> set xs \<Longrightarrow> \<exists>y. f x = Some y \<and> g y = h x) \<Longrightarrow> map g (List.map_filter f xs) = map h xs"
  by (induction xs) (force simp: List.map_filter_simps split: option.splits)+

lemma port_listed:
  assumes "n \<in> set [1 ..< Suc (unat (total_ports m))]"
  shows "\<exists>c. port_capabilities_for m (show_nat n) = Some c \<and> capabilities_of m (of_nat n) = Some c"
proof -
  from assms have n: "1 \<le> n" "n \<le> unat (total_ports m)" by auto
  then have small: "n \<le> 65535" using unat_u16_le [of "total_ports m"] by simp
  then have "unat (of_nat n :: u16) = n" by (simp add: unat_of_nat)
  with n obtain c where c: "capabilities_of m (of_nat n) = Some c"
    using capabilities_of_total [of "of_nat n" m] by (auto simp: word_le_nat_alt)
  with small show ?thesis by (auto simp: port_capabilities_for_def parse_port_number_show)
qed

text \<open>\<open>all_port_capabilities\<close>, which addresses every port by its plain decimal number whatever
  the vendor's own notation, misses no port of the model: it lists ports 1 to \<open>total_ports\<close>,
  each once and in order.\<close>

theorem all_port_capabilities_complete:
  "map cap_port_number (all_port_capabilities m) = map of_nat [1 ..< Suc (unat (total_ports m))]"
  unfolding all_port_capabilities_def
proof (rule map_filter_total)
  fix n assume "n \<in> set [1 ..< Suc (unat (total_ports m))]"
  from port_listed [OF this]
  show "\<exists>y. port_capabilities_for m (show_nat n) = Some y \<and> cap_port_number y = of_nat n"
    by (blast dest: capabilities_of_number)
qed

lemma set_all_port_capabilities:
  "c \<in> set (all_port_capabilities m) \<longleftrightarrow> (\<exists>n. capabilities_of m n = Some c)"
proof
  assume "c \<in> set (all_port_capabilities m)"
  then show "\<exists>n. capabilities_of m n = Some c"
    by (auto simp: all_port_capabilities_def port_capabilities_for_def split: option.splits)
next
  assume "\<exists>n. capabilities_of m n = Some c"
  then obtain n where c: "capabilities_of m n = Some c" ..
  then have n: "unat n \<in> set [1 ..< Suc (unat (total_ports m))]"
    using capabilities_of_range [OF c] by (simp add: word_le_nat_alt) linarith
  with port_listed [OF this] c have "port_capabilities_for m (show_nat (unat n)) = Some c"
    by auto
  with n show "c \<in> set (all_port_capabilities m)"
    unfolding all_port_capabilities_def in_set_map_filter by blast
qed

text \<open>The hand-written list of models with PoE agrees with the per-port data: a model
  \<open>supports_poe\<close> exactly when some port of it has a PoE standard.\<close>

theorem supports_poe_iff_capable_port:
  "supports_poe m \<longleftrightarrow> poe_capable_ports m \<noteq> []"
proof -
  have "poe_capable_ports m \<noteq> [] \<longleftrightarrow> (\<exists>n c. capabilities_of m n = Some c \<and> supports_poe_cap c)"
    by (simp add: poe_capable_ports_def filter_empty_conv Bex_def set_all_port_capabilities) blast
  also have "\<dots> \<longleftrightarrow> supports_poe m"
  proof (cases "supports_poe m")
    case True
    then have "\<exists>c. capabilities_of m 1 = Some c \<and> supports_poe_cap c"
      by (auto simp: supports_poe_def supports_poe_cap_def capability_defs Let_def)
    with True show ?thesis by blast
  next
    case False
    then show ?thesis
      by (cases m) (auto simp: supports_poe_def supports_poe_cap_def capability_defs split: if_splits)
  qed
  finally show ?thesis ..
qed

text \<open>The two sources of speed data agree, in that every speed a port supports is one the
  model supports, for exactly the models other than the Aruba 2540-24G and the FortiSwitch
  124F: these have 10G uplink ports but no 10G speed in \<open>supported_speeds\<close>, the list the
  configuration is validated against.\<close>

theorem port_speeds_within_model_speeds:
  "(\<Union>c \<in> set (all_port_capabilities m). set (cap_supported_speeds c)) \<subseteq> set (supported_speeds m)
     \<longleftrightarrow> m \<noteq> Aruba2540_24G \<and> m \<noteq> Fortiswitch124F_FPOE" (is "?agree m \<longleftrightarrow> _")
proof (cases "m = Aruba2540_24G \<or> m = Fortiswitch124F_FPOE")
  case True
  then have "capabilities_of m 25 = Some (sfp_plus_10g_uplink 25)"
    and "TenGFull \<notin> set (supported_speeds m)" by auto
  then have "\<not> ?agree m"
    unfolding UN_subset_iff Ball_def set_all_port_capabilities
    by (force simp: sfp_plus_10g_uplink_def)
  with True show ?thesis by blast
next
  case False
  then have "?agree m"
    by (cases m) (auto simp: set_all_port_capabilities capability_defs Let_def split: if_splits)
  with False show ?thesis by blast
qed

text \<open>What the command generator writes as a port's speed, the parser of the switch's
  configuration reads back as the same setting, also when the switch changes the case.\<close>

theorem aruba_speed_roundtrip:
  assumes "eq_ignore_ascii_case s (to_aruba_syntax speed)"
  shows "from_aruba_output s = Some speed"
proof -
  have "from_aruba_output s = from_aruba_output (to_aruba_syntax speed)"
    using assms by (simp add: from_aruba_output_def eq_ignore_ascii_case_def)
  also have "\<dots> = Some speed"
    by (cases speed) (simp_all add: from_aruba_output_def to_ascii_lower_def)
  finally show ?thesis .
qed

theorem aruba_speed_roundtrip_witness:
  "eq_ignore_ascii_case ''1000-FULL'' (to_aruba_syntax ThousandFull) \<and>
   from_aruba_output ''1000-FULL'' = Some ThousandFull"
proof -
  have h: "eq_ignore_ascii_case ''1000-FULL'' (to_aruba_syntax ThousandFull)"
    by (simp add: str_eval)
  from h aruba_speed_roundtrip [OF h] show ?thesis ..
qed

end
