(* ===== verification/Switch_Types.thy ===== *)
theory Switch_Types
  imports Models
begin

text \<open>
  The structs of \<open>models.rs\<close> (VLANs, ports, mirrors, SNMP, \<open>SwitchConfig\<close>, \<open>SwitchState\<close>,
  \<open>StateDiff\<close>), of \<open>validation/mod.rs\<close> and \<open>config.rs\<close> (\<open>Settings\<close>), with the conversions
  written by hand in \<open>models.rs\<close>: (de)serialisation of \<open>VlanRef\<close>, \<open>VlanIpConfig\<close>, \<open>Port\<close> and
  \<open>SnmpCommunity\<close>. What the serialisation framework itself does is only visible as the
  value handed to those conversions (\<open>yaml\<close>).
\<close>

section \<open>Values exchanged with the serialisation framework\<close>

datatype yaml =
    YNull
  | YBool bool
  | YU64 u64
  | YI64 u64 \<comment> \<open>a negative integer, in two's complement\<close>
  | YStr string
  | YSeq "yaml list"
  | YMap "(yaml \<times> yaml) list"

datatype json =
    JNull
  | JBool bool
  | JNumber string
  | JString string
  | JArray "json list"
  | JObject "(string \<times> json) list"

datatype de_error =
    InvalidType
  | OutOfRange
  | UnknownVariant string
  | MissingField string

section \<open>VLANs\<close>

datatype vlan_ip_config = IpNone | Dhcp | Static string string

fun vlan_ip_config_ser :: "vlan_ip_config \<Rightarrow> yaml" where
  "vlan_ip_config_ser IpNone = YStr ''none''"
| "vlan_ip_config_ser Dhcp = YStr ''dhcp''"
| "vlan_ip_config_ser (Static address netmask) =
     YMap [(YStr ''address'', YStr address), (YStr ''netmask'', YStr netmask)]"

text \<open>\<open>next_value::<String>()\<close>.\<close>

fun string_de :: "yaml \<Rightarrow> de_error + string" where
  "string_de (YStr s) = Inr s"
| "string_de _ = Inl InvalidType"

text \<open>The loop of \<open>visit_map\<close> over the entries, then its match on what was found.\<close>

fun visit_ip_map :: "(yaml \<times> yaml) list \<Rightarrow> string option \<Rightarrow> string option \<Rightarrow> de_error + vlan_ip_config" where
  "visit_ip_map [] address netmask =
     (case (address, netmask) of
        (Some addr, Some nm) \<Rightarrow> Inr (Static addr nm)
      | _ \<Rightarrow> Inl (MissingField ''address or netmask''))"
| "visit_ip_map ((k, v) # es) address netmask =
     and_then (string_de k) (\<lambda>key.
       if key = ''address'' then and_then (string_de v) (\<lambda>a. visit_ip_map es (Some a) netmask)
       else if key = ''netmask'' then and_then (string_de v) (\<lambda>n. visit_ip_map es address (Some n))
       else visit_ip_map es address netmask)"

fun vlan_ip_config_de :: "yaml \<Rightarrow> de_error + vlan_ip_config" where
  "vlan_ip_config_de (YStr s) =
     (if s = ''none'' then Inr IpNone
      else if s = ''dhcp'' then Inr Dhcp
      else Inl (UnknownVariant s))"
| "vlan_ip_config_de (YMap es) = visit_ip_map es None None"
| "vlan_ip_config_de _ = Inl InvalidType"

record vlan =
  v_id :: u16
  v_name :: string
  v_description :: "string option"
  v_ip_config :: vlan_ip_config

datatype vlan_ref = VlanId u16 | VlanName string

fun vlan_ref_ser :: "vlan_ref \<Rightarrow> yaml" where
  "vlan_ref_ser (VlanId i) = YU64 (ucast i)"
| "vlan_ref_ser (VlanName n) = YStr n"

fun vlan_ref_de :: "yaml \<Rightarrow> de_error + vlan_ref" where
  "vlan_ref_de (YU64 value) =
     (if value = 0 \<or> value > 65535 then Inl OutOfRange else Inr (VlanId (ucast value)))"
| "vlan_ref_de (YI64 value) =
     (if sint value < 1 \<or> sint value > 65535 then Inl OutOfRange else Inr (VlanId (ucast value)))"
| "vlan_ref_de (YStr value) = Inr (VlanName value)"
| "vlan_ref_de _ = Inl InvalidType"

section \<open>Ports\<close>

datatype port_mode = Access | Trunk

record port =
  p_port_id :: string
  p_mode :: port_mode
  p_vlan :: u16
  p_tagged_vlans :: "u16 list"
  p_description :: "string option"
  p_enabled :: bool
  p_poe_enabled :: bool
  p_mac_notify :: bool
  p_speed_duplex :: speed_duplex
  p_vlan_name :: "string option"
  p_tagged_vlan_refs :: "vlan_ref list"

text \<open>\<open>PortDe\<close>, the wire representation.\<close>

record port_de =
  pd_port_id :: string
  pd_mode :: port_mode
  pd_vlan :: vlan_ref
  pd_tagged_vlans :: "vlan_ref list"
  pd_description :: "string option"
  pd_enabled :: bool
  pd_poe_enabled :: bool
  pd_mac_notify :: bool
  pd_speed_duplex :: speed_duplex

fun is_vlan_name :: "vlan_ref \<Rightarrow> bool" where
  "is_vlan_name (VlanName n) \<longleftrightarrow> True"
| "is_vlan_name (VlanId i) \<longleftrightarrow> False"

fun ref_ids :: "vlan_ref list \<Rightarrow> u16 list" where
  "ref_ids [] = []"
| "ref_ids (VlanId i # rs) = i # ref_ids rs"
| "ref_ids (VlanName n # rs) = ref_ids rs"

definition port_from_de :: "port_de \<Rightarrow> port" where
  "port_from_de de =
     (let (vl, name) = (case pd_vlan de of VlanId i \<Rightarrow> (i, None) | VlanName n \<Rightarrow> (1, Some n));
          (tagged, refs) =
            (if list_ex is_vlan_name (pd_tagged_vlans de) then ([], pd_tagged_vlans de)
             else (ref_ids (pd_tagged_vlans de), []))
      in \<lparr> p_port_id = pd_port_id de, p_mode = pd_mode de, p_vlan = vl, p_tagged_vlans = tagged,
           p_description = pd_description de, p_enabled = pd_enabled de,
           p_poe_enabled = pd_poe_enabled de, p_mac_notify = pd_mac_notify de,
           p_speed_duplex = pd_speed_duplex de, p_vlan_name = name, p_tagged_vlan_refs = refs \<rparr>)"

definition inferred_mode :: "port \<Rightarrow> port_mode" where
  "inferred_mode p = (if p_tagged_vlans p = [] then Access else Trunk)"

section \<open>Mirrors\<close>

datatype mirror_direction = Rx | Tx | Both

record port_mirror =
  m_session_id :: string
  m_source_ports :: "string list"
  m_destination_port :: string
  m_direction :: mirror_direction

section \<open>SNMP\<close>

datatype allowed_host = HostAuto | Network string

datatype snmp_access = Unrestricted | Manager | Operator

record snmp_community =
  c_name :: string
  c_access :: snmp_access
  c_name_file :: "string option"
  c_name_credential :: "string option"
  c_allowed_hosts :: "allowed_host list"

definition snmp_community_new :: "string \<Rightarrow> snmp_access \<Rightarrow> snmp_community" where
  "snmp_community_new name access =
     \<lparr> c_name = name, c_access = access, c_name_file = None, c_name_credential = None,
       c_allowed_hosts = [] \<rparr>"

definition has_reference :: "snmp_community \<Rightarrow> bool" where
  "has_reference c \<longleftrightarrow> c_name_file c \<noteq> None \<or> c_name_credential c \<noteq> None"

fun host_to_string :: "allowed_host \<Rightarrow> string" where
  "host_to_string HostAuto = ''auto''"
| "host_to_string (Network n) = n"

fun snmp_access_ser :: "snmp_access \<Rightarrow> json" where
  "snmp_access_ser Unrestricted = JString ''unrestricted''"
| "snmp_access_ser Manager = JString ''manager''"
| "snmp_access_ser Operator = JString ''operator''"

text \<open>The entries \<open>SnmpCommunity::serialize\<close> writes, in its order.\<close>

definition snmp_community_ser :: "snmp_community \<Rightarrow> (string \<times> json) list" where
  "snmp_community_ser c =
     (if \<not> has_reference c then [(''name'', JString (c_name c))] else [])
     @ (case c_name_file c of Some file \<Rightarrow> [(''name_file'', JString file)] | None \<Rightarrow> [])
     @ (case c_name_credential c of
          Some credential \<Rightarrow> [(''name_credential'', JString credential)] | None \<Rightarrow> [])
     @ [(''access'', snmp_access_ser (c_access c))]
     @ (if c_allowed_hosts c \<noteq> []
        then [(''allowed_hosts'', JArray (map (JString \<circ> host_to_string) (c_allowed_hosts c)))]
        else [])"

record snmp_trap_receiver =
  r_host :: string
  r_community :: string
  r_version :: "string option"

datatype trap_type = MacNotify | LinkChange | AllTraps

datatype snmp_reads_mode = ReadsAuto | ReadsOff

record snmp_reads =
  rd_mode :: snmp_reads_mode
  rd_community :: "snmp_community option"

record snmp_config =
  sn_communities :: "snmp_community list"
  sn_trap_receivers :: "snmp_trap_receiver list"
  sn_enabled_traps :: "trap_type list"
  sn_reads :: "snmp_reads option"

section \<open>Validation tests, settings, credentials\<close>

datatype failure_action = Rollback | SaveAnyway | ManualAction

datatype rollback_method = Reload | RevertCommands | RestoreBackup

datatype test_type =
    CommandExecution string
  | PingManagementIp u32
  | TcpPortCheck "u16 list"
  | GatewayReachable string "u16 option"
  | DeviceReachable string string u32
  | PortStatusTest "string list"
  | VlanMembership

text \<open>A \<open>Duration\<close> is a number of nanoseconds.\<close>

type_synonym duration = nat

record validation_test =
  t_test_type :: test_type
  t_timeout :: duration
  t_required :: bool

record validation_config =
  vc_enabled :: bool
  vc_timeout :: duration
  vc_on_failure :: failure_action
  vc_rollback_method :: rollback_method
  vc_tests :: "validation_test list"

record settings =
  ssh_timeout_secs :: u64
  max_retries :: u32
  enforce_port_config :: bool
  snmp_port :: u16

definition default_settings :: settings where
  "default_settings =
     \<lparr> ssh_timeout_secs = 30, max_retries = 3, enforce_port_config = False, snmp_port = 161 \<rparr>"

datatype connection_type = Ssh | Serial

record jump_host =
  j_host :: string
  j_username :: "string option"
  j_port :: "u16 option"
  j_ssh_key_path :: "string option"
  j_password :: "string option"

record credentials =
  cr_username :: string
  cr_password :: "string option"
  cr_ssh_key_path :: "string option"
  cr_port :: u16
  cr_connection_type :: connection_type
  cr_serial_device :: "string option"
  cr_baud_rate :: u32
  cr_enable_secret :: "string option"
  cr_jump_hosts :: "jump_host list option"

section \<open>The switch configuration and the switch state\<close>

record switch_config =
  s_id :: string
  s_hostname :: "string option"
  s_model :: "switch_model option"
  s_management_ip :: "string option"
  s_credentials :: "credentials option"
  s_vlans :: "vlan list"
  s_ports :: "port list"
  s_port_mirrors :: "port_mirror list"
  s_snmp :: "snmp_config option"
  s_management_vlan :: "u16 option"
  s_validation :: "validation_config option"
  s_vendor_specific :: "string \<rightharpoonup> json"
  s_settings :: settings

record switch_state =
  st_vlans :: "vlan list"
  st_ports :: "port list"
  st_port_mirrors :: "port_mirror list"
  st_snmp :: "snmp_config option"
  st_management_vlan :: "u16 option"
  st_warnings :: "string list"

text \<open>
  \<open>hostname()\<close>, \<open>model()\<close>, \<open>management_ip()\<close> and \<open>credentials()\<close> panic on a missing field: the
  panic is \<open>None\<close> here.
\<close>

definition hostname_of :: "switch_config \<Rightarrow> string option" where
  "hostname_of s = s_hostname s"

definition model_of :: "switch_config \<Rightarrow> switch_model option" where
  "model_of s = s_model s"

section \<open>Differences\<close>

record snmp_state_diff =
  communities_to_add :: "snmp_community list"
  communities_to_remove :: "string list"
  communities_to_update :: "snmp_community list"
  trap_receivers_to_add :: "snmp_trap_receiver list"
  trap_receivers_to_remove :: "string list"
  traps_to_enable :: "trap_type list"
  traps_to_disable :: "trap_type list"

definition snmp_has_changes :: "snmp_state_diff \<Rightarrow> bool" where
  "snmp_has_changes d \<longleftrightarrow>
     communities_to_add d \<noteq> [] \<or> communities_to_remove d \<noteq> [] \<or> communities_to_update d \<noteq> [] \<or>
     trap_receivers_to_add d \<noteq> [] \<or> trap_receivers_to_remove d \<noteq> [] \<or>
     traps_to_enable d \<noteq> [] \<or> traps_to_disable d \<noteq> []"

record state_diff =
  vlans_to_add :: "vlan list"
  vlans_to_remove :: "u16 list"
  vlans_to_update :: "vlan list"
  ports_to_configure :: "port list"
  ports_to_reset :: "string list"
  mirrors_to_add :: "port_mirror list"
  mirrors_to_remove :: "string list"
  mirrors_to_update :: "port_mirror list"
  mirror_dest_ports_to_configure :: "string list"
  snmp_config_changed :: bool
  snmp_config_new :: "snmp_config option"
  snmp_diff :: "snmp_state_diff option"
  management_vlan_changed :: bool
  management_vlan_new :: "u16 option"

definition default_diff :: state_diff where
  "default_diff =
     \<lparr> vlans_to_add = [], vlans_to_remove = [], vlans_to_update = [], ports_to_configure = [],
       ports_to_reset = [], mirrors_to_add = [], mirrors_to_remove = [], mirrors_to_update = [],
       mirror_dest_ports_to_configure = [], snmp_config_changed = False, snmp_config_new = None,
       snmp_diff = None, management_vlan_changed = False, management_vlan_new = None \<rparr>"

definition snmp_diff_changes :: "state_diff \<Rightarrow> bool" where
  "snmp_diff_changes d \<longleftrightarrow> (case snmp_diff d of None \<Rightarrow> False | Some s \<Rightarrow> snmp_has_changes s)"

definition has_changes :: "state_diff \<Rightarrow> bool" where
  "has_changes d \<longleftrightarrow>
     vlans_to_add d \<noteq> [] \<or> vlans_to_remove d \<noteq> [] \<or> vlans_to_update d \<noteq> [] \<or>
     ports_to_configure d \<noteq> [] \<or> ports_to_reset d \<noteq> [] \<or>
     mirrors_to_add d \<noteq> [] \<or> mirrors_to_remove d \<noteq> [] \<or> mirrors_to_update d \<noteq> [] \<or>
     mirror_dest_ports_to_configure d \<noteq> [] \<or> snmp_config_changed d \<or> snmp_diff_changes d \<or>
     management_vlan_changed d"

text \<open>The parts \<open>remaining_changes_summary\<close> pushes, in order, and the summary itself.\<close>

definition summary_parts :: "state_diff \<Rightarrow> string list" where
  "summary_parts d =
     (if vlans_to_add d \<noteq> [] then [show_nat (length (vlans_to_add d)) @ '' VLANs to add''] else [])
     @ (if vlans_to_remove d \<noteq> [] then [show_nat (length (vlans_to_remove d)) @ '' VLANs to remove''] else [])
     @ (if vlans_to_update d \<noteq> [] then [show_nat (length (vlans_to_update d)) @ '' VLANs to update''] else [])
     @ (if ports_to_configure d \<noteq> []
        then [''ports to configure: ['' @ join '', '' (map p_port_id (ports_to_configure d)) @ '']''] else [])
     @ (if ports_to_reset d \<noteq> []
        then [''ports to reset: ['' @ join '', '' (ports_to_reset d) @ '']''] else [])
     @ (if mirrors_to_add d \<noteq> [] then [show_nat (length (mirrors_to_add d)) @ '' mirrors to add''] else [])
     @ (if mirrors_to_remove d \<noteq> [] then [show_nat (length (mirrors_to_remove d)) @ '' mirrors to remove''] else [])
     @ (if mirrors_to_update d \<noteq> [] then [show_nat (length (mirrors_to_update d)) @ '' mirrors to update''] else [])
     @ (if mirror_dest_ports_to_configure d \<noteq> []
        then [''mirror dest ports: ['' @ join '', '' (mirror_dest_ports_to_configure d) @ '']''] else [])
     @ (if snmp_config_changed d \<or> snmp_diff_changes d then [''SNMP config''] else [])
     @ (if management_vlan_changed d then [''management VLAN''] else [])"

definition remaining_changes_summary :: "state_diff \<Rightarrow> string" where
  "remaining_changes_summary d = join ''; '' (summary_parts d)"

section \<open>Properties\<close>

lemma ucast_u16_u64: "ucast (ucast (i :: u16) :: u64) = i"
  by (simp add: word_unat_eq_iff unsigned_ucast_eq take_bit_word_eq_self)

lemma ucast_u16_le: "(ucast (i :: u16) :: u64) \<le> 65535"
proof -
  have "unat i < 2 ^ 64" using unat_u16_le [of i] by simp
  then show ?thesis
    using unat_u16_le [of i] by (simp add: word_le_nat_alt unsigned_ucast_eq take_bit_nat_eq_self)
qed

text \<open>A VLAN reference that was written out is read back as the same reference, number as
  number and name as name (also a name made of digits), for every reference but the id 0, which
  is refused as out of range.\<close>

theorem vlan_ref_roundtrip:
  "vlan_ref_de (vlan_ref_ser r) = (if r = VlanId 0 then Inl OutOfRange else Inr r)"
proof (cases r)
  case (VlanId i)
  have "(ucast i :: u64) = 0 \<longleftrightarrow> i = 0" by (metis ucast_u16_u64 unsigned_0)
  with VlanId show ?thesis using ucast_u16_le [of i] by (auto simp: ucast_u16_u64 not_less)
qed simp

lemma vlan_ip_config_roundtrip: "vlan_ip_config_de (vlan_ip_config_ser c) = Inr c"
  by (cases c) simp_all

text \<open>The references a port was read from: what is still pending, or what has been taken over as ids.\<close>

definition untagged_ref :: "port \<Rightarrow> vlan_ref" where
  "untagged_ref p = (case p_vlan_name p of Some n \<Rightarrow> VlanName n | None \<Rightarrow> VlanId (p_vlan p))"

definition tagged_refs :: "port \<Rightarrow> vlan_ref list" where
  "tagged_refs p = (if p_tagged_vlan_refs p = [] then map VlanId (p_tagged_vlans p) else p_tagged_vlan_refs p)"

lemma map_VlanId_ref_ids: "\<not> list_ex is_vlan_name rs \<Longrightarrow> map VlanId (ref_ids rs) = rs"
  by (induction rs rule: ref_ids.induct) auto

text \<open>Splitting a port's VLAN references into resolved ids and deferred names loses nothing:
  both references, with the order of the tagged ones, can be recovered from the port, and a port
  never holds resolved and deferred tagged VLANs at the same time.\<close>

theorem port_from_de_lossless:
  "untagged_ref (port_from_de de) = pd_vlan de \<and>
   tagged_refs (port_from_de de) = pd_tagged_vlans de \<and>
   (p_tagged_vlans (port_from_de de) = [] \<or> p_tagged_vlan_refs (port_from_de de) = [])"
  by (auto simp: port_from_de_def untagged_ref_def tagged_refs_def Let_def map_VlanId_ref_ids
      split: vlan_ref.splits)

text \<open>A community whose string comes from a file or a credential is serialised without that
  string: what is written does not depend on it, so the resolved secret cannot reach an API
  response, a preview or an overlay file this way.\<close>

theorem community_secret_not_serialised:
  assumes "has_reference c"
  shows "snmp_community_ser (c\<lparr>c_name := secret\<rparr>) = snmp_community_ser c \<and>
         ''name'' \<notin> fst ` set (snmp_community_ser c)"
  using assms by (auto simp: snmp_community_ser_def has_reference_def split: option.splits)

theorem community_secret_not_serialised_witness:
  "has_reference \<lparr>c_name = ''s3cret'', c_access = Operator, c_name_file = Some ''/run/snmp'',
      c_name_credential = None, c_allowed_hosts = [HostAuto]\<rparr> \<and>
   ''name'' \<notin> fst ` set (snmp_community_ser \<lparr>c_name = ''s3cret'', c_access = Operator,
      c_name_file = Some ''/run/snmp'', c_name_credential = None, c_allowed_hosts = [HostAuto]\<rparr>)"
proof -
  let ?c = "\<lparr>c_name = ''s3cret'', c_access = Operator, c_name_file = Some ''/run/snmp'',
      c_name_credential = None, c_allowed_hosts = [HostAuto]\<rparr>"
  have h: "has_reference ?c" by (simp add: has_reference_def)
  from h community_secret_not_serialised [OF h] show ?thesis by blast
qed

lemma summary_parts_nonempty: "p \<in> set (summary_parts d) \<Longrightarrow> p \<noteq> []"
  by (auto simp: summary_parts_def split: if_splits)

lemma summary_parts_Nil: "summary_parts d = [] \<longleftrightarrow> \<not> has_changes d"
  by (simp add: summary_parts_def has_changes_def)

text \<open>The convergence report mentions every kind of change: its summary is empty exactly when
  \<open>has_changes\<close> is false, so a state that did not converge is never reported without naming
  something.\<close>

theorem summary_empty_iff_no_changes:
  "remaining_changes_summary d = [] \<longleftrightarrow> \<not> has_changes d"
  by (simp add: remaining_changes_summary_def join_eq_Nil summary_parts_nonempty summary_parts_Nil)

end
