(* ===== verification/Ip_Addr.thy ===== *)
theory Ip_Addr
  imports Switch_Types
begin

unbundle bit_operations_syntax

text \<open>
  IP addresses as the standard library reads and prints them (\<open>std::net\<close>), the entries of
  \<open>allowed_hosts\<close> (\<open>AllowedHost\<close> in \<open>models.rs\<close>) and their conversion to and from the
  address-and-netmask form of FortiOS (\<open>allowed_hosts.rs\<close>).
\<close>

section \<open>The parser of \<open>std::net\<close>\<close>

datatype ip_addr = V4 u32 | V6 "nat list" \<comment> \<open>eight 16-bit groups\<close>

text \<open>\<open>read_number(10, Some(3), false)\<close> into a \<open>u8\<close>.\<close>

definition read_octet :: "string \<Rightarrow> (nat \<times> string) option" where
  "read_octet s =
     (let ds = takeWhile is_ascii_digit s in
      if ds = [] \<or> length ds > 3 then None
      else if hd ds = CHR ''0'' \<and> length ds > 1 then None
      else if digits_val ds \<le> 255 then Some (digits_val ds, dropWhile is_ascii_digit s) else None)"

definition read_dot_octet :: "string \<Rightarrow> (nat \<times> string) option" where
  "read_dot_octet s = (case s of c # t \<Rightarrow> if c = CHR ''.'' then read_octet t else None | [] \<Rightarrow> None)"

definition of_octets :: "nat \<Rightarrow> nat \<Rightarrow> nat \<Rightarrow> nat \<Rightarrow> u32" where
  "of_octets a b c d = of_nat (((a * 256 + b) * 256 + c) * 256 + d)"

definition read_ipv4 :: "string \<Rightarrow> (u32 \<times> string) option" where
  "read_ipv4 s =
     Option.bind (read_octet s) (\<lambda>(a, s1).
     Option.bind (read_dot_octet s1) (\<lambda>(b, s2).
     Option.bind (read_dot_octet s2) (\<lambda>(c, s3).
     Option.bind (read_dot_octet s3) (\<lambda>(d, s4). Some (of_octets a b c d, s4)))))"

text \<open>\<open>read_number(16, Some(4), true)\<close> into a \<open>u16\<close>.\<close>

definition hex_val :: "char \<Rightarrow> nat option" where
  "hex_val c =
     (let n = (of_char c :: nat) in
      if 48 \<le> n \<and> n \<le> 57 then Some (n - 48)
      else if 97 \<le> n \<and> n \<le> 102 then Some (n - 87)
      else if 65 \<le> n \<and> n \<le> 70 then Some (n - 55)
      else None)"

definition read_group :: "string \<Rightarrow> (nat \<times> string) option" where
  "read_group s =
     (let ds = takeWhile (\<lambda>c. hex_val c \<noteq> None) s in
      if ds = [] \<or> length ds > 4 then None
      else Some (foldl (\<lambda>n c. 16 * n + the (hex_val c)) 0 ds, dropWhile (\<lambda>c. hex_val c \<noteq> None) s))"

definition after_colon :: "nat \<Rightarrow> (string \<Rightarrow> ('a \<times> string) option) \<Rightarrow> string \<Rightarrow> ('a \<times> string) option" where
  "after_colon i rd s =
     (if i = 0 then rd s
      else case s of c # t \<Rightarrow> if c = CHR '':'' then rd t else None | [] \<Rightarrow> None)"

text \<open>\<open>read_groups\<close>: the first argument is how many groups there is still room for.\<close>

fun read_groups :: "nat \<Rightarrow> nat \<Rightarrow> string \<Rightarrow> nat list \<times> bool \<times> string" where
  "read_groups 0 i s = ([], False, s)"
| "read_groups (Suc k) i s =
     (case (if k \<ge> 1 then after_colon i read_ipv4 s else None) of
        Some (w, rest) \<Rightarrow> ([unat w div 65536, unat w mod 65536], True, rest)
      | None \<Rightarrow>
          (case after_colon i read_group s of
             None \<Rightarrow> ([], False, s)
           | Some (g, rest) \<Rightarrow>
               (case read_groups k (Suc i) rest of (gs, v4, r) \<Rightarrow> (g # gs, v4, r))))"

definition read_ipv6 :: "string \<Rightarrow> (nat list \<times> string) option" where
  "read_ipv6 s =
     (case read_groups 8 0 s of (front, front_v4, r) \<Rightarrow>
        if length front = 8 then Some (front, r)
        else if front_v4 then None
        else case r of
               c # d # t \<Rightarrow>
                 if c = CHR '':'' \<and> d = CHR '':'' then
                   (case read_groups (8 - (length front + 1)) 0 t of (back, _, r') \<Rightarrow>
                      Some (front @ replicate (8 - length front - length back) 0 @ back, r'))
                 else None
             | _ \<Rightarrow> None)"

definition parse_ip :: "string \<Rightarrow> ip_addr option" where
  "parse_ip s =
     (case read_ipv4 s of
        Some (w, r) \<Rightarrow> if r = [] then Some (V4 w) else None
      | None \<Rightarrow>
          (case read_ipv6 s of
             Some (gs, r) \<Rightarrow> if r = [] then Some (V6 gs) else None
           | None \<Rightarrow> None))"

definition parse_ipv4 :: "string \<Rightarrow> u32 option" where
  "parse_ipv4 s =
     (if length s > 15 then None
      else case read_ipv4 s of Some (w, r) \<Rightarrow> if r = [] then Some w else None | None \<Rightarrow> None)"

definition show_ipv4 :: "u32 \<Rightarrow> string" where
  "show_ipv4 w =
     (let n = unat w in
      show_nat (n div 16777216) @ CHR ''.'' # show_nat (n div 65536 mod 256) @ CHR ''.'' #
      show_nat (n div 256 mod 256) @ CHR ''.'' # show_nat (n mod 256))"

section \<open>Entries of \<open>allowed_hosts\<close>\<close>

datatype host_error =
    NeitherAutoNorAddress string
  | InvalidPrefixLength string
  | AutoNotResolved
  | Ipv6NotSupported string
  | NotAnAddress string

fun max_prefix :: "ip_addr \<Rightarrow> nat" where
  "max_prefix (V4 w) = 32"
| "max_prefix (V6 gs) = 128"

text \<open>Around the first \<open>/\<close>: the address, and the prefix when there is one.\<close>

definition split_prefix :: "string \<Rightarrow> string \<times> string option" where
  "split_prefix v = (case split_once (CHR ''/'') v of Some (a, p) \<Rightarrow> (a, Some p) | None \<Rightarrow> (v, None))"

definition allowed_host_try_from :: "string \<Rightarrow> host_error + allowed_host" where
  "allowed_host_try_from v =
     (let val = trim v in
      if eq_ignore_ascii_case val ''auto'' then Inr HostAuto
      else
        (case split_prefix val of (addr, prefix) \<Rightarrow>
           (case parse_ip addr of
              None \<Rightarrow> Inl (NeitherAutoNorAddress val)
            | Some ip \<Rightarrow>
                (case prefix of
                   None \<Rightarrow> Inr (Network val)
                 | Some p \<Rightarrow>
                     (case parse_uint 255 p of
                        Some n \<Rightarrow>
                          if n \<le> max_prefix ip
                          then Inr (Network (if n = max_prefix ip then addr else val))
                          else Inl (InvalidPrefixLength val)
                      | None \<Rightarrow> Inl (InvalidPrefixLength val))))))"

definition netmask :: "nat \<Rightarrow> u32" where
  "netmask prefix = (if prefix = 0 then 0 else push_bit (32 - prefix) (- 1))"

definition host_to_fortios :: "allowed_host \<Rightarrow> host_error + (string \<times> string)" where
  "host_to_fortios h =
     (case h of
        HostAuto \<Rightarrow> Inl AutoNotResolved
      | Network network \<Rightarrow>
          (case split_prefix network of (addr, prefix) \<Rightarrow>
             (case parse_ip addr of
                None \<Rightarrow> Inl (NotAnAddress network)
              | Some (V6 gs) \<Rightarrow> Inl (Ipv6NotSupported network)
              | Some (V4 ip) \<Rightarrow>
                  (case (case prefix of None \<Rightarrow> Some 32 | Some p \<Rightarrow> parse_uint 4294967295 p) of
                     None \<Rightarrow> Inl (InvalidPrefixLength network)
                   | Some n \<Rightarrow>
                       if n > 32 then Inl (InvalidPrefixLength network)
                       else Inr (show_ipv4 ip, show_ipv4 (netmask n))))))"

definition count_ones :: "u32 \<Rightarrow> nat" where
  "count_ones w = length (filter (bit w) [0 ..< 32])"

definition host_from_fortios :: "string \<Rightarrow> string \<Rightarrow> allowed_host option" where
  "host_from_fortios ip_s mask_s =
     Option.bind (parse_ipv4 ip_s) (\<lambda>ip.
     Option.bind (parse_ipv4 mask_s) (\<lambda>m.
       let prefix = count_ones m in
       if prefix \<noteq> 0 \<and> m \<noteq> push_bit (32 - prefix) (- 1) then None
       else if prefix = 0 \<and> m \<noteq> 0 then None
       else Some (Network (if prefix = 32 then show_ipv4 ip
                           else show_ipv4 ip @ CHR ''/'' # show_nat prefix))))"

section \<open>Reading back what was printed\<close>

lemma show_nat_length_le3:
  assumes "n < 1000"
  shows "length (show_nat n) \<le> 3"
proof -
  have "length (show_nat (n div 10)) \<le> 2" if "n \<ge> 10"
    using assms by (simp add: show_nat.simps [of "n div 10"] show_nat.simps [of "n div 10 div 10"])
  then show ?thesis by (subst show_nat.simps) auto
qed

lemma show_nat_leading_zero: "hd (show_nat n) = CHR ''0'' \<Longrightarrow> length (show_nat n) = 1"
proof (induction n rule: show_nat.induct)
  case (1 n)
  show ?case
  proof (cases "n < 10")
    case True
    then show ?thesis by (subst show_nat.simps) simp
  next
    case False
    then have eq: "show_nat n = show_nat (n div 10) @ [digit_char (n mod 10)]"
      by (subst show_nat.simps) simp
    with "1.prems" have "hd (show_nat (n div 10)) = CHR ''0''" by simp
    with "1.IH" False have "length (show_nat (n div 10)) = 1" by simp
    then have "n div 10 < 10 \<and> hd (show_nat (n div 10)) = digit_char (n div 10)"
      by (auto simp: show_nat.simps [of "n div 10"] split: if_splits)
    with \<open>hd (show_nat (n div 10)) = CHR ''0''\<close> have "digit_val (CHR ''0'') = n div 10"
      by (metis digit_val_digit_char)
    with False show ?thesis by (simp add: digit_val_def)
  qed
qed

lemma digits_before:
  assumes "t = [] \<or> \<not> is_ascii_digit (hd t)"
  shows "takeWhile is_ascii_digit (show_nat n @ t) = show_nat n"
    "dropWhile is_ascii_digit (show_nat n @ t) = t"
proof -
  have d: "\<And>c. c \<in> set (show_nat n) \<Longrightarrow> is_ascii_digit c" by (rule show_nat_is_digit)
  have "takeWhile is_ascii_digit t = []" "dropWhile is_ascii_digit t = t"
    using assms by (cases t; simp)+
  then show "takeWhile is_ascii_digit (show_nat n @ t) = show_nat n"
    "dropWhile is_ascii_digit (show_nat n @ t) = t"
    using takeWhile_append2 [of "show_nat n" is_ascii_digit t]
      dropWhile_append2 [of "show_nat n" is_ascii_digit t] d by auto
qed

lemma read_octet_show:
  assumes "n \<le> 255" and "t = [] \<or> \<not> is_ascii_digit (hd t)"
  shows "read_octet (show_nat n @ t) = Some (n, t)"
  using assms show_nat_length_le3 [of n] show_nat_leading_zero [of n]
  by (auto simp: read_octet_def Let_def digits_before)

lemma octets_of_nat:
  "n = (((n div 16777216) * 256 + n div 65536 mod 256) * 256 + n div 256 mod 256) * 256 + n mod (256 :: nat)"
proof -
  have "n div 65536 = n div 256 div 256" "n div 16777216 = n div 256 div 256 div 256"
    by (simp_all add: div_mult2_eq [symmetric])
  then show ?thesis
    using div_mult_mod_eq [of n 256] div_mult_mod_eq [of "n div 256" 256]
      div_mult_mod_eq [of "n div 256 div 256" 256] by simp
qed

lemma mod_256_le: "x mod 256 \<le> (255 :: nat)"
  using mod_less_divisor [of 256 x] by linarith

lemma top_octet_le: "unat (w :: u32) div 16777216 \<le> 255"
proof -
  have "unat w < 256 * 16777216" using unat_u32_le [of w] by simp
  then have "unat w div 16777216 < 256" by (rule less_mult_imp_div_less)
  then show ?thesis by simp
qed

lemma read_ipv4_dots:
  assumes "a \<le> 255" "b \<le> 255" "c \<le> 255" "d \<le> 255" "t = [] \<or> \<not> is_ascii_digit (hd t)"
  shows "read_ipv4 (show_nat a @ CHR ''.'' # show_nat b @ CHR ''.'' # show_nat c @ CHR ''.'' # show_nat d @ t)
         = Some (of_octets a b c d, t)"
proof -
  have "\<not> is_ascii_digit (CHR ''.'')" by (simp add: is_ascii_digit_def)
  with assms show ?thesis by (simp add: read_ipv4_def read_dot_octet_def read_octet_show)
qed

lemma of_octets_unat:
  "of_octets (unat w div 16777216) (unat w div 65536 mod 256) (unat w div 256 mod 256) (unat w mod 256) = w"
  unfolding of_octets_def octets_of_nat [of "unat w", symmetric] by simp

lemma read_ipv4_show: "t = [] \<or> \<not> is_ascii_digit (hd t) \<Longrightarrow> read_ipv4 (show_ipv4 w @ t) = Some (w, t)"
  unfolding show_ipv4_def Let_def append.assoc append_Cons
  by (subst read_ipv4_dots) (simp_all only: top_octet_le mod_256_le of_octets_unat)

lemma parse_ip_show [simp]: "parse_ip (show_ipv4 w) = Some (V4 w)"
  using read_ipv4_show [of "[]" w] by (simp add: parse_ip_def)

lemma length_show_ipv4: "length (show_ipv4 w) \<le> 15"
proof -
  have three: "length (show_nat n) \<le> 3" if "n \<le> 255" for n
    using that by (intro show_nat_length_le3) simp
  have "length (show_nat a @ CHR ''.'' # show_nat b @ CHR ''.'' # show_nat c @ CHR ''.'' # show_nat d) \<le> 15"
    if "a \<le> 255" "b \<le> 255" "c \<le> 255" "d \<le> 255" for a b c d
    using three [OF that(1)] three [OF that(2)] three [OF that(3)] three [OF that(4)] by simp
  then show ?thesis
    unfolding show_ipv4_def Let_def using top_octet_le mod_256_le by blast
qed

lemma parse_ipv4_show [simp]: "parse_ipv4 (show_ipv4 w) = Some w"
  using read_ipv4_show [of "[]" w] length_show_ipv4 [of w] by (simp add: parse_ipv4_def)

lemma slash_notin_show_ipv4: "CHR ''/'' \<notin> set (show_ipv4 w)"
  by (auto simp: show_ipv4_def Let_def dest: show_nat_is_digit is_ascii_digit_neq)

lemma split_prefix_show:
  "split_prefix (show_ipv4 w @ CHR ''/'' # p) = (show_ipv4 w, Some p)"
  "split_prefix (show_ipv4 w) = (show_ipv4 w, None)"
  using slash_notin_show_ipv4 split_once_Some [of "CHR ''/''" "show_ipv4 w @ CHR ''/'' # p" "show_ipv4 w" p]
  by (simp_all add: split_prefix_def split_once_None [THEN iffD2])

lemma count_ones_netmask: "p \<le> 32 \<Longrightarrow> count_ones (netmask p) = p"
proof -
  assume p: "p \<le> 32"
  have "bit (netmask p) n \<longleftrightarrow> 32 - p \<le> n" if "n < 32" for n
    using p that by (auto simp: netmask_def bit_simps)
  then have high: "filter (bit (netmask p)) [0 ..< 32] = filter (\<lambda>n. 32 - p \<le> n) [0 ..< 32]"
    by (intro filter_cong) auto
  have split: "[0 ..< 32] = [0 ..< 32 - p] @ [32 - p ..< 32]"
    using upt_add_eq_append [of 0 "32 - p" p] p by simp
  have "filter (\<lambda>n. 32 - p \<le> n) [0 ..< 32] = [32 - p ..< 32]"
    unfolding split by (simp add: filter_empty_conv)
  with high have "filter (bit (netmask p)) [0 ..< 32] = [32 - p ..< 32]" by (rule trans)
  with p show ?thesis by (simp add: count_ones_def del: upt_rec_numeral)
qed

lemma host_from_fortios_show:
  assumes "p \<le> 32"
  shows "host_from_fortios (show_ipv4 w) (show_ipv4 (netmask p)) =
         Some (Network (if p = 32 then show_ipv4 w else show_ipv4 w @ CHR ''/'' # show_nat p))"
proof (cases "p = 0")
  case True
  then show ?thesis using count_ones_netmask [of 0] by (simp add: host_from_fortios_def netmask_def)
next
  case False
  then have "netmask p = push_bit (32 - p) (- 1)" by (simp add: netmask_def)
  with False assms show ?thesis
    using count_ones_netmask [OF assms] by (simp add: host_from_fortios_def Let_def)
qed

lemma host_to_fortios_InrD:
  assumes "host_to_fortios h = Inr (a, m)"
  shows "\<exists>w p. p \<le> 32 \<and> a = show_ipv4 w \<and> m = show_ipv4 (netmask p)"
  using assms
  by (auto simp: host_to_fortios_def not_less split: allowed_host.splits prod.splits option.splits
      ip_addr.splits if_splits)

lemma host_to_fortios_show:
  assumes "p \<le> 32"
  shows "host_to_fortios (Network (show_ipv4 w @ CHR ''/'' # show_nat p)) =
           Inr (show_ipv4 w, show_ipv4 (netmask p))"
    and "host_to_fortios (Network (show_ipv4 w)) = Inr (show_ipv4 w, show_ipv4 (netmask 32))"
  using assms by (simp_all add: host_to_fortios_def split_prefix_show)

text \<open>What is written to a FortiSwitch for an allowed manager is read back as the same set of
  managers: whatever form the entry had, the address and netmask it was written as are parsed to
  an entry that is written in exactly the same way, so a manager list that was applied shows no
  difference when it is compared in this form.\<close>

theorem fortios_host_roundtrip:
  assumes "host_to_fortios h = Inr (a, m)"
  shows "\<exists>h'. host_from_fortios a m = Some h' \<and> host_to_fortios h' = Inr (a, m)"
proof -
  from host_to_fortios_InrD [OF assms] obtain w p where p: "p \<le> 32"
    and a: "a = show_ipv4 w" and m: "m = show_ipv4 (netmask p)" by blast
  show ?thesis
    using host_to_fortios_show [OF p, of w] p
    by (auto simp: a m host_from_fortios_show)
qed

theorem fortios_host_roundtrip_witness:
  "host_to_fortios (Network ''192.0.2.0/24'') = Inr (''192.0.2.0'', ''255.255.255.0'') \<and>
   (\<exists>h'. host_from_fortios ''192.0.2.0'' ''255.255.255.0'' = Some h' \<and>
         host_to_fortios h' = Inr (''192.0.2.0'', ''255.255.255.0''))"
proof -
  have "show_ipv4 3221225984 @ CHR ''/'' # show_nat 24 = ''192.0.2.0/24''"
    "show_ipv4 3221225984 = ''192.0.2.0''" "show_ipv4 4294967040 = ''255.255.255.0''"
    by (simp_all add: show_ipv4_def num_eval)
  moreover have "netmask 24 = 4294967040"
    unfolding netmask_def push_bit_eq_mult by simp
  ultimately have h: "host_to_fortios (Network ''192.0.2.0/24'') = Inr (''192.0.2.0'', ''255.255.255.0'')"
    using host_to_fortios_show(1) [of 24 3221225984] by simp
  from h fortios_host_roundtrip [OF h] show ?thesis by blast
qed

text \<open>A mask that is not a run of ones followed by zeros is refused, never guessed at: the
  entry read from an address and a netmask exists exactly when the mask is one of the 33 prefix
  masks, and then it is that address with that prefix length.\<close>

theorem host_from_fortios_contiguous:
  "host_from_fortios (show_ipv4 w) (show_ipv4 m) = Some h \<longleftrightarrow>
     (\<exists>p \<le> 32. m = netmask p \<and>
        h = Network (if p = 32 then show_ipv4 w else show_ipv4 w @ CHR ''/'' # show_nat p))"
proof
  assume h: "host_from_fortios (show_ipv4 w) (show_ipv4 m) = Some h"
  have "count_ones m \<le> 32"
    using length_filter_le [of "bit m" "[0 ..< 32]"] by (simp add: count_ones_def)
  moreover from h have "m = netmask (count_ones m)"
    by (auto simp: host_from_fortios_def Let_def netmask_def split: if_splits)
  ultimately show "\<exists>p \<le> 32. m = netmask p \<and>
      h = Network (if p = 32 then show_ipv4 w else show_ipv4 w @ CHR ''/'' # show_nat p)"
    using h by (auto simp: host_from_fortios_def Let_def split: if_splits intro!: exI [of _ "count_ones m"])
next
  assume "\<exists>p \<le> 32. m = netmask p \<and>
      h = Network (if p = 32 then show_ipv4 w else show_ipv4 w @ CHR ''/'' # show_nat p)"
  then show "host_from_fortios (show_ipv4 w) (show_ipv4 m) = Some h"
    by (auto simp: host_from_fortios_show)
qed

end
