(* ===== verification/Snmp_Policy.thy ===== *)
theory Snmp_Policy
  imports Ip_Addr
begin

text \<open>
  Where SNMP community strings come from (\<open>secrets.rs\<close>), which managers may use them
  (\<open>allowed_hosts.rs\<close>) and the community the service reads with (\<open>snmp_reads.rs\<close>). The file system
  (\<open>secret_env\<close>) and the routing table (\<open>route\<close>) are arguments.
\<close>

section \<open>Community secrets\<close>

text \<open>
  \<open>read_file\<close> is \<open>fs::read_to_string\<close> (\<open>None\<close> when it fails), \<open>credentials_dir\<close> the directory of
  \<open>SecretContext\<close>.
\<close>

record secret_env =
  read_file :: "string \<Rightarrow> string option"
  credentials_dir :: "string option"

datatype secret_error =
    MoreThanOneSource string string
  | NoSource string string
  | CannotRead string string string
  | NotAPlainName string string
  | NoCredentialsDirectory string string
  | EmptySecret string string
  | ForbiddenCharacter string string
  | InlineDisagrees string string

definition community_label :: "nat \<Rightarrow> string" where
  "community_label i = ''SNMP community #'' @ show_nat (i + 1)"

definition reads_label :: string where
  "reads_label = ''snmp.reads.community''"

definition reads_auto_community :: "snmp_config \<Rightarrow> snmp_community option" where
  "reads_auto_community snmp =
     (case sn_reads snmp of
        Some r \<Rightarrow> if rd_mode r = ReadsAuto then rd_community r else None
      | None \<Rightarrow> None)"

definition listed_labelled :: "snmp_config \<Rightarrow> (string \<times> snmp_community) list" where
  "listed_labelled snmp =
     map (\<lambda>(i, c). (community_label i, c)) (List.enumerate 0 (sn_communities snmp))"

definition labelled_communities :: "snmp_config \<Rightarrow> (string \<times> snmp_community) list" where
  "labelled_communities snmp =
     listed_labelled snmp
     @ (case reads_auto_community snmp of Some c \<Rightarrow> [(reads_label, c)] | None \<Rightarrow> [])"

definition check_source :: "string \<Rightarrow> string \<times> snmp_community \<Rightarrow> secret_error option" where
  "check_source sid lc =
     (case lc of (label, c) \<Rightarrow>
        if c_name_file c \<noteq> None \<and> c_name_credential c \<noteq> None then Some (MoreThanOneSource sid label)
        else if c_name c = [] \<and> \<not> has_reference c then Some (NoSource sid label)
        else None)"

definition check_snmp_secret_sources :: "switch_config \<Rightarrow> secret_error + unit" where
  "check_snmp_secret_sources sw =
     (case s_snmp sw of
        None \<Rightarrow> Inr ()
      | Some snmp \<Rightarrow> check_all (check_source (s_id sw)) (labelled_communities snmp))"

text \<open>\<open>char::is_control\<close> on UTF-8: U+0000 to U+001F, U+007F, and U+0080 to U+009F (two bytes).\<close>

fun has_control :: "string \<Rightarrow> bool" where
  "has_control [] \<longleftrightarrow> False"
| "has_control (c # cs) \<longleftrightarrow>
     (of_char c :: nat) < 32 \<or> (of_char c :: nat) = 127 \<or>
     ((of_char c :: nat) = 194 \<and>
       (case cs of d # _ \<Rightarrow> 128 \<le> (of_char d :: nat) \<and> (of_char d :: nat) \<le> 159 | [] \<Rightarrow> False)) \<or>
     has_control cs"

definition usable_secret :: "string \<Rightarrow> bool" where
  "usable_secret v \<longleftrightarrow> v \<noteq> [] \<and> CHR 0x22 \<notin> set v \<and> \<not> has_control v"

definition validate_value :: "string \<Rightarrow> string \<Rightarrow> string \<Rightarrow> secret_error + string" where
  "validate_value raw sid label =
     (let v = rev (dropWhile (\<lambda>c. c = CHR 0x0D \<or> c = CHR 0x0A) (rev raw)) in
      if v = [] then Inl (EmptySecret sid label)
      else if List.member v (CHR 0x22) \<or> has_control v then Inl (ForbiddenCharacter sid label)
      else Inr v)"

definition read_secret_file :: "secret_env \<Rightarrow> string \<Rightarrow> string \<Rightarrow> string \<Rightarrow> secret_error + string" where
  "read_secret_file env path sid label =
     (case read_file env path of
        None \<Rightarrow> Inl (CannotRead sid label path)
      | Some raw \<Rightarrow> validate_value raw sid label)"

text \<open>\<open>Path::join\<close> with a plain name.\<close>

definition path_join :: "string \<Rightarrow> string \<Rightarrow> string" where
  "path_join dir name =
     (if dir = [] then name
      else if last dir = CHR ''/'' then dir @ name else dir @ CHR ''/'' # name)"

definition read_credential :: "secret_env \<Rightarrow> string \<Rightarrow> string \<Rightarrow> string \<Rightarrow> secret_error + string" where
  "read_credential env i sid label =
     (if i = [] \<or> i = ''.'' \<or> i = ''..'' \<or> List.member i (CHR ''/'') \<or> List.member i (CHR 0x00)
      then Inl (NotAPlainName sid label)
      else case credentials_dir env of
             None \<Rightarrow> Inl (NoCredentialsDirectory sid label)
           | Some dir \<Rightarrow>
               (case read_file env (path_join dir i) of
                  None \<Rightarrow> Inl (CannotRead sid label (path_join dir i))
                | Some raw \<Rightarrow> validate_value raw sid label))"

text \<open>What the reference of a community resolves to: \<open>None\<close> for an inline community.\<close>

definition reference_value :: "secret_env \<Rightarrow> string \<Rightarrow> string \<Rightarrow> snmp_community \<Rightarrow> (secret_error + string) option" where
  "reference_value env sid label c =
     (case (c_name_file c, c_name_credential c) of
        (Some path, _) \<Rightarrow> Some (read_secret_file env path sid label)
      | (None, Some i) \<Rightarrow> Some (read_credential env i sid label)
      | (None, None) \<Rightarrow> None)"

text \<open>The body of the loop of \<open>resolve_snmp_secrets\<close>; the registry is the set of known secrets.\<close>

definition register_secret :: "string \<Rightarrow> string list \<Rightarrow> string list" where
  "register_secret v registry = (if v \<noteq> [] then List.insert v registry else registry)"

definition resolve_community ::
  "secret_env \<Rightarrow> string \<Rightarrow> string \<times> snmp_community \<Rightarrow> string list \<Rightarrow>
     secret_error + (snmp_community \<times> string list)" where
  "resolve_community env sid lc registry =
     (case lc of (label, c) \<Rightarrow>
        (case reference_value env sid label c of
           None \<Rightarrow> Inr (c, registry)
         | Some r \<Rightarrow>
             and_then r (\<lambda>v.
               if c_name c \<noteq> [] \<and> c_name c \<noteq> v then Inl (InlineDisagrees sid label)
               else Inr (c\<lparr>c_name := v\<rparr>, register_secret v registry))))"

fun resolve_loop ::
  "secret_env \<Rightarrow> string \<Rightarrow> (string \<times> snmp_community) list \<Rightarrow> string list \<Rightarrow>
     secret_error option \<times> snmp_community list \<times> string list" where
  "resolve_loop env sid [] registry = (None, [], registry)"
| "resolve_loop env sid (lc # lcs) registry =
     (case resolve_community env sid lc registry of
        Inl e \<Rightarrow> (Some e, map snd (lc # lcs), registry)
      | Inr (c, registry') \<Rightarrow>
          (case resolve_loop env sid lcs registry' of (e, cs, registry'') \<Rightarrow> (e, c # cs, registry'')))"

definition with_reads_community :: "snmp_config \<Rightarrow> snmp_community \<Rightarrow> snmp_config" where
  "with_reads_community snmp c =
     snmp\<lparr>sn_reads := map_option (\<lambda>r. r\<lparr>rd_community := Some c\<rparr>) (sn_reads snmp)\<rparr>"

definition resolve_snmp_secrets ::
  "secret_env \<Rightarrow> (secret_error, switch_config \<times> string list) step" where
  "resolve_snmp_secrets env st =
     (case st of (sw, registry) \<Rightarrow>
        (case check_snmp_secret_sources sw of
           Inl e \<Rightarrow> (Some e, (sw, registry))
         | Inr _ \<Rightarrow>
             (case s_snmp sw of
                None \<Rightarrow> (None, (sw, registry))
              | Some snmp \<Rightarrow>
                  (case resolve_loop env (s_id sw) (listed_labelled snmp) registry of
                     (err, cs, registry') \<Rightarrow>
                       let snmp' = snmp\<lparr>sn_communities := cs\<rparr> in
                       (case err of
                          Some e \<Rightarrow> (Some e, (sw\<lparr>s_snmp := Some snmp'\<rparr>, registry'))
                        | None \<Rightarrow>
                            (case reads_auto_community snmp of
                               None \<Rightarrow> (None, (sw\<lparr>s_snmp := Some snmp'\<rparr>, registry'))
                             | Some c \<Rightarrow>
                                 (case resolve_community env (s_id sw) (reads_label, c) registry' of
                                    Inl e \<Rightarrow> (Some e, (sw\<lparr>s_snmp := Some snmp'\<rparr>, registry'))
                                  | Inr (c', registry'') \<Rightarrow>
                                      (None, (sw\<lparr>s_snmp := Some (with_reads_community snmp' c')\<rparr>,
                                              registry'')))))))))"

section \<open>The service's own read community\<close>

definition reads_enabled :: "switch_config \<Rightarrow> bool" where
  "reads_enabled sw \<longleftrightarrow>
     (case s_snmp sw of
        None \<Rightarrow> False
      | Some snmp \<Rightarrow>
          (case sn_reads snmp of
             None \<Rightarrow> False
           | Some r \<Rightarrow> rd_mode r = ReadsAuto \<and> rd_community r \<noteq> None))"

definition effective_snmp :: "switch_config \<Rightarrow> snmp_config option" where
  "effective_snmp sw =
     (case s_snmp sw of
        None \<Rightarrow> None
      | Some snmp \<Rightarrow>
          Some (if reads_enabled sw then
                  (case Option.bind (sn_reads snmp) rd_community of
                     None \<Rightarrow> snmp
                   | Some c \<Rightarrow>
                       let managed = c\<lparr>c_access := Operator\<rparr> in
                       if list_ex (\<lambda>d. c_name d = c_name managed) (sn_communities snmp) then snmp
                       else snmp\<lparr>sn_communities := sn_communities snmp @ [managed]\<rparr>)
                else snmp))"

section \<open>Allowed managers\<close>

datatype hosts_error =
    ReadsUnsupported string vendor
  | HostsUnsupported string vendor
  | NotAnIpAddress string
  | NoRoute ip_addr

definition check_vendor_support :: "switch_config \<Rightarrow> hosts_error + unit" where
  "check_vendor_support sw =
     (case s_model sw of
        None \<Rightarrow> Inr ()
      | Some m \<Rightarrow>
          (let vendor = model_vendor m in
           if vendor = Fortiswitch then Inr ()
           else if reads_enabled sw then Inl (ReadsUnsupported (s_id sw) vendor)
           else
             (let restricted = (case s_snmp sw of
                  None \<Rightarrow> False
                | Some snmp \<Rightarrow> list_ex (\<lambda>c. c_allowed_hosts c \<noteq> []) (sn_communities snmp))
              in if restricted then Inl (HostsUnsupported (s_id sw) vendor) else Inr ())))"

text \<open>
  \<open>route ip\<close> is what the operating system answers: the local address (printed) that packets to
  \<open>ip\<close> leave from, or nothing when there is no route.
\<close>

definition local_address_towards :: "(ip_addr \<Rightarrow> string option) \<Rightarrow> string \<Rightarrow> hosts_error + string" where
  "local_address_towards route target =
     (case parse_ip target of
        None \<Rightarrow> Inl (NotAnIpAddress target)
      | Some ip \<Rightarrow> (case route ip of None \<Rightarrow> Inl (NoRoute ip) | Some a \<Rightarrow> Inr a))"

definition reads_default :: "snmp_config \<Rightarrow> bool" where
  "reads_default snmp \<longleftrightarrow>
     (case sn_reads snmp of
        None \<Rightarrow> False
      | Some r \<Rightarrow> rd_mode r = ReadsAuto \<and>
          (case rd_community r of None \<Rightarrow> False | Some c \<Rightarrow> c_allowed_hosts c = []))"

definition needs_resolution :: "snmp_config \<Rightarrow> bool" where
  "needs_resolution snmp \<longleftrightarrow>
     list_ex (\<lambda>c. List.member (c_allowed_hosts c) HostAuto) (sn_communities snmp) \<or>
     (case Option.bind (sn_reads snmp) rd_community of
        None \<Rightarrow> False | Some c \<Rightarrow> List.member (c_allowed_hosts c) HostAuto) \<or>
     reads_default snmp"

definition replace_auto :: "allowed_host \<Rightarrow> snmp_community \<Rightarrow> snmp_community" where
  "replace_auto here c =
     c\<lparr>c_allowed_hosts := map (\<lambda>h. if h = HostAuto then here else h) (c_allowed_hosts c)\<rparr>"

definition resolve_auto_hosts :: "(ip_addr \<Rightarrow> string option) \<Rightarrow> switch_config \<Rightarrow> hosts_error + switch_config" where
  "resolve_auto_hosts route sw =
     (case s_snmp sw of
        None \<Rightarrow> Inr sw
      | Some snmp \<Rightarrow>
          if \<not> needs_resolution snmp then Inr sw
          else
            and_then (local_address_towards route (case s_management_ip sw of None \<Rightarrow> [] | Some a \<Rightarrow> a))
              (\<lambda>local.
                let here = Network local;
                    reads' = map_option (\<lambda>r. r\<lparr>rd_community :=
                        map_option (\<lambda>c. replace_auto here
                          (if reads_default snmp then c\<lparr>c_allowed_hosts := [here]\<rparr> else c))
                          (rd_community r)\<rparr>) (sn_reads snmp)
                in Inr (sw\<lparr>s_snmp := Some (snmp\<lparr>
                      sn_communities := map (replace_auto here) (sn_communities snmp),
                      sn_reads := reads'\<rparr>)\<rparr>)))"

section \<open>Resolution of secrets\<close>

lemma validate_value_usable: "validate_value raw sid label = Inr v \<Longrightarrow> usable_secret v"
  by (auto simp: validate_value_def usable_secret_def Let_def List.member_iff split: if_splits)

lemma reference_value_usable:
  "reference_value env sid label c = Some (Inr v) \<Longrightarrow> usable_secret v"
  by (auto simp: reference_value_def read_secret_file_def read_credential_def
      dest: validate_value_usable split: option.splits if_splits)

lemma reference_value_cong:
  "c_name_file c' = c_name_file c \<Longrightarrow> c_name_credential c' = c_name_credential c \<Longrightarrow>
     reference_value env sid label c' = reference_value env sid label c"
  by (simp add: reference_value_def)

lemma reference_value_None_iff: "reference_value env sid label c = None \<longleftrightarrow> \<not> has_reference c"
  by (auto simp: reference_value_def has_reference_def split: option.splits)

lemma set_register_secret: "set (register_secret v registry) = set registry \<union> (if v = [] then {} else {v})"
  by (simp add: register_secret_def)

lemma register_known: "v \<in> set registry \<Longrightarrow> register_secret v registry = registry"
  by (simp add: register_secret_def)

text \<open>A community as a successful resolution leaves it, with the registry \<open>R\<close> of known secrets.\<close>

definition resolved_in :: "secret_env \<Rightarrow> string \<Rightarrow> string list \<Rightarrow> string \<times> snmp_community \<Rightarrow> bool" where
  "resolved_in env sid R lc \<longleftrightarrow>
     (case reference_value env sid (fst lc) (snd lc) of
        None \<Rightarrow> True
      | Some r \<Rightarrow> r = Inr (c_name (snd lc)) \<and> usable_secret (c_name (snd lc)) \<and> c_name (snd lc) \<in> set R)"

lemma resolve_community_resolved:
  assumes "resolve_community env sid (label, c) R = Inr (c', R')"
  shows "resolved_in env sid R' (label, c')" and "set R \<subseteq> set R'"
    and "c_name_file c' = c_name_file c" and "c_name_credential c' = c_name_credential c"
    and "c_access c' = c_access c" and "c_allowed_hosts c' = c_allowed_hosts c"
    and "\<not> has_reference c \<Longrightarrow> c' = c"
proof -
  consider "reference_value env sid label c = None" "c' = c" "R' = R"
    | v where "reference_value env sid label c = Some (Inr v)" "c' = c\<lparr>c_name := v\<rparr>" "R' = register_secret v R"
    using assms by (auto simp: resolve_community_def res_simps split: option.splits if_splits)
  then have "resolved_in env sid R' (label, c') \<and> set R \<subseteq> set R' \<and> c_name_file c' = c_name_file c \<and>
        c_name_credential c' = c_name_credential c \<and> c_access c' = c_access c \<and>
        c_allowed_hosts c' = c_allowed_hosts c \<and> (\<not> has_reference c \<longrightarrow> c' = c)"
  proof cases
    case 1
    then show ?thesis by (simp add: resolved_in_def)
  next
    case (2 v)
    from 2(1) have "usable_secret v" by (rule reference_value_usable)
    moreover from 2(1) have "has_reference c"
      using reference_value_None_iff [of env sid label c] by simp
    moreover have "reference_value env sid label (c\<lparr>c_name := v\<rparr>) = Some (Inr v)"
      using 2(1) by (simp add: reference_value_def)
    ultimately show ?thesis
      using 2(2,3) by (auto simp: resolved_in_def set_register_secret usable_secret_def)
  qed
  then show "resolved_in env sid R' (label, c')" and "set R \<subseteq> set R'"
    and "c_name_file c' = c_name_file c" and "c_name_credential c' = c_name_credential c"
    and "c_access c' = c_access c" and "c_allowed_hosts c' = c_allowed_hosts c"
    and "\<not> has_reference c \<Longrightarrow> c' = c"
    by simp_all
qed

lemma resolve_community_stable:
  "resolved_in env sid R (label, c) \<Longrightarrow> resolve_community env sid (label, c) R = Inr (c, R)"
  by (auto simp: resolved_in_def resolve_community_def register_known split: option.splits)

lemma resolved_in_mono: "resolved_in env sid R lc \<Longrightarrow> set R \<subseteq> set R' \<Longrightarrow> resolved_in env sid R' lc"
  by (auto simp: resolved_in_def split: option.splits)

lemma resolve_loop_resolved:
  assumes "resolve_loop env sid lcs R = (None, cs, R')"
  shows "length cs = length lcs \<and> set R \<subseteq> set R' \<and>
         list_all (resolved_in env sid R') (zip (map fst lcs) cs) \<and>
         list_all2 (\<lambda>lc c. c_name_file c = c_name_file (snd lc) \<and> c_name_credential c = c_name_credential (snd lc) \<and>
           c_access c = c_access (snd lc) \<and> c_allowed_hosts c = c_allowed_hosts (snd lc) \<and>
           (has_reference (snd lc) \<or> c = snd lc)) lcs cs"
  using assms
proof (induction lcs arbitrary: R cs)
  case (Cons lc lcs)
  obtain label c0 where lc: "lc = (label, c0)" by (cases lc)
  from Cons.prems obtain c R1 cs' where
    step: "resolve_community env sid (label, c0) R = Inr (c, R1)"
    and loop: "resolve_loop env sid lcs R1 = (None, cs', R')" and cs: "cs = c # cs'"
    by (auto simp: lc split: sum.splits prod.splits)
  note r = resolve_community_resolved [OF step]
  note ih = Cons.IH [OF loop]
  have "resolved_in env sid R' (label, c)" using r(1) ih by (blast intro: resolved_in_mono)
  with r ih show ?case unfolding lc cs by auto
qed simp

lemma resolve_loop_stable:
  "list_all (resolved_in env sid R) lcs \<Longrightarrow> resolve_loop env sid lcs R = (None, map snd lcs, R)"
  by (induction lcs) (auto simp: resolve_community_stable)

lemma labels_enumerate: "listed_labelled snmp = zip (map community_label [0 ..< length (sn_communities snmp)]) (sn_communities snmp)"
  by (rule nth_equalityI) (auto simp: listed_labelled_def nth_enumerate_eq length_enumerate)

lemma listed_relabel:
  "length cs = length (sn_communities snmp) \<Longrightarrow>
     listed_labelled (snmp\<lparr>sn_communities := cs\<rparr>) = zip (map fst (listed_labelled snmp)) cs"
  by (simp add: labels_enumerate)

lemma length_listed [simp]: "length (listed_labelled snmp) = length (sn_communities snmp)"
  by (simp add: labels_enumerate)

lemma resolved_source_ok:
  "check_source sid (label, c) = None \<Longrightarrow> c_name_file c' = c_name_file c \<Longrightarrow>
     c_name_credential c' = c_name_credential c \<Longrightarrow> has_reference c \<or> c' = c \<Longrightarrow>
     check_source sid (label, c') = None"
  by (auto simp: check_source_def has_reference_def split: if_splits)

definition fully_resolved :: "secret_env \<Rightarrow> string list \<Rightarrow> switch_config \<Rightarrow> bool" where
  "fully_resolved env R sw \<longleftrightarrow>
     (case s_snmp sw of
        None \<Rightarrow> True
      | Some snmp \<Rightarrow> list_all (resolved_in env (s_id sw) R) (labelled_communities snmp))"

lemma listed_snd: "map snd (listed_labelled snmp) = sn_communities snmp"
  by (simp add: labels_enumerate)

lemma reads_auto_Some:
  "reads_auto_community snmp = Some c \<longleftrightarrow>
     (\<exists>r. sn_reads snmp = Some r \<and> rd_mode r = ReadsAuto \<and> rd_community r = Some c)"
  by (auto simp: reads_auto_community_def split: option.splits)

lemma reads_auto_frame [simp]:
  "reads_auto_community (snmp\<lparr>sn_communities := cs\<rparr>) = reads_auto_community snmp"
  by (simp add: reads_auto_community_def)

lemma reads_auto_with:
  "reads_auto_community snmp = Some c \<Longrightarrow> reads_auto_community (with_reads_community snmp c') = Some c'"
  by (auto simp: reads_auto_community_def with_reads_community_def split: option.splits)

lemma with_reads_same: "reads_auto_community snmp = Some c \<Longrightarrow> with_reads_community snmp c = snmp"
  by (cases snmp) (auto simp: reads_auto_community_def with_reads_community_def split: option.splits if_splits)

lemma listed_with_reads [simp]: "listed_labelled (with_reads_community snmp c) = listed_labelled snmp"
  by (simp add: listed_labelled_def with_reads_community_def)

lemma checked_listed:
  assumes "\<forall>lc \<in> set lcs. check_source sid lc = None"
    and "list_all2 (\<lambda>lc c. c_name_file c = c_name_file (snd lc) \<and>
           c_name_credential c = c_name_credential (snd lc) \<and> c_access c = c_access (snd lc) \<and>
           c_allowed_hosts c = c_allowed_hosts (snd lc) \<and> (has_reference (snd lc) \<or> c = snd lc)) lcs cs"
  shows "\<forall>lc \<in> set (zip (map fst lcs) cs). check_source sid lc = None"
  using assms
proof (induction lcs arbitrary: cs)
  case (Cons lc lcs)
  from Cons.prems(2) obtain c cs' where cs: "cs = c # cs'"
    and c: "c_name_file c = c_name_file (snd lc)" "c_name_credential c = c_name_credential (snd lc)"
           "has_reference (snd lc) \<or> c = snd lc"
    and rest: "list_all2 (\<lambda>lc c. c_name_file c = c_name_file (snd lc) \<and>
           c_name_credential c = c_name_credential (snd lc) \<and> c_access c = c_access (snd lc) \<and>
           c_allowed_hosts c = c_allowed_hosts (snd lc) \<and> (has_reference (snd lc) \<or> c = snd lc)) lcs cs'"
    by (auto simp: list_all2_Cons1)
  have "check_source sid (fst lc, c) = None"
    using resolved_source_ok [of sid "fst lc" "snd lc" c] Cons.prems(1) c by simp
  with Cons.IH [OF _ rest] Cons.prems(1) show ?case by (simp add: cs)
qed simp

lemma resolve_snmp_secrets_resolved:
  assumes "resolve_snmp_secrets env (sw, R) = (None, (sw', R'))"
  shows "check_snmp_secret_sources sw' = Inr () \<and> fully_resolved env R' sw'"
proof (cases "s_snmp sw")
  case None
  with assms show ?thesis
    by (auto simp: resolve_snmp_secrets_def check_snmp_secret_sources_def fully_resolved_def)
next
  case (Some snmp)
  let ?ls = "listed_labelled snmp"
  from assms Some have src: "\<forall>lc \<in> set (labelled_communities snmp). check_source (s_id sw) lc = None"
    by (auto simp: resolve_snmp_secrets_def check_snmp_secret_sources_def res_simps split: sum.splits)
  from assms Some obtain cs R1 where loop: "resolve_loop env (s_id sw) ?ls R = (None, cs, R1)"
    and rest: "(reads_auto_community snmp = None \<and> R' = R1 \<and> sw' = sw\<lparr>s_snmp := Some (snmp\<lparr>sn_communities := cs\<rparr>)\<rparr>) \<or>
       (\<exists>c c'. reads_auto_community snmp = Some c \<and>
          resolve_community env (s_id sw) (reads_label, c) R1 = Inr (c', R') \<and>
          sw' = sw\<lparr>s_snmp := Some (with_reads_community (snmp\<lparr>sn_communities := cs\<rparr>) c')\<rparr>)"
    by (auto simp: resolve_snmp_secrets_def Let_def split: sum.splits prod.splits option.splits)
  note l = resolve_loop_resolved [OF loop]
  let ?zs = "zip (map fst ?ls) cs"
  from l have relab: "listed_labelled (snmp\<lparr>sn_communities := cs\<rparr>) = ?zs"
    by (simp add: listed_relabel)
  from l src have chk: "\<forall>lc \<in> set ?zs. check_source (s_id sw) lc = None"
    by (intro checked_listed) (simp_all add: labelled_communities_def)
  from rest show ?thesis
  proof (elim disjE exE conjE)
    assume "reads_auto_community snmp = None" "R' = R1" "sw' = sw\<lparr>s_snmp := Some (snmp\<lparr>sn_communities := cs\<rparr>)\<rparr>"
    with l chk show ?thesis
      by (simp add: check_snmp_secret_sources_def fully_resolved_def labelled_communities_def relab res_simps)
  next
    fix c c'
    assume c: "reads_auto_community snmp = Some c"
      and step: "resolve_community env (s_id sw) (reads_label, c) R1 = Inr (c', R')"
      and sw': "sw' = sw\<lparr>s_snmp := Some (with_reads_community (snmp\<lparr>sn_communities := cs\<rparr>) c')\<rparr>"
    note r = resolve_community_resolved [OF step]
    have "labelled_communities (with_reads_community (snmp\<lparr>sn_communities := cs\<rparr>) c') = ?zs @ [(reads_label, c')]"
      using c reads_auto_with [of "snmp\<lparr>sn_communities := cs\<rparr>" c c'] by (simp add: labelled_communities_def relab)
    moreover have "check_source (s_id sw) (reads_label, c') = None"
      using resolved_source_ok [OF _ r(3,4)] r(7) src c by (auto simp: labelled_communities_def)
    moreover have "list_all (resolved_in env (s_id sw) R') ?zs"
      using l r(2) by (auto simp: list_all_iff intro: resolved_in_mono)
    ultimately show ?thesis
      using chk r(1) by (simp add: sw' check_snmp_secret_sources_def fully_resolved_def ball_Un res_simps)
  qed
qed

lemma resolve_snmp_secrets_stable:
  assumes "check_snmp_secret_sources sw = Inr ()" and "fully_resolved env R sw"
  shows "resolve_snmp_secrets env (sw, R) = (None, (sw, R))"
proof (cases "s_snmp sw")
  case None
  with assms(1) show ?thesis by (simp add: resolve_snmp_secrets_def)
next
  case (Some snmp)
  have same: "snmp\<lparr>sn_communities := sn_communities snmp\<rparr> = snmp" "sw\<lparr>s_snmp := Some snmp\<rparr> = sw"
    using Some by simp_all
  from assms(2) Some have "list_all (resolved_in env (s_id sw) R) (listed_labelled snmp)"
    by (simp add: fully_resolved_def labelled_communities_def)
  then have loop: "resolve_loop env (s_id sw) (listed_labelled snmp) R = (None, sn_communities snmp, R)"
    using resolve_loop_stable listed_snd by metis
  show ?thesis
  proof (cases "reads_auto_community snmp")
    case None
    with assms(1) Some loop same show ?thesis by (simp add: resolve_snmp_secrets_def Let_def)
  next
    case c: (Some c)
    with assms(2) Some have "resolved_in env (s_id sw) R (reads_label, c)"
      by (simp add: fully_resolved_def labelled_communities_def)
    with c assms(1) Some loop same show ?thesis
      by (simp add: resolve_snmp_secrets_def Let_def resolve_community_stable with_reads_same)
  qed
qed

text \<open>Resolving the community secrets a second time changes nothing: neither the switch, nor the
  registry of known secrets, and it does not fail. In particular the check that an inline value and its
  reference agree accepts the values the first resolution filled in.\<close>

theorem resolve_snmp_secrets_idempotent:
  assumes "fst (resolve_snmp_secrets env st) = None"
  shows "resolve_snmp_secrets env (snd (resolve_snmp_secrets env st)) = resolve_snmp_secrets env st"
proof -
  obtain sw R sw' R' where eq: "resolve_snmp_secrets env (sw, R) = (None, (sw', R'))" "st = (sw, R)"
    using assms by (cases st; cases "resolve_snmp_secrets env st") auto
  from resolve_snmp_secrets_resolved [OF eq(1)]
  have "resolve_snmp_secrets env (sw', R') = (None, (sw', R'))"
    by (intro resolve_snmp_secrets_stable) simp_all
  with eq show ?thesis by simp
qed

definition example_secret_env :: secret_env where
  "example_secret_env =
     \<lparr> read_file = (\<lambda>path. if path = ''/creds/ro'' then Some (''hush'' @ [CHR 0x0A]) else None),
       credentials_dir = Some ''/creds'' \<rparr>"

definition example_snmp :: snmp_config where
  "example_snmp =
     \<lparr> sn_communities = [\<lparr>c_name = [], c_access = Manager, c_name_file = None,
          c_name_credential = Some ''ro'', c_allowed_hosts = []\<rparr>],
       sn_trap_receivers = [], sn_enabled_traps = [],
       sn_reads = Some \<lparr>rd_mode = ReadsAuto, rd_community = Some
          \<lparr>c_name = ''probe'', c_access = Operator, c_name_file = None, c_name_credential = None,
           c_allowed_hosts = []\<rparr>\<rparr> \<rparr>"

definition example_switch :: "switch_model option \<Rightarrow> snmp_config \<Rightarrow> switch_config" where
  "example_switch model snmp =
     \<lparr> s_id = ''sw1'', s_hostname = None, s_model = model, s_management_ip = Some ''10.0.0.2'',
       s_credentials = None, s_vlans = [], s_ports = [], s_port_mirrors = [], s_snmp = Some snmp,
       s_management_vlan = None, s_validation = None, s_vendor_specific = Map.empty,
       s_settings = default_settings \<rparr>"

lemma example_usable: "validate_value (''hush'' @ [CHR 0x0A]) sid label = Inr ''hush''"
  by (simp add: validate_value_def)

lemmas secret_eval =
  resolve_snmp_secrets_def check_snmp_secret_sources_def labelled_communities_def listed_labelled_def
  reads_auto_community_def check_source_def has_reference_def resolve_community_def reference_value_def
  read_credential_def path_join_def register_secret_def with_reads_community_def example_secret_env_def
  example_snmp_def example_switch_def

lemma example_resolves:
  "resolve_snmp_secrets example_secret_env (example_switch None example_snmp, []) =
     (None, (example_switch None (example_snmp\<lparr>sn_communities := [\<lparr>c_name = ''hush'', c_access = Manager,
        c_name_file = None, c_name_credential = Some ''ro'', c_allowed_hosts = []\<rparr>]\<rparr>), [''hush'']))"
  using example_usable by (simp add: secret_eval)

theorem resolve_snmp_secrets_idempotent_witness:
  "fst (resolve_snmp_secrets example_secret_env (example_switch None example_snmp, [])) = None \<and>
   resolve_snmp_secrets example_secret_env
     (snd (resolve_snmp_secrets example_secret_env (example_switch None example_snmp, []))) =
   resolve_snmp_secrets example_secret_env (example_switch None example_snmp, [])"
  using resolve_snmp_secrets_idempotent [of example_secret_env "(example_switch None example_snmp, [])"]
  by (simp add: example_resolves)

text \<open>C29: After a successful resolution every community that names a file or a credential holds the
  value found there, that value is not empty and contains neither a double quote nor a control
  character (so it can be put into a CLI command), and it is registered as a secret to redact.\<close>

theorem resolved_secrets_usable:
  assumes "resolve_snmp_secrets env (sw, R) = (None, (sw', R'))"
    and "s_snmp sw' = Some snmp" and "(label, c) \<in> set (labelled_communities snmp)" and "has_reference c"
  shows "reference_value env (s_id sw') label c = Some (Inr (c_name c)) \<and> usable_secret (c_name c) \<and>
         c_name c \<in> set R'"
proof -
  have "resolved_in env (s_id sw') R' (label, c)"
    using resolve_snmp_secrets_resolved [OF assms(1)] assms(2,3)
    by (simp add: fully_resolved_def list_all_iff)
  with assms(4) show ?thesis
    using reference_value_None_iff [of env "s_id sw'" label c]
    by (cases "reference_value env (s_id sw') label c") (simp_all add: resolved_in_def)
qed

theorem resolved_secrets_usable_witness:
  "usable_secret ''hush'' \<and>
   (community_label 0, \<lparr>c_name = ''hush'', c_access = Manager, c_name_file = None,
      c_name_credential = Some ''ro'', c_allowed_hosts = []\<rparr>)
     \<in> set (labelled_communities (example_snmp\<lparr>sn_communities := [\<lparr>c_name = ''hush'', c_access = Manager,
        c_name_file = None, c_name_credential = Some ''ro'', c_allowed_hosts = []\<rparr>]\<rparr>))"
proof -
  let ?c = "\<lparr>c_name = ''hush'', c_access = Manager, c_name_file = None,
      c_name_credential = Some ''ro'', c_allowed_hosts = []\<rparr>"
  have m: "(community_label 0, ?c) \<in> set (labelled_communities (example_snmp\<lparr>sn_communities := [?c]\<rparr>))"
    by (simp add: secret_eval)
  have r: "has_reference ?c" by (simp add: has_reference_def)
  have s: "s_snmp (example_switch None (example_snmp\<lparr>sn_communities := [?c]\<rparr>)) =
      Some (example_snmp\<lparr>sn_communities := [?c]\<rparr>)" by (simp add: example_switch_def)
  from resolved_secrets_usable [OF example_resolves s m r] m show ?thesis by simp
qed

section \<open>Allowed managers\<close>

lemma reads_enabled_iff:
  "reads_enabled sw \<longleftrightarrow> (\<exists>snmp c. s_snmp sw = Some snmp \<and> reads_auto_community snmp = Some c)"
  by (auto simp: reads_enabled_def reads_auto_community_def split: option.splits)

lemma replace_auto_hosts:
  "set (c_allowed_hosts (replace_auto (Network a) c)) \<subseteq> insert (Network a) (set (c_allowed_hosts c) - {HostAuto})"
  "c_allowed_hosts (replace_auto h c) = [] \<longleftrightarrow> c_allowed_hosts c = []"
  by (auto simp: replace_auto_def)

definition snmp_all_communities :: "snmp_config \<Rightarrow> snmp_community set" where
  "snmp_all_communities snmp =
     set (sn_communities snmp) \<union>
     (case Option.bind (sn_reads snmp) rd_community of None \<Rightarrow> {} | Some c \<Rightarrow> {c})"

lemma replace_auto_no_auto: "HostAuto \<notin> set (c_allowed_hosts (replace_auto (Network a) c))"
  using replace_auto_hosts(1) [of a c] by auto

lemma resolve_auto_hosts_InrD:
  assumes "resolve_auto_hosts route sw = Inr sw'" and "s_snmp sw' = Some snmp"
  obtains (unchanged) "s_snmp sw = Some snmp" "\<not> needs_resolution snmp"
  | (replaced) snmp0 a where "s_snmp sw = Some snmp0"
      "sn_communities snmp = map (replace_auto (Network a)) (sn_communities snmp0)"
      "sn_reads snmp = map_option (\<lambda>r. r\<lparr>rd_community := map_option (\<lambda>c. replace_auto (Network a)
         (if reads_default snmp0 then c\<lparr>c_allowed_hosts := [Network a]\<rparr> else c)) (rd_community r)\<rparr>) (sn_reads snmp0)"
proof (cases "s_snmp sw")
  case None
  with assms show ?thesis by (simp add: resolve_auto_hosts_def)
next
  case (Some snmp0)
  show ?thesis
  proof (cases "needs_resolution snmp0")
    case False
    with assms Some show ?thesis by (intro unchanged) (auto simp: resolve_auto_hosts_def)
  next
    case True
    with assms Some obtain a where "snmp = snmp0\<lparr>sn_communities := map (replace_auto (Network a)) (sn_communities snmp0),
        sn_reads := map_option (\<lambda>r. r\<lparr>rd_community := map_option (\<lambda>c. replace_auto (Network a)
          (if reads_default snmp0 then c\<lparr>c_allowed_hosts := [Network a]\<rparr> else c)) (rd_community r)\<rparr>) (sn_reads snmp0)\<rparr>"
      by (auto simp: resolve_auto_hosts_def Let_def res_simps)
    then show ?thesis by (intro replaced [OF Some, of a]) simp_all
  qed
qed

text \<open>After \<open>resolve_auto_hosts\<close> no community of the switch, the read community included, still
  lists the keyword \<open>auto\<close>: what is sent to a switch is a concrete address.\<close>

theorem auto_hosts_resolved:
  assumes "resolve_auto_hosts route sw = Inr sw'" and "s_snmp sw' = Some snmp"
    and "c \<in> snmp_all_communities snmp"
  shows "HostAuto \<notin> set (c_allowed_hosts c)"
  using assms(1,2)
proof (cases rule: resolve_auto_hosts_InrD)
  case unchanged
  with assms(3) show ?thesis
    by (auto simp: needs_resolution_def snmp_all_communities_def list_ex_iff split: option.splits)
next
  case (replaced snmp0 a)
  with assms(3) have "\<exists>c0. c = replace_auto (Network a) c0"
    by (cases "sn_reads snmp0"; cases "Option.bind (sn_reads snmp0) rd_community")
      (auto simp: snmp_all_communities_def)
  then show ?thesis using replace_auto_no_auto by blast
qed

definition localhost_route :: "ip_addr \<Rightarrow> string option" where
  "localhost_route _ = Some ''10.0.0.1''"

definition example_resolved :: snmp_config where
  "example_resolved = example_snmp\<lparr>sn_reads := Some \<lparr>rd_mode = ReadsAuto, rd_community = Some
     \<lparr>c_name = ''probe'', c_access = Operator, c_name_file = None, c_name_credential = None,
      c_allowed_hosts = [Network ''10.0.0.1'']\<rparr>\<rparr>\<rparr>"

lemma parse_management_ip: "parse_ip (show_ipv4 0x0A000002) = Some (V4 0x0A000002)"
  by (rule parse_ip_show)

lemma show_management_ip: "show_ipv4 0x0A000002 = ''10.0.0.2''"
  by (simp add: show_ipv4_def Let_def num_eval)

lemma example_hosts:
  "resolve_auto_hosts localhost_route (example_switch model example_snmp) =
     Inr (example_switch model example_resolved)"
  using parse_management_ip
  by (simp add: resolve_auto_hosts_def needs_resolution_def reads_default_def example_switch_def
      example_snmp_def example_resolved_def local_address_towards_def show_management_ip
      localhost_route_def replace_auto_def)

theorem auto_hosts_resolved_witness:
  "resolve_auto_hosts localhost_route (example_switch None example_snmp) =
     Inr (example_switch None example_resolved) \<and>
   snmp_all_communities example_resolved \<noteq> {} \<and>
   HostAuto \<notin> (\<Union>c \<in> snmp_all_communities example_resolved. set (c_allowed_hosts c))"
proof -
  have "s_snmp (example_switch None example_resolved) = Some example_resolved"
    by (simp add: example_switch_def)
  from auto_hosts_resolved [OF example_hosts this] show ?thesis
    by (auto simp: example_hosts snmp_all_communities_def example_resolved_def)
qed

text \<open>A switch the service reads by itself never gets an unrestricted read community from it: once
  \<open>resolve_auto_hosts\<close> succeeded, the read community of every switch with reads on lists at least
  one manager.\<close>

theorem read_community_restricted:
  assumes "resolve_auto_hosts route sw = Inr sw'" and "s_snmp sw' = Some snmp"
    and "reads_auto_community snmp = Some c"
  shows "c_allowed_hosts c \<noteq> []"
  using assms(1,2)
proof (cases rule: resolve_auto_hosts_InrD)
  case unchanged
  with assms(3) show ?thesis by (auto simp: needs_resolution_def reads_default_def reads_auto_Some)
next
  case (replaced snmp0 a)
  with assms(3) obtain r c0 where r: "sn_reads snmp0 = Some r" "rd_mode r = ReadsAuto" "rd_community r = Some c0"
    and c: "c = replace_auto (Network a) (if reads_default snmp0 then c0\<lparr>c_allowed_hosts := [Network a]\<rparr> else c0)"
    by (auto simp: reads_auto_Some)
  then show ?thesis
    by (cases "reads_default snmp0") (simp_all add: replace_auto_hosts(2) reads_default_def)
qed

theorem read_community_restricted_witness:
  "\<exists>c. reads_auto_community example_resolved = Some c \<and> c_allowed_hosts c \<noteq> []"
proof -
  have "s_snmp (example_switch None example_resolved) = Some example_resolved"
    by (simp add: example_switch_def)
  from read_community_restricted [OF example_hosts this] show ?thesis
    by (simp add: reads_auto_community_def example_resolved_def)
qed

lemma effective_snmp_enabled:
  assumes "s_snmp sw = Some snmp" and "reads_auto_community snmp = Some c"
  shows "effective_snmp sw = Some (if \<exists>d \<in> set (sn_communities snmp). c_name d = c_name c then snmp
           else snmp\<lparr>sn_communities := sn_communities snmp @ [c\<lparr>c_access := Operator\<rparr>]\<rparr>)"
  using assms
  by (auto simp: effective_snmp_def reads_enabled_iff reads_auto_Some Let_def list_ex_iff)

lemma effective_snmp_disabled: "\<not> reads_enabled sw \<Longrightarrow> effective_snmp sw = s_snmp sw"
  by (simp add: effective_snmp_def split: option.splits)

text \<open>On a vendor without manager restrictions (all but FortiSwitch) a switch that passes
  \<open>check_vendor_support\<close> asks for none: no community to be configured on it lists allowed hosts, so
  none of them is silently left unrestricted.\<close>

theorem vendor_support_no_hosts:
  assumes "check_vendor_support sw = Inr u" and "s_model sw = Some m" and "model_vendor m \<noteq> Fortiswitch"
    and "effective_snmp sw = Some snmp" and "c \<in> set (sn_communities snmp)"
  shows "c_allowed_hosts c = []"
proof -
  from assms(1-3) have off: "\<not> reads_enabled sw"
    by (auto simp: check_vendor_support_def Let_def split: if_splits)
  with assms(4) have "s_snmp sw = Some snmp" by (simp add: effective_snmp_disabled)
  with assms off show ?thesis
    by (auto simp: check_vendor_support_def Let_def list_ex_iff split: if_splits)
qed

theorem vendor_support_no_hosts_witness:
  "check_vendor_support (example_switch (Some Aruba2930F) (example_snmp\<lparr>sn_reads := None\<rparr>)) = Inr () \<and>
   c_allowed_hosts (hd (sn_communities example_snmp)) = []"
proof -
  let ?sw = "example_switch (Some Aruba2930F) (example_snmp\<lparr>sn_reads := None\<rparr>)"
  have v: "check_vendor_support ?sw = Inr ()"
    by (simp add: check_vendor_support_def reads_enabled_def example_switch_def example_snmp_def)
  have e: "effective_snmp ?sw = Some (example_snmp\<lparr>sn_reads := None\<rparr>)"
    by (simp add: effective_snmp_def reads_enabled_def example_switch_def)
  have m: "s_model ?sw = Some Aruba2930F" "model_vendor Aruba2930F \<noteq> Fortiswitch"
    by (simp_all add: example_switch_def)
  have c: "hd (sn_communities example_snmp) \<in> set (sn_communities (example_snmp\<lparr>sn_reads := None\<rparr>))"
    by (simp add: example_snmp_def)
  from v vendor_support_no_hosts [OF v m e c] show ?thesis by simp
qed

end
