(* ===== verification/Diff.thy ===== *)
theory Diff
  imports Snmp_Policy
begin

text \<open>
  The differences between the state read from a switch and its configuration (\<open>diff/mod.rs\<close>): one
  definition per function of the source, on the tables it builds, and \<open>compute_diff\<close>. The tables
  are hash maps, so each iteration goes through \<open>hash_iter\<close>, the iteration orders of one run. The
  locale \<open>keyed_diff\<close> states what a table difference promises and is interpreted for VLANs,
  mirrors, communities, trap receivers and traps; \<open>apply_diff\<close> is the abstract effect on a switch
  of carrying a difference out.
\<close>

section \<open>Sets and maps with an undetermined order\<close>

datatype side = CurrentSide | DesiredSide

record hash_iter =
  it_vlans :: "side \<Rightarrow> u16 list \<Rightarrow> u16 list"
  it_ports :: "side \<Rightarrow> string list \<Rightarrow> string list"
  it_mirrors :: "side \<Rightarrow> string list \<Rightarrow> string list"
  it_communities :: "side \<Rightarrow> string list \<Rightarrow> string list"
  it_receivers :: "side \<Rightarrow> string list \<Rightarrow> string list"
  it_traps :: "side \<Rightarrow> trap_type list \<Rightarrow> trap_type list"

definition hash_iter_ok :: "hash_iter \<Rightarrow> bool" where
  "hash_iter_ok it \<longleftrightarrow>
     (\<forall>s. iterates (it_vlans it s) \<and> iterates (it_ports it s) \<and> iterates (it_mirrors it s) \<and>
          iterates (it_communities it s) \<and> iterates (it_receivers it s) \<and> iterates (it_traps it s))"

text \<open>\<open>HashSet::difference\<close> iterates over the first set, \<open>HashSet::intersection\<close> over the smaller.\<close>

definition hash_difference :: "'k list \<Rightarrow> 'k list \<Rightarrow> 'k list" where
  "hash_difference xs ys = filter (\<lambda>k. k \<notin> set ys) xs"

definition hash_intersection :: "'k list \<Rightarrow> 'k list \<Rightarrow> 'k list" where
  "hash_intersection xs ys =
     (if length xs \<le> length ys then filter (\<lambda>k. k \<in> set ys) xs else filter (\<lambda>k. k \<in> set xs) ys)"

section \<open>VLANs\<close>

definition vlans_equivalent_for_model :: "vlan \<Rightarrow> vlan \<Rightarrow> bool \<Rightarrow> bool" where
  "vlans_equivalent_for_model current desired describes \<longleftrightarrow>
     v_id current = v_id desired \<and> v_name current = v_name desired \<and>
     v_ip_config current = v_ip_config desired \<and>
     (describes \<longrightarrow> v_description current = v_description desired)"

definition changed_entry ::
  "('a \<Rightarrow> 'a \<Rightarrow> bool) \<Rightarrow> ('k \<rightharpoonup> 'a) \<Rightarrow> ('k \<rightharpoonup> 'a) \<Rightarrow> 'k \<Rightarrow> 'a option" where
  "changed_entry same cur des k =
     (case (cur k, des k) of
        (Some c, Some d) \<Rightarrow> if \<not> same c d then Some d else None
      | _ \<Rightarrow> None)"

text \<open>The three loops of \<open>diff_vlans\<close>: what they push.\<close>

definition vlan_changes ::
  "hash_iter \<Rightarrow> bool \<Rightarrow> vlan list \<Rightarrow> vlan list \<Rightarrow> vlan list \<times> u16 list \<times> vlan list" where
  "vlan_changes it describes cur des =
     (let current_vlans = collect v_id cur;
          desired_vlans = collect v_id des;
          current_ids = it_vlans it CurrentSide (hash_keys v_id cur);
          desired_ids = it_vlans it DesiredSide (hash_keys v_id des)
      in (List.map_filter desired_vlans (hash_difference desired_ids current_ids),
          filter (\<lambda>i. i \<noteq> 1) (hash_difference current_ids desired_ids),
          List.map_filter
            (changed_entry (\<lambda>c d. vlans_equivalent_for_model c d describes)
               current_vlans desired_vlans)
            (hash_intersection current_ids desired_ids)))"

definition model_supports :: "(switch_model \<Rightarrow> bool) \<Rightarrow> switch_config \<Rightarrow> bool" where
  "model_supports f desired = (case s_model desired of None \<Rightarrow> True | Some m \<Rightarrow> f m)"

definition diff_vlans :: "hash_iter \<Rightarrow> switch_state \<Rightarrow> switch_config \<Rightarrow> state_diff \<Rightarrow> state_diff" where
  "diff_vlans it current desired diff =
     (case vlan_changes it (model_supports supports_vlan_description desired)
             (st_vlans current) (s_vlans desired) of
        (add, remove, update) \<Rightarrow>
          diff\<lparr>vlans_to_add := vlans_to_add diff @ add,
               vlans_to_remove := vlans_to_remove diff @ remove,
               vlans_to_update := vlans_to_update diff @ update\<rparr>)"

section \<open>Ports\<close>

definition is_port_in_default_state :: "port \<Rightarrow> bool" where
  "is_port_in_default_state port \<longleftrightarrow>
     \<not> p_enabled port \<and> p_vlan port = 1 \<and> inferred_mode port = Access \<and>
     (case p_description port of None \<Rightarrow> True | Some d \<Rightarrow> d = []) \<and>
     p_tagged_vlans port = [] \<and> \<not> p_mac_notify port"

definition ports_equivalent_for_model :: "port \<Rightarrow> port \<Rightarrow> bool \<Rightarrow> bool" where
  "ports_equivalent_for_model current desired poe =
     (if p_port_id current \<noteq> p_port_id desired \<or> p_vlan current \<noteq> p_vlan desired \<or>
         p_description current \<noteq> p_description desired \<or> p_enabled current \<noteq> p_enabled desired \<or>
         p_mac_notify current \<noteq> p_mac_notify desired \<or>
         p_speed_duplex current \<noteq> p_speed_duplex desired
      then False
      else if poe \<and> p_poe_enabled current \<noteq> p_poe_enabled desired then False
      else
        (let current_tagged = filter (\<lambda>v. v \<noteq> p_vlan current) (p_tagged_vlans current);
             desired_tagged = filter (\<lambda>v. v \<noteq> p_vlan desired) (p_tagged_vlans desired)
         in if current_tagged \<noteq> desired_tagged then False
            else if current_tagged = [] \<and> desired_tagged = [] then True
            else inferred_mode current = inferred_mode desired))"

definition ports_equivalent :: "port \<Rightarrow> port \<Rightarrow> bool" where
  "ports_equivalent current desired = ports_equivalent_for_model current desired True"

definition port_needs_config :: "bool \<Rightarrow> port list \<Rightarrow> port \<Rightarrow> bool" where
  "port_needs_config poe cur p =
     (case collect p_port_id cur (p_port_id p) of
        Some c \<Rightarrow> \<not> ports_equivalent_for_model c p poe
      | None \<Rightarrow> True)"

text \<open>The loop over the ports that are on the switch and not in the configuration.\<close>

definition reset_ports :: "hash_iter \<Rightarrow> port list \<Rightarrow> port list \<Rightarrow> port_mirror list \<Rightarrow> string list" where
  "reset_ports it cur des mirrors =
     filter (\<lambda>i. i \<notin> set (map m_destination_port mirrors) \<and>
                 \<not> (case collect p_port_id cur i of Some c \<Rightarrow> is_port_in_default_state c | None \<Rightarrow> False))
       (hash_difference (it_ports it CurrentSide (hash_keys p_port_id cur)) (hash_keys p_port_id des))"

definition diff_ports ::
  "hash_iter \<Rightarrow> switch_state \<Rightarrow> switch_config \<Rightarrow> bool \<Rightarrow> state_diff \<Rightarrow> state_diff" where
  "diff_ports it current desired enforce diff =
     (let diff' = diff\<lparr>ports_to_configure := ports_to_configure diff @
            filter (port_needs_config (model_supports supports_poe desired) (st_ports current)) (s_ports desired)\<rparr>
      in if enforce
         then diff'\<lparr>ports_to_reset := ports_to_reset diff' @
                reset_ports it (st_ports current) (s_ports desired) (s_port_mirrors desired)\<rparr>
         else diff')"

section \<open>Port mirrors\<close>

definition mirror_changes ::
  "hash_iter \<Rightarrow> port_mirror list \<Rightarrow> port_mirror list \<Rightarrow> port_mirror list \<times> string list \<times> port_mirror list" where
  "mirror_changes it cur des =
     (let current_mirrors = collect m_session_id cur;
          desired_mirrors = collect m_session_id des;
          current_ids = it_mirrors it CurrentSide (hash_keys m_session_id cur);
          desired_ids = it_mirrors it DesiredSide (hash_keys m_session_id des)
      in (List.map_filter desired_mirrors (hash_difference desired_ids current_ids),
          hash_difference current_ids desired_ids,
          List.map_filter (changed_entry (=) current_mirrors desired_mirrors)
            (hash_intersection current_ids desired_ids)))"

definition is_baseline :: "port \<Rightarrow> bool" where
  "is_baseline port \<longleftrightarrow>
     p_vlan port = 1 \<and> p_enabled port \<and> inferred_mode port = Access \<and> p_tagged_vlans port = []"

fun dest_ports_to_configure :: "port list \<Rightarrow> string list \<Rightarrow> port_mirror list \<Rightarrow> string list" where
  "dest_ports_to_configure cur seen [] = []"
| "dest_ports_to_configure cur seen (m # ms) =
     (let dest = m_destination_port m in
      if dest \<in> set seen then dest_ports_to_configure cur seen ms
      else (if (case collect p_port_id cur dest of Some p \<Rightarrow> \<not> is_baseline p | None \<Rightarrow> True)
            then [dest] else [])
           @ dest_ports_to_configure cur (dest # seen) ms)"

definition diff_mirrors :: "hash_iter \<Rightarrow> switch_state \<Rightarrow> switch_config \<Rightarrow> state_diff \<Rightarrow> state_diff" where
  "diff_mirrors it current desired diff =
     (case mirror_changes it (st_port_mirrors current) (s_port_mirrors desired) of
        (add, remove, update) \<Rightarrow>
          diff\<lparr>mirrors_to_add := mirrors_to_add diff @ add,
               mirrors_to_remove := mirrors_to_remove diff @ remove,
               mirrors_to_update := mirrors_to_update diff @ update,
               mirror_dest_ports_to_configure := mirror_dest_ports_to_configure diff @
                 dest_ports_to_configure (st_ports current) [] (s_port_mirrors desired)\<rparr>)"

section \<open>SNMP\<close>

definition same_hosts :: "allowed_host list \<Rightarrow> allowed_host list \<Rightarrow> bool" where
  "same_hosts a b \<longleftrightarrow> sort (map host_to_string a) = sort (map host_to_string b)"

definition same_community :: "snmp_community \<Rightarrow> snmp_community \<Rightarrow> bool" where
  "same_community current desired \<longleftrightarrow>
     \<not> (c_access current \<noteq> c_access desired \<or>
        \<not> same_hosts (c_allowed_hosts current) (c_allowed_hosts desired))"

definition community_changes ::
  "hash_iter \<Rightarrow> snmp_community list \<Rightarrow> snmp_community list \<Rightarrow>
     snmp_community list \<times> string list \<times> snmp_community list" where
  "community_changes it cur des =
     (let current_communities = collect c_name cur;
          desired_communities = collect c_name des;
          current_names = it_communities it CurrentSide (hash_keys c_name cur);
          desired_names = it_communities it DesiredSide (hash_keys c_name des)
      in (sort_key c_name (List.map_filter desired_communities (hash_difference desired_names current_names)),
          sort (hash_difference current_names desired_names),
          sort_key c_name (List.map_filter
            (changed_entry same_community current_communities desired_communities) desired_names)))"

definition receiver_changes ::
  "hash_iter \<Rightarrow> snmp_trap_receiver list \<Rightarrow> snmp_trap_receiver list \<Rightarrow> snmp_trap_receiver list \<times> string list" where
  "receiver_changes it cur des =
     (let current_hosts = it_receivers it CurrentSide (hash_keys r_host cur);
          desired_hosts = it_receivers it DesiredSide (hash_keys r_host des)
      in (List.map_filter (collect r_host des) (hash_difference desired_hosts current_hosts),
          hash_difference current_hosts desired_hosts))"

definition trap_changes ::
  "hash_iter \<Rightarrow> trap_type list \<Rightarrow> trap_type list \<Rightarrow> trap_type list \<times> trap_type list" where
  "trap_changes it cur des =
     (let current_traps = it_traps it CurrentSide (remdups cur);
          desired_traps = it_traps it DesiredSide (remdups des)
      in (hash_difference desired_traps current_traps, hash_difference current_traps desired_traps))"

definition compute_snmp_diff :: "hash_iter \<Rightarrow> snmp_config \<Rightarrow> snmp_config \<Rightarrow> snmp_state_diff" where
  "compute_snmp_diff it current desired =
     (case community_changes it (sn_communities current) (sn_communities desired) of (cadd, crem, cupd) \<Rightarrow>
      case receiver_changes it (sn_trap_receivers current) (sn_trap_receivers desired) of (radd, rrem) \<Rightarrow>
      case trap_changes it (sn_enabled_traps current) (sn_enabled_traps desired) of (ton, toff) \<Rightarrow>
        \<lparr> communities_to_add = cadd, communities_to_remove = crem, communities_to_update = cupd,
          trap_receivers_to_add = radd, trap_receivers_to_remove = rrem,
          traps_to_enable = ton, traps_to_disable = toff \<rparr>)"

definition add_all_snmp :: "snmp_config \<Rightarrow> snmp_state_diff" where
  "add_all_snmp desired =
     \<lparr> communities_to_add = sn_communities desired, communities_to_remove = [], communities_to_update = [],
       trap_receivers_to_add = sn_trap_receivers desired, trap_receivers_to_remove = [],
       traps_to_enable = sn_enabled_traps desired, traps_to_disable = [] \<rparr>"

definition remove_all_snmp :: "snmp_config \<Rightarrow> snmp_state_diff" where
  "remove_all_snmp current =
     \<lparr> communities_to_add = [], communities_to_remove = map c_name (sn_communities current),
       communities_to_update = [], trap_receivers_to_add = [],
       trap_receivers_to_remove = map r_host (sn_trap_receivers current),
       traps_to_enable = [], traps_to_disable = sn_enabled_traps current \<rparr>"

definition diff_snmp :: "hash_iter \<Rightarrow> switch_state \<Rightarrow> switch_config \<Rightarrow> state_diff \<Rightarrow> state_diff" where
  "diff_snmp it current desired diff =
     (case (st_snmp current, effective_snmp desired) of
        (None, None) \<Rightarrow> diff\<lparr>snmp_config_changed := False, snmp_diff := None\<rparr>
      | (None, Some desired_config) \<Rightarrow>
          (let d = add_all_snmp desired_config in
           diff\<lparr>snmp_config_changed := snmp_has_changes d, snmp_diff := Some d,
                snmp_config_new := Some desired_config\<rparr>)
      | (Some current_config, None) \<Rightarrow>
          (let d = remove_all_snmp current_config in
           diff\<lparr>snmp_config_changed := snmp_has_changes d, snmp_diff := Some d, snmp_config_new := None\<rparr>)
      | (Some current_config, Some desired_config) \<Rightarrow>
          (let d = compute_snmp_diff it current_config desired_config in
           diff\<lparr>snmp_config_changed := snmp_has_changes d, snmp_diff := Some d,
                snmp_config_new := Some desired_config\<rparr>))"

section \<open>The whole difference\<close>

definition diff_management_vlan :: "switch_state \<Rightarrow> switch_config \<Rightarrow> state_diff \<Rightarrow> state_diff" where
  "diff_management_vlan current desired diff =
     (if st_management_vlan current \<noteq> s_management_vlan desired
      then diff\<lparr>management_vlan_changed := True, management_vlan_new := s_management_vlan desired\<rparr>
      else diff\<lparr>management_vlan_changed := False\<rparr>)"

definition compute_diff :: "hash_iter \<Rightarrow> switch_state \<Rightarrow> switch_config \<Rightarrow> bool \<Rightarrow> state_diff" where
  "compute_diff it current desired enforce =
     (diff_management_vlan current desired
       (diff_snmp it current desired
         (diff_mirrors it current desired
           (diff_ports it current desired enforce
             (diff_vlans it current desired default_diff)))))"

section \<open>Ports to move before VLANs are deleted\<close>

datatype port_migration_action =
    MoveAccessToVlan1
  | RemoveVlanFromTrunk "u16 list"

record port_migration =
  pm_port_id :: string
  pm_vlan_being_removed :: u16
  pm_action :: port_migration_action

text \<open>One round of the inner loop: the migration pushed for this VLAN, if any; then it breaks.\<close>

definition migration_for :: "u16 list \<Rightarrow> port \<Rightarrow> u16 \<Rightarrow> port_migration option" where
  "migration_for removed port i =
     (case inferred_mode port of
        Access \<Rightarrow>
          if p_vlan port = i
          then Some \<lparr>pm_port_id = p_port_id port, pm_vlan_being_removed = i, pm_action = MoveAccessToVlan1\<rparr>
          else None
      | Trunk \<Rightarrow>
          if List.member (p_tagged_vlans port) i
          then Some \<lparr>pm_port_id = p_port_id port, pm_vlan_being_removed = i,
                 pm_action = RemoveVlanFromTrunk (filter (\<lambda>v. v \<notin> set removed) (p_tagged_vlans port))\<rparr>
          else None)"

fun first_migration :: "u16 list \<Rightarrow> port \<Rightarrow> u16 list \<Rightarrow> port_migration list" where
  "first_migration removed port [] = []"
| "first_migration removed port (i # is) =
     (case migration_for removed port i of Some m \<Rightarrow> [m] | None \<Rightarrow> first_migration removed port is)"

definition find_ports_to_migrate :: "switch_state \<Rightarrow> u16 list \<Rightarrow> port_migration list" where
  "find_ports_to_migrate current removed =
     (if removed = [] then []
      else concat (map (\<lambda>port. first_migration removed port removed) (st_ports current)))"

section \<open>What a difference of two tables promises\<close>

text \<open>
  \<open>apply_table\<close> carries out additions, removals and updates on a table; two tables are in sync when
  every key of either side is on both, with entries that count as the same, but for exempt keys that
  may stay.
\<close>

definition apply_table :: "('a \<Rightarrow> 'k) \<Rightarrow> 'a list \<times> 'k list \<times> 'a list \<Rightarrow> 'a list \<Rightarrow> 'a list" where
  "apply_table key ch cur =
     (case ch of (a, r, u) \<Rightarrow>
        filter (\<lambda>x. key x \<notin> set r \<and> key x \<notin> key ` set u) cur @ u @ a)"

definition tables_in_sync ::
  "('a \<Rightarrow> 'k) \<Rightarrow> ('a \<Rightarrow> 'a \<Rightarrow> bool) \<Rightarrow> ('k \<Rightarrow> bool) \<Rightarrow> 'a list \<Rightarrow> 'a list \<Rightarrow> bool" where
  "tables_in_sync key same exempt cur des \<longleftrightarrow>
     (\<forall>k \<in> key ` set cur \<union> key ` set des.
        (case (collect key cur k, collect key des k) of
           (Some c, Some d) \<Rightarrow> same c d
         | (Some c, None) \<Rightarrow> exempt k
         | _ \<Rightarrow> False))"

locale keyed_diff =
  fixes key :: "'a \<Rightarrow> 'k"
    and same :: "'e \<Rightarrow> 'a \<Rightarrow> 'a \<Rightarrow> bool"
    and exempt :: "'k \<Rightarrow> bool"
    and ok :: "'e \<Rightarrow> bool"
    and changes :: "'e \<Rightarrow> 'a list \<Rightarrow> 'a list \<Rightarrow> 'a list \<times> 'k list \<times> 'a list"
  assumes same_refl: "same e x x"
    and adds: "ok e \<Longrightarrow> changes e cur des = (a, r, u) \<Longrightarrow>
      x \<in> set a \<longleftrightarrow> collect key des (key x) = Some x \<and> collect key cur (key x) = None"
    and removes: "ok e \<Longrightarrow> changes e cur des = (a, r, u) \<Longrightarrow>
      k \<in> set r \<longleftrightarrow> k \<in> key ` set cur \<and> k \<notin> key ` set des \<and> \<not> exempt k"
    and updates: "ok e \<Longrightarrow> changes e cur des = (a, r, u) \<Longrightarrow>
      x \<in> set u \<longleftrightarrow> collect key des (key x) = Some x \<and>
        (\<exists>c. collect key cur (key x) = Some c \<and> \<not> same e c x)"
    and once: "ok e \<Longrightarrow> changes e cur des = (a, r, u) \<Longrightarrow> distinct (map key a @ map key u)"
begin

lemma no_changes_iff:
  assumes "ok e"
  shows "changes e cur des = ([], [], []) \<longleftrightarrow> tables_in_sync key (same e) exempt cur des"
proof -
  obtain a r u where ch: "changes e cur des = (a, r, u)" by (cases "changes e cur des")
  note spec = adds [OF assms ch] removes [OF assms ch] updates [OF assms ch]
  show ?thesis
  proof
    assume "changes e cur des = ([], [], [])"
    with ch have Nil: "a = []" "r = []" "u = []" by simp_all
    show "tables_in_sync key (same e) exempt cur des"
      unfolding tables_in_sync_def
    proof
      fix k assume k: "k \<in> key ` set cur \<union> key ` set des"
      show "case (collect key cur k, collect key des k) of (Some c, Some d) \<Rightarrow> same e c d
              | (Some c, None) \<Rightarrow> exempt k | _ \<Rightarrow> False"
      proof (cases "collect key des k")
        case None
        with k have "k \<in> key ` set cur" "k \<notin> key ` set des" by (auto simp: collect_None_iff)
        moreover from this(1) obtain c where "collect key cur k = Some c" unfolding in_keys_iff ..
        ultimately show ?thesis using spec(2) [of k] Nil None by simp
      next
        case (Some d)
        then have "key d = k" by (auto dest: collect_SomeD)
        with spec(1) [of d] spec(3) [of d] Nil Some show ?thesis by (auto split: option.splits)
      qed
    qed
  next
    assume sync: "tables_in_sync key (same e) exempt cur des"
    then have at: "k \<in> key ` set cur \<union> key ` set des \<Longrightarrow>
        (case (collect key cur k, collect key des k) of (Some c, Some d) \<Rightarrow> same e c d
           | (Some c, None) \<Rightarrow> exempt k | _ \<Rightarrow> False)" for k
      unfolding tables_in_sync_def by blast
    have "x \<notin> set a" for x
    proof
      assume "x \<in> set a"
      with spec(1) have "collect key des (key x) = Some x" "collect key cur (key x) = None" by simp_all
      with at [of "key x"] in_keys_iff [of "key x" key des] show False by simp
    qed
    moreover have "x \<notin> set u" for x
    proof
      assume "x \<in> set u"
      with spec(3) obtain c where "collect key des (key x) = Some x"
        "collect key cur (key x) = Some c" "\<not> same e c x" by blast
      with at [of "key x"] in_keys_iff [of "key x" key des] show False by simp
    qed
    moreover have "k \<notin> set r" for k
    proof
      assume "k \<in> set r"
      with spec(2) [of k] have k: "k \<in> key ` set cur" "k \<notin> key ` set des" "\<not> exempt k" by simp_all
      then have "collect key des k = None" by (simp add: collect_None_iff)
      with k at [of k] show False by (auto split: option.splits)
    qed
    ultimately show "changes e cur des = ([], [], [])"
      using ch by (metis list.set_intros(1) neq_Nil_conv)
  qed
qed

lemma collect_applied:
  assumes "ok e" and ch: "changes e cur des = (a, r, u)"
  shows "collect key (apply_table key (a, r, u) cur) k =
    (if k \<in> key ` set a \<or> k \<in> key ` set u then collect key des k
     else if k \<in> set r then None else collect key cur k)"
proof -
  note spec = adds [OF assms] updates [OF assms]
  have dist: "distinct (map key a)" "distinct (map key u)" using once [OF assms] by simp_all
  have "collect key (filter (\<lambda>x. key x \<notin> set r \<and> key x \<notin> key ` set u) cur) k =
      (if k \<notin> set r \<and> k \<notin> key ` set u then collect key cur k else None)"
    using collect_filter [of key "\<lambda>k. k \<notin> set r \<and> k \<notin> key ` set u"] by simp
  moreover have "collect key a k = (if k \<in> key ` set a then collect key des k else None)"
    using spec(1) dist(1) by (intro collect_sub) simp_all
  moreover have "collect key u k = (if k \<in> key ` set u then collect key des k else None)"
    using spec(2) dist(2) by (intro collect_sub) simp_all
  moreover have "k \<in> key ` set a \<Longrightarrow> collect key des k \<noteq> None" "k \<in> key ` set u \<Longrightarrow> collect key des k \<noteq> None"
    using spec by auto
  ultimately show ?thesis
    by (auto simp: apply_table_def collect_append map_add_def split: option.splits)
qed

lemma applied_in_sync:
  assumes "ok e"
  shows "tables_in_sync key (same e) exempt (apply_table key (changes e cur des) cur) des"
proof -
  obtain a r u where ch: "changes e cur des = (a, r, u)" by (cases "changes e cur des")
  note spec = adds [OF assms ch] removes [OF assms ch] updates [OF assms ch]
  note applied = collect_applied [OF assms ch]
  show ?thesis
    unfolding tables_in_sync_def ch
  proof
    fix k assume k: "k \<in> key ` set (apply_table key (a, r, u) cur) \<union> key ` set des"
    show "case (collect key (apply_table key (a, r, u) cur) k, collect key des k) of
            (Some c, Some d) \<Rightarrow> same e c d | (Some c, None) \<Rightarrow> exempt k | _ \<Rightarrow> False"
    proof (cases "collect key des k")
      case None
      then have notin: "k \<notin> key ` set des" by (simp add: collect_None_iff)
      with k have "k \<in> key ` set (apply_table key (a, r, u) cur)" by blast
      then obtain c where c: "collect key (apply_table key (a, r, u) cur) k = Some c"
        unfolding in_keys_iff by blast
      with None have "k \<notin> set r" "collect key cur k = Some c"
        unfolding applied by (auto split: if_splits)
      with None notin spec(2) [of k] c show ?thesis using in_keys_iff [of k key cur] by simp
    next
      case (Some d)
      then have d: "key d = k" "k \<in> key ` set des" by (auto dest: collect_SomeD)
      show ?thesis
      proof (cases "k \<in> key ` set a \<or> k \<in> key ` set u")
        case True
        then show ?thesis using Some same_refl by (simp add: applied)
      next
        case False
        then have "d \<notin> set a" "d \<notin> set u" using d(1) by auto
        with spec(1) [of d] spec(3) [of d] Some d(1)
        obtain c where "collect key cur k = Some c" "same e c d" by auto
        with False Some d spec(2) [of k] show ?thesis by (simp add: applied)
      qed
    qed
  qed
qed

text \<open>Also when the second difference is computed in another environment (iteration order).\<close>

lemma converges:
  assumes "ok e" and "ok e'" and "same e = same e'"
  shows "changes e' (apply_table key (changes e cur des) cur) des = ([], [], [])"
  using no_changes_iff [OF assms(2)] applied_in_sync [OF assms(1)] assms(3) by simp

lemma exempt_kept:
  assumes "ok e" and "changes e cur des = (a, r, u)" and "exempt k"
  shows "k \<notin> set r"
  using removes [OF assms(1,2)] assms(3) by simp

end

text \<open>A table nothing of which is exempt ends up with exactly the desired keys.\<close>

locale exact_diff = keyed_diff +
  assumes none_exempt: "\<not> exempt k"
begin

lemma applied_keys:
  assumes "ok e"
  shows "key ` set (apply_table key (changes e cur des) cur) = key ` set des"
proof -
  note sync = applied_in_sync [OF assms, of cur des]
  have "k \<in> key ` set (apply_table key (changes e cur des) cur) \<longleftrightarrow> k \<in> key ` set des" for k
  proof (cases "k \<in> key ` set (apply_table key (changes e cur des) cur) \<union> key ` set des")
    case True
    with sync have "case (collect key (apply_table key (changes e cur des) cur) k, collect key des k) of
        (Some c, Some d) \<Rightarrow> same e c d | (Some c, None) \<Rightarrow> exempt k | _ \<Rightarrow> False"
      unfolding tables_in_sync_def by blast
    then show ?thesis
      using none_exempt [of k] unfolding in_keys_iff by (auto split: option.splits)
  qed simp
  then show ?thesis by blast
qed

end

section \<open>The tables of the model\<close>

lemma hash_iter_okD:
  assumes "hash_iter_ok it"
  shows "iterates (it_vlans it s)" "iterates (it_ports it s)" "iterates (it_mirrors it s)"
    "iterates (it_communities it s)" "iterates (it_receivers it s)" "iterates (it_traps it s)"
  using assms by (simp_all add: hash_iter_ok_def)

lemma set_hash_difference [simp]: "set (hash_difference xs ys) = set xs - set ys"
  by (auto simp: hash_difference_def)

lemma set_hash_intersection [simp]: "set (hash_intersection xs ys) = set xs \<inter> set ys"
  by (auto simp: hash_intersection_def)

lemma distinct_hash_ops [simp]:
  "distinct xs \<Longrightarrow> distinct (hash_difference xs ys)"
  "distinct xs \<Longrightarrow> distinct ys \<Longrightarrow> distinct (hash_intersection xs ys)"
  by (simp_all add: hash_difference_def hash_intersection_def)

lemma changed_entry_Some:
  "changed_entry same cur des k = Some d \<longleftrightarrow>
     des k = Some d \<and> (\<exists>c. cur k = Some c \<and> \<not> same c d)"
  by (auto simp: changed_entry_def split: option.splits)

text \<open>Additions and updates taken from the tables through a list of keys.\<close>

lemma in_added:
  assumes "set ds = key ` set des" and "set cs = key ` set cur"
  shows "x \<in> set (List.map_filter (collect key des) (hash_difference ds cs)) \<longleftrightarrow>
    collect key des (key x) = Some x \<and> collect key cur (key x) = None"
proof -
  have "x \<in> set (List.map_filter (collect key des) (hash_difference ds cs)) \<longleftrightarrow>
    (\<exists>k. k \<in> key ` set des \<and> k \<notin> key ` set cur \<and> collect key des k = Some x)"
    using assms by auto
  also have "\<dots> \<longleftrightarrow> collect key des (key x) = Some x \<and> key x \<notin> key ` set cur"
  proof -
    have "key x = k" if "collect key des k = Some x" for k using collect_SomeD [OF that] by simp
    moreover have "key x \<in> key ` set des" if "collect key des (key x) = Some x"
      unfolding in_keys_iff using that by blast
    ultimately show ?thesis by metis
  qed
  finally show ?thesis by (simp add: collect_None_iff)
qed

lemma in_updated:
  assumes "set ks \<supseteq> key ` set cur \<inter> key ` set des"
  shows "x \<in> set (List.map_filter (changed_entry same (collect key cur) (collect key des)) ks) \<longleftrightarrow>
    collect key des (key x) = Some x \<and> (\<exists>c. collect key cur (key x) = Some c \<and> \<not> same c x)"
proof -
  have "collect key des k = Some x \<Longrightarrow> collect key cur k = Some c \<Longrightarrow> k \<in> set ks \<and> key x = k" for k c
    using assms in_keys_iff [of k key des] in_keys_iff [of k key cur] by (auto dest: collect_SomeD)
  then show ?thesis by (auto simp: changed_entry_Some)
qed

lemma distinct_added:
  "distinct ks \<Longrightarrow> distinct (map key (List.map_filter (collect key des) ks))"
  by (subst map_filter_keys) (auto dest: collect_SomeD)

lemma distinct_updated:
  "distinct ks \<Longrightarrow>
     distinct (map key (List.map_filter (changed_entry same (collect key cur) (collect key des)) ks))"
  by (subst map_filter_keys) (auto simp: changed_entry_Some dest: collect_SomeD)

lemma once_from_specs:
  assumes "distinct (map key a)" and "distinct (map key u)"
    and "\<And>x. x \<in> set a \<Longrightarrow> collect key cur (key x) = None"
    and "\<And>x. x \<in> set u \<Longrightarrow> \<exists>c. collect key cur (key x) = Some c \<and> P c x"
  shows "distinct (map key a @ map key u)"
proof -
  have "key x \<noteq> key y" if "x \<in> set a" "y \<in> set u" for x y
    using assms(3) [OF that(1)] assms(4) [OF that(2)] by auto
  with assms(1,2) show ?thesis by auto
qed

lemma vlans_equivalent_refl [simp]: "vlans_equivalent_for_model v v d"
  by (simp add: vlans_equivalent_for_model_def)

lemma same_hosts_mset: "same_hosts a b \<longleftrightarrow> mset (map host_to_string a) = mset (map host_to_string b)"
proof -
  have "sort xs = sort ys \<longleftrightarrow> mset xs = mset ys" for xs ys :: "string list"
    by (metis mset_sort properties_for_sort sorted_sort)
  then show ?thesis unfolding same_hosts_def .
qed

lemma same_community_refl [simp]: "same_community c c"
  by (simp add: same_community_def same_hosts_def)

lemmas vlan_iteration = hash_iter_okD(1) set_iterates distinct_iterates

interpretation vlan_table: keyed_diff v_id
  "\<lambda>e c d. vlans_equivalent_for_model c d (snd e)" "\<lambda>i. i = 1" "\<lambda>e. hash_iter_ok (fst e)"
  "\<lambda>e. vlan_changes (fst e) (snd e)"
proof
  fix e :: "hash_iter \<times> bool" and cur des a r u
  assume ok: "hash_iter_ok (fst e)" and ch: "vlan_changes (fst e) (snd e) cur des = (a, r, u)"
  note ch = ch [unfolded vlan_changes_def Let_def, THEN sym, unfolded prod.inject]
  show a: "x \<in> set a \<longleftrightarrow> collect v_id des (v_id x) = Some x \<and> collect v_id cur (v_id x) = None" for x
    unfolding conjunct1 [OF ch] by (rule in_added) (simp_all add: vlan_iteration ok)
  show "i \<in> set r \<longleftrightarrow> i \<in> v_id ` set cur \<and> i \<notin> v_id ` set des \<and> i \<noteq> 1" for i
    using ch by (simp add: vlan_iteration ok)
  show u: "x \<in> set u \<longleftrightarrow> collect v_id des (v_id x) = Some x \<and>
      (\<exists>c. collect v_id cur (v_id x) = Some c \<and> \<not> vlans_equivalent_for_model c x (snd e))" for x
    unfolding conjunct2 [OF conjunct2 [OF ch]] by (rule in_updated) (simp add: vlan_iteration ok)
  have "distinct (map v_id a)" "distinct (map v_id u)"
    using ch by (simp_all add: vlan_iteration ok distinct_added distinct_updated)
  then show "distinct (map v_id a @ map v_id u)" by (rule once_from_specs) (auto simp: a u)
qed simp

interpretation mirror_table: exact_diff m_session_id
  "\<lambda>_. (=)" "\<lambda>_. False" hash_iter_ok mirror_changes
proof
  fix e cur des a r u
  assume ok: "hash_iter_ok e" and ch: "mirror_changes e cur des = (a, r, u)"
  note it = hash_iter_okD(3) set_iterates distinct_iterates ok
  note ch = ch [unfolded mirror_changes_def Let_def, THEN sym, unfolded prod.inject]
  show a: "x \<in> set a \<longleftrightarrow> collect m_session_id des (m_session_id x) = Some x \<and>
      collect m_session_id cur (m_session_id x) = None" for x
    unfolding conjunct1 [OF ch] by (rule in_added) (simp_all add: it)
  show "i \<in> set r \<longleftrightarrow> i \<in> m_session_id ` set cur \<and> i \<notin> m_session_id ` set des \<and> \<not> False" for i
    using ch by (simp add: it)
  show u: "x \<in> set u \<longleftrightarrow> collect m_session_id des (m_session_id x) = Some x \<and>
      (\<exists>c. collect m_session_id cur (m_session_id x) = Some c \<and> c \<noteq> x)" for x
    unfolding conjunct2 [OF conjunct2 [OF ch]] by (rule in_updated) (simp add: it)
  have "distinct (map m_session_id a)" "distinct (map m_session_id u)"
    using ch by (simp_all add: it distinct_added distinct_updated)
  then show "distinct (map m_session_id a @ map m_session_id u)"
    by (rule once_from_specs) (auto simp: a u)
qed simp_all

lemma distinct_sort_key: "distinct (map f (sort_key f xs)) \<longleftrightarrow> distinct (map f xs)"
  by (metis mset_map mset_sort mset_eq_imp_distinct_iff)

interpretation community_table: exact_diff c_name
  "\<lambda>_. same_community" "\<lambda>_. False" hash_iter_ok community_changes
proof
  fix e cur des a r u
  assume ok: "hash_iter_ok e" and ch: "community_changes e cur des = (a, r, u)"
  note it = hash_iter_okD(4) set_iterates distinct_iterates ok
  note ch = ch [unfolded community_changes_def Let_def, THEN sym, unfolded prod.inject]
  show a: "x \<in> set a \<longleftrightarrow> collect c_name des (c_name x) = Some x \<and> collect c_name cur (c_name x) = None" for x
    unfolding conjunct1 [OF ch] set_sort by (rule in_added) (simp_all add: it)
  show "i \<in> set r \<longleftrightarrow> i \<in> c_name ` set cur \<and> i \<notin> c_name ` set des \<and> \<not> False" for i
    using ch by (simp add: it)
  show u: "x \<in> set u \<longleftrightarrow> collect c_name des (c_name x) = Some x \<and>
      (\<exists>c. collect c_name cur (c_name x) = Some c \<and> \<not> same_community c x)" for x
    unfolding conjunct2 [OF conjunct2 [OF ch]] set_sort by (rule in_updated) (simp add: it)
  have "distinct (map c_name a)" "distinct (map c_name u)"
    using ch by (simp_all add: it distinct_sort_key distinct_added distinct_updated)
  then show "distinct (map c_name a @ map c_name u)" by (rule once_from_specs) (auto simp: a u)
qed simp_all

text \<open>Receivers and traps have no updates: an entry that is on both sides counts as the same.\<close>

interpretation receiver_table: exact_diff r_host
  "\<lambda>_ _ _. True" "\<lambda>_. False" hash_iter_ok
  "\<lambda>it cur des. (fst (receiver_changes it cur des), snd (receiver_changes it cur des), [])"
proof
  fix e cur des a r and u :: "snmp_trap_receiver list"
  assume ok: "hash_iter_ok e"
    and ch: "(fst (receiver_changes e cur des), snd (receiver_changes e cur des), []) = (a, r, u)"
  note it = hash_iter_okD(5) set_iterates distinct_iterates ok
  note ch = ch [unfolded receiver_changes_def Let_def fst_conv snd_conv, THEN sym, unfolded prod.inject]
  show "x \<in> set a \<longleftrightarrow> collect r_host des (r_host x) = Some x \<and> collect r_host cur (r_host x) = None" for x
    unfolding conjunct1 [OF ch] by (rule in_added) (simp_all add: it)
  show "i \<in> set r \<longleftrightarrow> i \<in> r_host ` set cur \<and> i \<notin> r_host ` set des \<and> \<not> False" for i
    using ch by (simp add: it)
  show "x \<in> set u \<longleftrightarrow> collect r_host des (r_host x) = Some x \<and>
      (\<exists>c. collect r_host cur (r_host x) = Some c \<and> \<not> True)" for x
    using ch by simp
  show "distinct (map r_host a @ map r_host u)"
    using ch by (simp add: it distinct_added)
qed simp_all

interpretation trap_table: exact_diff "\<lambda>t. t"
  "\<lambda>_ _ _. True" "\<lambda>_. False" hash_iter_ok
  "\<lambda>it cur des. (fst (trap_changes it cur des), snd (trap_changes it cur des), [])"
proof
  fix e cur des a r and u :: "trap_type list"
  assume ok: "hash_iter_ok e"
    and ch: "(fst (trap_changes e cur des), snd (trap_changes e cur des), []) = (a, r, u)"
  note it = hash_iter_okD(6) set_iterates distinct_iterates ok
  note ch = ch [unfolded trap_changes_def Let_def fst_conv snd_conv, THEN sym, unfolded prod.inject]
  show "x \<in> set a \<longleftrightarrow> collect (\<lambda>t. t) des x = Some x \<and> collect (\<lambda>t. t) cur x = None" for x
    using ch by (simp add: it collect_id)
  show "i \<in> set r \<longleftrightarrow> i \<in> (\<lambda>t. t) ` set cur \<and> i \<notin> (\<lambda>t. t) ` set des \<and> \<not> False" for i
    using ch by (simp add: it)
  show "x \<in> set u \<longleftrightarrow> collect (\<lambda>t. t) des x = Some x \<and> (\<exists>c. collect (\<lambda>t. t) cur x = Some c \<and> \<not> True)" for x
    using ch by simp
  show "distinct (map (\<lambda>t. t) a @ map (\<lambda>t. t) u)"
    using ch by (simp add: it)
qed simp_all

section \<open>The fields of the whole difference\<close>

lemma compute_diff_vlans:
  "(vlans_to_add (compute_diff it cur des f), vlans_to_remove (compute_diff it cur des f),
    vlans_to_update (compute_diff it cur des f)) =
   vlan_changes it (model_supports supports_vlan_description des) (st_vlans cur) (s_vlans des)"
  by (auto simp: compute_diff_def diff_management_vlan_def diff_snmp_def diff_mirrors_def diff_ports_def
      diff_vlans_def default_diff_def Let_def split: prod.splits option.splits)

lemma compute_diff_mirrors:
  "(mirrors_to_add (compute_diff it cur des f), mirrors_to_remove (compute_diff it cur des f),
    mirrors_to_update (compute_diff it cur des f)) =
   mirror_changes it (st_port_mirrors cur) (s_port_mirrors des)"
  by (auto simp: compute_diff_def diff_management_vlan_def diff_snmp_def diff_mirrors_def diff_ports_def
      diff_vlans_def default_diff_def Let_def split: prod.splits option.splits)

lemma compute_diff_ports:
  "ports_to_configure (compute_diff it cur des f) =
     filter (port_needs_config (model_supports supports_poe des) (st_ports cur)) (s_ports des)"
  "ports_to_reset (compute_diff it cur des f) =
     (if f then reset_ports it (st_ports cur) (s_ports des) (s_port_mirrors des) else [])"
  "mirror_dest_ports_to_configure (compute_diff it cur des f) =
     dest_ports_to_configure (st_ports cur) [] (s_port_mirrors des)"
  by (auto simp: compute_diff_def diff_management_vlan_def diff_snmp_def diff_mirrors_def diff_ports_def
      diff_vlans_def default_diff_def Let_def split: prod.splits option.splits)

lemma compute_diff_snmp:
  "snmp_diff (compute_diff it cur des f) =
     (case (st_snmp cur, effective_snmp des) of
        (None, None) \<Rightarrow> None
      | (None, Some d) \<Rightarrow> Some (add_all_snmp d)
      | (Some c, None) \<Rightarrow> Some (remove_all_snmp c)
      | (Some c, Some d) \<Rightarrow> Some (compute_snmp_diff it c d))"
  "snmp_config_changed (compute_diff it cur des f) = snmp_diff_changes (compute_diff it cur des f)"
  by (auto simp: compute_diff_def diff_management_vlan_def diff_snmp_def snmp_diff_changes_def Let_def
      split: option.splits)

lemma compute_diff_management:
  "management_vlan_changed (compute_diff it cur des f) \<longleftrightarrow> st_management_vlan cur \<noteq> s_management_vlan des"
  "st_management_vlan cur \<noteq> s_management_vlan des \<Longrightarrow>
     management_vlan_new (compute_diff it cur des f) = s_management_vlan des"
  by (auto simp: compute_diff_def diff_management_vlan_def)

lemma compute_snmp_diff_tables:
  "(communities_to_add (compute_snmp_diff it c d), communities_to_remove (compute_snmp_diff it c d),
    communities_to_update (compute_snmp_diff it c d)) =
     community_changes it (sn_communities c) (sn_communities d)"
  "(trap_receivers_to_add (compute_snmp_diff it c d), trap_receivers_to_remove (compute_snmp_diff it c d)) =
     receiver_changes it (sn_trap_receivers c) (sn_trap_receivers d)"
  "(traps_to_enable (compute_snmp_diff it c d), traps_to_disable (compute_snmp_diff it c d)) =
     trap_changes it (sn_enabled_traps c) (sn_enabled_traps d)"
  by (simp_all add: compute_snmp_diff_def split: prod.splits)

lemma triple_Nil: "(a, b, c) = t \<Longrightarrow> a = [] \<and> b = [] \<and> c = [] \<longleftrightarrow> t = ([], [], [])"
  by auto

lemma snmp_has_changes_tables:
  "\<not> snmp_has_changes (compute_snmp_diff it c d) \<longleftrightarrow>
     community_changes it (sn_communities c) (sn_communities d) = ([], [], []) \<and>
     receiver_changes it (sn_trap_receivers c) (sn_trap_receivers d) = ([], []) \<and>
     trap_changes it (sn_enabled_traps c) (sn_enabled_traps d) = ([], [])"
  unfolding compute_snmp_diff_tables [symmetric] by (auto simp: snmp_has_changes_def)

lemma has_changes_compute_diff:
  "\<not> has_changes (compute_diff it cur des f) \<longleftrightarrow>
     vlan_changes it (model_supports supports_vlan_description des) (st_vlans cur) (s_vlans des) = ([], [], []) \<and>
     filter (port_needs_config (model_supports supports_poe des) (st_ports cur)) (s_ports des) = [] \<and>
     (f \<longrightarrow> reset_ports it (st_ports cur) (s_ports des) (s_port_mirrors des) = []) \<and>
     mirror_changes it (st_port_mirrors cur) (s_port_mirrors des) = ([], [], []) \<and>
     dest_ports_to_configure (st_ports cur) [] (s_port_mirrors des) = [] \<and>
     \<not> snmp_diff_changes (compute_diff it cur des f) \<and>
     st_management_vlan cur = s_management_vlan des"
  unfolding has_changes_def compute_diff_vlans [of it cur des f, symmetric]
    compute_diff_mirrors [of it cur des f, symmetric] compute_diff_snmp(2) compute_diff_ports compute_diff_management
  by auto

section \<open>Ports in sync\<close>

lemma ports_equivalent_refl [simp]: "ports_equivalent_for_model p p poe"
  by (simp add: ports_equivalent_for_model_def Let_def)

lemma set_dest_ports:
  "d \<in> set (dest_ports_to_configure cur seen ms) \<longleftrightarrow>
     d \<in> m_destination_port ` set ms \<and> d \<notin> set seen \<and>
     (case collect p_port_id cur d of Some p \<Rightarrow> \<not> is_baseline p | None \<Rightarrow> True)"
  by (induction cur seen ms rule: dest_ports_to_configure.induct)
    (auto simp: Let_def split: option.splits)

lemma distinct_dest_ports: "distinct (dest_ports_to_configure cur seen ms)"
  by (induction cur seen ms rule: dest_ports_to_configure.induct)
    (auto simp: Let_def set_dest_ports split: option.splits)

lemma set_reset_ports:
  assumes "hash_iter_ok it"
  shows "i \<in> set (reset_ports it cur des ms) \<longleftrightarrow>
     i \<in> p_port_id ` set cur \<and> i \<notin> p_port_id ` set des \<and> i \<notin> m_destination_port ` set ms \<and>
     \<not> (case collect p_port_id cur i of Some c \<Rightarrow> is_port_in_default_state c | None \<Rightarrow> False)"
  using assms by (auto simp: reset_ports_def hash_iter_okD set_iterates)

lemma ports_in_sync_iff:
  "filter (port_needs_config poe cur) des = [] \<longleftrightarrow>
     (\<forall>p \<in> set des. \<exists>c. collect p_port_id cur (p_port_id p) = Some c \<and> ports_equivalent_for_model c p poe)"
  by (auto simp: filter_empty_conv port_needs_config_def split: option.splits)

section \<open>Carrying a difference out\<close>

text \<open>
  What a vendor's \<open>apply_diff\<close> is meant to achieve, as a change of the state the switch reports:
  tables are edited, ports are configured as asked, reset to the default state or given the baseline of
  a mirror destination, the management VLAN is replaced.
\<close>

definition plain_port :: "bool \<Rightarrow> string \<Rightarrow> port" where
  "plain_port enabled i =
     \<lparr> p_port_id = i, p_mode = Access, p_vlan = 1, p_tagged_vlans = [], p_description = None,
       p_enabled = enabled, p_poe_enabled = False, p_mac_notify = False, p_speed_duplex = Auto,
       p_vlan_name = None, p_tagged_vlan_refs = [] \<rparr>"

definition apply_ports :: "state_diff \<Rightarrow> port list \<Rightarrow> port list" where
  "apply_ports d cur =
     filter (\<lambda>p. p_port_id p \<notin> p_port_id ` set (ports_to_configure d) \<union> set (ports_to_reset d) \<union>
                   set (mirror_dest_ports_to_configure d)) cur
     @ map (plain_port False) (ports_to_reset d)
     @ map (plain_port True) (mirror_dest_ports_to_configure d)
     @ ports_to_configure d"

definition empty_snmp :: snmp_config where
  "empty_snmp = \<lparr>sn_communities = [], sn_trap_receivers = [], sn_enabled_traps = [], sn_reads = None\<rparr>"

definition apply_snmp :: "snmp_state_diff \<Rightarrow> snmp_config option \<Rightarrow> snmp_config" where
  "apply_snmp d cur =
     (let c = (case cur of Some c \<Rightarrow> c | None \<Rightarrow> empty_snmp) in
      c\<lparr>sn_communities := apply_table c_name
            (communities_to_add d, communities_to_remove d, communities_to_update d) (sn_communities c),
         sn_trap_receivers := apply_table r_host
            (trap_receivers_to_add d, trap_receivers_to_remove d, []) (sn_trap_receivers c),
         sn_enabled_traps := apply_table (\<lambda>t. t) (traps_to_enable d, traps_to_disable d, [])
            (sn_enabled_traps c)\<rparr>)"

definition apply_diff :: "state_diff \<Rightarrow> switch_state \<Rightarrow> switch_state" where
  "apply_diff d st =
     st\<lparr>st_vlans := apply_table v_id (vlans_to_add d, vlans_to_remove d, vlans_to_update d) (st_vlans st),
        st_ports := apply_ports d (st_ports st),
        st_port_mirrors := apply_table m_session_id
          (mirrors_to_add d, mirrors_to_remove d, mirrors_to_update d) (st_port_mirrors st),
        st_snmp := (case snmp_diff d of None \<Rightarrow> st_snmp st | Some sd \<Rightarrow> Some (apply_snmp sd (st_snmp st))),
        st_management_vlan :=
          (if management_vlan_changed d then management_vlan_new d else st_management_vlan st)\<rparr>"

lemma plain_port_simps [simp]:
  "p_port_id (plain_port b i) = i"
  "is_port_in_default_state (plain_port False i)"
  "is_baseline (plain_port True i)"
  by (simp_all add: plain_port_def is_port_in_default_state_def is_baseline_def inferred_mode_def)

lemma collect_plain: "collect p_port_id (map (plain_port b) is) k = (if k \<in> set is then Some (plain_port b k) else None)"
  by (induction "is" rule: rev_induct) (auto simp: collect_snoc)

lemma collect_apply_ports:
  assumes "distinct (map p_port_id (ports_to_configure d))"
  shows "p \<in> set (ports_to_configure d) \<Longrightarrow> collect p_port_id (apply_ports d cur) (p_port_id p) = Some p"
    and "k \<notin> p_port_id ` set (ports_to_configure d) \<Longrightarrow>
      collect p_port_id (apply_ports d cur) k =
        (if k \<in> set (mirror_dest_ports_to_configure d) then Some (plain_port True k)
         else if k \<in> set (ports_to_reset d) then Some (plain_port False k)
         else collect p_port_id cur k)"
proof -
  let ?T = "p_port_id ` set (ports_to_configure d) \<union> set (ports_to_reset d) \<union>
      set (mirror_dest_ports_to_configure d)"
  have old: "collect p_port_id (filter (\<lambda>p. p_port_id p \<notin> ?T) cur) k =
      (if k \<in> ?T then None else collect p_port_id cur k)" for k
    using collect_filter [of p_port_id "\<lambda>k. k \<notin> ?T" cur k] by simp
  show "p \<in> set (ports_to_configure d) \<Longrightarrow> collect p_port_id (apply_ports d cur) (p_port_id p) = Some p"
    using collect_distinct [OF assms] by (simp add: apply_ports_def collect_append map_add_def)
  assume k: "k \<notin> p_port_id ` set (ports_to_configure d)"
  then have "collect p_port_id (ports_to_configure d) k = None" by (simp add: collect_None_iff)
  with k old [of k] show "collect p_port_id (apply_ports d cur) k =
        (if k \<in> set (mirror_dest_ports_to_configure d) then Some (plain_port True k)
         else if k \<in> set (ports_to_reset d) then Some (plain_port False k)
         else collect p_port_id cur k)"
    by (auto simp: apply_ports_def collect_append map_add_def collect_plain split: option.splits)
qed

text \<open>A desired configuration in which no port is described twice and no mirror sends to a
  configured port.\<close>

definition consistent_ports :: "switch_config \<Rightarrow> bool" where
  "consistent_ports des \<longleftrightarrow>
     distinct (map p_port_id (s_ports des)) \<and>
     m_destination_port ` set (s_port_mirrors des) \<inter> p_port_id ` set (s_ports des) = {}"

lemma ports_after_apply:
  assumes ok: "hash_iter_ok it" "hash_iter_ok it'" and des: "consistent_ports des"
    and cur': "st_ports cur' = apply_ports (compute_diff it cur des f) (st_ports cur)"
  shows "filter (port_needs_config (model_supports supports_poe des) (st_ports cur')) (s_ports des) = []"
    and "f \<longrightarrow> reset_ports it' (st_ports cur') (s_ports des) (s_port_mirrors des) = []"
    and "dest_ports_to_configure (st_ports cur') [] (s_port_mirrors des) = []"
proof -
  let ?d = "compute_diff it cur des f" and ?poe = "model_supports supports_poe des"
  let ?needs = "port_needs_config ?poe (st_ports cur)"
  have conf: "ports_to_configure ?d = filter ?needs (s_ports des)" by (simp add: compute_diff_ports)
  have reset: "i \<in> set (ports_to_reset ?d) \<longleftrightarrow> f \<and> i \<in> p_port_id ` set (st_ports cur) \<and>
      i \<notin> p_port_id ` set (s_ports des) \<and> i \<notin> m_destination_port ` set (s_port_mirrors des) \<and>
      \<not> (case collect p_port_id (st_ports cur) i of Some c \<Rightarrow> is_port_in_default_state c | None \<Rightarrow> False)" for i
    using set_reset_ports [OF ok(1)] by (simp add: compute_diff_ports)
  have dest: "i \<in> set (mirror_dest_ports_to_configure ?d) \<longleftrightarrow> i \<in> m_destination_port ` set (s_port_mirrors des) \<and>
      (case collect p_port_id (st_ports cur) i of Some p \<Rightarrow> \<not> is_baseline p | None \<Rightarrow> True)" for i
    by (simp add: compute_diff_ports set_dest_ports)
  have dis: "distinct (map p_port_id (s_ports des))"
    and apart: "i \<in> m_destination_port ` set (s_port_mirrors des) \<Longrightarrow> i \<notin> p_port_id ` set (s_ports des)" for i
    using des by (auto simp: consistent_ports_def)
  have "distinct (map p_port_id (ports_to_configure ?d))"
    unfolding conf using dis by (rule distinct_map_filter)
  note new = collect_apply_ports [OF this, where cur = "st_ports cur", folded cur']
  have conf_ids: "i \<in> p_port_id ` set (ports_to_configure ?d) \<Longrightarrow> i \<in> p_port_id ` set (s_ports des)" for i
    by (auto simp: conf)

  show "filter (port_needs_config ?poe (st_ports cur')) (s_ports des) = []"
    unfolding ports_in_sync_iff
  proof
    fix p assume p: "p \<in> set (s_ports des)"
    show "\<exists>c. collect p_port_id (st_ports cur') (p_port_id p) = Some c \<and> ports_equivalent_for_model c p ?poe"
    proof (cases "?needs p")
      case True
      with p new(1) [of p] show ?thesis by (simp add: conf)
    next
      case False
      then obtain c where c: "collect p_port_id (st_ports cur) (p_port_id p) = Some c"
          "ports_equivalent_for_model c p ?poe"
        by (auto simp: port_needs_config_def split: option.splits)
      have "p_port_id p \<notin> p_port_id ` set (ports_to_configure ?d)"
        using False p dis by (auto simp: conf distinct_map inj_on_def)
      moreover have "p_port_id p \<notin> set (ports_to_reset ?d)" "p_port_id p \<notin> set (mirror_dest_ports_to_configure ?d)"
        using p apart [of "p_port_id p"] by (auto simp: reset dest)
      ultimately show ?thesis using new(2) [of "p_port_id p"] c by simp
    qed
  qed

  show "f \<longrightarrow> reset_ports it' (st_ports cur') (s_ports des) (s_port_mirrors des) = []"
  proof
    assume f
    have "i \<notin> set (reset_ports it' (st_ports cur') (s_ports des) (s_port_mirrors des))" for i
    proof
      assume i: "i \<in> set (reset_ports it' (st_ports cur') (s_ports des) (s_port_mirrors des))"
      then have i': "i \<in> p_port_id ` set (st_ports cur')" "i \<notin> p_port_id ` set (s_ports des)"
        "i \<notin> m_destination_port ` set (s_port_mirrors des)"
        and nd: "\<not> (case collect p_port_id (st_ports cur') i of Some c \<Rightarrow> is_port_in_default_state c | None \<Rightarrow> False)"
        by (simp_all add: set_reset_ports [OF ok(2)])
      have at: "collect p_port_id (st_ports cur') i = (if i \<in> set (ports_to_reset ?d) then Some (plain_port False i)
          else collect p_port_id (st_ports cur) i)"
      proof -
        have "i \<notin> p_port_id ` set (ports_to_configure ?d)" using conf_ids i'(2) by blast
        from new(2) [OF this] i'(3) show ?thesis by (simp add: dest)
      qed
      from i'(1) obtain c where c: "collect p_port_id (st_ports cur') i = Some c" unfolding in_keys_iff ..
      show False
      proof (cases "i \<in> set (ports_to_reset ?d)")
        case True
        with at nd show False by simp
      next
        case False
        with at c have "collect p_port_id (st_ports cur) i = Some c" by simp
        moreover from this have "i \<in> p_port_id ` set (st_ports cur)" unfolding in_keys_iff ..
        ultimately show False using False \<open>f\<close> i'(2,3) nd c reset [of i] by simp
      qed
    qed
    then show "reset_ports it' (st_ports cur') (s_ports des) (s_port_mirrors des) = []"
      by (metis list.set_intros(1) neq_Nil_conv)
  qed

  have "i \<notin> set (dest_ports_to_configure (st_ports cur') [] (s_port_mirrors des))" for i
  proof
    assume "i \<in> set (dest_ports_to_configure (st_ports cur') [] (s_port_mirrors des))"
    then have i: "i \<in> m_destination_port ` set (s_port_mirrors des)"
        "case collect p_port_id (st_ports cur') i of Some p \<Rightarrow> \<not> is_baseline p | None \<Rightarrow> True"
      by (simp_all add: set_dest_ports)
    with apart conf_ids have "i \<notin> p_port_id ` set (ports_to_configure ?d)" by blast
    from new(2) [OF this] i show False
      by (auto simp: reset dest split: if_splits)
  qed
  then show "dest_ports_to_configure (st_ports cur') [] (s_port_mirrors des) = []"
    by (metis list.set_intros(1) neq_Nil_conv)
qed

lemma tables_in_sync_self: "(\<And>x. same x x) \<Longrightarrow> tables_in_sync key same exempt xs xs"
  unfolding tables_in_sync_def Un_absorb
proof
  fix k assume same: "\<And>x. same x x" and "k \<in> key ` set xs"
  then obtain c where "collect key xs k = Some c" unfolding in_keys_iff by blast
  then show "case (collect key xs k, collect key xs k) of (Some c, Some d) \<Rightarrow> same c d
      | (Some c, None) \<Rightarrow> exempt k | _ \<Rightarrow> False"
    by (simp add: same)
qed

lemma apply_table_Nil: "apply_table key (xs, [], []) [] = xs"
  by (simp add: apply_table_def)

lemma snmp_after_apply:
  assumes ok: "hash_iter_ok it" "hash_iter_ok it'"
    and cur': "st_snmp cur' = st_snmp (apply_diff (compute_diff it cur des f) cur)"
  shows "\<not> snmp_diff_changes (compute_diff it' cur' des f)"
proof -
  have receivers: "receiver_changes it' (apply_table r_host (trap_receivers_to_add d, trap_receivers_to_remove d, []) rs) rs' = ([], [])"
    if "(trap_receivers_to_add d, trap_receivers_to_remove d) = receiver_changes it rs rs'" for d rs rs'
    using receiver_table.converges [OF ok, of rs rs'] that [symmetric] by (simp add: prod_eq_iff)
  have traps: "trap_changes it' (apply_table (\<lambda>t. t) (traps_to_enable d, traps_to_disable d, []) ts) ts' = ([], [])"
    if "(traps_to_enable d, traps_to_disable d) = trap_changes it ts ts'" for d ts ts'
    using trap_table.converges [OF ok, of ts ts'] that [symmetric] by (simp add: prod_eq_iff)
  have communities: "community_changes it' (apply_table c_name (communities_to_add d, communities_to_remove d,
      communities_to_update d) cs) cs' = ([], [], [])"
    if "(communities_to_add d, communities_to_remove d, communities_to_update d) = community_changes it cs cs'" for d cs cs'
    using community_table.converges [OF ok, of cs cs'] that by simp
  note tables = compute_snmp_diff_tables
  have self: "\<not> snmp_has_changes (compute_snmp_diff it' (apply_snmp (add_all_snmp d) None) d)" for d
    unfolding snmp_has_changes_tables
    using community_table.no_changes_iff [OF ok(2), of "sn_communities d" "sn_communities d"]
      receiver_table.no_changes_iff [OF ok(2), of "sn_trap_receivers d" "sn_trap_receivers d"]
      trap_table.no_changes_iff [OF ok(2), of "sn_enabled_traps d" "sn_enabled_traps d"]
    by (simp add: apply_snmp_def add_all_snmp_def empty_snmp_def apply_table_Nil tables_in_sync_self prod_eq_iff)
  show ?thesis
  proof (cases "st_snmp cur"; cases "effective_snmp des")
    fix c d assume c: "st_snmp cur = Some c" and d: "effective_snmp des = Some d"
    have "st_snmp cur' = Some (apply_snmp (compute_snmp_diff it c d) (Some c))"
      using c d by (simp add: cur' apply_diff_def compute_diff_snmp)
    then show ?thesis
      unfolding snmp_diff_changes_def compute_diff_snmp using d
        communities [OF tables(1)] receivers [OF tables(2)] traps [OF tables(3)]
      by (simp add: snmp_has_changes_tables apply_snmp_def)
  next
    fix c assume "st_snmp cur = Some c" "effective_snmp des = None"
    then show ?thesis
      by (simp add: cur' apply_diff_def compute_diff_snmp snmp_diff_changes_def snmp_has_changes_def
          remove_all_snmp_def apply_snmp_def apply_table_def filter_empty_conv)
  next
    fix d assume "st_snmp cur = None" "effective_snmp des = Some d"
    then show ?thesis
      using self by (simp add: cur' apply_diff_def compute_diff_snmp snmp_diff_changes_def)
  qed (simp add: cur' apply_diff_def compute_diff_snmp snmp_diff_changes_def)
qed

section \<open>Properties\<close>

lemma diff_converges:
  assumes "hash_iter_ok it" and "hash_iter_ok it'" and "consistent_ports des"
  shows "\<not> has_changes (compute_diff it' (apply_diff (compute_diff it cur des f) cur) des f)"
proof -
  let ?d = "compute_diff it cur des f"
  let ?new = "apply_diff ?d cur"
  have "vlan_changes it' (model_supports supports_vlan_description des) (st_vlans ?new) (s_vlans des) = ([], [], [])"
    using vlan_table.converges [of "(it, _)" "(it', _)" "st_vlans cur" "s_vlans des"] assms(1,2)
    by (simp add: apply_diff_def compute_diff_vlans)
  moreover have "mirror_changes it' (st_port_mirrors ?new) (s_port_mirrors des) = ([], [], [])"
    using mirror_table.converges [OF assms(1,2), of "st_port_mirrors cur" "s_port_mirrors des"]
    by (simp add: apply_diff_def compute_diff_mirrors)
  moreover have "st_management_vlan ?new = s_management_vlan des"
    by (auto simp: apply_diff_def compute_diff_management)
  moreover note snmp_after_apply [OF assms(1,2), of ?new cur des f]
    ports_after_apply [OF assms, of ?new cur f]
  ultimately show ?thesis
    unfolding has_changes_compute_diff by (simp add: apply_diff_def)
qed


definition plain_iter :: hash_iter where
  "plain_iter = \<lparr> it_vlans = \<lambda>_ xs. xs, it_ports = \<lambda>_ xs. xs, it_mirrors = \<lambda>_ xs. xs,
     it_communities = \<lambda>_ xs. xs, it_receivers = \<lambda>_ xs. xs, it_traps = \<lambda>_ xs. xs \<rparr>"

definition reverse_iter :: hash_iter where
  "reverse_iter = \<lparr> it_vlans = \<lambda>_. rev, it_ports = \<lambda>_. rev, it_mirrors = \<lambda>_. rev,
     it_communities = \<lambda>_. rev, it_receivers = \<lambda>_. rev, it_traps = \<lambda>_. rev \<rparr>"

lemma iter_ok: "hash_iter_ok plain_iter" "hash_iter_ok reverse_iter"
  by (simp_all add: hash_iter_ok_def plain_iter_def reverse_iter_def iterates_id iterates_rev)

definition example_vlan :: "u16 \<Rightarrow> string \<Rightarrow> vlan" where
  "example_vlan i name = \<lparr>v_id = i, v_name = name, v_description = None, v_ip_config = IpNone\<rparr>"

definition example_desired :: switch_config where
  "example_desired = (example_switch None example_snmp)
     \<lparr>s_vlans := [example_vlan 10 ''office''], s_ports := [plain_port True ''1''],
      s_port_mirrors := [\<lparr>m_session_id = ''1'', m_source_ports = [''1''], m_destination_port = ''9'',
        m_direction = Both\<rparr>], s_management_vlan := Some 10\<rparr>"

definition example_state :: switch_state where
  "example_state =
     \<lparr> st_vlans = [example_vlan 1 ''default'', example_vlan 20 ''old''], st_ports = [plain_port False ''1'',
         plain_port True ''2''], st_port_mirrors = [], st_snmp = None, st_management_vlan = None, st_warnings = [] \<rparr>"

lemma example_consistent: "consistent_ports example_desired"
  by (simp add: consistent_ports_def example_desired_def example_switch_def)


definition snmp_in_sync :: "snmp_config option \<Rightarrow> snmp_config option \<Rightarrow> bool" where
  "snmp_in_sync cur des \<longleftrightarrow>
     (case (cur, des) of
        (Some c, Some d) \<Rightarrow>
          tables_in_sync c_name same_community (\<lambda>_. False) (sn_communities c) (sn_communities d) \<and>
          r_host ` set (sn_trap_receivers c) = r_host ` set (sn_trap_receivers d) \<and>
          set (sn_enabled_traps c) = set (sn_enabled_traps d)
      | (Some c, None) \<Rightarrow> sn_communities c = [] \<and> sn_trap_receivers c = [] \<and> sn_enabled_traps c = []
      | (None, Some d) \<Rightarrow> sn_communities d = [] \<and> sn_trap_receivers d = [] \<and> sn_enabled_traps d = []
      | (None, None) \<Rightarrow> True)"

definition state_in_sync :: "switch_state \<Rightarrow> switch_config \<Rightarrow> bool \<Rightarrow> bool" where
  "state_in_sync cur des enforce \<longleftrightarrow>
     tables_in_sync v_id
       (\<lambda>c d. vlans_equivalent_for_model c d (model_supports supports_vlan_description des)) (\<lambda>i. i = 1)
       (st_vlans cur) (s_vlans des) \<and>
     (\<forall>p \<in> set (s_ports des). \<exists>c. collect p_port_id (st_ports cur) (p_port_id p) = Some c \<and>
        ports_equivalent_for_model c p (model_supports supports_poe des)) \<and>
     (enforce \<longrightarrow> (\<forall>i \<in> p_port_id ` set (st_ports cur) - p_port_id ` set (s_ports des)
          - m_destination_port ` set (s_port_mirrors des).
        \<exists>c. collect p_port_id (st_ports cur) i = Some c \<and> is_port_in_default_state c)) \<and>
     tables_in_sync m_session_id (=) (\<lambda>_. False) (st_port_mirrors cur) (s_port_mirrors des) \<and>
     (\<forall>m \<in> set (s_port_mirrors des). \<exists>c. collect p_port_id (st_ports cur) (m_destination_port m) = Some c \<and>
        is_baseline c) \<and>
     snmp_in_sync (st_snmp cur) (effective_snmp des) \<and>
     st_management_vlan cur = s_management_vlan des"

lemma case_option_ex:
  "(case x of Some c \<Rightarrow> P c | None \<Rightarrow> False) \<longleftrightarrow> (\<exists>c. x = Some c \<and> P c)"
  "(case x of Some c \<Rightarrow> \<not> P c | None \<Rightarrow> True) \<longleftrightarrow> \<not> (\<exists>c. x = Some c \<and> P c)"
  by (auto split: option.splits)

lemma sync_keys: "tables_in_sync key (\<lambda>_ _. True) (\<lambda>_. False) cur des \<longleftrightarrow> key ` set cur = key ` set des"
proof
  assume sync: "tables_in_sync key (\<lambda>_ _. True) (\<lambda>_. False) cur des"
  have "k \<in> key ` set cur \<longleftrightarrow> k \<in> key ` set des" for k
    using sync unfolding tables_in_sync_def in_keys_iff Un_iff Ball_def
    by (auto split: option.splits dest: spec [of _ k])
  then show "key ` set cur = key ` set des" by blast
next
  assume "key ` set cur = key ` set des"
  then have "(\<exists>x. collect key cur k = Some x) \<longleftrightarrow> (\<exists>x. collect key des k = Some x)" for k
    by (simp add: in_keys_iff [symmetric])
  then show "tables_in_sync key (\<lambda>_ _. True) (\<lambda>_. False) cur des"
    unfolding tables_in_sync_def in_keys_iff Un_iff Ball_def by (fastforce split: option.splits)
qed

lemma snmp_changes_iff:
  assumes "hash_iter_ok it"
  shows "\<not> snmp_diff_changes (compute_diff it cur des f) \<longleftrightarrow> snmp_in_sync (st_snmp cur) (effective_snmp des)"
proof -
  have "receiver_changes it rs rs' = ([], []) \<longleftrightarrow> r_host ` set rs = r_host ` set rs'" for rs rs'
    using receiver_table.no_changes_iff [OF assms, of rs rs'] by (simp add: sync_keys prod_eq_iff)
  moreover have "trap_changes it ts ts' = ([], []) \<longleftrightarrow> set ts = set ts'" for ts ts'
    using trap_table.no_changes_iff [OF assms, of ts ts'] by (simp add: sync_keys prod_eq_iff)
  moreover note community_table.no_changes_iff [OF assms]
  ultimately have "\<not> snmp_has_changes (compute_snmp_diff it c d) \<longleftrightarrow> snmp_in_sync (Some c) (Some d)" for c d
    by (simp add: snmp_has_changes_tables snmp_in_sync_def)
  then show ?thesis
    by (auto simp: snmp_diff_changes_def compute_diff_snmp snmp_in_sync_def snmp_has_changes_def
        add_all_snmp_def remove_all_snmp_def split: option.splits)
qed

lemma has_changes_iff_out_of_sync:
  assumes "hash_iter_ok it"
  shows "\<not> has_changes (compute_diff it cur des f) \<longleftrightarrow> state_in_sync cur des f"
proof -
  let ?vs = "model_supports supports_vlan_description des"
  have "vlan_changes it ?vs (st_vlans cur) (s_vlans des) = ([], [], []) \<longleftrightarrow>
      tables_in_sync v_id (\<lambda>c d. vlans_equivalent_for_model c d ?vs) (\<lambda>i. i = 1) (st_vlans cur) (s_vlans des)"
    using vlan_table.no_changes_iff [of "(it, ?vs)"] assms by simp
  moreover have "reset_ports it (st_ports cur) (s_ports des) (s_port_mirrors des) = [] \<longleftrightarrow>
      (\<forall>i \<in> p_port_id ` set (st_ports cur) - p_port_id ` set (s_ports des)
          - m_destination_port ` set (s_port_mirrors des).
        \<exists>c. collect p_port_id (st_ports cur) i = Some c \<and> is_port_in_default_state c)"
  proof -
    have "xs = [] \<longleftrightarrow> (\<forall>i. i \<notin> set xs)" for xs :: "string list" by (cases xs) auto
    then have "reset_ports it (st_ports cur) (s_ports des) (s_port_mirrors des) = [] \<longleftrightarrow>
        (\<forall>i. i \<notin> set (reset_ports it (st_ports cur) (s_ports des) (s_port_mirrors des)))" .
    then show ?thesis unfolding set_reset_ports [OF assms] case_option_ex by blast
  qed
  moreover have "dest_ports_to_configure (st_ports cur) [] (s_port_mirrors des) = [] \<longleftrightarrow>
      (\<forall>m \<in> set (s_port_mirrors des). \<exists>c. collect p_port_id (st_ports cur) (m_destination_port m) = Some c \<and> is_baseline c)"
  proof -
    have "xs = [] \<longleftrightarrow> (\<forall>i. i \<notin> set xs)" for xs :: "string list" by (cases xs) auto
    then have "dest_ports_to_configure (st_ports cur) [] (s_port_mirrors des) = [] \<longleftrightarrow>
        (\<forall>i. i \<notin> set (dest_ports_to_configure (st_ports cur) [] (s_port_mirrors des)))" .
    then show ?thesis unfolding set_dest_ports case_option_ex by auto
  qed
  ultimately show ?thesis
    unfolding has_changes_compute_diff state_in_sync_def ports_in_sync_iff
      snmp_changes_iff [OF assms] mirror_table.no_changes_iff [OF assms]
    by blast
qed

text \<open>C4: The difference is empty exactly when the switch is in sync with its configuration: every VLAN,
  mirror and community is on both sides and equivalent, only VLAN 1 may be extra, configured
  ports are equivalent, mirror destinations have the baseline, with enforcement every other port is in the default
  state, trap receivers and traps are the same, and so is the management VLAN.\<close>

theorem no_changes_iff_in_sync:
  assumes "hash_iter_ok it"
  shows "\<not> has_changes (compute_diff it cur des f) \<longleftrightarrow> state_in_sync cur des f"
  using assms by (rule has_changes_iff_out_of_sync)

theorem no_changes_iff_in_sync_witness:
  "hash_iter_ok plain_iter \<and>
   (\<not> has_changes (compute_diff plain_iter example_state example_desired True) \<longleftrightarrow>
     state_in_sync example_state example_desired True)"
  using no_changes_iff_in_sync [OF iter_ok(1)] iter_ok(1) by blast

text \<open>The VLANs to remove are exactly those on the switch that the configuration does not have, but
  never VLAN 1, each once; no VLAN is both added and updated.\<close>

theorem vlans_removed_exactly:
  assumes "hash_iter_ok it"
  shows "set (vlans_to_remove (compute_diff it cur des f)) = v_id ` set (st_vlans cur) - v_id ` set (s_vlans des) - {1} \<and>
         distinct (vlans_to_remove (compute_diff it cur des f)) \<and>
         distinct (map v_id (vlans_to_add (compute_diff it cur des f)) @
                   map v_id (vlans_to_update (compute_diff it cur des f)))"
proof -
  let ?e = "(it, model_supports supports_vlan_description des)" and ?d = "compute_diff it cur des f"
  have ok: "hash_iter_ok (fst ?e)" and ch: "vlan_changes (fst ?e) (snd ?e) (st_vlans cur) (s_vlans des) =
      (vlans_to_add ?d, vlans_to_remove ?d, vlans_to_update ?d)"
    using assms by (simp_all add: compute_diff_vlans)
  have "distinct (vlans_to_remove ?d)"
    using ch by (simp add: vlan_changes_def Let_def vlan_iteration assms flip: compute_diff_vlans [of it cur des f])
      (metis distinct_filter distinct_hash_keys distinct_hash_ops(1) vlan_iteration(1,3) assms)
  then show ?thesis
    using vlan_table.removes [OF ok ch] vlan_table.once [OF ok ch] by auto
qed

theorem vlans_removed_exactly_witness:
  "hash_iter_ok plain_iter \<and> set (vlans_to_remove (compute_diff plain_iter example_state example_desired True)) = {20}"
  using vlans_removed_exactly [OF iter_ok(1), of example_state example_desired True] iter_ok(1)
  by (auto simp: example_state_def example_desired_def example_switch_def example_vlan_def)

text \<open>C5: A port is reset only with \<open>enforce_port_config\<close>, and then exactly when it is on the switch, not in the
  configuration, not the destination of a mirror, and not in the default state already.\<close>

theorem ports_reset_exactly:
  assumes "hash_iter_ok it"
  shows "i \<in> set (ports_to_reset (compute_diff it cur des f)) \<longleftrightarrow>
    f \<and> i \<in> p_port_id ` set (st_ports cur) \<and> i \<notin> p_port_id ` set (s_ports des) \<and>
    i \<notin> m_destination_port ` set (s_port_mirrors des) \<and>
    \<not> (\<exists>c. collect p_port_id (st_ports cur) i = Some c \<and> is_port_in_default_state c)"
  using set_reset_ports [OF assms] by (simp add: compute_diff_ports case_option_ex)

theorem ports_reset_exactly_witness:
  "hash_iter_ok plain_iter \<and>
   ''2'' \<in> set (ports_to_reset (compute_diff plain_iter example_state example_desired True)) \<and>
   ''9'' \<notin> set (ports_to_reset (compute_diff plain_iter example_state example_desired True))"
  using ports_reset_exactly [OF iter_ok(1), of "''2''" example_state example_desired True]
    ports_reset_exactly [OF iter_ok(1), of "''9''" example_state example_desired True] iter_ok(1)
  by (simp add: example_state_def example_desired_def example_switch_def collect_snoc [of _ "[_]", simplified]
      plain_port_def is_port_in_default_state_def collect_code)

text \<open>With \<open>snmp.reads\<close> on, an apply never removes the community the service reads with, even when
  the configuration does not list it; and if the switch does not have it, it is added.\<close>

theorem managed_community_kept:
  assumes "hash_iter_ok it" and "s_snmp des = Some snmp" and "reads_auto_community snmp = Some c"
    and "snmp_diff (compute_diff it cur des f) = Some d"
  shows "c_name c \<notin> set (communities_to_remove d) \<and>
    (c_name c \<in> c_name ` set (case st_snmp cur of Some s \<Rightarrow> sn_communities s | None \<Rightarrow> []) \<or>
     c_name c \<in> c_name ` set (communities_to_add d))"
proof -
  have "\<exists>eff. effective_snmp des = Some eff \<and> c_name c \<in> c_name ` set (sn_communities eff)"
    using effective_snmp_enabled [OF assms(2,3)]
    by (cases "\<exists>d \<in> set (sn_communities snmp). c_name d = c_name c") (auto intro: rev_image_eqI)
  then obtain eff where eff: "effective_snmp des = Some eff" "c_name c \<in> c_name ` set (sn_communities eff)"
    by blast
  show ?thesis
  proof (cases "st_snmp cur")
    case None
    with eff assms(4) show ?thesis by (auto simp: compute_diff_snmp add_all_snmp_def)
  next
    case (Some s)
    with eff assms(4) have d: "d = compute_snmp_diff it s eff" by (simp add: compute_diff_snmp)
    note ch = compute_snmp_diff_tables(1) [of it s eff, folded d, symmetric]
    from eff(2) obtain x where x: "collect c_name (sn_communities eff) (c_name c) = Some x" "c_name x = c_name c"
      unfolding in_keys_iff by (auto dest: collect_SomeD)
    have "c_name c \<in> c_name ` set (communities_to_add d)" if "c_name c \<notin> c_name ` set (sn_communities s)"
      using community_table.adds [OF assms(1) ch, of x] x that by (simp add: collect_None_iff rev_image_eqI)
    with community_table.removes [OF assms(1) ch, of "c_name c"] eff(2) Some show ?thesis by auto
  qed
qed

theorem managed_community_kept_witness:
  "hash_iter_ok plain_iter \<and>
   ''probe'' \<in> c_name ` set (communities_to_add (add_all_snmp (example_snmp
      \<lparr>sn_communities := sn_communities example_snmp @ [\<lparr>c_name = ''probe'', c_access = Operator, c_name_file = None,
         c_name_credential = None, c_allowed_hosts = []\<rparr>]\<rparr>)))"
proof -
  let ?c = "\<lparr>c_name = ''probe'', c_access = Operator, c_name_file = None, c_name_credential = None,
     c_allowed_hosts = []\<rparr>"
  let ?eff = "example_snmp\<lparr>sn_communities := sn_communities example_snmp @ [?c]\<rparr>"
  have s: "s_snmp example_desired = Some example_snmp"
    by (simp add: example_desired_def example_switch_def)
  have c: "reads_auto_community example_snmp = Some ?c"
    by (simp add: example_snmp_def reads_auto_community_def)
  have "effective_snmp example_desired = Some ?eff"
    using effective_snmp_enabled [OF s c] by (simp add: example_snmp_def)
  then have d: "snmp_diff (compute_diff plain_iter example_state example_desired True) = Some (add_all_snmp ?eff)"
    by (simp add: compute_diff_snmp example_state_def)
  from managed_community_kept [OF iter_ok(1) s c d] iter_ok(1) show ?thesis
    by (simp add: example_state_def)
qed

text \<open>What \<open>ports_equivalent_for_model\<close> compares.\<close>

definition port_view :: "bool \<Rightarrow> port \<Rightarrow>
    string \<times> u16 \<times> string option \<times> bool \<times> bool \<times> speed_duplex \<times> bool \<times> u16 list" where
  "port_view poe p =
     (p_port_id p, p_vlan p, p_description p, p_enabled p, p_mac_notify p, p_speed_duplex p,
      poe \<and> p_poe_enabled p, filter (\<lambda>v. v \<noteq> p_vlan p) (p_tagged_vlans p))"

lemma ports_equivalent_view:
  "ports_equivalent_for_model p q poe \<longleftrightarrow> port_view poe p = port_view poe q"
proof -
  have mode: "filter (\<lambda>v. v \<noteq> p_vlan p) (p_tagged_vlans p) \<noteq> [] \<Longrightarrow> inferred_mode p = Trunk" for p
    by (auto simp: inferred_mode_def)
  define fp where "fp = filter (\<lambda>v. v \<noteq> p_vlan p) (p_tagged_vlans p)"
  define fq where "fq = filter (\<lambda>v. v \<noteq> p_vlan q) (p_tagged_vlans q)"
  have "fp \<noteq> [] \<Longrightarrow> inferred_mode p = Trunk" "fq \<noteq> [] \<Longrightarrow> inferred_mode q = Trunk"
    unfolding fp_def fq_def by (rule mode, assumption)+
  then show ?thesis
    unfolding ports_equivalent_for_model_def port_view_def Let_def prod.inject
      fp_def [symmetric] fq_def [symmetric]
    by (cases "fp = fq") auto
qed

text \<open>Two ports count as equivalent exactly when they agree on every compared attribute (PoE only where the
  model has it) and on the tagged VLANs without the native one, as lists: the comparison is an
  equivalence relation, the declared mode never matters, and the order of the tagged VLANs does.\<close>

theorem ports_equivalent_iff_view:
  "ports_equivalent_for_model p q poe \<longleftrightarrow> port_view poe p = port_view poe q"
  by (rule ports_equivalent_view)

text \<open>Tagging the same VLANs in another order is reported as a change.\<close>

lemma tagged_order_matters:
  "\<not> ports_equivalent ((plain_port True ''1'')\<lparr>p_tagged_vlans := [20, 10]\<rparr>)
      ((plain_port True ''1'')\<lparr>p_tagged_vlans := [10, 20]\<rparr>)"
  by (simp add: ports_equivalent_def ports_equivalent_view port_view_def plain_port_def)

section \<open>Reproducibility\<close>

lemma mset_unique: "set xs = set ys \<Longrightarrow> distinct xs \<Longrightarrow> distinct ys \<Longrightarrow> mset xs = mset ys"
  by (simp add: set_eq_iff_mset_eq_distinct)

lemma sort_key_unique:
  assumes "set xs = set ys" and "distinct (map key xs)" and "distinct (map key ys)"
  shows "sort_key (key :: 'a \<Rightarrow> 'k::linorder) xs = sort_key key ys"
  using assms by (intro sort_key_eq_sort_key mset_unique) (simp_all add: distinct_map)

text \<open>The SNMP commands are reproducible: the communities to add, to remove and to update come out in the same
  order in every run, although the hash maps they are taken from iterate in an arbitrary order.\<close>

theorem community_changes_reproducible:
  assumes "hash_iter_ok it" and "hash_iter_ok it'"
  shows "community_changes it cur des = community_changes it' cur des"
proof -
  obtain a r u a' r' u' where ch: "community_changes it cur des = (a, r, u)"
    "community_changes it' cur des = (a', r', u')" by (metis prod_cases3)
  let ?add = "\<lambda>i. List.map_filter (collect c_name des)
     (hash_difference (it_communities i DesiredSide (hash_keys c_name des)) (it_communities i CurrentSide (hash_keys c_name cur)))"
  let ?upd = "\<lambda>i. List.map_filter (changed_entry same_community (collect c_name cur) (collect c_name des))
     (it_communities i DesiredSide (hash_keys c_name des))"
  let ?rem = "\<lambda>i. hash_difference (it_communities i CurrentSide (hash_keys c_name cur))
     (it_communities i DesiredSide (hash_keys c_name des))"
  have eq: "community_changes i cur des = (sort_key c_name (?add i), sort (?rem i), sort_key c_name (?upd i))" for i
    by (simp add: community_changes_def Let_def)
  have dist: "distinct (map c_name (?add i))" "distinct (?rem i)" "distinct (map c_name (?upd i))"
    and sets: "set (?add i) = {x. collect c_name des (c_name x) = Some x \<and> collect c_name cur (c_name x) = None}"
      "set (?rem i) = c_name ` set cur - c_name ` set des"
      "set (?upd i) = {x. collect c_name des (c_name x) = Some x \<and>
        (\<exists>c. collect c_name cur (c_name x) = Some c \<and> \<not> same_community c x)}"
    if "hash_iter_ok i" for i
  proof -
    note it = hash_iter_okD(4) [OF that] set_iterates distinct_iterates
    show "distinct (map c_name (?add i))" "distinct (?rem i)" "distinct (map c_name (?upd i))"
      by (simp_all add: it distinct_added distinct_updated)
    show "set (?rem i) = c_name ` set cur - c_name ` set des" by (simp add: it)
    show "set (?add i) = {x. collect c_name des (c_name x) = Some x \<and> collect c_name cur (c_name x) = None}"
      by (rule set_eqI) (simp only: in_added it set_hash_keys mem_Collect_eq)
    show "set (?upd i) = {x. collect c_name des (c_name x) = Some x \<and>
        (\<exists>c. collect c_name cur (c_name x) = Some c \<and> \<not> same_community c x)}"
      by (rule set_eqI, subst in_updated) (auto simp: it)
  qed
  have "sort (?rem it) = sort (?rem it')"
    using sort_key_unique [of "?rem it" "?rem it'" "\<lambda>x. x"] sets(2) dist(2) assms by simp
  moreover have "sort_key c_name (?add it) = sort_key c_name (?add it')"
    by (intro sort_key_unique) (simp_all only: sets dist assms)
  moreover have "sort_key c_name (?upd it) = sort_key c_name (?upd it')"
    by (intro sort_key_unique) (simp_all only: sets dist assms)
  ultimately show ?thesis by (simp add: eq)
qed

theorem community_changes_reproducible_witness:
  "hash_iter_ok plain_iter \<and> hash_iter_ok reverse_iter \<and>
   community_changes plain_iter [snmp_community_new ''z'' Operator, snmp_community_new ''a'' Operator] [] =
   community_changes reverse_iter [snmp_community_new ''z'' Operator, snmp_community_new ''a'' Operator] []"
  using community_changes_reproducible [OF iter_ok] iter_ok by blast

section \<open>Migrations\<close>

definition port_affected :: "u16 list \<Rightarrow> port \<Rightarrow> bool" where
  "port_affected removed p \<longleftrightarrow>
     (case inferred_mode p of
        Access \<Rightarrow> p_vlan p \<in> set removed
      | Trunk \<Rightarrow> set (p_tagged_vlans p) \<inter> set removed \<noteq> {})"

definition migration_ok :: "u16 list \<Rightarrow> port \<Rightarrow> port_migration \<Rightarrow> bool" where
  "migration_ok removed p m \<longleftrightarrow>
     pm_port_id m = p_port_id p \<and> pm_vlan_being_removed m \<in> set removed \<and>
     (case pm_action m of
        MoveAccessToVlan1 \<Rightarrow> inferred_mode p = Access \<and> p_vlan p = pm_vlan_being_removed m
      | RemoveVlanFromTrunk remaining \<Rightarrow>
          inferred_mode p = Trunk \<and> pm_vlan_being_removed m \<in> set (p_tagged_vlans p) \<and>
          remaining = filter (\<lambda>v. v \<notin> set removed) (p_tagged_vlans p))"

lemma migration_for_Some:
  "migration_for removed p i = Some m \<Longrightarrow> i \<in> set removed \<Longrightarrow> migration_ok removed p m"
  by (auto simp: migration_for_def migration_ok_def split: port_mode.splits if_splits)

lemma migration_for_None:
  "migration_for removed p i = None \<longleftrightarrow>
     (case inferred_mode p of Access \<Rightarrow> p_vlan p \<noteq> i | Trunk \<Rightarrow> i \<notin> set (p_tagged_vlans p))"
  by (auto simp: migration_for_def split: port_mode.splits)

lemma first_migration_cases:
  assumes "set is \<subseteq> set removed"
  shows "if (case inferred_mode p of Access \<Rightarrow> p_vlan p \<in> set is | Trunk \<Rightarrow> set (p_tagged_vlans p) \<inter> set is \<noteq> {})
         then \<exists>m. first_migration removed p is = [m] \<and> migration_ok removed p m
         else first_migration removed p is = []"
  using assms
proof (induction "is")
  case (Cons i "is")
  show ?case
  proof (cases "migration_for removed p i")
    case None
    with Cons show ?thesis
      using migration_for_None [of removed p i] by (auto split: port_mode.splits if_splits)
  next
    case (Some m)
    moreover from this have "case inferred_mode p of Access \<Rightarrow> p_vlan p = i | Trunk \<Rightarrow> i \<in> set (p_tagged_vlans p)"
      using migration_for_None [of removed p i] by (auto split: port_mode.splits)
    moreover from Some Cons.prems have "migration_ok removed p m"
      by (intro migration_for_Some) auto
    ultimately show ?thesis by (auto split: port_mode.splits)
  qed
qed (simp split: port_mode.splits)


text \<open>A trunk whose native VLAN is deleted is not migrated.\<close>

lemma trunk_native_vlan_not_migrated:
  "find_ports_to_migrate (example_state\<lparr>st_ports := [(plain_port True ''1'')\<lparr>p_vlan := 20, p_tagged_vlans := [30]\<rparr>]\<rparr>) [20] = []"
  by (simp add: find_ports_to_migrate_def migration_for_def inferred_mode_def plain_port_def)

end
