(* ===== verification/Port_Ranges.thy ===== *)
theory Port_Ranges
  imports Switch_Types
begin

text \<open>
  Port identifiers with ranges and lists (\<open>parse_port_id\<close>, \<open>extract_number_suffix\<close> and
  \<open>expand_port_ranges\<close> of \<open>config.rs\<close>): what a range expands to, that every piece of an
  expansion is a single port again, and that expanding twice changes nothing.
\<close>

section \<open>Parsing a port identifier\<close>

datatype range_error =
    NoNumericSuffix string
  | BadNumber string
  | PrefixMismatch string string
  | StartAfterEnd nat nat
  | DestinationNotSingle string string
  | PanicIndex \<comment> \<open>the index \<open>dest_ports[0]\<close> of an empty vector\<close>

text \<open>The last contiguous run of ASCII digits, and what is before it.\<close>

definition digit_suffix :: "string \<Rightarrow> string" where
  "digit_suffix s = rev (takeWhile is_ascii_digit (rev s))"

definition extract_number_suffix :: "string \<Rightarrow> range_error + (string \<times> nat)" where
  "extract_number_suffix s =
     (let number_str = digit_suffix s;
          prefix = take (length s - length number_str) s
      in if number_str = [] then Inl (NoNumericSuffix s)
         else case parse_uint 4294967295 number_str of
                None \<Rightarrow> Inl (BadNumber number_str)
              | Some number \<Rightarrow> Inr (prefix, number))"

text \<open>
  One comma-separated segment. A segment that contains \<open>-\<close> is cut at the first one (\<open>splitn\<close>
  then yields exactly two parts).
\<close>

definition parse_segment :: "string \<Rightarrow> range_error + string list" where
  "parse_segment seg =
     (let segment = trim seg in
      case split_once (CHR ''-'') segment of
        None \<Rightarrow> Inr [segment]
      | Some (a, b) \<Rightarrow>
          and_then (extract_number_suffix (trim a)) (\<lambda>(prefix, start_num).
          and_then (extract_number_suffix (trim b)) (\<lambda>(end_prefix, end_num).
          and_then (if end_prefix = [] \<and> prefix \<noteq> [] then Inr prefix
                    else if end_prefix \<noteq> [] \<and> prefix \<noteq> end_prefix
                         then Inl (PrefixMismatch prefix end_prefix)
                    else Inr prefix) (\<lambda>final_prefix.
            if start_num > end_num then Inl (StartAfterEnd start_num end_num)
            else Inr (map (\<lambda>num. if final_prefix = [] then show_nat num
                                  else final_prefix @ show_nat num)
                          [start_num ..< Suc end_num])))))"

definition parse_port_id :: "string \<Rightarrow> range_error + string list" where
  "parse_port_id port_id =
     and_then (traverse parse_segment (split_on (CHR '','') port_id)) (\<lambda>xss. Inr (concat xss))"

section \<open>Expanding a switch\<close>

definition expand_port :: "port \<Rightarrow> range_error + port list" where
  "expand_port p =
     and_then (parse_port_id (p_port_id p)) (\<lambda>ids. Inr (map (\<lambda>i. p\<lparr>p_port_id := i\<rparr>) ids))"

definition expand_mirror :: "port_mirror \<Rightarrow> range_error + port_mirror" where
  "expand_mirror m =
     and_then (traverse parse_port_id (m_source_ports m)) (\<lambda>sources.
     and_then (parse_port_id (m_destination_port m)) (\<lambda>dest_ports.
       if length dest_ports > 1
       then Inl (DestinationNotSingle (m_session_id m) (m_destination_port m))
       else case dest_ports of
              [] \<Rightarrow> Inl PanicIndex
            | d # ds \<Rightarrow> Inr (m\<lparr>m_source_ports := concat sources, m_destination_port := d\<rparr>)))"

definition expand_port_ranges :: "switch_config \<Rightarrow> range_error + switch_config" where
  "expand_port_ranges sw =
     and_then (traverse expand_port (s_ports sw)) (\<lambda>pss.
     and_then (traverse expand_mirror (s_port_mirrors sw)) (\<lambda>ms.
       Inr (sw\<lparr>s_ports := concat pss, s_port_mirrors := ms\<rparr>)))"

section \<open>Single ports\<close>

text \<open>An identifier that stands for exactly itself: trimmed, and without the separators.\<close>

definition single_port :: "string \<Rightarrow> bool" where
  "single_port s \<longleftrightarrow> trim s = s \<and> CHR '','' \<notin> set s \<and> CHR ''-'' \<notin> set s"

lemma parse_single_port: "single_port s \<Longrightarrow> parse_port_id s = Inr [s]"
  by (simp add: single_port_def parse_port_id_def split_on_no_sep parse_segment_def
      split_once_None [THEN iffD2])

lemma digit_suffix_split:
  "take (length s - length (digit_suffix s)) s @ digit_suffix s = s"
proof -
  have "rev s = takeWhile is_ascii_digit (rev s) @ dropWhile is_ascii_digit (rev s)" by simp
  then have "s = rev (dropWhile is_ascii_digit (rev s)) @ digit_suffix s"
    by (metis digit_suffix_def rev_append rev_rev_ident)
  then show ?thesis by (metis append_eq_conv_conj length_append diff_add_inverse2)
qed

lemma digit_suffix_digits: "c \<in> set (digit_suffix s) \<Longrightarrow> is_ascii_digit c"
  by (auto simp: digit_suffix_def dest: set_takeWhileD)

lemma digit_suffix_append:
  assumes "list_all is_ascii_digit ds" and "p = [] \<or> \<not> is_ascii_digit (last p)"
  shows "digit_suffix (p @ ds) = ds"
proof -
  have "takeWhile is_ascii_digit (rev ds @ rev p) = rev ds @ takeWhile is_ascii_digit (rev p)"
    using assms(1) by (intro takeWhile_append2) (simp add: list_all_iff)
  also have "takeWhile is_ascii_digit (rev p) = []"
    using assms(2) by (cases p rule: rev_cases) auto
  finally show ?thesis by (simp add: digit_suffix_def)
qed

lemma extract_number_suffix_InrD:
  assumes "extract_number_suffix s = Inr (p, n)"
  shows "\<exists>ds. s = p @ ds \<and> ds \<noteq> [] \<and> list_all is_ascii_digit ds \<and> n \<le> 4294967295"
proof -
  from assms have ne: "digit_suffix s \<noteq> []" and n: "parse_uint 4294967295 (digit_suffix s) = Some n"
    and p: "p = take (length s - length (digit_suffix s)) s"
    by (auto simp: extract_number_suffix_def Let_def split: if_splits option.splits)
  have "s = p @ digit_suffix s" by (simp add: p digit_suffix_split)
  moreover have "list_all is_ascii_digit (digit_suffix s)"
    by (simp add: list_all_iff digit_suffix_digits)
  ultimately show ?thesis using ne parse_uint_bound [OF n] by blast
qed

lemma extract_number_suffix_show:
  assumes "p = [] \<or> \<not> is_ascii_digit (last p)" and "n \<le> 4294967295"
  shows "extract_number_suffix (p @ show_nat n) = Inr (p, n)"
  using assms by (simp add: extract_number_suffix_def digit_suffix_append show_nat_digits)

section \<open>Trimming and numbers\<close>

lemma white_space_first:
  "p \<in> set white_space \<Longrightarrow> p \<noteq> [] \<and> (\<forall>c \<in> set p. \<not> is_ascii_digit c)"
  by (auto simp: white_space_def byte_str_def is_ascii_digit_def)

text \<open>Replacing a number at the end of a trimmed identifier by another keeps it trimmed.\<close>

lemma no_pat_renumber:
  assumes pats: "\<And>w c. w \<in> set ps \<Longrightarrow> c \<in> set w \<Longrightarrow> \<not> is_ascii_digit c"
    and trimmed: "no_pat ps (p @ ds)" and d: "is_ascii_digit d"
  shows "no_pat ps (p @ d # t)"
proof (unfold no_pat_def, intro ballI impI notI)
  fix w assume w: "w \<in> set ps" "w \<noteq> []" and "starts_with w (p @ d # t)"
  then obtain u where u: "p @ d # t = w @ u" by (auto simp: starts_with_iff)
  have "length w \<le> length p"
  proof (rule ccontr)
    assume n: "\<not> length w \<le> length p"
    then have "(w @ u) ! length p = w ! length p" by (simp add: nth_append)
    with u have "w ! length p = d" by (metis nth_append_length)
    moreover from n have "w ! length p \<in> set w" by simp
    ultimately show False using pats [OF w(1)] d by metis
  qed
  moreover have "take (length w) (p @ d # t) = w" using u by simp
  ultimately have "w = take (length w) p" by simp
  then have "starts_with w (p @ ds)"
    by (metis append.assoc append_take_drop_id starts_with_iff)
  with trimmed w show False by (auto simp: no_pat_def)
qed

lemma white_space_no_digit: "w \<in> set white_space \<Longrightarrow> c \<in> set w \<Longrightarrow> \<not> is_ascii_digit c"
  by (auto simp: white_space_def byte_str_def is_ascii_digit_def)

lemma no_pat_digit:
  assumes "\<And>w c. w \<in> set ps \<Longrightarrow> c \<in> set w \<Longrightarrow> \<not> is_ascii_digit c" and "is_ascii_digit d"
  shows "no_pat ps (d # t)"
  using no_pat_renumber [of ps "[]" "[]" d t] assms by (auto simp: no_pat_def starts_with_def)

lemma show_nat_Cons: "\<exists>d ds. show_nat n = d # ds \<and> is_ascii_digit d"
  by (metis list.exhaust list.set_intros(1) show_nat_is_digit show_nat_nonempty)

lemma rev_show_nat_Cons: "\<exists>d ds. rev (show_nat n) = d # ds \<and> is_ascii_digit d"
  by (metis list.exhaust list.set_intros(1) rev_is_Nil_conv set_rev show_nat_is_digit show_nat_nonempty)

text \<open>A string whose text before a number is trimmed, and that ends in a number, is trimmed.\<close>

lemma trim_number_end:
  assumes "no_pat white_space (p @ ds)" and "ds = [] \<longrightarrow> p = []"
  shows "trim (p @ show_nat a @ s @ show_nat n) = p @ show_nat a @ s @ show_nat n"
    and "trim (p @ show_nat n) = p @ show_nat n"
proof -
  have rv: "no_pat (map rev white_space) (rev (show_nat n) @ t)" for t
    using rev_show_nat_Cons [of n] white_space_no_digit by (auto intro!: no_pat_digit)
  have fw: "no_pat white_space (p @ show_nat m @ t)" for m t
    using show_nat_Cons [of m] no_pat_renumber [OF white_space_no_digit assms(1)] by auto
  show "trim (p @ show_nat a @ s @ show_nat n) = p @ show_nat a @ s @ show_nat n"
    using fw rv by (intro trim_idI) simp_all
  show "trim (p @ show_nat n) = p @ show_nat n"
    using fw [of n "[]"] rv by (intro trim_idI) simp_all
qed

lemma trim_show_nat [simp]: "trim (show_nat n) = show_nat n"
  using trim_number_end(2) [of "[]" "[]" n] by (simp add: no_pat_def starts_with_def)

lemma show_nat_no_sep:
  "CHR '','' \<notin> set (show_nat n)" "CHR ''-'' \<notin> set (show_nat n)"
  by (auto dest: show_nat_is_digit simp: is_ascii_digit_def)

lemma renumbered_single_port:
  assumes "trim a = p @ ds" "ds \<noteq> []"
    and "CHR '','' \<notin> set a" "CHR ''-'' \<notin> set a"
  shows "single_port (p @ show_nat n)"
proof -
  have "set p \<subseteq> set a" using assms(1) set_trim_subset [of a] by auto
  moreover have "trim (p @ show_nat n) = p @ show_nat n"
    using trim_number_end(2) [of p ds n] trim_ends(1) [of a] assms(1,2) by simp
  ultimately show ?thesis using assms(3,4) show_nat_no_sep by (auto simp: single_port_def)
qed

lemma parse_segment_single:
  assumes "parse_segment seg = Inr xs" and "CHR '','' \<notin> set seg"
  shows "xs \<noteq> [] \<and> (\<forall>x \<in> set xs. single_port x)"
proof (cases "split_once (CHR ''-'') (trim seg)")
  case None
  with assms set_trim_subset [of seg] show ?thesis
    by (auto simp: parse_segment_def Let_def single_port_def split_once_None)
next
  case (Some ab)
  then obtain a b where ab: "split_once (CHR ''-'') (trim seg) = Some (a, b)" by (cases ab) auto
  then have seg: "trim seg = a @ CHR ''-'' # b" and nodash: "CHR ''-'' \<notin> set a"
    by (simp_all add: split_once_Some)
  from assms(2) seg set_trim_subset [of seg] have nocomma: "CHR '','' \<notin> set a" by auto
  from assms(1) ab obtain prefix start_num end_prefix end_num where
    pre: "extract_number_suffix (trim a) = Inr (prefix, start_num)"
    and le: "start_num \<le> end_num"
    and xs: "xs = map (\<lambda>num. prefix @ show_nat num) [start_num ..< Suc end_num]"
    by (auto simp: parse_segment_def Let_def res_simps split: if_splits)
  from pre obtain ds where ds: "trim a = prefix @ ds" "ds \<noteq> []" "list_all is_ascii_digit ds"
    using extract_number_suffix_InrD by blast
  from xs le have "xs \<noteq> []" by simp
  with xs renumbered_single_port [OF ds(1,2) nocomma nodash] show ?thesis by auto
qed

lemma parse_port_id_single:
  assumes "parse_port_id s = Inr ids"
  shows "ids \<noteq> [] \<and> (\<forall>x \<in> set ids. single_port x)"
proof -
  from assms obtain xss where xss: "traverse parse_segment (split_on (CHR '','') s) = Inr xss"
    and ids: "ids = concat xss" by (auto simp: parse_port_id_def res_simps)
  have each: "xs \<noteq> [] \<and> (\<forall>x \<in> set xs. single_port x)" if "xs \<in> set xss" for xs
  proof -
    from xss that obtain seg where "seg \<in> set (split_on (CHR '','') s)" "parse_segment seg = Inr xs"
      by (rule traverse_InrD)
    then show ?thesis using parse_segment_single split_on_pieces by blast
  qed
  have "xss \<noteq> []" using traverse_length [OF xss] by auto
  then have "ids \<noteq> []" using each ids by (cases xss) auto
  with each ids show ?thesis by auto
qed

section \<open>Properties\<close>

text \<open>A range expands to exactly the ports it names: for any prefix (an interface name, or
  nothing) and any bounds a \<le> b that fit 32 bits, \<open>prefix a-b\<close> yields the prefix followed by
  every number from a to b, in order, both ends included.\<close>

theorem parse_port_id_range:
  assumes "single_port (prefix @ show_nat a)" and "prefix = [] \<or> \<not> is_ascii_digit (last prefix)"
    and "a \<le> b" and "b \<le> 4294967295"
  shows "parse_port_id (prefix @ show_nat a @ CHR ''-'' # show_nat b) =
         Inr (map (\<lambda>n. prefix @ show_nat n) [a ..< Suc b])"
proof -
  let ?s = "prefix @ show_nat a @ CHR ''-'' # show_nat b"
  from assms(1) have pre: "CHR '','' \<notin> set prefix" "CHR ''-'' \<notin> set (prefix @ show_nat a)"
    and tr: "trim (prefix @ show_nat a) = prefix @ show_nat a"
    by (auto simp: single_port_def)
  have "trim ?s = ?s"
    using trim_number_end(1) [of prefix "show_nat a" a "''-''" b] trim_ends(1) [of "prefix @ show_nat a"]
    by (simp add: tr)
  moreover have "split_once (CHR ''-'') ?s = Some (prefix @ show_nat a, show_nat b)"
    using pre by (simp add: split_once_Some)
  moreover have "extract_number_suffix (prefix @ show_nat a) = Inr (prefix, a)"
    and "extract_number_suffix (show_nat b) = Inr ([], b)"
    using assms extract_number_suffix_show [of "[]" b] by (simp_all add: extract_number_suffix_show)
  ultimately have "parse_segment ?s = Inr (map (\<lambda>n. prefix @ show_nat n) [a ..< Suc b])"
    using assms(3) tr by (simp add: parse_segment_def Let_def)
  moreover have "CHR '','' \<notin> set ?s" using pre show_nat_no_sep by auto
  ultimately show ?thesis by (simp add: parse_port_id_def split_on_no_sep)
qed

theorem parse_port_id_range_witness:
  "single_port (''port'' @ show_nat 9) \<and> parse_port_id ''port9-11'' = Inr [''port9'', ''port10'', ''port11'']"
proof -
  have h: "single_port (''port'' @ show_nat 9)"
    by (simp add: single_port_def num_eval trim_eval)
  have "parse_port_id (''port'' @ show_nat 9 @ CHR ''-'' # show_nat 11) =
        Inr (map (\<lambda>n. ''port'' @ show_nat n) [9 ..< Suc 11])"
    by (rule parse_port_id_range [OF h]) (simp_all add: is_ascii_digit_def)
  with h show ?thesis by (simp add: num_eval upt_conv_Cons)
qed

text \<open>Every identifier an expansion yields is a single port that expands to itself, and an
  expansion is never empty: indexing its first element, as the code does for a mirror's
  destination, cannot go out of bounds.\<close>

theorem parse_port_id_result:
  assumes "parse_port_id s = Inr ids"
  shows "ids \<noteq> [] \<and> (\<forall>x \<in> set ids. parse_port_id x = Inr [x])"
  using parse_port_id_single [OF assms] parse_single_port by blast

theorem parse_port_id_result_witness:
  "parse_port_id ''1, 7'' = Inr [''1'', ''7''] \<and> parse_port_id ''1'' = Inr [''1''] \<and> parse_port_id ''7'' = Inr [''7'']"
proof -
  have h: "parse_port_id ''1, 7'' = Inr [''1'', ''7'']"
    by (simp add: parse_port_id_def parse_segment_def split_once_def trim_eval)
  from h parse_port_id_result [OF h] show ?thesis by simp
qed

lemma concat_map_singletons: "concat (map (\<lambda>x. [x]) xs) = xs"
  by (induction xs) auto

lemma traverse_concat_singletons:
  assumes "\<And>x. x \<in> set xs \<Longrightarrow> f x = Inr [x]"
  shows "traverse f xs = Inr (map (\<lambda>x. [x]) xs)"
  using assms by (induction xs) auto

text \<open>A switch all of whose port identifiers are single ports.\<close>

definition expanded :: "switch_config \<Rightarrow> bool" where
  "expanded sw \<longleftrightarrow>
     (\<forall>p \<in> set (s_ports sw). single_port (p_port_id p)) \<and>
     (\<forall>m \<in> set (s_port_mirrors sw). single_port (m_destination_port m) \<and>
        (\<forall>i \<in> set (m_source_ports m). single_port i))"

lemma expand_single_port: "single_port (p_port_id p) \<Longrightarrow> expand_port p = Inr [p]"
  by (simp add: expand_port_def parse_single_port)

lemma expand_single_mirror:
  assumes "single_port (m_destination_port m)" and "\<forall>i \<in> set (m_source_ports m). single_port i"
  shows "expand_mirror m = Inr m"
proof -
  have "traverse parse_port_id (m_source_ports m) = Inr (map (\<lambda>x. [x]) (m_source_ports m))"
    using assms(2) by (intro traverse_concat_singletons) (simp add: parse_single_port)
  with assms(1) show ?thesis
    by (simp add: expand_mirror_def parse_single_port concat_map_singletons del: concat_map_singleton)
qed

lemma expanded_fixpoint:
  assumes "expanded sw"
  shows "expand_port_ranges sw = Inr sw"
proof -
  have "traverse expand_port (s_ports sw) = Inr (map (\<lambda>x. [x]) (s_ports sw))"
    using assms by (intro traverse_concat_singletons) (simp add: expanded_def expand_single_port)
  moreover have "traverse expand_mirror (s_port_mirrors sw) = Inr (s_port_mirrors sw)"
    using assms by (intro traverse_id) (simp add: expanded_def expand_single_mirror)
  ultimately show ?thesis
    by (simp add: expand_port_ranges_def concat_map_singletons del: concat_map_singleton)
qed

lemma expand_mirror_expanded:
  assumes "expand_mirror m = Inr n"
  shows "single_port (m_destination_port n) \<and> (\<forall>i \<in> set (m_source_ports n). single_port i)"
proof -
  from assms obtain sources d where src: "traverse parse_port_id (m_source_ports m) = Inr sources"
    and dst: "parse_port_id (m_destination_port m) = Inr [d]"
    and n: "n = m\<lparr>m_source_ports := concat sources, m_destination_port := d\<rparr>"
    by (auto simp: expand_mirror_def res_simps split: if_splits list.splits)
  have "single_port x" if "x \<in> set (concat sources)" for x
  proof -
    from that obtain ids where "ids \<in> set sources" and x: "x \<in> set ids" by auto
    with src obtain y where "parse_port_id y = Inr ids" by (blast elim: traverse_InrD)
    with x show ?thesis using parse_port_id_single by blast
  qed
  moreover have "single_port d" using parse_port_id_single [OF dst] by simp
  ultimately show ?thesis by (simp add: n)
qed

lemma expand_port_ranges_expanded:
  assumes "expand_port_ranges sw = Inr sw'"
  shows "expanded sw'"
proof -
  from assms obtain pss ms where pss: "traverse expand_port (s_ports sw) = Inr pss"
    and ms: "traverse expand_mirror (s_port_mirrors sw) = Inr ms"
    and sw': "sw' = sw\<lparr>s_ports := concat pss, s_port_mirrors := ms\<rparr>"
    by (auto simp: expand_port_ranges_def res_simps)
  have "single_port (p_port_id q)" if "q \<in> set (concat pss)" for q
  proof -
    from that obtain ps where "ps \<in> set pss" and q: "q \<in> set ps" by auto
    with pss obtain p where "expand_port p = Inr ps" by (blast elim: traverse_InrD)
    with q obtain ids where "parse_port_id (p_port_id p) = Inr ids" "p_port_id q \<in> set ids"
      by (auto simp: expand_port_def res_simps)
    then show ?thesis using parse_port_id_single by blast
  qed
  moreover have "single_port (m_destination_port n) \<and> (\<forall>i \<in> set (m_source_ports n). single_port i)"
    if "n \<in> set ms" for n
    using ms that by (blast elim: traverse_InrD dest: expand_mirror_expanded)
  ultimately show ?thesis by (simp add: expanded_def sw')
qed

lemma expand_port_ranges_result: "expand_port_ranges sw = Inr sw' \<Longrightarrow> expand_port_ranges sw' = Inr sw'"
  by (simp add: expand_port_ranges_expanded expanded_fixpoint)

lemma expand_port_ranges_frame:
  assumes "expand_port_ranges sw = Inr sw'"
  shows "sw' = sw\<lparr>s_ports := s_ports sw', s_port_mirrors := s_port_mirrors sw'\<rparr>"
  using assms by (auto simp: expand_port_ranges_def res_simps)

text \<open>Expanding port ranges is idempotent on whole switches: a configuration that has been
  expanded, as every stored one has, is left exactly as it is by a second expansion, which the
  API performs when it validates again.\<close>

theorem expand_port_ranges_idempotent:
  "and_then (expand_port_ranges sw) expand_port_ranges = expand_port_ranges sw"
  using expand_port_ranges_result by (cases "expand_port_ranges sw") auto

end
