(* ===== verification/Validation.thy ===== *)
theory Validation
  imports Diff Port_Ranges "HOL-Library.Sublist"
begin

text \<open>
  Validation of a switch configuration (\<open>config.rs\<close>): required fields, the structural checks of the
  \<open>#[validate]\<close> attributes of \<open>models.rs\<close>, resolution of VLAN names, VLAN and mirror references, the
  checks of an overlay before it is saved, and \<open>validate_all_switches\<close>. The regular expression
  for number ranges in VLAN names is an argument (\<open>is_range\<close>): it is matched by a library. A failing
  step returns its error; the half-updated switch it leaves behind is only shown in a
  preview and is not modelled, except for the registry of secrets, which outlives it.
\<close>

datatype config_error =
    PortRange range_error
  | MissingFields "string list"
  | StructureInvalid
  | SecretError secret_error
  | HostsError hosts_error
  | AmbiguousVlanName string u16 u16
  | UnknownUntaggedVlan string string
  | UnknownTaggedVlan string string
  | VlanNameTooLong u16 nat
  | VlanNameLooksLikeRange u16
  | ReferenceErrors
  | NoVlans
  | DuplicateVlan u16
  | VlanOutOfRange u16
  | DuplicatePort string
  | UndefinedPortVlan string u16
  | UndefinedTaggedVlan string u16
  | MirrorDestinationConfigured string string
  | PanicMissingField \<comment> \<open>\<open>expect("hostname validated")\<close>, \<open>expect("model validated")\<close>\<close>

section \<open>Required fields and structure\<close>

definition get_missing_required_fields :: "switch_config \<Rightarrow> string list" where
  "get_missing_required_fields sw =
     (if s_hostname sw = None then [''hostname''] else [])
     @ (if s_model sw = None then [''model''] else [])
     @ (if s_management_ip sw = None then [''management_ip''] else [])
     @ (if s_credentials sw = None then [''credentials''] else [])"

definition validate_required_fields :: "switch_config \<Rightarrow> config_error + unit" where
  "validate_required_fields sw =
     (let missing_fields = get_missing_required_fields sw in
      bail_if (missing_fields \<noteq> []) (MissingFields missing_fields))"

definition validate_has_vlans :: "switch_config \<Rightarrow> config_error + unit" where
  "validate_has_vlans sw = bail_if (s_vlans sw = []) NoVlans"

definition valid_vlan_id :: "u16 \<Rightarrow> bool" where
  "valid_vlan_id i \<longleftrightarrow> 1 \<le> i \<and> i \<le> 4094"

text \<open>\<open>Validate for SwitchConfig\<close>: \<open>length(min = 1)\<close> on the id, \<open>range(min = 1, max = 4094)\<close> on the id
  of every nested VLAN and on the untagged VLAN of every nested port.\<close>

definition structure_ok :: "switch_config \<Rightarrow> bool" where
  "structure_ok sw \<longleftrightarrow>
     s_id sw \<noteq> [] \<and> list_all (valid_vlan_id \<circ> v_id) (s_vlans sw) \<and> list_all (valid_vlan_id \<circ> p_vlan) (s_ports sw)"

definition validate_structure :: "switch_config \<Rightarrow> config_error + unit" where
  "validate_structure sw = bail_if (\<not> structure_ok sw) StructureInvalid"

section \<open>VLAN names\<close>

fun ambiguous_from :: "(string \<rightharpoonup> u16) \<Rightarrow> vlan list \<Rightarrow> (string \<times> u16 \<times> u16) option" where
  "ambiguous_from name_to_id [] = None"
| "ambiguous_from name_to_id (v # vs) =
     (case name_to_id (v_name v) of
        Some existing_id \<Rightarrow>
          if existing_id \<noteq> v_id v then Some (v_name v, existing_id, v_id v)
          else ambiguous_from (name_to_id(v_name v \<mapsto> v_id v)) vs
      | None \<Rightarrow> ambiguous_from (name_to_id(v_name v \<mapsto> v_id v)) vs)"

definition find_ambiguous_vlan_name :: "vlan list \<Rightarrow> (string \<times> u16 \<times> u16) option" where
  "find_ambiguous_vlan_name vlans = ambiguous_from Map.empty vlans"

definition name_to_id :: "vlan list \<Rightarrow> (string \<rightharpoonup> u16)" where
  "name_to_id vlans name = map_option v_id (collect v_name vlans name)"

text \<open>The loop over \<open>tagged_vlan_refs\<close>; \<open>resolved\<close> is what has been pushed.\<close>

fun resolve_tagged ::
  "bool \<Rightarrow> (string \<rightharpoonup> u16) \<Rightarrow> string \<Rightarrow> vlan_ref list \<Rightarrow> u16 list \<Rightarrow> config_error + u16 list" where
  "resolve_tagged strict names pid [] resolved = Inr resolved"
| "resolve_tagged strict names pid (r # rs) resolved =
     and_then
       (case r of
          VlanId i \<Rightarrow> Inr (Some i)
        | VlanName n \<Rightarrow>
            (case names n of
               Some i \<Rightarrow> Inr (Some i)
             | None \<Rightarrow> if strict then Inl (UnknownTaggedVlan pid n) else Inr None))
       (\<lambda>i. resolve_tagged strict names pid rs
              (case i of
                 Some i \<Rightarrow> if List.member resolved i then resolved else resolved @ [i]
               | None \<Rightarrow> resolved))"

definition resolve_port_names :: "bool \<Rightarrow> (string \<rightharpoonup> u16) \<Rightarrow> port \<Rightarrow> config_error + port" where
  "resolve_port_names strict names port =
     and_then
       (case p_vlan_name port of
          None \<Rightarrow> Inr port
        | Some name \<Rightarrow>
            (case names name of
               Some i \<Rightarrow> Inr (port\<lparr>p_vlan_name := None, p_vlan := i\<rparr>)
             | None \<Rightarrow> Inl (UnknownUntaggedVlan (p_port_id port) name)))
       (\<lambda>port.
         if p_tagged_vlan_refs port \<noteq> []
         then and_then (resolve_tagged strict names (p_port_id port) (p_tagged_vlan_refs port) [])
                (\<lambda>resolved. Inr (port\<lparr>p_tagged_vlan_refs := [], p_tagged_vlans := resolved\<rparr>))
         else Inr port)"

definition resolve_vlan_names :: "bool \<Rightarrow> switch_config \<Rightarrow> config_error + switch_config" where
  "resolve_vlan_names strict sw =
     (case find_ambiguous_vlan_name (s_vlans sw) of
        Some (name, existing_id, i) \<Rightarrow> Inl (AmbiguousVlanName name existing_id i)
      | None \<Rightarrow>
          and_then (traverse (resolve_port_names strict (name_to_id (s_vlans sw))) (s_ports sw))
            (\<lambda>ports. Inr (sw\<lparr>s_ports := ports\<rparr>)))"

section \<open>VLAN and mirror references\<close>

definition check_vlan_name :: "(string \<Rightarrow> bool) \<Rightarrow> nat \<Rightarrow> vlan \<Rightarrow> config_error option" where
  "check_vlan_name is_range max_name_len v =
     (if length (v_name v) > max_name_len then Some (VlanNameTooLong (v_id v) (length (v_name v)))
      else if is_range (v_name v) then Some (VlanNameLooksLikeRange (v_id v))
      else None)"

definition defined_vlans :: "switch_config \<Rightarrow> switch_model \<Rightarrow> u16 list" where
  "defined_vlans sw m = map v_id (s_vlans sw) @ implicit_vlans m"

definition port_reference_error :: "bool \<Rightarrow> switch_model \<Rightarrow> u16 list \<Rightarrow> port \<Rightarrow> bool" where
  "port_reference_error strict m defined p \<longleftrightarrow>
     \<not> List.member defined (p_vlan p) \<or> \<not> supports_speed m (p_speed_duplex p) \<or>
     (strict \<and> list_ex (\<lambda>i. \<not> List.member defined i) (p_tagged_vlans p))"

definition drop_undefined_tagged :: "u16 list \<Rightarrow> port \<Rightarrow> port" where
  "drop_undefined_tagged defined p =
     p\<lparr>p_tagged_vlans := filter (\<lambda>i. List.member defined i) (p_tagged_vlans p)\<rparr>"

definition mirror_destination_error :: "switch_config \<Rightarrow> port_mirror \<Rightarrow> bool" where
  "mirror_destination_error sw m \<longleftrightarrow> List.member (map p_port_id (s_ports sw)) (m_destination_port m)"

definition validate_vlan_references_inner ::
  "(string \<Rightarrow> bool) \<Rightarrow> bool \<Rightarrow> switch_config \<Rightarrow> config_error + switch_config" where
  "validate_vlan_references_inner is_range strict sw =
     (case (s_hostname sw, s_model sw) of
        (Some hostname, Some m) \<Rightarrow>
          and_then (check_all (check_vlan_name is_range (max_vlan_name_length m)) (s_vlans sw)) (\<lambda>_.
            let defined = defined_vlans sw m;
                has_port_errors = list_ex (port_reference_error strict m defined) (s_ports sw);
                sw' = (if strict then sw
                       else sw\<lparr>s_ports := map (drop_undefined_tagged defined) (s_ports sw)\<rparr>);
                has_errors = (has_port_errors \<or> list_ex (mirror_destination_error sw') (s_port_mirrors sw'))
            in if has_errors then Inl ReferenceErrors else Inr sw')
      | _ \<Rightarrow> Inl PanicMissingField)"

definition validate_vlan_references :: "(string \<Rightarrow> bool) \<Rightarrow> switch_config \<Rightarrow> config_error + switch_config" where
  "validate_vlan_references is_range sw = validate_vlan_references_inner is_range False sw"

definition validate_vlan_references_strict :: "(string \<Rightarrow> bool) \<Rightarrow> switch_config \<Rightarrow> config_error + switch_config" where
  "validate_vlan_references_strict is_range sw = validate_vlan_references_inner is_range True sw"

section \<open>Validating a switch\<close>

text \<open>The result, and the registry of known secrets, which keeps what was registered before an error.\<close>

definition validate_switch_config ::
  "(string \<Rightarrow> bool) \<Rightarrow> secret_env \<Rightarrow> switch_config \<Rightarrow> string list \<Rightarrow>
     (config_error + switch_config) \<times> string list" where
  "validate_switch_config is_range env sw registry =
     (case and_then (map_err PortRange (expand_port_ranges sw)) (\<lambda>sw.
           and_then (validate_required_fields sw) (\<lambda>_.
           and_then (validate_structure sw) (\<lambda>_. Inr sw))) of
        Inl e \<Rightarrow> (Inl e, registry)
      | Inr sw \<Rightarrow>
          (case resolve_snmp_secrets env (sw, registry) of
             (Some e, (_, registry')) \<Rightarrow> (Inl (SecretError e), registry')
           | (None, (sw, registry')) \<Rightarrow>
               (and_then (map_err HostsError (check_vendor_support sw)) (\<lambda>_.
                and_then (resolve_vlan_names False sw) (\<lambda>sw.
                  validate_vlan_references is_range sw)), registry')))"

record switch_failure =
  f_switch_id :: string
  f_hostname :: "string option"
  f_error :: config_error

fun validate_all_switches ::
  "(string \<Rightarrow> bool) \<Rightarrow> secret_env \<Rightarrow> switch_config list \<Rightarrow> string list \<Rightarrow>
     (switch_config list \<times> switch_failure list) \<times> string list" where
  "validate_all_switches is_range env [] registry = (([], []), registry)"
| "validate_all_switches is_range env (sw # sws) registry =
     (case validate_switch_config is_range env sw registry of (r, registry') \<Rightarrow>
      case validate_all_switches is_range env sws registry' of ((valid, failures), registry'') \<Rightarrow>
        ((case r of
            Inr sw' \<Rightarrow> (sw' # valid, failures)
          | Inl e \<Rightarrow>
              (valid, \<lparr>f_switch_id = s_id sw, f_hostname = s_hostname sw, f_error = e\<rparr> # failures)),
         registry''))"

section \<open>Validating an overlay\<close>

fun check_overlay_vlans :: "u16 list \<Rightarrow> vlan list \<Rightarrow> config_error + unit" where
  "check_overlay_vlans seen [] = Inr ()"
| "check_overlay_vlans seen (v # vs) =
     (if List.member seen (v_id v) then Inl (DuplicateVlan (v_id v))
      else if v_id v < 1 \<or> v_id v > 4094 then Inl (VlanOutOfRange (v_id v))
      else check_overlay_vlans (v_id v # seen) vs)"

fun check_overlay_ports :: "string list \<Rightarrow> port list \<Rightarrow> config_error + unit" where
  "check_overlay_ports seen [] = Inr ()"
| "check_overlay_ports seen (p # ps) =
     (if List.member seen (p_port_id p) then Inl (DuplicatePort (p_port_id p))
      else check_overlay_ports (p_port_id p # seen) ps)"

definition overlay_valid_vlans :: "switch_config \<Rightarrow> u16 list \<Rightarrow> u16 list" where
  "overlay_valid_vlans sw known_external =
     map v_id (s_vlans sw) @ known_external @ (case s_model sw of Some m \<Rightarrow> implicit_vlans m | None \<Rightarrow> [1])"

definition check_overlay_port :: "u16 list \<Rightarrow> port \<Rightarrow> config_error option" where
  "check_overlay_port valid_vlans p =
     (if \<not> List.member valid_vlans (p_vlan p) then Some (UndefinedPortVlan (p_port_id p) (p_vlan p))
      else map_option (UndefinedTaggedVlan (p_port_id p))
             (List.find (\<lambda>i. \<not> List.member valid_vlans i) (p_tagged_vlans p)))"

definition check_overlay_mirror :: "port list \<Rightarrow> port_mirror \<Rightarrow> config_error option" where
  "check_overlay_mirror ports m =
     (if List.member (map p_port_id ports) (m_destination_port m)
      then Some (MirrorDestinationConfigured (m_session_id m) (m_destination_port m)) else None)"

definition validate_overlay_config :: "u16 list \<Rightarrow> switch_config \<Rightarrow> config_error + switch_config" where
  "validate_overlay_config known_external sw =
     and_then (map_err SecretError (check_snmp_secret_sources sw)) (\<lambda>_.
     and_then (map_err HostsError (check_vendor_support sw)) (\<lambda>_.
     and_then (map_err PortRange (expand_port_ranges sw)) (\<lambda>sw.
     and_then (check_overlay_vlans [] (s_vlans sw)) (\<lambda>_.
     and_then (check_overlay_ports [] (s_ports sw)) (\<lambda>_.
     and_then (resolve_vlan_names True sw) (\<lambda>sw.
     and_then (check_all (check_overlay_port (overlay_valid_vlans sw known_external)) (s_ports sw)) (\<lambda>_.
     and_then (check_all (check_overlay_mirror (s_ports sw)) (s_port_mirrors sw)) (\<lambda>_.
       Inr sw))))))))"

section \<open>Ambiguous names\<close>

definition names_agree :: "(string \<rightharpoonup> u16) \<Rightarrow> vlan \<Rightarrow> bool" where
  "names_agree m v \<longleftrightarrow> m (v_name v) = None \<or> m (v_name v) = Some (v_id v)"

definition unambiguous :: "vlan list \<Rightarrow> bool" where
  "unambiguous vs \<longleftrightarrow> (\<forall>v \<in> set vs. \<forall>w \<in> set vs. v_name v = v_name w \<longrightarrow> v_id v = v_id w)"

lemma names_agree_upd:
  "names_agree (m(v_name v \<mapsto> v_id v)) w \<longleftrightarrow>
     (if v_name w = v_name v then v_id w = v_id v else names_agree m w)"
  by (auto simp: names_agree_def)

lemma unambiguous_Cons:
  "unambiguous (v # vs) \<longleftrightarrow> (\<forall>w \<in> set vs. v_name w = v_name v \<longrightarrow> v_id w = v_id v) \<and> unambiguous vs"
  unfolding unambiguous_def list.set(2) by (metis insert_iff)

lemma ambiguous_from_None:
  "ambiguous_from m vs = None \<longleftrightarrow> (\<forall>v \<in> set vs. names_agree m v) \<and> unambiguous vs"
proof (induction vs arbitrary: m)
  case Nil
  show ?case by (simp add: unambiguous_def)
next
  case (Cons v vs)
  have step: "ambiguous_from m (v # vs) = None \<longleftrightarrow>
      names_agree m v \<and> ambiguous_from (m(v_name v \<mapsto> v_id v)) vs = None"
    by (cases "m (v_name v)") (simp_all add: names_agree_def)
  have "names_agree m v \<Longrightarrow> names_agree (m(v_name v \<mapsto> v_id v)) w \<longleftrightarrow>
      names_agree m w \<and> (v_name w = v_name v \<longrightarrow> v_id w = v_id v)" for w
    unfolding names_agree_upd by (cases "v_name w = v_name v") (auto simp: names_agree_def)
  then show ?case unfolding step Cons.IH unambiguous_Cons list.set(2) by blast
qed

lemma ambiguous_from_Some:
  "ambiguous_from m vs = Some (n, i, j) \<Longrightarrow>
     i \<noteq> j \<and> (\<exists>v \<in> set vs. v_name v = n \<and> v_id v = j) \<and>
     (m n = Some i \<or> (\<exists>v \<in> set vs. v_name v = n \<and> v_id v = i))"
proof (induction vs arbitrary: m)
  case (Cons v vs)
  show ?case
  proof (cases "m (v_name v) = None \<or> m (v_name v) = Some (v_id v)")
    case True
    with Cons.prems have "ambiguous_from (m(v_name v \<mapsto> v_id v)) vs = Some (n, i, j)" by auto
    from Cons.IH [OF this] show ?thesis by (auto split: if_splits)
  next
    case False
    with Cons.prems show ?thesis by auto
  qed
qed simp

lemma find_ambiguous_None: "find_ambiguous_vlan_name vs = None \<longleftrightarrow> unambiguous vs"
  by (simp add: find_ambiguous_vlan_name_def ambiguous_from_None names_agree_def)

text \<open>A VLAN name is reported as ambiguous exactly when two VLANs of the switch have it under different
  ids, and the two ids reported are ids of VLANs with that name.\<close>

theorem find_ambiguous_vlan_name_iff:
  "case find_ambiguous_vlan_name vs of
     None \<Rightarrow> \<not> (\<exists>v \<in> set vs. \<exists>w \<in> set vs. v_name v = v_name w \<and> v_id v \<noteq> v_id w)
   | Some (n, i, j) \<Rightarrow> i \<noteq> j \<and> {i, j} \<subseteq> v_id ` {v \<in> set vs. v_name v = n}"
proof (cases "find_ambiguous_vlan_name vs")
  case None
  then have "unambiguous vs" by (simp add: find_ambiguous_None)
  then have "\<not> (\<exists>v \<in> set vs. \<exists>w \<in> set vs. v_name v = v_name w \<and> v_id v \<noteq> v_id w)"
    unfolding unambiguous_def by metis
  with None show ?thesis by (simp only: option.case not_False_eq_True)
next
  case (Some r)
  then show ?thesis using ambiguous_from_Some [of Map.empty vs]
    by (auto simp: find_ambiguous_vlan_name_def)
qed

section \<open>Resolving names\<close>

definition ref_target :: "(string \<rightharpoonup> u16) \<Rightarrow> vlan_ref \<Rightarrow> u16 option" where
  "ref_target names r = (case r of VlanId i \<Rightarrow> Some i | VlanName n \<Rightarrow> names n)"

definition push_new :: "u16 list \<Rightarrow> u16 list \<Rightarrow> u16 list" where
  "push_new acc is = foldl (\<lambda>acc i. if i \<in> set acc then acc else acc @ [i]) acc is"

lemma set_push_new: "set (push_new acc is) = set acc \<union> set is"
  by (induction "is" arbitrary: acc) (auto simp: push_new_def)

lemma distinct_push_new: "distinct acc \<Longrightarrow> distinct (push_new acc is)"
  by (induction "is" arbitrary: acc) (auto simp: push_new_def)

lemma resolve_tagged_Cons:
  "resolve_tagged strict names pid (r # rs) acc =
     (case ref_target names r of
        Some i \<Rightarrow> resolve_tagged strict names pid rs (push_new acc [i])
      | None \<Rightarrow>
          if strict then Inl (UnknownTaggedVlan pid (case r of VlanName n \<Rightarrow> n | VlanId _ \<Rightarrow> []))
          else resolve_tagged strict names pid rs acc)"
  by (cases r) (auto simp: ref_target_def push_new_def split: option.splits)

lemma resolve_tagged_Inr:
  "resolve_tagged strict names pid rs acc = Inr out \<longleftrightarrow>
     (strict \<longrightarrow> (\<forall>r \<in> set rs. ref_target names r \<noteq> None)) \<and>
     out = push_new acc (List.map_filter (ref_target names) rs)"
proof (induction rs arbitrary: acc)
  case Nil
  show ?case by (auto simp: push_new_def map_filter_simps)
next
  case (Cons r rs)
  have push: "push_new (push_new acc [i]) is = push_new acc (i # is)" for i "is"
    by (simp add: push_new_def)
  show ?case
  proof (cases "ref_target names r")
    case None
    then show ?thesis
      using Cons.IH [of acc]
      by (cases strict) (simp_all add: resolve_tagged_Cons map_filter_simps del: resolve_tagged.simps)
  next
    case (Some i)
    then show ?thesis
      by (simp add: resolve_tagged_Cons Cons.IH map_filter_simps push del: resolve_tagged.simps)
  qed
qed

text \<open>A port without pending names, and what resolving its names does to it.\<close>

definition no_pending_names :: "port \<Rightarrow> bool" where
  "no_pending_names p \<longleftrightarrow> p_vlan_name p = None \<and> p_tagged_vlan_refs p = []"

lemma resolve_port_names_Inr:
  assumes "resolve_port_names strict names p = Inr q"
  shows "no_pending_names q \<and> p_port_id q = p_port_id p \<and> p_speed_duplex q = p_speed_duplex p \<and>
    (case p_vlan_name p of None \<Rightarrow> p_vlan q = p_vlan p | Some n \<Rightarrow> names n = Some (p_vlan q)) \<and>
    p_tagged_vlans q = (if p_tagged_vlan_refs p = [] then p_tagged_vlans p
      else push_new [] (List.map_filter (ref_target names) (p_tagged_vlan_refs p)))"
  using assms
  by (auto simp: resolve_port_names_def no_pending_names_def res_simps resolve_tagged_Inr
      split: option.splits if_splits)

lemma resolve_port_names_done:
  "no_pending_names p \<Longrightarrow> resolve_port_names strict names p = Inr p"
  by (simp add: resolve_port_names_def no_pending_names_def)

lemma name_to_id_Some: "name_to_id vs n = Some i \<Longrightarrow> \<exists>v \<in> set vs. v_name v = n \<and> v_id v = i"
  by (auto simp: name_to_id_def dest: collect_SomeD)

lemma name_to_id_unambiguous:
  assumes "unambiguous vs" and "v \<in> set vs"
  shows "name_to_id vs (v_name v) = Some (v_id v)"
proof -
  obtain w where w: "collect v_name vs (v_name v) = Some w" using collect_ex [OF assms(2)] by blast
  then have "w \<in> set vs" "v_name w = v_name v" by (auto dest: collect_SomeD)
  with assms have "v_id w = v_id v" unfolding unambiguous_def by blast
  with w show ?thesis by (simp add: name_to_id_def)
qed

lemma resolve_vlan_names_InrE:
  assumes "resolve_vlan_names strict sw = Inr sw'"
  obtains ps where "unambiguous (s_vlans sw)" "sw' = sw\<lparr>s_ports := ps\<rparr>"
    "list_all2 (\<lambda>p q. resolve_port_names strict (name_to_id (s_vlans sw)) p = Inr q) (s_ports sw) ps"
  using assms
  by (auto simp: resolve_vlan_names_def res_simps traverse_Inr_iff find_ambiguous_None
      split: option.splits prod.splits)

lemma resolve_vlan_names_done:
  assumes "unambiguous (s_vlans sw)" and "\<And>p. p \<in> set (s_ports sw) \<Longrightarrow> no_pending_names p"
  shows "resolve_vlan_names strict sw = Inr sw"
proof -
  have "traverse (resolve_port_names strict (name_to_id (s_vlans sw))) (s_ports sw) = Inr (s_ports sw)"
    by (intro traverse_id resolve_port_names_done assms(2))
  with assms(1) show ?thesis by (simp add: resolve_vlan_names_def find_ambiguous_None [THEN iffD2])
qed

section \<open>References\<close>

definition references_ok :: "(string \<Rightarrow> bool) \<Rightarrow> switch_config \<Rightarrow> bool" where
  "references_ok is_range sw \<longleftrightarrow>
     s_hostname sw \<noteq> None \<and>
     (case s_model sw of
        None \<Rightarrow> False
      | Some m \<Rightarrow>
          (\<forall>v \<in> set (s_vlans sw). length (v_name v) \<le> max_vlan_name_length m \<and> \<not> is_range (v_name v)) \<and>
          (\<forall>p \<in> set (s_ports sw). p_vlan p \<in> set (defined_vlans sw m) \<and>
             set (p_tagged_vlans p) \<subseteq> set (defined_vlans sw m) \<and> supports_speed m (p_speed_duplex p)) \<and>
          (\<forall>mi \<in> set (s_port_mirrors sw). m_destination_port mi \<notin> p_port_id ` set (s_ports sw)))"

lemma drop_undefined_frame [simp]:
  "p_port_id (drop_undefined_tagged d p) = p_port_id p"
  "p_vlan (drop_undefined_tagged d p) = p_vlan p"
  "p_speed_duplex (drop_undefined_tagged d p) = p_speed_duplex p"
  "p_vlan_name (drop_undefined_tagged d p) = p_vlan_name p"
  "p_tagged_vlan_refs (drop_undefined_tagged d p) = p_tagged_vlan_refs p"
  "p_tagged_vlans (drop_undefined_tagged d p) = filter (\<lambda>i. i \<in> set d) (p_tagged_vlans p)"
  by (simp_all add: drop_undefined_tagged_def)

lemma drop_undefined_id: "set (p_tagged_vlans p) \<subseteq> set d \<Longrightarrow> drop_undefined_tagged d p = p"
  by (cases p) (auto simp: drop_undefined_tagged_def filter_id_conv)

lemma check_vlan_name_None:
  "check_vlan_name is_range n v = None \<longleftrightarrow> length (v_name v) \<le> n \<and> \<not> is_range (v_name v)"
  by (simp add: check_vlan_name_def not_less)

lemma validate_vlan_references_result:
  assumes "validate_vlan_references_inner is_range strict sw = Inr sw'"
  shows "references_ok is_range sw' \<and>
    (\<exists>m. s_model sw = Some m \<and>
      sw' = (if strict then sw else sw\<lparr>s_ports := map (drop_undefined_tagged (defined_vlans sw m)) (s_ports sw)\<rparr>))"
proof -
  from assms obtain h m where h: "s_hostname sw = Some h" and m: "s_model sw = Some m"
    by (auto simp: validate_vlan_references_inner_def split: option.splits)
  let ?d = "defined_vlans sw m"
  from assms h m have names: "\<forall>v \<in> set (s_vlans sw). check_vlan_name is_range (max_vlan_name_length m) v = None"
    and ports: "\<forall>p \<in> set (s_ports sw). \<not> port_reference_error strict m ?d p"
    and sw': "sw' = (if strict then sw else sw\<lparr>s_ports := map (drop_undefined_tagged ?d) (s_ports sw)\<rparr>)"
    and mirrors: "\<forall>mi \<in> set (s_port_mirrors sw'). \<not> mirror_destination_error sw' mi"
    by (auto simp: validate_vlan_references_inner_def Let_def res_simps list_ex_iff split: if_splits)
  have same: "s_hostname sw' = s_hostname sw" "s_model sw' = s_model sw" "s_vlans sw' = s_vlans sw"
    "defined_vlans sw' m = ?d"
    by (simp_all add: sw' defined_vlans_def)
  have "p_vlan p \<in> set ?d \<and> set (p_tagged_vlans p) \<subseteq> set ?d \<and> supports_speed m (p_speed_duplex p)"
    if "p \<in> set (s_ports sw')" for p
    using that ports by (auto simp: sw' port_reference_error_def list_ex_iff split: if_splits)
  moreover have "m_destination_port mi \<notin> p_port_id ` set (s_ports sw')" if "mi \<in> set (s_port_mirrors sw')" for mi
    using mirrors that by (auto simp: mirror_destination_error_def)
  moreover have "length (v_name v) \<le> max_vlan_name_length m \<and> \<not> is_range (v_name v)" if "v \<in> set (s_vlans sw)" for v
    using names that by (simp add: check_vlan_name_None)
  ultimately have "references_ok is_range sw'"
    unfolding references_ok_def same h m option.case by simp
  with m sw' show ?thesis by blast
qed

lemma validate_vlan_references_done:
  assumes "references_ok is_range sw"
  shows "validate_vlan_references_inner is_range strict sw = Inr sw"
proof -
  from assms obtain h m where h: "s_hostname sw = Some h" and m: "s_model sw = Some m"
    by (auto simp: references_ok_def split: option.splits)
  let ?d = "defined_vlans sw m"
  from assms m have ok: "\<forall>v \<in> set (s_vlans sw). check_vlan_name is_range (max_vlan_name_length m) v = None"
    "\<forall>p \<in> set (s_ports sw). p_vlan p \<in> set ?d \<and> set (p_tagged_vlans p) \<subseteq> set ?d \<and> supports_speed m (p_speed_duplex p)"
    "\<forall>mi \<in> set (s_port_mirrors sw). \<not> mirror_destination_error sw mi"
    by (simp_all add: references_ok_def check_vlan_name_None mirror_destination_error_def)
  from ok(1) have names: "check_all (check_vlan_name is_range (max_vlan_name_length m)) (s_vlans sw) = Inr ()"
    by (simp add: check_all_Inr)
  have ports: "\<not> list_ex (port_reference_error strict m ?d) (s_ports sw)"
    using ok(2) by (auto simp: list_ex_iff port_reference_error_def)
  have "map (drop_undefined_tagged ?d) (s_ports sw) = s_ports sw"
    using ok(2) by (intro map_idI drop_undefined_id) simp
  then have same: "(if strict then sw else sw\<lparr>s_ports := map (drop_undefined_tagged ?d) (s_ports sw)\<rparr>) = sw" by simp
  have mirrors: "\<not> list_ex (mirror_destination_error sw) (s_port_mirrors sw)"
    using ok(3) by (simp add: list_ex_iff)
  show ?thesis
    unfolding validate_vlan_references_inner_def h m prod.case option.case names and_then_simps Let_def same
    using ports mirrors by simp
qed

section \<open>What a validated switch satisfies\<close>

definition valid_switch :: "(string \<Rightarrow> bool) \<Rightarrow> switch_config \<Rightarrow> bool" where
  "valid_switch is_range sw \<longleftrightarrow>
     get_missing_required_fields sw = [] \<and> structure_ok sw \<and> expanded sw \<and>
     unambiguous (s_vlans sw) \<and> (\<forall>p \<in> set (s_ports sw). no_pending_names p) \<and>
     references_ok is_range sw \<and>
     check_snmp_secret_sources sw = Inr () \<and> check_vendor_support sw = Inr ()"

lemma unit_Inr: "x = Inr u \<longleftrightarrow> x = Inr ()"
  by simp

lemma resolve_snmp_secrets_frame:
  assumes "resolve_snmp_secrets env (sw, R) = (e, (sw', R'))"
  shows "sw' = sw\<lparr>s_snmp := s_snmp sw'\<rparr>"
  using assms
  by (auto simp: resolve_snmp_secrets_def Let_def split: sum.splits option.splits prod.splits)

lemma secret_checks_ports [simp]:
  "check_snmp_secret_sources (sw\<lparr>s_ports := ps\<rparr>) = check_snmp_secret_sources sw"
  "check_vendor_support (sw\<lparr>s_ports := ps\<rparr>) = check_vendor_support sw"
  "fully_resolved env R (sw\<lparr>s_ports := ps\<rparr>) = fully_resolved env R sw"
  by (simp_all add: check_snmp_secret_sources_def check_vendor_support_def reads_enabled_def
      fully_resolved_def Let_def cong: option.case_cong if_cong)

lemma structure_ok_iff:
  "structure_ok sw \<longleftrightarrow> s_id sw \<noteq> [] \<and> (\<forall>v \<in> set (s_vlans sw). valid_vlan_id (v_id v)) \<and>
     (\<forall>p \<in> set (s_ports sw). valid_vlan_id (p_vlan p))"
  by (simp add: structure_ok_def list_all_iff)

lemma resolve_vlan_names_invariants:
  assumes res: "resolve_vlan_names strict sw = Inr sw'" and "structure_ok sw" and "expanded sw"
  obtains ps where "sw' = sw\<lparr>s_ports := ps\<rparr>" "structure_ok sw'" "expanded sw'"
    "unambiguous (s_vlans sw')" "\<forall>p \<in> set ps. no_pending_names p"
proof -
  from res obtain ps where unamb: "unambiguous (s_vlans sw)" and sw': "sw' = sw\<lparr>s_ports := ps\<rparr>"
    and all: "list_all2 (\<lambda>p q. resolve_port_names strict (name_to_id (s_vlans sw)) p = Inr q) (s_ports sw) ps"
    by (rule resolve_vlan_names_InrE)
  have port: "no_pending_names q \<and> valid_vlan_id (p_vlan q) \<and> single_port (p_port_id q)" if q: "q \<in> set ps" for q
  proof -
    from list_all2_right [OF all q] obtain p where p: "p \<in> set (s_ports sw)"
      and res: "resolve_port_names strict (name_to_id (s_vlans sw)) p = Inr q" by blast
    note q = resolve_port_names_Inr [OF res]
    have "valid_vlan_id (p_vlan q)"
    proof (cases "p_vlan_name p")
      case None
      with q p assms(2) show ?thesis by (simp add: structure_ok_iff)
    next
      case (Some n)
      with q have "name_to_id (s_vlans sw) n = Some (p_vlan q)" by simp
      from name_to_id_Some [OF this] obtain v where "v \<in> set (s_vlans sw)" "v_id v = p_vlan q" by blast
      with assms(2) show ?thesis by (auto simp: structure_ok_iff)
    qed
    with q p assms(3) show ?thesis by (simp add: expanded_def)
  qed
  show thesis
  proof (rule that [OF sw'])
    show "structure_ok sw'" "expanded sw'" "unambiguous (s_vlans sw')" "\<forall>p \<in> set ps. no_pending_names p"
      using port unamb assms(2,3) by (simp_all add: structure_ok_iff expanded_def sw')
  qed
qed

lemma validate_vlan_references_keeps:
  assumes res: "validate_vlan_references_inner is_range strict sw = Inr sw'"
    and "structure_ok sw" "expanded sw" "unambiguous (s_vlans sw)" "\<forall>p \<in> set (s_ports sw). no_pending_names p"
  obtains ps where "sw' = sw\<lparr>s_ports := ps\<rparr>" "structure_ok sw'" "expanded sw'" "unambiguous (s_vlans sw')"
    "\<forall>p \<in> set ps. no_pending_names p" "references_ok is_range sw'"
proof -
  from validate_vlan_references_result [OF res] obtain m where refs: "references_ok is_range sw'"
    and sw': "sw' = (if strict then sw else sw\<lparr>s_ports := map (drop_undefined_tagged (defined_vlans sw m)) (s_ports sw)\<rparr>)"
    by blast
  show thesis
  proof (cases strict)
    case True
    with sw' assms refs show ?thesis by (intro that [of "s_ports sw"]) simp_all
  next
    case False
    with sw' assms refs show ?thesis
      by (intro that [of "map (drop_undefined_tagged (defined_vlans sw m)) (s_ports sw)"])
        (simp_all add: structure_ok_iff expanded_def no_pending_names_def)
  qed
qed

lemma validate_switch_config_sound:
  assumes "validate_switch_config is_range env sw R = (Inr sw', R')"
  shows "valid_switch is_range sw' \<and> fully_resolved env R' sw' \<and> s_id sw' = s_id sw"
proof -
  from assms obtain sw1 sw2 sw3 where exp: "expand_port_ranges sw = Inr sw1"
    and req: "validate_required_fields sw1 = Inr ()" and str: "validate_structure sw1 = Inr ()"
    and sec: "resolve_snmp_secrets env (sw1, R) = (None, (sw2, R'))"
    and ven: "check_vendor_support sw2 = Inr ()"
    and nam: "resolve_vlan_names False sw2 = Inr sw3"
    and ref: "validate_vlan_references_inner is_range False sw3 = Inr sw'"
    by (auto simp: validate_switch_config_def validate_vlan_references_def res_simps
        split: sum.splits prod.splits option.splits)
  have s1: "expanded sw1" "structure_ok sw1" "get_missing_required_fields sw1 = []"
    using exp req str
    by (auto simp: expand_port_ranges_expanded validate_structure_def validate_required_fields_def
        Let_def res_simps)
  obtain x where sw2: "sw2 = sw1\<lparr>s_snmp := x\<rparr>" using resolve_snmp_secrets_frame [OF sec] by blast
  from s1 have s2: "expanded sw2" "structure_ok sw2" "get_missing_required_fields sw2 = []"
    by (simp_all add: sw2 expanded_def structure_ok_iff get_missing_required_fields_def)
  from nam s2(2,1) obtain ps where sw3: "sw3 = sw2\<lparr>s_ports := ps\<rparr>" and s3: "structure_ok sw3" "expanded sw3"
    "unambiguous (s_vlans sw3)" "\<forall>p \<in> set ps. no_pending_names p"
    by (rule resolve_vlan_names_invariants)
  have "\<forall>p \<in> set (s_ports sw3). no_pending_names p" using s3(4) by (simp add: sw3)
  with ref s3(1,2,3) obtain qs where sw': "sw' = sw3\<lparr>s_ports := qs\<rparr>" and s4: "structure_ok sw'" "expanded sw'"
    "unambiguous (s_vlans sw')" "\<forall>p \<in> set qs. no_pending_names p" "references_ok is_range sw'"
    by (rule validate_vlan_references_keeps)
  have "check_snmp_secret_sources sw2 = Inr ()" "fully_resolved env R' sw2"
    using resolve_snmp_secrets_resolved [OF sec] by simp_all
  moreover have "s_id sw1 = s_id sw" using expand_port_ranges_frame [OF exp]
    by (metis (no_types, lifting) switch_config.select_convs(1) switch_config.surjective
        switch_config.update_convs(7,8))
  ultimately show ?thesis
    using s2(3) s4 ven
    by (simp add: valid_switch_def sw' sw3 get_missing_required_fields_def) (simp add: sw2)
qed

lemma validate_switch_config_done:
  assumes "valid_switch is_range sw" and "fully_resolved env R sw"
  shows "validate_switch_config is_range env sw R = (Inr sw, R)"
  using assms expanded_fixpoint [of sw] resolve_snmp_secrets_stable [of sw env R]
    resolve_vlan_names_done [of sw False] validate_vlan_references_done [of is_range sw False]
  by (simp add: validate_switch_config_def valid_switch_def validate_required_fields_def
      validate_structure_def validate_vlan_references_def Let_def)

section \<open>Properties\<close>

text \<open>C21: A switch that passes validation has everything the service relies on: hostname, model, address and
  credentials are there; ids are in range; every port identifier is a single port; every VLAN name is
  resolved and stands for one id; every port refers only to defined VLANs and has a speed of
  the model; no mirror sends to a configured port; no setting its vendor does not support; and its SNMP secrets are resolved.\<close>

theorem validated_switch_valid:
  assumes "validate_switch_config is_range env sw R = (Inr sw', R')"
  shows "valid_switch is_range sw' \<and> fully_resolved env R' sw' \<and> s_id sw' = s_id sw"
  using validate_switch_config_sound [OF assms] .

definition example_credentials :: credentials where
  "example_credentials =
     \<lparr> cr_username = ''admin'', cr_password = Some ''pw'', cr_ssh_key_path = None, cr_port = 22,
       cr_connection_type = Ssh, cr_serial_device = None, cr_baud_rate = 115200, cr_enable_secret = None,
       cr_jump_hosts = None \<rparr>"

definition example_complete :: "port list \<Rightarrow> switch_config" where
  "example_complete ports =
     \<lparr> s_id = ''sw1'', s_hostname = Some ''sw1'', s_model = Some Aruba2930F,
       s_management_ip = Some ''10.0.0.2'', s_credentials = Some example_credentials,
       s_vlans = [example_vlan 10 ''office''], s_ports = ports, s_port_mirrors = [],
       s_snmp = None, s_management_vlan = None, s_validation = None, s_vendor_specific = Map.empty,
       s_settings = default_settings \<rparr>"

lemma single_port_digit [simp]: "single_port ''1''" "single_port ''2''"
  by (simp_all add: single_port_def trim_eval)

lemma example_valid:
  assumes "\<forall>p \<in> set ports. single_port (p_port_id p) \<and> p_vlan p \<in> {1, 10} \<and> set (p_tagged_vlans p) \<subseteq> {1, 10} \<and>
     p_speed_duplex p = Auto \<and> no_pending_names p"
  shows "valid_switch (\<lambda>_. False) (example_complete ports)"
  using assms
  by (auto simp: valid_switch_def example_complete_def get_missing_required_fields_def structure_ok_iff
      valid_vlan_id_def expanded_def unambiguous_def references_ok_def defined_vlans_def implicit_vlans_def
      example_vlan_def supports_speed_def check_snmp_secret_sources_def check_vendor_support_def
      reads_enabled_def max_vlan_name_length_def Let_def)

lemma example_validates:
  assumes "\<forall>p \<in> set ports. single_port (p_port_id p) \<and> p_vlan p \<in> {1, 10} \<and> set (p_tagged_vlans p) \<subseteq> {1, 10} \<and>
     p_speed_duplex p = Auto \<and> no_pending_names p"
  shows "validate_switch_config (\<lambda>_. False) example_secret_env (example_complete ports) [] =
    (Inr (example_complete ports), [])"
  using example_valid [OF assms]
  by (rule validate_switch_config_done) (simp add: fully_resolved_def example_complete_def)

lemma plain_port_fields [simp]:
  "p_vlan (plain_port b i) = 1" "p_tagged_vlans (plain_port b i) = []"
  "p_speed_duplex (plain_port b i) = Auto" "no_pending_names (plain_port b i)"
  by (simp_all add: plain_port_def no_pending_names_def)

theorem validated_switch_valid_witness:
  "validate_switch_config (\<lambda>_. False) example_secret_env (example_complete [plain_port True ''1'']) [] =
     (Inr (example_complete [plain_port True ''1'']), []) \<and>
   valid_switch (\<lambda>_. False) (example_complete [plain_port True ''1''])"
proof -
  have v: "validate_switch_config (\<lambda>_. False) example_secret_env (example_complete [plain_port True ''1'']) [] =
     (Inr (example_complete [plain_port True ''1'']), [])"
    by (rule example_validates) simp
  from v validated_switch_valid [OF v] show ?thesis by blast
qed

text \<open>Validation is idempotent: a configuration that was validated is accepted unchanged when it is
  validated again (as the API does with a stored one), and the registry of secrets stays the same.\<close>

theorem validate_switch_config_idempotent:
  assumes "validate_switch_config is_range env sw R = (Inr sw', R')"
  shows "validate_switch_config is_range env sw' R' = (Inr sw', R')"
  using validate_switch_config_sound [OF assms] validate_switch_config_done by blast

theorem validate_switch_config_idempotent_witness:
  "validate_switch_config (\<lambda>_. False) example_secret_env (example_complete [plain_port True ''2'']) [] =
     (Inr (example_complete [plain_port True ''2'']), [])"
  by (rule validate_switch_config_idempotent [OF example_validates]) simp

text \<open>How a resolved port \<open>q\<close> comes from \<open>p\<close>: the untagged reference has become an id, the tagged ones the
  ids they stand for, without repetitions.\<close>

definition port_resolved :: "bool \<Rightarrow> vlan list \<Rightarrow> port \<Rightarrow> port \<Rightarrow> bool" where
  "port_resolved strict vs p q \<longleftrightarrow>
     no_pending_names q \<and> p_port_id q = p_port_id p \<and>
     ref_target (name_to_id vs) (untagged_ref p) = Some (p_vlan q) \<and>
     (p_tagged_vlan_refs p = [] \<longrightarrow> p_tagged_vlans q = p_tagged_vlans p) \<and>
     (p_tagged_vlan_refs p \<noteq> [] \<longrightarrow> distinct (p_tagged_vlans q) \<and>
        set (p_tagged_vlans q) = {i. \<exists>r \<in> set (p_tagged_vlan_refs p). ref_target (name_to_id vs) r = Some i}) \<and>
     (strict \<longrightarrow> (\<forall>r \<in> set (p_tagged_vlan_refs p). ref_target (name_to_id vs) r \<noteq> None))"

lemma resolve_port_names_resolved:
  assumes "resolve_port_names strict (name_to_id vs) p = Inr q"
  shows "port_resolved strict vs p q"
proof -
  note q = resolve_port_names_Inr [OF assms]
  have "ref_target (name_to_id vs) (untagged_ref p) = Some (p_vlan q)"
    using q by (auto simp: untagged_ref_def ref_target_def split: option.splits)
  moreover have "strict \<Longrightarrow> \<forall>r \<in> set (p_tagged_vlan_refs p). ref_target (name_to_id vs) r \<noteq> None"
    using assms by (auto simp: resolve_port_names_def res_simps resolve_tagged_Inr split: option.splits if_splits)
  ultimately show ?thesis
    using q by (auto simp: port_resolved_def set_push_new distinct_push_new)
qed

text \<open>Resolving VLAN names gives every port the ids its references stand for in the switch's VLAN table, where
  a name stands for an id exactly when a VLAN of the table has that name and id: an unknown untagged name
  is never accepted, an unknown tagged one only in lenient mode, where it is dropped; nothing is
  tagged twice, and no name stays pending.\<close>

theorem resolve_vlan_names_correct:
  assumes "resolve_vlan_names strict sw = Inr sw'"
  shows "list_all2 (port_resolved strict (s_vlans sw)) (s_ports sw) (s_ports sw') \<and>
    (\<forall>n i. name_to_id (s_vlans sw) n = Some i \<longleftrightarrow> (\<exists>v \<in> set (s_vlans sw). v_name v = n \<and> v_id v = i))"
proof -
  from assms obtain ps where unamb: "unambiguous (s_vlans sw)" and sw': "sw' = sw\<lparr>s_ports := ps\<rparr>"
    and all: "list_all2 (\<lambda>p q. resolve_port_names strict (name_to_id (s_vlans sw)) p = Inr q) (s_ports sw) ps"
    by (rule resolve_vlan_names_InrE)
  from all have "list_all2 (port_resolved strict (s_vlans sw)) (s_ports sw) ps"
    by (rule list_all2_mono) (rule resolve_port_names_resolved)
  moreover have "name_to_id (s_vlans sw) n = Some i \<longleftrightarrow> (\<exists>v \<in> set (s_vlans sw). v_name v = n \<and> v_id v = i)" for n i
    using name_to_id_Some [of "s_vlans sw" n i] name_to_id_unambiguous [OF unamb] by auto
  ultimately show ?thesis by (simp add: sw')
qed

definition example_named_port :: port where
  "example_named_port = (plain_port True ''1'')\<lparr>p_vlan_name := Some ''office'',
     p_tagged_vlan_refs := [VlanId 10, VlanName ''office'', VlanName ''gone'']\<rparr>"

lemma example_resolve:
  "resolve_vlan_names False (example_complete [example_named_port]) =
     Inr (example_complete [(plain_port True ''1'')\<lparr>p_vlan := 10, p_tagged_vlans := [10]\<rparr>])"
  by (simp add: resolve_vlan_names_def find_ambiguous_vlan_name_def example_complete_def example_vlan_def
      resolve_port_names_def example_named_port_def name_to_id_def collect_code plain_port_def)

theorem resolve_vlan_names_correct_witness:
  "resolve_vlan_names False (example_complete [example_named_port]) =
     Inr (example_complete [(plain_port True ''1'')\<lparr>p_vlan := 10, p_tagged_vlans := [10]\<rparr>]) \<and>
   port_resolved False [example_vlan 10 ''office''] example_named_port
     ((plain_port True ''1'')\<lparr>p_vlan := 10, p_tagged_vlans := [10]\<rparr>)"
  using resolve_vlan_names_correct [OF example_resolve] example_resolve
  by (simp add: example_complete_def)

lemma valid_vlan_id_iff: "valid_vlan_id i \<longleftrightarrow> \<not> (i < 1 \<or> i > 4094)"
  by (metis valid_vlan_id_def not_less)

lemma check_overlay_vlans_Inr:
  "check_overlay_vlans seen vs = Inr u \<longleftrightarrow>
     distinct (map v_id vs) \<and> set seen \<inter> v_id ` set vs = {} \<and> (\<forall>v \<in> set vs. valid_vlan_id (v_id v))"
  by (induction vs arbitrary: seen) (auto simp: valid_vlan_id_iff)

lemma check_overlay_ports_Inr:
  "check_overlay_ports seen ps = Inr u \<longleftrightarrow> distinct (map p_port_id ps) \<and> set seen \<inter> p_port_id ` set ps = {}"
  by (induction ps arbitrary: seen) auto

lemma check_overlay_port_None:
  "check_overlay_port ids p = None \<longleftrightarrow> p_vlan p \<in> set ids \<and> set (p_tagged_vlans p) \<subseteq> set ids"
  by (auto simp: check_overlay_port_def find_None_iff)

lemma check_overlay_mirror_None:
  "check_overlay_mirror ps m = None \<longleftrightarrow> m_destination_port m \<notin> p_port_id ` set ps"
  by (simp add: check_overlay_mirror_def)

text \<open>An overlay that may be saved describes each VLAN and each port once, has its VLAN ids in range,
  refers only to VLANs that it defines, that another source is known to define, or that the model always has,
  has no pending VLAN name, and does not mirror to a port it configures: its ports and mirrors are
  consistent in the sense the difference needs.\<close>

theorem overlay_config_sound:
  assumes "validate_overlay_config known sw = Inr sw'"
  shows "distinct (map v_id (s_vlans sw')) \<and> (\<forall>v \<in> set (s_vlans sw'). valid_vlan_id (v_id v)) \<and>
    consistent_ports sw' \<and> expanded sw' \<and>
    (\<forall>p \<in> set (s_ports sw'). no_pending_names p \<and>
       insert (p_vlan p) (set (p_tagged_vlans p)) \<subseteq> set (overlay_valid_vlans sw' known))"
proof -
  from assms obtain sw1 where exp: "expand_port_ranges sw = Inr sw1"
    and vl: "check_overlay_vlans [] (s_vlans sw1) = Inr ()" and po: "check_overlay_ports [] (s_ports sw1) = Inr ()"
    and res: "resolve_vlan_names True sw1 = Inr sw'"
    and refs: "\<forall>p \<in> set (s_ports sw'). check_overlay_port (overlay_valid_vlans sw' known) p = None"
    and mir: "\<forall>m \<in> set (s_port_mirrors sw'). check_overlay_mirror (s_ports sw') m = None"
    by (auto simp: validate_overlay_config_def res_simps)
  from res obtain ps where sw': "sw' = sw1\<lparr>s_ports := ps\<rparr>"
    and all: "list_all2 (\<lambda>p q. resolve_port_names True (name_to_id (s_vlans sw1)) p = Inr q) (s_ports sw1) ps"
    by (rule resolve_vlan_names_InrE)
  from all have pids: "map p_port_id ps = map p_port_id (s_ports sw1)"
    by (induction rule: list_all2_induct) (auto dest: resolve_port_names_Inr)
  have pending: "no_pending_names q" if "q \<in> set ps" for q
    using list_all2_right [OF all that] resolve_port_names_Inr by blast
  have sw1: "expanded sw1" using exp by (rule expand_port_ranges_expanded)
  have "single_port (p_port_id q)" if "q \<in> set ps" for q
  proof -
    from list_all2_right [OF all that] obtain p where "p \<in> set (s_ports sw1)" "p_port_id q = p_port_id p"
      using resolve_port_names_Inr by blast
    with sw1 show ?thesis by (simp add: expanded_def)
  qed
  with sw1 have "expanded sw'" by (simp add: expanded_def sw')
  moreover have "consistent_ports sw'"
    using mir po pids by (auto simp: consistent_ports_def check_overlay_mirror_None check_overlay_ports_Inr sw')
  ultimately show ?thesis
    using vl refs pending by (simp add: check_overlay_vlans_Inr check_overlay_port_None sw')
qed

theorem overlay_config_sound_witness:
  "validate_overlay_config [20] (example_complete [(plain_port True ''1'')\<lparr>p_vlan := 20\<rparr>]) =
     Inr (example_complete [(plain_port True ''1'')\<lparr>p_vlan := 20\<rparr>]) \<and>
   consistent_ports (example_complete [(plain_port True ''1'')\<lparr>p_vlan := 20\<rparr>])"
proof -
  let ?sw = "example_complete [(plain_port True ''1'')\<lparr>p_vlan := 20\<rparr>]"
  have "expand_port_ranges ?sw = Inr ?sw"
    by (rule expanded_fixpoint) (simp add: expanded_def example_complete_def)
  moreover have "resolve_vlan_names True ?sw = Inr ?sw"
    by (rule resolve_vlan_names_done)
      (auto simp: unambiguous_def example_complete_def no_pending_names_def plain_port_def)
  ultimately have v: "validate_overlay_config [20] ?sw = Inr ?sw"
    by (simp add: validate_overlay_config_def)
      (simp add: example_complete_def check_snmp_secret_sources_def check_vendor_support_def reads_enabled_def
        example_vlan_def check_overlay_port_def overlay_valid_vlans_def Let_def)
  from v overlay_config_sound [OF v] show ?thesis by blast
qed

text \<open>One bad switch does not stop the others: every switch of the file ends up either validated or
  reported as a failure under its id, none is lost or duplicated, the order is kept, and every switch
  handed on is valid.\<close>

theorem validate_all_switches_partition:
  assumes "validate_all_switches is_range env sws R = ((valid, failures), R')"
  shows "mset (map s_id valid) + mset (map f_switch_id failures) = mset (map s_id sws) \<and>
    (\<forall>sw \<in> set valid. valid_switch is_range sw) \<and>
    subseq (map s_id valid) (map s_id sws) \<and> subseq (map f_switch_id failures) (map s_id sws)"
  using assms
proof (induction sws arbitrary: R valid failures)
  case (Cons sw sws)
  obtain r R1 where step: "validate_switch_config is_range env sw R = (r, R1)"
    by (cases "validate_switch_config is_range env sw R")
  obtain va fa where rest: "validate_all_switches is_range env sws R1 = ((va, fa), R')"
    using Cons.prems step by (auto split: prod.splits)
  note ih = Cons.IH [OF rest]
  show ?case
  proof (cases r)
    case (Inl e)
    with Cons.prems step rest ih show ?thesis by auto
  next
    case (Inr sw')
    with Cons.prems step rest ih validate_switch_config_sound [of is_range env sw R sw' R1]
    show ?thesis by auto
  qed
qed simp

lemma example_incomplete_fails:
  "validate_switch_config (\<lambda>_. False) example_secret_env
     ((example_complete [])\<lparr>s_hostname := None\<rparr>) R = (Inl (MissingFields [''hostname'']), R)"
  by (simp add: validate_switch_config_def expand_port_ranges_def example_complete_def
      validate_required_fields_def get_missing_required_fields_def)

theorem validate_all_switches_partition_witness:
  "\<exists>R'. validate_all_switches (\<lambda>_. False) example_secret_env
       [(example_complete [])\<lparr>s_hostname := None\<rparr>, example_complete [plain_port True ''1'']] [] =
     (([example_complete [plain_port True ''1'']],
       [\<lparr>f_switch_id = ''sw1'', f_hostname = None, f_error = MissingFields [''hostname'']\<rparr>]), R') \<and>
     valid_switch (\<lambda>_. False) (example_complete [plain_port True ''1''])"
proof -
  have v: "validate_switch_config (\<lambda>_. False) example_secret_env (example_complete [plain_port True ''1'']) [] =
     (Inr (example_complete [plain_port True ''1'']), [])"
    by (rule example_validates) simp
  have a: "validate_all_switches (\<lambda>_. False) example_secret_env
       [(example_complete [])\<lparr>s_hostname := None\<rparr>, example_complete [plain_port True ''1'']] [] =
     (([example_complete [plain_port True ''1'']],
       [\<lparr>f_switch_id = ''sw1'', f_hostname = None, f_error = MissingFields [''hostname'']\<rparr>]), [])"
    by (simp add: v example_incomplete_fails) (simp add: example_complete_def)
  from a validate_all_switches_partition [OF a] show ?thesis by auto
qed

text \<open>
  \<open>validate_switch_config\<close> accepts a switch that describes a port twice (written as overlapping ranges,
  say), which \<open>validate_overlay_config\<close> refuses; when the two descriptions differ, no
  state of the switch is ever in sync with it.
\<close>

lemma duplicate_port_accepted:
  "validate_switch_config (\<lambda>_. False) example_secret_env
     (example_complete [plain_port True ''1'', plain_port False ''1'']) [] =
   (Inr (example_complete [plain_port True ''1'', plain_port False ''1'']), [])"
  by (rule example_validates) simp

lemma duplicate_port_never_in_sync:
  "has_changes (compute_diff it cur (example_complete [plain_port True ''1'', plain_port False ''1'']) f)"
proof -
  have "\<not> port_view poe (plain_port True ''1'') = port_view poe (plain_port False ''1'')" for poe
    by (simp add: port_view_def plain_port_def)
  then have "filter (port_needs_config poe ps) [plain_port True ''1'', plain_port False ''1''] \<noteq> []" for poe ps
    unfolding ports_in_sync_iff by (auto simp: ports_equivalent_for_model_def Let_def plain_port_def)
  then show ?thesis
    using has_changes_compute_diff [of it cur "example_complete [plain_port True ''1'', plain_port False ''1'']" f]
    by (auto simp: example_complete_def)
qed

end
