(* ===== verification/Merge.thy ===== *)
theory Merge
  imports Validation
begin

text \<open>
  Merging several configuration sources into one configuration (\<open>merge_configs\<close>,
  \<open>validate_switch_identity\<close>, \<open>merge_single_switch\<close>, \<open>merge_snmp_configs\<close> and the priority checks of
  \<open>load_with_metadata\<close> and \<open>load_multi\<close> in \<open>config.rs\<close>), with the record of which file provides what
  (\<open>SwitchMergeTracker\<close> in \<open>config/errors.rs\<close>). The locale \<open>entry_map\<close> is the contract of
  \<open>entry(k).or_insert(v)\<close>; it is interpreted for the ordered maps and the hash maps of the code. A file that is read
  and parsed is an argument (\<open>parsed_file\<close>).
\<close>

section \<open>Sources\<close>

datatype config_source_type = MainConfig | FolderConfig

fun default_priority :: "config_source_type \<Rightarrow> u16" where
  "default_priority MainConfig = 50"
| "default_priority FolderConfig = 100"

record config_with_metadata =
  cm_switches :: "switch_config list"
  cm_merge_priority :: u16
  cm_source_file :: string
  cm_source_type :: config_source_type

text \<open>A \<open>ConfigWithMetadata\<close> as \<open>merge_configs\<close> builds it: one with exactly one switch.\<close>

record source_part =
  sp_switch :: switch_config
  sp_priority :: u16
  sp_file :: string

text \<open>A file as the deserialiser returns it, \<open>merge_priority\<close> and the switches.\<close>

record parsed_file =
  pf_merge_priority :: "u16 option"
  pf_switches :: "switch_config list"

datatype load_error =
    LoadPortRange range_error
  | LoadStructure string
  | PriorityReserved string u16

definition load_with_metadata ::
  "string \<Rightarrow> config_source_type \<Rightarrow> parsed_file \<Rightarrow> load_error + config_with_metadata" where
  "load_with_metadata path source_type file =
     and_then (traverse (\<lambda>sw. map_err LoadPortRange (expand_port_ranges sw)) (pf_switches file)) (\<lambda>switches.
     and_then (check_all (\<lambda>sw. if structure_ok sw then None else Some (LoadStructure (s_id sw))) switches) (\<lambda>_.
       let merge_priority = (case pf_merge_priority file of Some p \<Rightarrow> p | None \<Rightarrow> default_priority source_type) in
       if source_type = FolderConfig \<and> merge_priority < 11 then Inl (PriorityReserved path merge_priority)
       else Inr \<lparr>cm_switches = switches, cm_merge_priority = merge_priority,
                cm_source_file = path, cm_source_type = source_type\<rparr>))"

section \<open>Which file provides what\<close>

record config_source =
  src_file_path :: string
  src_priority :: u16
  src_provides_fields :: "string list"

definition provides_fields :: "switch_config \<Rightarrow> string list" where
  "provides_fields sw =
     (if s_hostname sw \<noteq> None then [''hostname''] else [])
     @ (if s_model sw \<noteq> None then [''model''] else [])
     @ (if s_management_ip sw \<noteq> None then [''management_ip''] else [])
     @ (if s_credentials sw \<noteq> None then [''credentials''] else [])
     @ (if s_vlans sw \<noteq> [] then [''vlans('' @ show_nat (length (s_vlans sw)) @ '')''] else [])
     @ (if s_ports sw \<noteq> [] then [''ports('' @ show_nat (length (s_ports sw)) @ '')''] else [])
     @ (if s_port_mirrors sw \<noteq> [] then [''mirrors('' @ show_nat (length (s_port_mirrors sw)) @ '')''] else [])
     @ (if s_snmp sw \<noteq> None then [''snmp''] else [])"

definition add_source :: "string \<Rightarrow> u16 \<Rightarrow> switch_config \<Rightarrow> config_source list \<Rightarrow> config_source list" where
  "add_source file priority sw sources =
     sources @ [\<lparr>src_file_path = file, src_priority = priority, src_provides_fields = provides_fields sw\<rparr>]"

record switch_validation_error =
  sve_switch_id :: string
  sve_missing_fields :: "string list"
  sve_contributing_sources :: "config_source list"

datatype hint = NotInAnyFile | AddToYourFile | NoIdentityAnywhere | IdentitySplit

definition identity_fields :: "string list" where
  "identity_fields = [''hostname'', ''model'', ''management_ip'', ''credentials'']"

definition get_contextual_hint :: "switch_validation_error \<Rightarrow> hint" where
  "get_contextual_hint e =
     (let any_source_has_identity =
            list_ex (\<lambda>s. list_ex (\<lambda>f. List.member identity_fields f) (src_provides_fields s))
              (sve_contributing_sources e)
      in case sve_contributing_sources e of
           [] \<Rightarrow> NotInAnyFile
         | [_] \<Rightarrow> AddToYourFile
         | _ \<Rightarrow> if \<not> any_source_has_identity then NoIdentityAnywhere else IdentitySplit)"

section \<open>Identity\<close>

datatype mismatch =
    HostnameMismatch string string
  | ManagementIpMismatch string string
  | ModelMismatch switch_model switch_model

record merge_conflict =
  mc_switch_id :: string
  mc_conflicting_sources :: "(string \<times> u16) list"
  mc_description :: mismatch

text \<open>The first value of a field, with the source it is from.\<close>

definition ref_field :: "(switch_config \<Rightarrow> 'a option) \<Rightarrow> source_part list \<Rightarrow> ('a \<times> string \<times> u16) option" where
  "ref_field f parts =
     foldl (\<lambda>acc p. case f (sp_switch p) of
              Some x \<Rightarrow> if acc = None then Some (x, sp_file p, sp_priority p) else acc
            | None \<Rightarrow> acc) None parts"

definition field_conflict ::
  "string \<Rightarrow> (switch_config \<Rightarrow> 'a option) \<Rightarrow> ('a \<Rightarrow> 'a \<Rightarrow> mismatch) \<Rightarrow> ('a \<times> string \<times> u16) option \<Rightarrow>
     source_part \<Rightarrow> merge_conflict list" where
  "field_conflict sid f describe ref p =
     (case f (sp_switch p) of
        None \<Rightarrow> []
      | Some x \<Rightarrow>
          (case ref of
             None \<Rightarrow> []
           | Some (r, ref_source, ref_priority) \<Rightarrow>
               if x \<noteq> r
               then [\<lparr>mc_switch_id = sid,
                     mc_conflicting_sources = [(ref_source, ref_priority), (sp_file p, sp_priority p)],
                     mc_description = describe r x\<rparr>]
               else []))"

definition validate_switch_identity :: "string \<Rightarrow> source_part list \<Rightarrow> merge_conflict list" where
  "validate_switch_identity sid parts =
     (if parts = [] then []
      else
        (let ref_hostname = ref_field s_hostname parts;
             ref_ip = ref_field s_management_ip parts;
             ref_model = ref_field s_model parts
         in concat (map (\<lambda>p.
              field_conflict sid s_hostname HostnameMismatch ref_hostname p
              @ field_conflict sid s_management_ip ManagementIpMismatch ref_ip p
              @ field_conflict sid s_model ModelMismatch ref_model p) parts)))"

section \<open>Merging one switch\<close>

text \<open>\<open>if merged.field.is_none() && switch.field.is_some()\<close>, for each source in order.\<close>

definition merge_field :: "(switch_config \<Rightarrow> 'a option) \<Rightarrow> source_part list \<Rightarrow> 'a option" where
  "merge_field f parts =
     foldl (\<lambda>acc p. if acc = None \<and> f (sp_switch p) \<noteq> None then f (sp_switch p) else acc) None parts"

text \<open>The loop that fills a \<open>BTreeMap\<close> with \<open>entry(key).or_insert((item, priority))\<close>.\<close>

definition merge_table ::
  "('a \<Rightarrow> 'k::linorder) \<Rightarrow> (switch_config \<Rightarrow> 'a list) \<Rightarrow> source_part list \<Rightarrow> ('k \<times> 'a \<times> u16) list" where
  "merge_table key items parts =
     foldl (\<lambda>m p. foldl (\<lambda>m x. or_insert (key x) (x, sp_priority p) m) m (items (sp_switch p))) [] parts"

definition merged_items :: "('k \<times> 'a \<times> u16) list \<Rightarrow> 'a list" where
  "merged_items m = map fst (into_values m)"

text \<open>\<open>HashMap::entry(k).or_insert_with\<close>.\<close>

definition entry_or_insert :: "'k \<Rightarrow> 'v \<Rightarrow> ('k \<rightharpoonup> 'v) \<Rightarrow> ('k \<rightharpoonup> 'v)" where
  "entry_or_insert k v m = (case m k of Some _ \<Rightarrow> m | None \<Rightarrow> m(k \<mapsto> v))"

definition source_table ::
  "('a \<Rightarrow> 'k) \<Rightarrow> (switch_config \<Rightarrow> 'a list) \<Rightarrow> source_part list \<Rightarrow> ('k \<rightharpoonup> string)" where
  "source_table key items parts =
     foldl (\<lambda>m p. foldl (\<lambda>m x. entry_or_insert (key x) (sp_file p) m) m (items (sp_switch p))) Map.empty parts"

text \<open>The state of the loop in \<open>merge_snmp_configs\<close>: the merged block and the priority of the source of each part.\<close>

record snmp_merge =
  merged_snmp :: "snmp_config option"
  communities_priority :: "u16 option"
  trap_receivers_priority :: "u16 option"
  enabled_traps_priority :: "u16 option"
  reads_priority :: "u16 option"

definition takes_over :: "u16 option \<Rightarrow> u16 \<Rightarrow> bool" where
  "takes_over current p \<longleftrightarrow> (case current of None \<Rightarrow> True | Some q \<Rightarrow> p < q)"

definition merge_snmp_step :: "snmp_merge \<Rightarrow> source_part \<Rightarrow> snmp_merge" where
  "merge_snmp_step st part =
     (case s_snmp (sp_switch part) of
        None \<Rightarrow> st
      | Some snmp \<Rightarrow>
          (let p = sp_priority part;
               merged = (case merged_snmp st of Some m \<Rightarrow> m | None \<Rightarrow> empty_snmp);
               tc = (sn_communities snmp \<noteq> [] \<and> takes_over (communities_priority st) p);
               tr = (sn_trap_receivers snmp \<noteq> [] \<and> takes_over (trap_receivers_priority st) p);
               te = (sn_enabled_traps snmp \<noteq> [] \<and> takes_over (enabled_traps_priority st) p);
               td = (sn_reads snmp \<noteq> None \<and> takes_over (reads_priority st) p)
           in \<lparr> merged_snmp = Some
                  \<lparr> sn_communities = (if tc then sn_communities snmp else sn_communities merged),
                    sn_trap_receivers = (if tr then sn_trap_receivers snmp else sn_trap_receivers merged),
                    sn_enabled_traps = (if te then sn_enabled_traps snmp else sn_enabled_traps merged),
                    sn_reads = (if td then sn_reads snmp else sn_reads merged) \<rparr>,
                communities_priority = (if tc then Some p else communities_priority st),
                trap_receivers_priority = (if tr then Some p else trap_receivers_priority st),
                enabled_traps_priority = (if te then Some p else enabled_traps_priority st),
                reads_priority = (if td then Some p else reads_priority st) \<rparr>))"

definition merge_snmp_configs :: "source_part list \<Rightarrow> snmp_config option" where
  "merge_snmp_configs parts =
     merged_snmp (foldl merge_snmp_step
       \<lparr> merged_snmp = None, communities_priority = None, trap_receivers_priority = None,
         enabled_traps_priority = None, reads_priority = None \<rparr> parts)"

definition merge_single_switch ::
  "string \<Rightarrow> source_part list \<Rightarrow> switch_config \<times> (u16 \<rightharpoonup> string) \<times> (string \<rightharpoonup> string)" where
  "merge_single_switch sid unsorted =
     (let parts = sort_key sp_priority unsorted in
      (\<lparr> s_id = sid, s_hostname = merge_field s_hostname parts, s_model = merge_field s_model parts,
         s_management_ip = merge_field s_management_ip parts,
         s_credentials = merge_field s_credentials parts,
         s_vlans = merged_items (merge_table v_id s_vlans parts),
         s_ports = merged_items (merge_table p_port_id s_ports parts),
         s_port_mirrors = merged_items (merge_table m_session_id s_port_mirrors parts),
         s_snmp = merge_snmp_configs parts, s_management_vlan = None,
         s_validation = merge_field s_validation parts, s_vendor_specific = Map.empty,
         s_settings = (case parts of p # _ \<Rightarrow> s_settings (sp_switch p) | [] \<Rightarrow> default_settings) \<rparr>,
       source_table v_id s_vlans parts, source_table p_port_id s_ports parts))"

section \<open>Merging all switches\<close>

definition all_parts :: "config_with_metadata list \<Rightarrow> source_part list" where
  "all_parts configs =
     concat (map (\<lambda>c. map (\<lambda>sw. \<lparr>sp_switch = sw, sp_priority = cm_merge_priority c, sp_file = cm_source_file c\<rparr>)
       (cm_switches c)) configs)"

text \<open>\<open>switches_by_id\<close> and \<open>merge_trackers\<close> at one id.\<close>

definition parts_of :: "config_with_metadata list \<Rightarrow> string \<Rightarrow> source_part list" where
  "parts_of configs sid = filter (\<lambda>p. s_id (sp_switch p) = sid) (all_parts configs)"

definition tracker_of :: "config_with_metadata list \<Rightarrow> string \<Rightarrow> config_source list" where
  "tracker_of configs sid =
     foldl (\<lambda>t p. add_source (sp_file p) (sp_priority p) (sp_switch p) t) [] (parts_of configs sid)"

datatype merge_failure_reason =
    MissingRequired switch_validation_error
  | SnmpInvalid config_error
  | VlansInvalid config_error
  | NameCollision string "u16 \<times> string option" "u16 \<times> string option"
  | NothingDefined config_error

record merge_failure =
  mf_switch_id :: string
  mf_hostname :: "string option"
  mf_reason :: merge_failure_reason
  mf_config_sources :: "string list"
  mf_vlan_sources :: "u16 \<rightharpoonup> string"
  mf_port_sources :: "string \<rightharpoonup> string"

text \<open>The body of the post-merge loop: the validated switch, or why it is skipped.\<close>

definition post_merge ::
  "(string \<Rightarrow> bool) \<Rightarrow> secret_env \<Rightarrow> config_source list \<Rightarrow> (u16 \<rightharpoonup> string) \<Rightarrow> switch_config \<Rightarrow> string list \<Rightarrow>
     (merge_failure_reason + switch_config) \<times> string list" where
  "post_merge is_range env tracker vlan_sources sw registry =
     (let missing_fields = get_missing_required_fields sw in
      if missing_fields \<noteq> []
      then (Inl (MissingRequired \<lparr>sve_switch_id = s_id sw, sve_missing_fields = missing_fields,
              sve_contributing_sources = tracker\<rparr>), registry)
      else
        (case resolve_snmp_secrets env (sw, registry) of
           (Some e, (_, registry')) \<Rightarrow> (Inl (SnmpInvalid (SecretError e)), registry')
         | (None, (sw, registry')) \<Rightarrow>
             (case check_vendor_support sw of
                Inl e \<Rightarrow> (Inl (SnmpInvalid (HostsError e)), registry')
              | Inr _ \<Rightarrow>
                  (case and_then (resolve_vlan_names False sw) (validate_vlan_references is_range) of
                     Inl e \<Rightarrow>
                       (Inl (case find_ambiguous_vlan_name (s_vlans sw) of
                               Some (name, i, j) \<Rightarrow> NameCollision name (i, vlan_sources i) (j, vlan_sources j)
                             | None \<Rightarrow> VlansInvalid e), registry')
                   | Inr sw \<Rightarrow>
                       (case validate_has_vlans sw of
                          Inl e \<Rightarrow> (Inl (NothingDefined e), registry')
                        | Inr _ \<Rightarrow> (Inr sw, registry'))))))"

text \<open>The two loops over the merged switches, in the order \<open>ids\<close> in which the hash map yields them.\<close>

fun post_merge_all ::
  "(string \<Rightarrow> bool) \<Rightarrow> secret_env \<Rightarrow> config_with_metadata list \<Rightarrow> string list \<Rightarrow> string list \<Rightarrow>
     (switch_config list \<times> merge_failure list) \<times> string list" where
  "post_merge_all is_range env configs [] registry = (([], []), registry)"
| "post_merge_all is_range env configs (sid # ids) registry =
     (case merge_single_switch sid (parts_of configs sid) of (sw, vlan_sources, port_sources) \<Rightarrow>
      case post_merge is_range env (tracker_of configs sid) vlan_sources sw registry of (r, registry') \<Rightarrow>
      case post_merge_all is_range env configs ids registry' of ((valid, failures), registry'') \<Rightarrow>
        ((case r of
            Inr sw' \<Rightarrow> (sw' # valid, failures)
          | Inl reason \<Rightarrow>
              (valid, \<lparr>mf_switch_id = s_id sw, mf_hostname = s_hostname sw, mf_reason = reason,
                 mf_config_sources = map src_file_path (tracker_of configs sid),
                 mf_vlan_sources = vlan_sources, mf_port_sources = port_sources\<rparr> # failures)),
         registry''))"

datatype merge_error = NoConfigurations | MergeConflicts "merge_conflict list"

definition merge_configs ::
  "(string \<Rightarrow> bool) \<Rightarrow> secret_env \<Rightarrow> (string list \<Rightarrow> string list) \<Rightarrow> config_with_metadata list \<Rightarrow> string list \<Rightarrow>
     (merge_error + switch_config list \<times> merge_failure list) \<times> string list" where
  "merge_configs is_range env it configs registry =
     (if configs = [] then (Inl NoConfigurations, registry)
      else
        (let ids = it (remdups (map (\<lambda>p. s_id (sp_switch p)) (all_parts configs)));
             all_conflicts = concat (map (\<lambda>sid. validate_switch_identity sid (parts_of configs sid)) ids)
         in if all_conflicts \<noteq> [] then (Inl (MergeConflicts all_conflicts), registry)
            else
              (case post_merge_all is_range env configs ids registry of (r, registry') \<Rightarrow> (Inr r, registry'))))"

text \<open>\<open>load_multi\<close> once the files are loaded.\<close>

definition load_multi ::
  "(string \<Rightarrow> bool) \<Rightarrow> secret_env \<Rightarrow> (string list \<Rightarrow> string list) \<Rightarrow> config_with_metadata \<Rightarrow>
     config_with_metadata list \<Rightarrow> string list \<Rightarrow>
     (merge_error + switch_config list \<times> merge_failure list) \<times> string list" where
  "load_multi is_range env it main_config folder_configs registry =
     merge_configs is_range env it (sort_key cm_merge_priority (main_config # folder_configs)) registry"

text \<open>\<open>known_external_vlan_ids\<close> over the sources that could be loaded.\<close>

definition known_external_vlan_ids :: "config_with_metadata list \<Rightarrow> string \<Rightarrow> string \<Rightarrow> u16 list" where
  "known_external_vlan_ids sources sid excluding_file =
     concat (map (\<lambda>c. if cm_source_file c \<noteq> excluding_file
                      then concat (map (\<lambda>sw. if s_id sw = sid then map v_id (s_vlans sw) else []) (cm_switches c))
                      else []) sources)"

section \<open>The contract of \<open>entry().or_insert()\<close>\<close>

locale entry_map =
  fixes lookup :: "'m \<Rightarrow> 'k \<Rightarrow> 'v option"
    and or_ins :: "'k \<Rightarrow> 'v \<Rightarrow> 'm \<Rightarrow> 'm"
    and emp :: 'm
    and inv :: "'m \<Rightarrow> bool"
  assumes inv_emp: "inv emp"
    and inv_ins: "inv m \<Longrightarrow> inv (or_ins k v m)"
    and lookup_emp: "lookup emp k = None"
    and lookup_ins: "inv m \<Longrightarrow>
      lookup (or_ins k v m) k' = (if k' = k then Some (case lookup m k of Some w \<Rightarrow> w | None \<Rightarrow> v) else lookup m k')"
begin

definition fill :: "'m \<Rightarrow> ('k \<times> 'v) list \<Rightarrow> 'm" where
  "fill m kvs = foldl (\<lambda>m kv. or_ins (fst kv) (snd kv) m) m kvs"

lemma fill_Cons: "fill m ((k, v) # kvs) = fill (or_ins k v m) kvs"
  by (simp add: fill_def)

lemma inv_fill: "inv m \<Longrightarrow> inv (fill m kvs)"
  by (induction kvs arbitrary: m) (auto simp: fill_def inv_ins)

lemma lookup_fill_from:
  "inv m \<Longrightarrow> lookup (fill m kvs) k = (case lookup m k of Some w \<Rightarrow> Some w | None \<Rightarrow> map_of kvs k)"
proof (induction kvs arbitrary: m)
  case Nil
  then show ?case by (simp add: fill_def split: option.splits)
next
  case (Cons kv kvs)
  obtain k' v where kv: "kv = (k', v)" by (cases kv)
  from Cons.IH [OF inv_ins [OF Cons.prems], of k' v] Cons.prems show ?case
    by (auto simp: kv fill_Cons lookup_ins split: option.splits)
qed

text \<open>The first entry of a key wins.\<close>

lemma lookup_fill: "lookup (fill emp kvs) k = map_of kvs k"
  using lookup_fill_from [OF inv_emp] by (simp add: lookup_emp)

text \<open>Two nested loops that insert are one loop over all entries.\<close>

lemma nested_fill:
  "foldl (\<lambda>m p. foldl (\<lambda>m x. or_ins (key x) (val p x) m) m (items p)) m ps =
   fill m (concat (map (\<lambda>p. map (\<lambda>x. (key x, val p x)) (items p)) ps))"
proof (induction ps arbitrary: m)
  case (Cons p ps)
  have "foldl (\<lambda>m x. or_ins (key x) (val p x) m) m xs = fill m (map (\<lambda>x. (key x, val p x)) xs)" for m xs
    by (induction xs arbitrary: m) (simp_all add: fill_def)
  with Cons.IH show ?case by (simp add: fill_def)
qed (simp add: fill_def)

lemma lookup_nested:
  "lookup (foldl (\<lambda>m p. foldl (\<lambda>m x. or_ins (key x) (val p x) m) m (items p)) emp ps) k =
   map_of (concat (map (\<lambda>p. map (\<lambda>x. (key x, val p x)) (items p)) ps)) k"
  by (simp add: nested_fill lookup_fill)

lemma inv_nested: "inv (foldl (\<lambda>m p. foldl (\<lambda>m x. or_ins (key x) (val p x) m) m (items p)) emp ps)"
  by (simp add: nested_fill inv_fill inv_emp)

end

interpretation btree: entry_map map_of or_insert "[]" ordered_map
proof
  fix m :: "('k::linorder \<times> 'v) list" and k k' v
  assume m: "ordered_map m"
  then show "ordered_map (or_insert k v m)" by (rule ordered_map_or_insert)
  from m show "map_of (or_insert k v m) k' =
      (if k' = k then Some (case map_of m k of Some w \<Rightarrow> w | None \<Rightarrow> v) else map_of m k')"
    by (simp add: map_of_or_insert)
qed simp_all

interpretation hash: entry_map "\<lambda>m. m" entry_or_insert Map.empty "\<lambda>_. True"
  by unfold_locales (auto simp: entry_or_insert_def split: option.splits)

section \<open>What a merged table holds\<close>

definition items_of :: "(switch_config \<Rightarrow> 'a list) \<Rightarrow> source_part list \<Rightarrow> 'a list" where
  "items_of items parts = concat (map (\<lambda>p. items (sp_switch p)) parts)"

definition winner :: "('a \<Rightarrow> 'k) \<Rightarrow> (switch_config \<Rightarrow> 'a list) \<Rightarrow> source_part list \<Rightarrow> 'k \<Rightarrow> 'a option" where
  "winner key items parts k = List.find (\<lambda>x. key x = k) (items_of items parts)"

lemma map_of_find: "map_option fst (map_of (map (\<lambda>x. (key x, (x, f x))) xs) k) = List.find (\<lambda>x. key x = k) xs"
  by (induction xs) auto

lemma find_append: "List.find P (xs @ ys) = (case List.find P xs of Some x \<Rightarrow> Some x | None \<Rightarrow> List.find P ys)"
  by (induction xs) auto

lemma merge_table_lookup:
  "map_option fst (map_of (merge_table key items parts) k) = winner key items parts k"
proof -
  have "map_of (merge_table key items parts) k =
      map_of (concat (map (\<lambda>p. map (\<lambda>x. (key x, (x, sp_priority p))) (items (sp_switch p))) parts)) k"
    using btree.lookup_nested [of key "\<lambda>p x. (x, sp_priority p)" "\<lambda>p. items (sp_switch p)" parts k]
    by (simp add: merge_table_def)
  moreover have "map_option fst (map_of (concat (map (\<lambda>p. map (\<lambda>x. (key x, (x, sp_priority p))) (items (sp_switch p))) ps)) k) =
      winner key items ps k" for ps
  proof (induction ps)
    case (Cons p ps)
    have "map_option fst (map_of (map (\<lambda>x. (key x, (x, sp_priority p))) (items (sp_switch p))) k) =
        List.find (\<lambda>x. key x = k) (items (sp_switch p))" by (rule map_of_find)
    with Cons.IH show ?case
      by (auto simp: winner_def items_of_def find_append map_add_def split: option.splits)
  qed (simp add: winner_def items_of_def)
  ultimately show ?thesis by simp
qed

lemma merge_table_ordered: "ordered_map (merge_table key items parts)"
  using btree.inv_nested [of "key" "\<lambda>p x. (x, sp_priority p)" "\<lambda>p. items (sp_switch p)" parts]
  by (simp add: merge_table_def)

lemma merge_table_entry:
  assumes "(k, x, pr) \<in> set (merge_table key items parts)"
  shows "key x = k \<and> winner key items parts k = Some x"
proof -
  have "map_of (merge_table key items parts) k = Some (x, pr)"
    using map_of_is_SomeI [OF ordered_map_distinct [OF merge_table_ordered] assms] .
  then have "winner key items parts k = Some x"
    using merge_table_lookup [of key items parts k] by simp
  then show ?thesis by (auto simp: winner_def find_Some_iff)
qed

lemma merged_items_keys:
  "map key (merged_items (merge_table key items parts)) = map fst (merge_table key items parts)"
  using merge_table_entry by (fastforce simp: merged_items_def into_values_def)

lemma merged_items_sorted: "sorted_wrt (<) (map key (merged_items (merge_table key items parts)))"
  using merge_table_ordered [of key items parts] by (simp add: merged_items_keys ordered_map_def)

lemma merged_items_distinct: "distinct (map key (merged_items (merge_table key items parts)))"
  using ordered_map_distinct [OF merge_table_ordered] by (simp add: merged_items_keys)

lemma in_merged_items:
  "x \<in> set (merged_items (merge_table key items parts)) \<longleftrightarrow> winner key items parts (key x) = Some x"
proof
  assume "x \<in> set (merged_items (merge_table key items parts))"
  then obtain k pr where "(k, x, pr) \<in> set (merge_table key items parts)"
    by (auto simp: merged_items_def into_values_def)
  from merge_table_entry [OF this] show "winner key items parts (key x) = Some x" by simp
next
  assume "winner key items parts (key x) = Some x"
  then obtain pr where "map_of (merge_table key items parts) (key x) = Some (x, pr)"
    using merge_table_lookup [of key items parts "key x"] by auto
  then show "x \<in> set (merged_items (merge_table key items parts))"
    by (force simp: merged_items_def into_values_def dest: map_of_SomeD)
qed

text \<open>The file recorded for a key is that of the first source that has the key.\<close>

lemma source_table_lookup:
  "source_table key items parts k =
     map_option sp_file (List.find (\<lambda>p. k \<in> key ` set (items (sp_switch p))) parts)"
proof -
  have "source_table key items parts k =
      map_of (concat (map (\<lambda>p. map (\<lambda>x. (key x, sp_file p)) (items (sp_switch p))) parts)) k"
    using hash.lookup_nested [of key "\<lambda>p x. sp_file p" "\<lambda>p. items (sp_switch p)" parts k]
    by (simp add: source_table_def)
  also have "\<dots> = map_option sp_file (List.find (\<lambda>p. k \<in> key ` set (items (sp_switch p))) parts)"
  proof (induction parts)
    case (Cons p ps)
    have "map_of (map (\<lambda>x. (key x, sp_file p)) xs) k = (if k \<in> key ` set xs then Some (sp_file p) else None)" for xs
      by (induction xs) auto
    with Cons.IH show ?case by (simp add: map_add_def)
  qed simp
  finally show ?thesis .
qed

lemma winner_in_first_source:
  "winner key items parts k = Some x \<longleftrightarrow>
     (\<exists>p. List.find (\<lambda>p. k \<in> key ` set (items (sp_switch p))) parts = Some p \<and>
        List.find (\<lambda>x. key x = k) (items (sp_switch p)) = Some x)"
proof (induction parts)
  case (Cons p ps)
  have "List.find (\<lambda>x. key x = k) (items (sp_switch p)) = None \<longleftrightarrow> k \<notin> key ` set (items (sp_switch p))"
    by (auto simp: find_None_iff)
  with Cons.IH show ?case
    by (auto simp: winner_def items_of_def find_append split: option.splits)
qed (simp add: winner_def items_of_def)

section \<open>Fields of the merged switch\<close>

lemma merge_field_from:
  "foldl (\<lambda>acc p. if acc = None \<and> f (sp_switch p) \<noteq> None then f (sp_switch p) else acc) acc parts =
     (case acc of Some x \<Rightarrow> Some x
      | None \<Rightarrow> Option.bind (List.find (\<lambda>p. f (sp_switch p) \<noteq> None) parts) (\<lambda>p. f (sp_switch p)))"
  by (induction parts arbitrary: acc) (auto split: option.splits)

lemma merge_field_first:
  "merge_field f parts = Option.bind (List.find (\<lambda>p. f (sp_switch p) \<noteq> None) parts) (\<lambda>p. f (sp_switch p))"
  unfolding merge_field_def merge_field_from by simp

lemma merge_field_None: "merge_field f parts = None \<longleftrightarrow> (\<forall>p \<in> set parts. f (sp_switch p) = None)"
proof (cases "List.find (\<lambda>p. f (sp_switch p) \<noteq> None) parts")
  case None
  then have "\<forall>p \<in> set parts. f (sp_switch p) = None" unfolding find_None_iff by auto
  then show ?thesis by (simp add: merge_field_first None del: not_None_eq)
next
  case (Some p)
  then have "p \<in> set parts" "f (sp_switch p) \<noteq> None" by (auto simp: find_Some_iff)
  with Some show ?thesis by (auto simp: merge_field_first)
qed

lemma merge_field_Some:
  assumes "merge_field f parts = Some x"
  shows "\<exists>p \<in> set parts. f (sp_switch p) = Some x"
  using assms by (auto simp: merge_field_first bind_eq_Some_conv find_Some_iff)

lemma ref_field_from:
  "foldl (\<lambda>acc p. case f (sp_switch p) of
        Some x \<Rightarrow> if acc = None then Some (x, sp_file p, sp_priority p) else acc | None \<Rightarrow> acc) acc parts =
     (case acc of Some x \<Rightarrow> Some x
      | None \<Rightarrow> Option.bind (List.find (\<lambda>p. f (sp_switch p) \<noteq> None) parts)
          (\<lambda>p. map_option (\<lambda>x. (x, sp_file p, sp_priority p)) (f (sp_switch p))))"
  by (induction parts arbitrary: acc) (auto split: option.splits)

lemma ref_field_value: "map_option fst (ref_field f parts) = merge_field f parts"
  unfolding ref_field_def ref_field_from merge_field_first
  by (cases "List.find (\<lambda>p. f (sp_switch p) \<noteq> None) parts") (simp_all add: option.map_comp o_def option.map_ident)

lemma merged_fields:
  assumes "merge_single_switch sid parts = (m, vs, ps)"
  shows "s_id m = sid"
    and "s_hostname m = merge_field s_hostname (sort_key sp_priority parts)"
    and "s_model m = merge_field s_model (sort_key sp_priority parts)"
    and "s_management_ip m = merge_field s_management_ip (sort_key sp_priority parts)"
    and "s_credentials m = merge_field s_credentials (sort_key sp_priority parts)"
    and "s_vlans m = merged_items (merge_table v_id s_vlans (sort_key sp_priority parts))"
    and "s_ports m = merged_items (merge_table p_port_id s_ports (sort_key sp_priority parts))"
    and "s_port_mirrors m = merged_items (merge_table m_session_id s_port_mirrors (sort_key sp_priority parts))"
    and "vs = source_table v_id s_vlans (sort_key sp_priority parts)"
    and "ps = source_table p_port_id s_ports (sort_key sp_priority parts)"
  using assms by (auto simp: merge_single_switch_def Let_def)

section \<open>Properties\<close>

text \<open>In the merged switch every VLAN, port and mirror comes, whole, from the first source that describes its key,
  in the order of priorities (ties in the order of loading), no description is lost, and
  each key occurs once, in ascending order.\<close>

theorem merged_tables_first_wins:
  assumes "merge_single_switch sid parts = (m, vs, ps)"
  shows "(v \<in> set (s_vlans m) \<longleftrightarrow> winner v_id s_vlans (sort_key sp_priority parts) (v_id v) = Some v) \<and>
    (p \<in> set (s_ports m) \<longleftrightarrow> winner p_port_id s_ports (sort_key sp_priority parts) (p_port_id p) = Some p) \<and>
    (mi \<in> set (s_port_mirrors m) \<longleftrightarrow>
       winner m_session_id s_port_mirrors (sort_key sp_priority parts) (m_session_id mi) = Some mi) \<and>
    sorted_wrt (<) (map v_id (s_vlans m)) \<and> sorted_wrt (<) (map p_port_id (s_ports m)) \<and>
    sorted_wrt (<) (map m_session_id (s_port_mirrors m))"
  by (simp add: merged_fields [OF assms] in_merged_items merged_items_sorted)

definition example_part :: "u16 \<Rightarrow> string \<Rightarrow> vlan list \<Rightarrow> source_part" where
  "example_part priority file vlans =
     \<lparr>sp_switch = (example_complete [])\<lparr>s_vlans := vlans\<rparr>, sp_priority = priority, sp_file = file\<rparr>"

definition example_parts :: "source_part list" where
  "example_parts =
     [example_part 100 ''b.yaml'' [example_vlan 10 ''lab'', example_vlan 20 ''guest''],
      example_part 50 ''main.yaml'' [example_vlan 10 ''office'']]"

lemma example_parts_sorted:
  "sort_key sp_priority example_parts =
     [example_part 50 ''main.yaml'' [example_vlan 10 ''office''],
      example_part 100 ''b.yaml'' [example_vlan 10 ''lab'', example_vlan 20 ''guest'']]"
  by (simp add: example_parts_def example_part_def)

lemma example_merge_vlans:
  "s_vlans (fst (merge_single_switch ''sw1'' example_parts)) = [example_vlan 10 ''office'', example_vlan 20 ''guest'']"
  unfolding merge_single_switch_def Let_def example_parts_sorted
  by (simp add: example_part_def merged_items_def into_values_def merge_table_def example_vlan_def)

theorem merged_tables_first_wins_witness:
  "winner v_id s_vlans (sort_key sp_priority example_parts) 10 = Some (example_vlan 10 ''office'') \<and>
   winner v_id s_vlans (sort_key sp_priority example_parts) 10 \<noteq> Some (example_vlan 10 ''lab'')"
proof -
  obtain m vs ps where eq: "merge_single_switch ''sw1'' example_parts = (m, vs, ps)" by (metis prod_cases3)
  then have "example_vlan 10 ''office'' \<in> set (s_vlans m)" using example_merge_vlans by simp
  with merged_tables_first_wins [OF eq, of "example_vlan 10 ''office''"]
  show ?thesis by (auto simp: example_vlan_def)
qed

text \<open>The file recorded for a VLAN of the merged switch is a file that really has this VLAN, as merged, and no
  source with a better (lower) priority describes the id: the name collision report points at the
  files to fix.\<close>

theorem vlan_source_is_best:
  assumes "merge_single_switch sid parts = (m, vs, ps)" and "v \<in> set (s_vlans m)"
  shows "\<exists>p \<in> set parts. vs (v_id v) = Some (sp_file p) \<and> v \<in> set (s_vlans (sp_switch p)) \<and>
    (\<forall>q \<in> set parts. v_id v \<in> v_id ` set (s_vlans (sp_switch q)) \<longrightarrow> sp_priority p \<le> sp_priority q)"
proof -
  let ?s = "sort_key sp_priority parts"
  have "winner v_id s_vlans ?s (v_id v) = Some v"
    using assms merged_fields(6) [OF assms(1)] by (simp add: in_merged_items)
  then obtain p where p: "List.find (\<lambda>p. v_id v \<in> v_id ` set (s_vlans (sp_switch p))) ?s = Some p"
    and v: "List.find (\<lambda>x. v_id x = v_id v) (s_vlans (sp_switch p)) = Some v"
    by (auto simp: winner_in_first_source)
  from p obtain i where i: "i < length ?s" "p = ?s ! i"
    and before: "\<forall>j < i. v_id v \<notin> v_id ` set (s_vlans (sp_switch (?s ! j)))"
    by (auto simp: find_Some_iff)
  have "sp_priority p \<le> sp_priority q" if q: "q \<in> set parts" "v_id v \<in> v_id ` set (s_vlans (sp_switch q))" for q
  proof -
    from q(1) obtain j where j: "j < length ?s" "q = ?s ! j" by (metis in_set_conv_nth set_sort)
    with before q(2) have "i \<le> j" using not_less by blast
    with i j sorted_nth_mono [OF sorted_sort_key [of sp_priority parts], of i j] show ?thesis by simp
  qed
  moreover have "vs (v_id v) = Some (sp_file p)"
    by (simp add: merged_fields(9) [OF assms(1)] source_table_lookup p)
  moreover have "p \<in> set parts" using i by (metis nth_mem set_sort)
  moreover have "v \<in> set (s_vlans (sp_switch p))" using v by (auto simp: find_Some_iff)
  ultimately show ?thesis by blast
qed

theorem vlan_source_is_best_witness:
  "\<exists>p \<in> set example_parts. example_vlan 20 ''guest'' \<in> set (s_vlans (sp_switch p)) \<and>
     fst (snd (merge_single_switch ''sw1'' example_parts)) 20 = Some (sp_file p)"
proof -
  obtain m vs ps where eq: "merge_single_switch ''sw1'' example_parts = (m, vs, ps)" by (metis prod_cases3)
  then have "example_vlan 20 ''guest'' \<in> set (s_vlans m)" using example_merge_vlans by simp
  from vlan_source_is_best [OF eq this] eq show ?thesis by (auto simp: example_vlan_def)
qed

text \<open>When no two sources of a switch have the same priority, the merged switch does not depend on the order in
  which the sources were loaded (the order of folders and file names).\<close>

theorem merge_order_irrelevant:
  assumes "mset parts = mset parts'" and "inj_on sp_priority (set parts)"
  shows "merge_single_switch sid parts = merge_single_switch sid parts'"
  unfolding merge_single_switch_def sort_key_eq_sort_key [OF assms] ..

theorem merge_order_irrelevant_witness:
  "inj_on sp_priority (set example_parts) \<and>
   merge_single_switch ''sw1'' example_parts = merge_single_switch ''sw1'' (rev example_parts)"
proof -
  have "inj_on sp_priority (set example_parts)" by (simp add: example_parts_def example_part_def)
  with merge_order_irrelevant [of example_parts "rev example_parts" "''sw1''"] show ?thesis by simp
qed

definition identity_agrees :: "(switch_config \<Rightarrow> 'a option) \<Rightarrow> source_part list \<Rightarrow> bool" where
  "identity_agrees f parts \<longleftrightarrow>
     (\<forall>p \<in> set parts. \<forall>q \<in> set parts. f (sp_switch p) = None \<or> f (sp_switch q) = None \<or>
        f (sp_switch p) = f (sp_switch q))"

lemma field_conflict_Nil:
  "(\<forall>p \<in> set parts. field_conflict sid f d (ref_field f parts) p = []) \<longleftrightarrow> identity_agrees f parts"
proof (cases "ref_field f parts")
  case None
  then have "merge_field f parts = None" using ref_field_value [of f parts] by simp
  with None show ?thesis by (auto simp: field_conflict_def identity_agrees_def merge_field_None split: option.splits)
next
  case (Some r)
  obtain x s pr where r: "r = (x, s, pr)" by (cases r)
  with Some have "merge_field f parts = Some x" using ref_field_value [of f parts] by simp
  from merge_field_Some [OF this] obtain p where p: "p \<in> set parts" "f (sp_switch p) = Some x" by blast
  have "(\<forall>q \<in> set parts. field_conflict sid f d (ref_field f parts) q = []) \<longleftrightarrow>
      (\<forall>q \<in> set parts. f (sp_switch q) = None \<or> f (sp_switch q) = Some x)"
  proof -
    have "field_conflict sid f d (ref_field f parts) q = [] \<longleftrightarrow> f (sp_switch q) = None \<or> f (sp_switch q) = Some x" for q
      by (cases "f (sp_switch q)") (simp_all add: field_conflict_def Some r)
    then show ?thesis by simp
  qed
  also have "\<dots> \<longleftrightarrow> identity_agrees f parts"
  proof
    assume all: "\<forall>q \<in> set parts. f (sp_switch q) = None \<or> f (sp_switch q) = Some x"
    show "identity_agrees f parts" unfolding identity_agrees_def
    proof (intro ballI)
      fix a b assume "a \<in> set parts" "b \<in> set parts"
      with all have "f (sp_switch a) = None \<or> f (sp_switch a) = Some x" "f (sp_switch b) = None \<or> f (sp_switch b) = Some x"
        by blast+
      then show "f (sp_switch a) = None \<or> f (sp_switch b) = None \<or> f (sp_switch a) = f (sp_switch b)" by auto
    qed
  next
    assume "identity_agrees f parts"
    then have "f (sp_switch p) = None \<or> f (sp_switch q) = None \<or> f (sp_switch p) = f (sp_switch q)" if "q \<in> set parts" for q
      using p(1) that unfolding identity_agrees_def by blast
    then show "\<forall>q \<in> set parts. f (sp_switch q) = None \<or> f (sp_switch q) = Some x" using p(2) by force
  qed
  finally show ?thesis .
qed

text \<open>The identity check reports no conflict exactly when all sources that give a hostname, a management
  address or a model of the switch give the same one.\<close>

theorem no_conflict_iff_identity_agrees:
  "validate_switch_identity sid parts = [] \<longleftrightarrow>
     identity_agrees s_hostname parts \<and> identity_agrees s_management_ip parts \<and> identity_agrees s_model parts"
  unfolding field_conflict_Nil [of parts sid s_hostname HostnameMismatch, symmetric]
    field_conflict_Nil [of parts sid s_management_ip ManagementIpMismatch, symmetric]
    field_conflict_Nil [of parts sid s_model ModelMismatch, symmetric]
  by (auto simp: validate_switch_identity_def Let_def)

lemma tracker_from:
  "foldl (\<lambda>t p. add_source (sp_file p) (sp_priority p) (sp_switch p) t) t parts =
     t @ map (\<lambda>p. \<lparr>src_file_path = sp_file p, src_priority = sp_priority p,
       src_provides_fields = provides_fields (sp_switch p)\<rparr>) parts"
  by (induction parts arbitrary: t) (simp_all add: add_source_def)

lemma tracker_of_map:
  "tracker_of configs sid = map (\<lambda>p. \<lparr>src_file_path = sp_file p, src_priority = sp_priority p,
     src_provides_fields = provides_fields (sp_switch p)\<rparr>) (parts_of configs sid)"
  by (simp add: tracker_of_def tracker_from)

lemma provides_identity:
  "''hostname'' \<in> set (provides_fields sw) \<longleftrightarrow> s_hostname sw \<noteq> None"
  "''model'' \<in> set (provides_fields sw) \<longleftrightarrow> s_model sw \<noteq> None"
  "''management_ip'' \<in> set (provides_fields sw) \<longleftrightarrow> s_management_ip sw \<noteq> None"
  "''credentials'' \<in> set (provides_fields sw) \<longleftrightarrow> s_credentials sw \<noteq> None"
  by (auto simp: provides_fields_def)

lemma missing_fields_iff:
  "f \<in> set (get_missing_required_fields sw) \<longleftrightarrow>
     (f = ''hostname'' \<and> s_hostname sw = None) \<or> (f = ''model'' \<and> s_model sw = None) \<or>
     (f = ''management_ip'' \<and> s_management_ip sw = None) \<or> (f = ''credentials'' \<and> s_credentials sw = None)"
  by (auto simp: get_missing_required_fields_def)

lemma missing_Nil:
  "get_missing_required_fields sw = [] \<longleftrightarrow>
     s_hostname sw \<noteq> None \<and> s_model sw \<noteq> None \<and> s_management_ip sw \<noteq> None \<and> s_credentials sw \<noteq> None"
  by (simp add: get_missing_required_fields_def)

text \<open>A required field is reported missing for a merged switch exactly when none of the contributing files the report
  lists provides it.\<close>

theorem missing_iff_not_provided:
  "f \<in> set (get_missing_required_fields (fst (merge_single_switch sid (parts_of configs sid)))) \<longleftrightarrow>
     f \<in> set identity_fields \<and> \<not> (\<exists>s \<in> set (tracker_of configs sid). f \<in> set (src_provides_fields s))"
proof -
  obtain m vs ps where eq: "merge_single_switch sid (parts_of configs sid) = (m, vs, ps)" by (metis prod_cases3)
  have none: "merge_field g (sort_key sp_priority (parts_of configs sid)) = None \<longleftrightarrow>
      (\<forall>p \<in> set (parts_of configs sid). g (sp_switch p) = None)" for g :: "switch_config \<Rightarrow> 'b option"
    by (simp add: merge_field_None)
  have provided: "(\<exists>s \<in> set (tracker_of configs sid). f \<in> set (src_provides_fields s)) \<longleftrightarrow>
      (\<exists>p \<in> set (parts_of configs sid). f \<in> set (provides_fields (sp_switch p)))"
    by (simp add: tracker_of_map)
  show ?thesis
    unfolding provided missing_fields_iff eq fst_conv merged_fields(2-5) [OF eq] merge_field_None set_sort
  proof -
    let ?P = "parts_of configs sid"
    consider "f = ''hostname''" | "f = ''model''" | "f = ''management_ip''" | "f = ''credentials''"
      | "f \<notin> set identity_fields"
      by (auto simp: identity_fields_def)
    then show "(f = ''hostname'' \<and> (\<forall>p \<in> set ?P. s_hostname (sp_switch p) = None) \<or>
        f = ''model'' \<and> (\<forall>p \<in> set ?P. s_model (sp_switch p) = None) \<or>
        f = ''management_ip'' \<and> (\<forall>p \<in> set ?P. s_management_ip (sp_switch p) = None) \<or>
        f = ''credentials'' \<and> (\<forall>p \<in> set ?P. s_credentials (sp_switch p) = None)) \<longleftrightarrow>
      f \<in> set identity_fields \<and> \<not> (\<exists>p \<in> set ?P. f \<in> set (provides_fields (sp_switch p)))"
    proof cases
      case 5
      then show ?thesis by (simp add: identity_fields_def)
    qed (simp_all add: identity_fields_def provides_identity del: not_None_eq)
  qed
qed

section \<open>After the merge\<close>

lemma post_merge_sound:
  assumes "post_merge is_range env tracker vsrc sw R = (Inr sw', R')"
  shows "s_id sw' = s_id sw \<and> get_missing_required_fields sw' = [] \<and> references_ok is_range sw' \<and>
    map p_port_id (s_ports sw') = map p_port_id (s_ports sw) \<and> s_port_mirrors sw' = s_port_mirrors sw \<and>
    (\<forall>p \<in> set (s_ports sw'). no_pending_names p) \<and> s_vlans sw' = s_vlans sw \<and> s_vlans sw \<noteq> [] \<and>
    fully_resolved env R' sw' \<and> check_vendor_support sw' = Inr ()"
proof -
  from assms obtain sw1 sw2 where miss: "get_missing_required_fields sw = []"
    and sec: "resolve_snmp_secrets env (sw, R) = (None, (sw1, R'))" and ven: "check_vendor_support sw1 = Inr ()"
    and nam: "resolve_vlan_names False sw1 = Inr sw2"
    and ref: "validate_vlan_references_inner is_range False sw2 = Inr sw'"
    and has: "s_vlans sw' \<noteq> []"
    by (auto simp: post_merge_def Let_def validate_vlan_references_def validate_has_vlans_def res_simps
        split: if_splits prod.splits option.splits sum.splits)
  obtain x where sw1: "sw1 = sw\<lparr>s_snmp := x\<rparr>" using resolve_snmp_secrets_frame [OF sec] by blast
  from nam obtain ps where sw2: "sw2 = sw1\<lparr>s_ports := ps\<rparr>"
    and all: "list_all2 (\<lambda>p q. resolve_port_names False (name_to_id (s_vlans sw1)) p = Inr q) (s_ports sw1) ps"
    by (rule resolve_vlan_names_InrE)
  from all have ids: "map p_port_id ps = map p_port_id (s_ports sw1)"
    by (induction rule: list_all2_induct) (auto dest: resolve_port_names_Inr)
  have pending: "no_pending_names q" if "q \<in> set ps" for q
    using list_all2_right [OF all that] resolve_port_names_Inr by blast
  from validate_vlan_references_result [OF ref] obtain m where refs: "references_ok is_range sw'"
    and sw': "sw' = sw2\<lparr>s_ports := map (drop_undefined_tagged (defined_vlans sw2 m)) (s_ports sw2)\<rparr>" by auto
  have "map p_port_id (s_ports sw') = map p_port_id (s_ports sw)"
    using ids by (simp add: sw' sw2 sw1 o_def)
  moreover have "\<forall>p \<in> set (s_ports sw'). no_pending_names p"
    using pending by (auto simp: sw' sw2 no_pending_names_def)
  moreover have "fully_resolved env R' sw'" using resolve_snmp_secrets_resolved [OF sec] by (simp add: sw' sw2)
  ultimately show ?thesis
    using miss refs ven has by (simp add: sw' sw2 missing_Nil del: not_None_eq) (simp add: sw1)
qed

lemma merged_consistent:
  assumes "merge_single_switch sid parts = (m, vs, ps)"
    and "map p_port_id (s_ports sw') = map p_port_id (s_ports m)" and "references_ok is_range sw'"
  shows "consistent_ports sw'"
proof -
  have "distinct (map p_port_id (s_ports sw'))"
    using assms(2) merged_items_distinct [of p_port_id s_ports] by (simp add: merged_fields [OF assms(1)])
  with assms(3) show ?thesis
    by (auto simp: consistent_ports_def references_ok_def split: option.splits)
qed

lemma post_merge_all_sound:
  "post_merge_all is_range env configs ids R = ((valid, failures), R') \<Longrightarrow>
     mset (map s_id valid) + mset (map mf_switch_id failures) = mset ids \<and>
     (\<forall>sw \<in> set valid. consistent_ports sw \<and> references_ok is_range sw \<and> get_missing_required_fields sw = [] \<and>
        s_vlans sw \<noteq> [] \<and> (\<forall>p \<in> set (s_ports sw). no_pending_names p) \<and> check_vendor_support sw = Inr ())"
proof (induction ids arbitrary: R valid failures)
  case (Cons sid ids)
  obtain m vs ps where merged: "merge_single_switch sid (parts_of configs sid) = (m, vs, ps)" by (metis prod_cases3)
  obtain r R1 where step: "post_merge is_range env (tracker_of configs sid) vs m R = (r, R1)"
    by (cases "post_merge is_range env (tracker_of configs sid) vs m R")
  obtain va fa where rest: "post_merge_all is_range env configs ids R1 = ((va, fa), R')"
    using Cons.prems merged step by (auto split: prod.splits)
  note ih = Cons.IH [OF rest]
  show ?case
  proof (cases r)
    case (Inl e)
    with Cons.prems merged step rest ih show ?thesis by (auto simp: merged_fields(1) [OF merged])
  next
    case (Inr sw')
    note sound = post_merge_sound [OF step [unfolded Inr]]
    moreover from sound have "consistent_ports sw'" by (intro merged_consistent [OF merged]) auto
    ultimately show ?thesis
      using Cons.prems merged step rest ih Inr by (auto simp: merged_fields(1) [OF merged])
  qed
qed simp

lemma merge_configs_sound:
  assumes "merge_configs is_range env it configs R = (Inr (valid, failures), R')" and "iterates it"
  shows "mset (map s_id valid) + mset (map mf_switch_id failures) =
      mset (remdups (map (\<lambda>p. s_id (sp_switch p)) (all_parts configs))) \<and>
    (\<forall>sw \<in> set valid. consistent_ports sw \<and> references_ok is_range sw \<and> get_missing_required_fields sw = [] \<and>
       s_vlans sw \<noteq> [] \<and> (\<forall>p \<in> set (s_ports sw). no_pending_names p) \<and> check_vendor_support sw = Inr ())"
proof -
  let ?ids = "it (remdups (map (\<lambda>p. s_id (sp_switch p)) (all_parts configs)))"
  from assms(1) have "post_merge_all is_range env configs ?ids R = ((valid, failures), R')"
    by (auto simp: merge_configs_def Let_def split: if_splits prod.splits)
  from post_merge_all_sound [OF this] assms(2) show ?thesis by (simp add: iterates_def)
qed

text \<open>C22: Merging either reports conflicts or accounts for every switch id of the sources exactly once, as a validated
  switch or as a failure; and every switch it hands on is complete, has VLANs, refers only to defined
  VLANs, describes no port twice and mirrors to no configured port.\<close>

theorem merge_configs_partition:
  assumes "merge_configs is_range env it configs R = (Inr (valid, failures), R')" and "iterates it"
  shows "mset (map s_id valid) + mset (map mf_switch_id failures) =
      mset (remdups (map (\<lambda>p. s_id (sp_switch p)) (all_parts configs))) \<and>
    (\<forall>sw \<in> set valid. consistent_ports sw \<and> references_ok is_range sw \<and> get_missing_required_fields sw = [] \<and>
       s_vlans sw \<noteq> [] \<and> (\<forall>p \<in> set (s_ports sw). no_pending_names p) \<and> check_vendor_support sw = Inr ())"
  using assms by (rule merge_configs_sound)

lemma post_merge_done:
  assumes "valid_switch is_range sw" and "fully_resolved env R sw" and "s_vlans sw \<noteq> []"
  shows "post_merge is_range env tracker vsrc sw R = (Inr sw, R)"
  using assms resolve_snmp_secrets_stable [of sw env R] resolve_vlan_names_done [of sw False]
    validate_vlan_references_done [of is_range sw False]
  by (simp add: post_merge_def valid_switch_def validate_vlan_references_def validate_has_vlans_def Let_def)

definition example_sources :: "config_with_metadata list" where
  "example_sources =
     [\<lparr>cm_switches = [example_complete [plain_port True ''1'']], cm_merge_priority = 50,
       cm_source_file = ''main.yaml'', cm_source_type = MainConfig\<rparr>,
      \<lparr>cm_switches = [(example_complete [])\<lparr>s_vlans := [example_vlan 10 ''lab'']\<rparr>], cm_merge_priority = 100,
       cm_source_file = ''b.yaml'', cm_source_type = FolderConfig\<rparr>]"

lemma example_merge:
  "merge_configs (\<lambda>_. False) example_secret_env (\<lambda>xs. xs) example_sources [] =
     (Inr ([example_complete [plain_port True ''1'']], []), [])"
proof -
  have valid: "valid_switch (\<lambda>_. False) (example_complete [plain_port True ''1''])"
    by (rule example_valid) simp
  have post: "post_merge (\<lambda>_. False) example_secret_env tracker vsrc (example_complete [plain_port True ''1'']) [] =
      (Inr (example_complete [plain_port True ''1'']), [])" for tracker vsrc
    using valid by (rule post_merge_done) (simp_all add: fully_resolved_def example_complete_def)
  have parts: "parts_of example_sources ''sw1'' =
      [\<lparr>sp_switch = example_complete [plain_port True ''1''], sp_priority = 50, sp_file = ''main.yaml''\<rparr>,
       \<lparr>sp_switch = (example_complete [])\<lparr>s_vlans := [example_vlan 10 ''lab'']\<rparr>, sp_priority = 100, sp_file = ''b.yaml''\<rparr>]"
    by (simp add: parts_of_def all_parts_def example_sources_def example_complete_def)
  have "fst (merge_single_switch ''sw1'' (parts_of example_sources ''sw1'')) = example_complete [plain_port True ''1'']"
    unfolding parts merge_single_switch_def Let_def
    by (simp add: example_complete_def merge_field_def merge_table_def merged_items_def into_values_def
        example_vlan_def merge_snmp_configs_def merge_snmp_step_def)
  then obtain vs ps where merged: "merge_single_switch ''sw1'' (parts_of example_sources ''sw1'') =
      (example_complete [plain_port True ''1''], vs, ps)"
    by (metis prod.collapse)
  have "validate_switch_identity ''sw1'' (parts_of example_sources ''sw1'') = []"
    unfolding no_conflict_iff_identity_agrees parts by (simp add: identity_agrees_def example_complete_def)
  moreover have "remdups (map (\<lambda>p. s_id (sp_switch p)) (all_parts example_sources)) = [''sw1'']"
    by (simp add: all_parts_def example_sources_def example_complete_def)
  ultimately show ?thesis
    by (simp add: merge_configs_def merged post) (simp add: example_sources_def)
qed

theorem merge_configs_partition_witness:
  "merge_configs (\<lambda>_. False) example_secret_env (\<lambda>xs. xs) example_sources [] =
     (Inr ([example_complete [plain_port True ''1'']], []), []) \<and>
   iterates (\<lambda>xs :: string list. xs) \<and> consistent_ports (example_complete [plain_port True ''1''])"
  using merge_configs_partition [OF example_merge iterates_id] example_merge
  by (simp add: iterates_id)

section \<open>Priorities\<close>

lemma load_with_metadata_priority:
  assumes "load_with_metadata path t file = Inr c"
  shows "cm_source_type c = t \<and> cm_source_file c = path \<and> (t = FolderConfig \<longrightarrow> 11 \<le> cm_merge_priority c)"
  using assms by (auto simp: load_with_metadata_def res_simps Let_def not_less split: if_splits)

lemma reserved_head:
  assumes "p \<in> set parts" and "\<forall>q \<in> set parts. q \<noteq> p \<longrightarrow> sp_priority p < sp_priority q"
  obtains qs where "sort_key sp_priority parts = p # qs"
proof -
  let ?s = "sort_key sp_priority parts"
  have "?s \<noteq> []" using assms(1) by (metis empty_iff list.set(1) set_sort)
  then obtain q qs where s: "?s = q # qs" by (cases ?s) auto
  have "sorted (map sp_priority ?s)" by (rule sorted_sort_key)
  moreover have "p \<in> set (q # qs)" using assms(1) s by (metis set_sort)
  ultimately have "sp_priority q \<le> sp_priority p" by (auto simp: s)
  moreover have "q \<in> set parts" using s by (metis list.set_intros(1) set_sort)
  ultimately have "q = p" using assms(2) by (metis not_less)
  with s that show thesis by blast
qed

text \<open>The priorities 0 to 10 are reserved for the main configuration: a main configuration that uses one of them
  overrides every folder configuration, for each VLAN it describes (the first description of an id in it
  is in the merged switch) and for each identity field and the settings.\<close>

theorem reserved_priority_overrides:
  assumes "p \<in> set parts" and "sp_priority p < 11"
    and "\<forall>q \<in> set parts. q \<noteq> p \<longrightarrow>
      (\<exists>path file c. load_with_metadata path FolderConfig file = Inr c \<and> sp_priority q = cm_merge_priority c)"
    and "merge_single_switch sid parts = (m, vs, ps)"
  shows "s_settings m = s_settings (sp_switch p) \<and>
    (s_hostname (sp_switch p) \<noteq> None \<longrightarrow> s_hostname m = s_hostname (sp_switch p)) \<and>
    (s_credentials (sp_switch p) \<noteq> None \<longrightarrow> s_credentials m = s_credentials (sp_switch p)) \<and>
    (\<forall>v. List.find (\<lambda>x. v_id x = v_id v) (s_vlans (sp_switch p)) = Some v \<longrightarrow> v \<in> set (s_vlans m))"
proof -
  have "\<forall>q \<in> set parts. q \<noteq> p \<longrightarrow> sp_priority p < sp_priority q"
  proof (intro ballI impI)
    fix q assume "q \<in> set parts" "q \<noteq> p"
    with assms(3) obtain path fl c where "load_with_metadata path FolderConfig fl = Inr c"
      "sp_priority q = cm_merge_priority c" by blast
    with load_with_metadata_priority [of path FolderConfig fl c] assms(2)
    show "sp_priority p < sp_priority q" by (metis order_less_le_trans)
  qed
  with assms(1) obtain qs where s: "sort_key sp_priority parts = p # qs" by (rule reserved_head)
  have "s_settings m = s_settings (sp_switch p)"
    using assms(4) by (auto simp: merge_single_switch_def Let_def s)
  moreover have "s_hostname (sp_switch p) \<noteq> None \<Longrightarrow> s_hostname m = s_hostname (sp_switch p)"
    by (simp add: merged_fields(2) [OF assms(4)] s merge_field_first)
  moreover have "s_credentials (sp_switch p) \<noteq> None \<Longrightarrow> s_credentials m = s_credentials (sp_switch p)"
    by (simp add: merged_fields(5) [OF assms(4)] s merge_field_first)
  moreover have "v \<in> set (s_vlans m)" if "List.find (\<lambda>x. v_id x = v_id v) (s_vlans (sp_switch p)) = Some v" for v
    using that by (simp add: merged_fields(6) [OF assms(4)] s in_merged_items winner_def items_of_def find_append)
  ultimately show ?thesis by blast
qed

definition example_reserved :: "source_part list" where
  "example_reserved =
     [example_part 100 ''b.yaml'' [example_vlan 10 ''lab''], example_part 5 ''main.yaml'' [example_vlan 10 ''office'']]"

lemma example_folder_load:
  "load_with_metadata ''b.yaml'' FolderConfig \<lparr>pf_merge_priority = None, pf_switches = []\<rparr> =
     Inr \<lparr>cm_switches = [], cm_merge_priority = 100, cm_source_file = ''b.yaml'', cm_source_type = FolderConfig\<rparr>"
  by (simp add: load_with_metadata_def)

theorem reserved_priority_overrides_witness:
  "example_vlan 10 ''office'' \<in> set (s_vlans (fst (merge_single_switch ''sw1'' example_reserved)))"
proof -
  let ?p = "example_part 5 ''main.yaml'' [example_vlan 10 ''office'']"
  obtain m vs ps where eq: "merge_single_switch ''sw1'' example_reserved = (m, vs, ps)" by (metis prod_cases3)
  have "?p \<in> set example_reserved" "sp_priority ?p < 11"
    by (simp_all add: example_reserved_def example_part_def)
  moreover have "\<forall>q \<in> set example_reserved. q \<noteq> ?p \<longrightarrow>
      (\<exists>path file c. load_with_metadata path FolderConfig file = Inr c \<and> sp_priority q = cm_merge_priority c)"
    using example_folder_load by (fastforce simp: example_reserved_def example_part_def)
  ultimately have "\<forall>v. List.find (\<lambda>x. v_id x = v_id v) (s_vlans (sp_switch ?p)) = Some v \<longrightarrow> v \<in> set (s_vlans m)"
    using reserved_priority_overrides [OF _ _ _ eq] by blast
  then show ?thesis by (simp add: eq example_part_def)
qed

text \<open>The management VLAN of the sources is not merged: the merged switch never has one.\<close>

lemma management_vlan_not_merged: "s_management_vlan (fst (merge_single_switch sid parts)) = None"
  by (simp add: merge_single_switch_def Let_def)

text \<open>So a difference always asks to remove the management VLAN the switch has.\<close>

lemma merged_removes_management_vlan:
  assumes "st_management_vlan cur = Some i" and "merge_single_switch sid parts = (m, vs, ps)"
  shows "management_vlan_changed (compute_diff it cur m f) \<and> management_vlan_new (compute_diff it cur m f) = None"
  using management_vlan_not_merged [of sid parts] assms by (simp add: compute_diff_management)

end
