(* ===== verification/Status.thy ===== *)
theory Status
  imports Switch_Types
begin

text \<open>
  \<^verbatim>\<open>status.rs\<close>: the state of the service's status tracker and every operation on it. An
  operation of the code takes the tracker's lock for its whole body, so it is one function from
  tracker to tracker here. The semaphore of a switch's gate is a tokio type: the operations the
  code calls on it are a parameter (\<open>sem_ops\<close>). The steps of a task that waits for its turn,
  which takes the lock several times, are separate functions; theory \<open>Turns\<close>
  composes them. The clock is an argument.
\<close>

section \<open>State\<close>

text \<open>The calls on \<open>tokio::sync::Semaphore\<close>, by a task with a number of its own.\<close>

record 's sem_ops =
  sem_new :: "nat \<Rightarrow> 's"
  sem_try :: "'s \<Rightarrow> 's option"
  sem_wait :: "nat \<Rightarrow> 's \<Rightarrow> 's"
  sem_poll :: "nat \<Rightarrow> 's \<Rightarrow> 's option"
  sem_leave :: "nat \<Rightarrow> 's \<Rightarrow> 's"
  sem_release :: "'s \<Rightarrow> 's"

record 's switch_gate =
  g_turn :: 's
  g_waiting :: u64

record config_metadata =
  md_config_file :: string
  md_config_folders :: "string list"
  md_last_loaded :: nat
  md_switches_count :: nat

record switch_status =
  ss_id :: string
  ss_hostname :: string
  ss_model :: switch_model
  ss_management_ip :: string
  ss_connection_type :: connection_type
  ss_last_applied :: "nat option"
  ss_last_result :: "string option"
  ss_apply_count :: u64
  ss_success_count :: u64
  ss_failure_count :: u64
  ss_warnings :: "string list"

record error_record =
  er_timestamp :: nat
  er_error_type :: string
  er_message :: string
  er_switch_hostname :: "string option"
  er_operation :: string

record config_load_error =
  le_timestamp :: nat
  le_error_type :: string
  le_message :: string
  le_affected_switch :: "string option"

record 's tracker =
  tr_start_time :: nat
  tr_config_metadata :: "config_metadata option"
  tr_switch_status :: "string \<rightharpoonup> switch_status"
  tr_recent_errors :: "error_record list"
  tr_config_validation_issues :: "string list"
  tr_last_config_error :: "config_load_error option"
  tr_currently_configuring :: "string set"
  tr_pending_config_reload :: "string set"
  tr_gates :: "string \<rightharpoonup> 's switch_gate"

definition max_errors :: nat where
  "max_errors = 50"

definition new_gate :: "'s sem_ops \<Rightarrow> 's switch_gate" where
  "new_gate ops = \<lparr>g_turn = sem_new ops 1, g_waiting = 0\<rparr>"

definition new_tracker :: "nat \<Rightarrow> 's tracker" where
  "new_tracker now =
     \<lparr>tr_start_time = now, tr_config_metadata = None, tr_switch_status = Map.empty, tr_recent_errors = [],
      tr_config_validation_issues = [], tr_last_config_error = None, tr_currently_configuring = {},
      tr_pending_config_reload = {}, tr_gates = Map.empty\<rparr>"

section \<open>Busy flags and pending reloads\<close>

definition clear_currently_configuring :: "string \<Rightarrow> 's tracker \<Rightarrow> 's tracker" where
  "clear_currently_configuring sid tr =
     tr\<lparr>tr_currently_configuring := tr_currently_configuring tr - {sid}\<rparr>"

definition set_currently_configuring :: "string \<Rightarrow> 's tracker \<Rightarrow> 's tracker" where
  "set_currently_configuring sid tr =
     tr\<lparr>tr_currently_configuring := insert sid (tr_currently_configuring tr)\<rparr>"

definition is_currently_configuring :: "string \<Rightarrow> 's tracker \<Rightarrow> bool" where
  "is_currently_configuring sid tr \<longleftrightarrow> sid \<in> tr_currently_configuring tr"

definition queue_pending_reload :: "string \<Rightarrow> 's tracker \<Rightarrow> 's tracker" where
  "queue_pending_reload sid tr =
     tr\<lparr>tr_pending_config_reload := insert sid (tr_pending_config_reload tr)\<rparr>"

definition take_pending_reload :: "string \<Rightarrow> 's tracker \<Rightarrow> bool \<times> 's tracker" where
  "take_pending_reload sid tr =
     (sid \<in> tr_pending_config_reload tr,
      tr\<lparr>tr_pending_config_reload := tr_pending_config_reload tr - {sid}\<rparr>)"

definition has_pending_reload :: "string \<Rightarrow> 's tracker \<Rightarrow> bool" where
  "has_pending_reload sid tr \<longleftrightarrow> sid \<in> tr_pending_config_reload tr"

definition is_switch_busy :: "string \<Rightarrow> 's tracker \<Rightarrow> bool" where
  "is_switch_busy sid tr \<longleftrightarrow> sid \<in> tr_currently_configuring tr \<or> sid \<in> tr_pending_config_reload tr"

section \<open>Gates\<close>

definition open_gate :: "'s sem_ops \<Rightarrow> string \<Rightarrow> 's tracker \<Rightarrow> 's tracker" where
  "open_gate ops sid tr =
     (case tr_gates tr sid of
        Some _ \<Rightarrow> tr
      | None \<Rightarrow> tr\<lparr>tr_gates := (tr_gates tr)(sid \<mapsto> new_gate ops)\<rparr>)"

definition on_gate :: "('s switch_gate \<Rightarrow> 's switch_gate) \<Rightarrow> string \<Rightarrow> 's tracker \<Rightarrow> 's tracker" where
  "on_gate f sid tr = tr\<lparr>tr_gates := (tr_gates tr)(sid := map_option f (tr_gates tr sid))\<rparr>"

text \<open>\<open>WaitingToken::new\<close> and its \<open>drop\<close>: atomic additions, which wrap.\<close>

definition waiting_token_new :: "'s switch_gate \<Rightarrow> 's switch_gate" where
  "waiting_token_new g = g\<lparr>g_waiting := g_waiting g + 1\<rparr>"

definition waiting_token_drop :: "'s switch_gate \<Rightarrow> 's switch_gate" where
  "waiting_token_drop g = g\<lparr>g_waiting := g_waiting g - 1\<rparr>"

definition queued_count :: "string \<Rightarrow> 's tracker \<Rightarrow> u64" where
  "queued_count sid tr = (case tr_gates tr sid of None \<Rightarrow> 0 | Some g \<Rightarrow> g_waiting g)"

text \<open>The first result says whether a guard was handed out. A refused call still leaves a new gate behind.\<close>

definition try_acquire_configuring :: "'s sem_ops \<Rightarrow> string \<Rightarrow> 's tracker \<Rightarrow> bool \<times> 's tracker" where
  "try_acquire_configuring ops sid tr =
     (if sid \<in> tr_currently_configuring tr \<or> sid \<in> tr_pending_config_reload tr then (False, tr)
      else
        let tr = open_gate ops sid tr in
        (case Option.bind (tr_gates tr sid) (\<lambda>g. sem_try ops (g_turn g)) of
           None \<Rightarrow> (False, tr)
         | Some s \<Rightarrow>
             (True, set_currently_configuring sid (on_gate (\<lambda>g. g\<lparr>g_turn := s\<rparr>) sid tr))))"

section \<open>Bookkeeping\<close>

definition set_config_metadata :: "config_metadata \<Rightarrow> 's tracker \<Rightarrow> 's tracker" where
  "set_config_metadata md tr = tr\<lparr>tr_config_metadata := Some md\<rparr>"

definition get_config_paths :: "'s tracker \<Rightarrow> (string \<times> string list) option" where
  "get_config_paths tr = map_option (\<lambda>md. (md_config_file md, md_config_folders md)) (tr_config_metadata tr)"

text \<open>The status stores the debug names of model and connection type; here the values themselves.
  \<open>None\<close> stands for a panic of an \<open>expect\<close> on a missing field.\<close>

fun initial_status :: "switch_config \<Rightarrow> switch_status option" where
  "initial_status sw =
     (case (s_hostname sw, s_model sw, s_management_ip sw, s_credentials sw) of
        (Some h, Some m, Some ip, Some c) \<Rightarrow>
          Some \<lparr>ss_id = s_id sw, ss_hostname = h, ss_model = m, ss_management_ip = ip,
                ss_connection_type = cr_connection_type c, ss_last_applied = None, ss_last_result = None,
                ss_apply_count = 0, ss_success_count = 0, ss_failure_count = 0, ss_warnings = []\<rparr>
      | _ \<Rightarrow> None)"

text \<open>The flag tells that the call panicked; the entries written before stay (the lock is not poisoned).\<close>

fun initialize_switches :: "switch_config list \<Rightarrow> 's tracker \<Rightarrow> bool \<times> 's tracker" where
  "initialize_switches [] tr = (False, tr)"
| "initialize_switches (sw # sws) tr =
     (case initial_status sw of
        None \<Rightarrow> (True, tr)
      | Some st \<Rightarrow>
          initialize_switches sws (tr\<lparr>tr_switch_status := (tr_switch_status tr)(s_id sw \<mapsto> st)\<rparr>))"

definition on_status :: "(switch_status \<Rightarrow> switch_status) \<Rightarrow> string \<Rightarrow> 's tracker \<Rightarrow> 's tracker" where
  "on_status f sid tr =
     tr\<lparr>tr_switch_status := (tr_switch_status tr)(sid := map_option f (tr_switch_status tr sid))\<rparr>"

definition record_apply_success :: "nat \<Rightarrow> string \<Rightarrow> 's tracker \<Rightarrow> 's tracker" where
  "record_apply_success now sid =
     on_status (\<lambda>st. st\<lparr>ss_last_applied := Some now, ss_last_result := Some ''success'',
       ss_apply_count := ss_apply_count st + 1, ss_success_count := ss_success_count st + 1\<rparr>) sid"

definition record_apply_failure :: "nat \<Rightarrow> string \<Rightarrow> string \<Rightarrow> 's tracker \<Rightarrow> 's tracker" where
  "record_apply_failure now sid error =
     on_status (\<lambda>st. st\<lparr>ss_last_applied := Some now, ss_last_result := Some (''failed: '' @ error),
       ss_apply_count := ss_apply_count st + 1, ss_failure_count := ss_failure_count st + 1\<rparr>) sid"

definition record_warnings :: "string \<Rightarrow> string list \<Rightarrow> 's tracker \<Rightarrow> 's tracker" where
  "record_warnings sid warnings = on_status (\<lambda>st. st\<lparr>ss_warnings := warnings\<rparr>) sid"

definition record_error ::
  "nat \<Rightarrow> string \<Rightarrow> string \<Rightarrow> string option \<Rightarrow> string \<Rightarrow> 's tracker \<Rightarrow> 's tracker" where
  "record_error now error_type message switch_hostname operation tr =
     (let errors = tr_recent_errors tr @ [\<lparr>er_timestamp = now, er_error_type = error_type,
             er_message = message, er_switch_hostname = switch_hostname, er_operation = operation\<rparr>]
      in tr\<lparr>tr_recent_errors := if length errors > max_errors then tl errors else errors\<rparr>)"

definition set_validation_issues :: "string list \<Rightarrow> 's tracker \<Rightarrow> 's tracker" where
  "set_validation_issues issues tr = tr\<lparr>tr_config_validation_issues := issues\<rparr>"

definition clear_validation_issues :: "'s tracker \<Rightarrow> 's tracker" where
  "clear_validation_issues tr = tr\<lparr>tr_config_validation_issues := [], tr_last_config_error := None\<rparr>"

definition set_last_config_error :: "nat \<Rightarrow> string \<Rightarrow> string \<Rightarrow> string option \<Rightarrow> 's tracker \<Rightarrow> 's tracker" where
  "set_last_config_error now error_type message affected tr =
     tr\<lparr>tr_last_config_error := Some \<lparr>le_timestamp = now, le_error_type = error_type,
          le_message = message, le_affected_switch = affected\<rparr>\<rparr>"

section \<open>The status report\<close>

record configuration_status =
  cs_loaded :: bool
  cs_config_file :: "string option"
  cs_config_folders :: "string list"
  cs_last_loaded :: "nat option"
  cs_switches_count :: nat
  cs_validation_issues :: "string list"
  cs_last_error :: "config_load_error option"

record service_status =
  sv_status :: string
  sv_uptime_seconds :: nat
  sv_currently_configuring :: "string set"
  sv_pending_config_reload :: "string set"
  sv_queued_operations :: "string \<rightharpoonup> u64"
  sv_configuration :: configuration_status
  sv_switches :: "switch_status set"
  sv_recent_errors :: "error_record list"

definition configuration_status :: "'s tracker \<Rightarrow> configuration_status" where
  "configuration_status tr =
     (case tr_config_metadata tr of
        Some md \<Rightarrow>
          \<lparr>cs_loaded = True, cs_config_file = Some (md_config_file md),
           cs_config_folders = md_config_folders md, cs_last_loaded = Some (md_last_loaded md),
           cs_switches_count = md_switches_count md,
           cs_validation_issues = tr_config_validation_issues tr, cs_last_error = tr_last_config_error tr\<rparr>
      | None \<Rightarrow>
          \<lparr>cs_loaded = False, cs_config_file = None, cs_config_folders = [], cs_last_loaded = None,
           cs_switches_count = 0,
           cs_validation_issues = tr_config_validation_issues tr, cs_last_error = tr_last_config_error tr\<rparr>)"

definition get_status :: "nat \<Rightarrow> 's tracker \<Rightarrow> service_status" where
  "get_status now tr =
     \<lparr>sv_status = (if tr_config_validation_issues tr = [] then ''healthy'' else ''degraded''),
      sv_uptime_seconds = now - tr_start_time tr,
      sv_currently_configuring = tr_currently_configuring tr,
      sv_pending_config_reload = tr_pending_config_reload tr,
      sv_queued_operations =
        (\<lambda>sid. case tr_gates tr sid of
                 Some g \<Rightarrow> if g_waiting g > 0 then Some (g_waiting g) else None
               | None \<Rightarrow> None),
      sv_configuration = configuration_status tr,
      sv_switches = ran (tr_switch_status tr),
      sv_recent_errors = tr_recent_errors tr\<rparr>"


section \<open>Bookkeeping leaves the gates alone\<close>

definition same_turns :: "'s tracker \<Rightarrow> 's tracker \<Rightarrow> bool" where
  "same_turns tr tr' \<longleftrightarrow> tr_gates tr' = tr_gates tr \<and>
     tr_currently_configuring tr' = tr_currently_configuring tr \<and>
     tr_pending_config_reload tr' = tr_pending_config_reload tr"

datatype book_op =
    SetConfigMetadata config_metadata
  | InitializeSwitches "switch_config list"
  | RecordApplySuccess string
  | RecordApplyFailure string string
  | RecordWarnings string "string list"
  | RecordError string string "string option" string
  | SetValidationIssues "string list"
  | ClearValidationIssues
  | SetLastConfigError string string "string option"

fun book :: "nat \<Rightarrow> book_op \<Rightarrow> 's tracker \<Rightarrow> 's tracker" where
  "book now (SetConfigMetadata md) tr = set_config_metadata md tr"
| "book now (InitializeSwitches sws) tr = snd (initialize_switches sws tr)"
| "book now (RecordApplySuccess sid) tr = record_apply_success now sid tr"
| "book now (RecordApplyFailure sid e) tr = record_apply_failure now sid e tr"
| "book now (RecordWarnings sid ws) tr = record_warnings sid ws tr"
| "book now (RecordError ty m h oper) tr = record_error now ty m h oper tr"
| "book now (SetValidationIssues is) tr = set_validation_issues is tr"
| "book now ClearValidationIssues tr = clear_validation_issues tr"
| "book now (SetLastConfigError ty m a) tr = set_last_config_error now ty m a tr"

lemmas book_defs = set_config_metadata_def record_apply_success_def record_apply_failure_def record_warnings_def
  record_error_def set_validation_issues_def clear_validation_issues_def set_last_config_error_def
  on_status_def Let_def

lemma initialize_same_turns: "same_turns tr (snd (initialize_switches sws tr))"
  by (induction sws tr rule: initialize_switches.induct)
    (auto simp: same_turns_def simp del: initial_status.simps split: option.splits)

lemma book_same_turns: "same_turns tr (book now oper tr)"
  by (cases oper) (simp_all add: initialize_same_turns, simp_all add: same_turns_def book_defs)

section \<open>Bookkeeping stays consistent\<close>

definition status_ok :: "switch_status \<Rightarrow> bool" where
  "status_ok st \<longleftrightarrow> ss_apply_count st = ss_success_count st + ss_failure_count st"

definition book_ok :: "'s tracker \<Rightarrow> bool" where
  "book_ok tr \<longleftrightarrow> length (tr_recent_errors tr) \<le> max_errors \<and>
     (\<forall>sid st. tr_switch_status tr sid = Some st \<longrightarrow> ss_id st = sid \<and> status_ok st)"

lemma initial_status_ok: "initial_status sw = Some st \<Longrightarrow> ss_id st = s_id sw \<and> status_ok st"
  by (auto simp: status_ok_def split: option.splits)

lemma put_status_book_ok:
  assumes "book_ok tr" and "initial_status sw = Some st"
  shows "book_ok (tr\<lparr>tr_switch_status := (tr_switch_status tr)(s_id sw \<mapsto> st)\<rparr>)"
  using assms(1) initial_status_ok [OF assms(2)] by (simp add: book_ok_def)

lemma initialize_book_ok: "book_ok tr \<Longrightarrow> book_ok (snd (initialize_switches sws tr))"
proof (induction sws arbitrary: tr)
  case (Cons sw sws)
  then show ?case by (cases "initial_status sw") (simp_all add: put_status_book_ok del: initial_status.simps)
qed simp

lemma on_status_book_ok:
  assumes "book_ok tr" and "\<And>st. status_ok st \<Longrightarrow> ss_id (f st) = ss_id st \<and> status_ok (f st)"
  shows "book_ok (on_status f sid tr)"
  using assms by (auto simp: book_ok_def on_status_def)

lemma apply_book_ok:
  "book_ok tr \<Longrightarrow> book_ok (record_apply_success now sid tr)"
  "book_ok tr \<Longrightarrow> book_ok (record_apply_failure now sid e tr)"
  "book_ok tr \<Longrightarrow> book_ok (record_warnings sid ws tr)"
  unfolding record_apply_success_def record_apply_failure_def record_warnings_def
  by (rule on_status_book_ok, assumption, simp add: status_ok_def)+

lemma record_error_book_ok: "book_ok tr \<Longrightarrow> book_ok (record_error now ty m h oper tr)"
  by (simp add: record_error_def Let_def book_ok_def)

lemma book_book_ok: "book_ok tr \<Longrightarrow> book_ok (book now oper tr)"
  by (cases oper) (simp_all add: initialize_book_ok apply_book_ok record_error_book_ok,
      simp_all add: book_ok_def set_config_metadata_def set_validation_issues_def clear_validation_issues_def
        set_last_config_error_def)

text \<open>The errors kept are the newest ones.\<close>

fun recorded :: "nat \<Rightarrow> book_op \<Rightarrow> error_record list" where
  "recorded now (RecordError ty m h oper) =
     [\<lparr>er_timestamp = now, er_error_type = ty, er_message = m, er_switch_hostname = h, er_operation = oper\<rparr>]"
| "recorded now _ = []"

definition newest :: "'a list \<Rightarrow> 'a list" where
  "newest es = drop (length es - max_errors) es"

lemma newest_snoc:
  "(if length (newest es @ [e]) > max_errors then tl (newest es @ [e]) else newest es @ [e]) = newest (es @ [e])"
proof (cases "length es < max_errors")
  case True
  then show ?thesis by (simp add: newest_def)
next
  case False
  then have "length (newest es) = max_errors" and "newest es \<noteq> []"
    by (auto simp: newest_def max_errors_def)
  moreover from this(2) have "tl (newest es @ [e]) = drop (Suc (length es - max_errors)) (es @ [e])"
    by (simp add: newest_def drop_Suc tl_drop)
  moreover have "Suc (length es - max_errors) = length (es @ [e]) - max_errors"
    using False by simp
  ultimately show ?thesis by (simp add: newest_def)
qed

lemma initialize_errors: "tr_recent_errors (snd (initialize_switches sws tr)) = tr_recent_errors tr"
  by (induction sws tr rule: initialize_switches.induct) (auto simp del: initial_status.simps split: option.splits)

lemma book_errors:
  assumes "tr_recent_errors tr = newest es"
  shows "tr_recent_errors (book now oper tr) = newest (es @ recorded now oper)"
proof (cases oper)
  case (RecordError ty m h oper')
  then show ?thesis using assms newest_snoc [of es] by (simp add: record_error_def Let_def)
qed (simp_all add: assms initialize_errors, simp_all add: assms book_defs)

end
