(* ===== verification/Turns.thy ===== *)
theory Turns
  imports Status "HOL-Library.Sublist"
begin

text \<open>
  How tasks take turns on a switch (\<^verbatim>\<open>status.rs\<close>): \<open>try_acquire_configuring\<close>,
  \<open>acquire_configuring_queued\<close>, and the guard's \<open>release\<close> and \<open>drop\<close>, as a step relation over the tracker
  and the tasks. A step is what a task does between two points where another task can run.
  What tokio documents of a fair semaphore is the locale \<open>fair_semaphore\<close>; the lemmas on turns are proved
  in it once, and it is interpreted on a first-in first-out line.
\<close>

section \<open>The contract of a fair semaphore\<close>

text \<open>What a caller can know of a semaphore: its free permits, who waits in which order, and who has
  been handed a permit without having noticed yet.\<close>

record line =
  l_free :: nat
  l_queue :: "nat list"
  l_granted :: "nat list"

text \<open>A permit that comes back goes to the first in the line.\<close>

definition hand_on :: "line \<Rightarrow> line" where
  "hand_on v =
     (case l_queue v of
        [] \<Rightarrow> v\<lparr>l_free := l_free v + 1\<rparr>
      | t # q \<Rightarrow> v\<lparr>l_queue := q, l_granted := l_granted v @ [t]\<rparr>)"

definition join_line :: "nat \<Rightarrow> line \<Rightarrow> line" where
  "join_line t v =
     (if l_free v > 0 then v\<lparr>l_free := l_free v - 1, l_granted := l_granted v @ [t]\<rparr>
      else v\<lparr>l_queue := l_queue v @ [t]\<rparr>)"

definition leave_line :: "nat \<Rightarrow> line \<Rightarrow> line" where
  "leave_line t v =
     (if t \<in> set (l_granted v) then hand_on (v\<lparr>l_granted := removeAll t (l_granted v)\<rparr>)
      else v\<lparr>l_queue := removeAll t (l_queue v)\<rparr>)"

locale fair_semaphore =
  fixes ops :: "'s sem_ops"
    and view :: "'s \<Rightarrow> line"
  assumes view_new: "view (sem_new ops n) = \<lparr>l_free = n, l_queue = [], l_granted = []\<rparr>"
    and try_None: "sem_try ops s = None \<longleftrightarrow> l_free (view s) = 0"
    and view_try: "sem_try ops s = Some s' \<Longrightarrow> view s' = view s\<lparr>l_free := l_free (view s) - 1\<rparr>"
    and view_wait: "view (sem_wait ops t s) = join_line t (view s)"
    and poll_None: "sem_poll ops t s = None \<longleftrightarrow> t \<notin> set (l_granted (view s))"
    and view_poll: "sem_poll ops t s = Some s' \<Longrightarrow>
          view s' = view s\<lparr>l_granted := removeAll t (l_granted (view s))\<rparr>"
    and view_leave: "view (sem_leave ops t s) = leave_line t (view s)"
    and view_release: "view (sem_release ops s) = hand_on (view s)"

definition fifo_ops :: "line sem_ops" where
  "fifo_ops =
     \<lparr>sem_new = (\<lambda>n. \<lparr>l_free = n, l_queue = [], l_granted = []\<rparr>),
      sem_try = (\<lambda>v. if l_free v = 0 then None else Some (v\<lparr>l_free := l_free v - 1\<rparr>)),
      sem_wait = join_line,
      sem_poll = (\<lambda>t v. if t \<in> set (l_granted v)
                        then Some (v\<lparr>l_granted := removeAll t (l_granted v)\<rparr>) else None),
      sem_leave = leave_line,
      sem_release = hand_on\<rparr>"

interpretation fifo: fair_semaphore fifo_ops "\<lambda>v. v"
  by unfold_locales (auto simp: fifo_ops_def split: if_splits)

section \<open>Tasks and steps\<close>

text \<open>Where a task is that wants, has or gives back a switch: \<open>acquire_configuring_queued\<close> has fetched the gate
  (\<open>Entered\<close>), counted itself (\<open>Counted\<close>), is in the line (\<open>Waiting\<close>), has the permit (\<open>Permitted\<close>), has dropped
  its waiting token (\<open>Acquired\<close>), has set the flag and holds a guard (\<open>Holding\<close>); the guard is being
  released or dropped (\<open>Clearing\<close>, \<open>Cleared\<close>); the wait was given up (\<open>Abandoned\<close>).\<close>

datatype phase =
    Entered | Counted | Waiting | Permitted | Acquired | Holding | Clearing | Cleared | Abandoned

record 's world =
  w_tracker :: "'s tracker"
  w_tasks :: "nat \<rightharpoonup> string \<times> phase"

definition start_world :: "nat \<Rightarrow> 's world" where
  "start_world now = \<lparr>w_tracker = new_tracker now, w_tasks = Map.empty\<rparr>"

datatype label =
    Acquire string nat | Refuse string | Enter string nat | Count string nat | Arrive string nat
  | Serve string nat | Uncount string nat | Mark string nat | Finish string nat | Clear string nat
  | Drop string nat | GiveUp string nat | Leave string nat | Cancel string nat
  | QueueReload string | TakeReload string | Book nat book_op

abbreviation upd_tracker :: "('s tracker \<Rightarrow> 's tracker) \<Rightarrow> 's world \<Rightarrow> 's world" where
  "upd_tracker f w \<equiv> w\<lparr>w_tracker := f (w_tracker w)\<rparr>"

abbreviation move :: "nat \<Rightarrow> string \<Rightarrow> phase \<Rightarrow> 's world \<Rightarrow> 's world" where
  "move t sid p w \<equiv> w\<lparr>w_tasks := (w_tasks w)(t \<mapsto> (sid, p))\<rparr>"

abbreviation gone :: "nat \<Rightarrow> 's world \<Rightarrow> 's world" where
  "gone t w \<equiv> w\<lparr>w_tasks := (w_tasks w)(t := None)\<rparr>"

abbreviation set_turn :: "('s \<Rightarrow> 's) \<Rightarrow> string \<Rightarrow> 's tracker \<Rightarrow> 's tracker" where
  "set_turn f \<equiv> on_gate (\<lambda>g. g\<lparr>g_turn := f (g_turn g)\<rparr>)"

inductive turn_step :: "'s sem_ops \<Rightarrow> 's world \<Rightarrow> label \<Rightarrow> 's world \<Rightarrow> bool" for ops where
  acquire: "w_tasks w t = None \<Longrightarrow> try_acquire_configuring ops sid (w_tracker w) = (True, tr) \<Longrightarrow>
     turn_step ops w (Acquire sid t) (move t sid Holding (w\<lparr>w_tracker := tr\<rparr>))"
| refuse: "try_acquire_configuring ops sid (w_tracker w) = (False, tr) \<Longrightarrow>
     turn_step ops w (Refuse sid) (w\<lparr>w_tracker := tr\<rparr>)"
| enter: "w_tasks w t = None \<Longrightarrow>
     turn_step ops w (Enter sid t) (move t sid Entered (upd_tracker (open_gate ops sid) w))"
| count: "w_tasks w t = Some (sid, Entered) \<Longrightarrow>
     turn_step ops w (Count sid t) (move t sid Counted (upd_tracker (on_gate waiting_token_new sid) w))"
| arrive: "w_tasks w t = Some (sid, Counted) \<Longrightarrow>
     turn_step ops w (Arrive sid t) (move t sid Waiting (upd_tracker (set_turn (sem_wait ops t) sid) w))"
| serve: "w_tasks w t = Some (sid, Waiting) \<Longrightarrow> tr_gates (w_tracker w) sid = Some g \<Longrightarrow>
     sem_poll ops t (g_turn g) = Some s \<Longrightarrow>
     turn_step ops w (Serve sid t) (move t sid Permitted (upd_tracker (set_turn (\<lambda>_. s) sid) w))"
| uncount: "w_tasks w t = Some (sid, Permitted) \<Longrightarrow>
     turn_step ops w (Uncount sid t) (move t sid Acquired (upd_tracker (on_gate waiting_token_drop sid) w))"
| mark: "w_tasks w t = Some (sid, Acquired) \<Longrightarrow>
     turn_step ops w (Mark sid t) (move t sid Holding (upd_tracker (set_currently_configuring sid) w))"
| finish: "w_tasks w t = Some (sid, Holding) \<Longrightarrow>
     turn_step ops w (Finish sid t) (move t sid Clearing w)"
| clear: "w_tasks w t = Some (sid, Clearing) \<Longrightarrow>
     turn_step ops w (Clear sid t) (move t sid Cleared (upd_tracker (clear_currently_configuring sid) w))"
| drop: "w_tasks w t = Some (sid, Cleared) \<Longrightarrow>
     turn_step ops w (Drop sid t) (gone t (upd_tracker (set_turn (sem_release ops) sid) w))"
| give_up: "w_tasks w t = Some (sid, Waiting) \<Longrightarrow>
     turn_step ops w (GiveUp sid t) (move t sid Abandoned (upd_tracker (set_turn (sem_leave ops t) sid) w))"
| leave: "w_tasks w t = Some (sid, Abandoned) \<Longrightarrow>
     turn_step ops w (Leave sid t) (gone t (upd_tracker (on_gate waiting_token_drop sid) w))"
| cancel: "w_tasks w t = Some (sid, Acquired) \<Longrightarrow>
     turn_step ops w (Cancel sid t) (gone t (upd_tracker (set_turn (sem_release ops) sid) w))"
| queue_reload: "turn_step ops w (QueueReload sid) (upd_tracker (queue_pending_reload sid) w)"
| take_reload: "turn_step ops w (TakeReload sid) (upd_tracker (\<lambda>tr. snd (take_pending_reload sid tr)) w)"
| book: "turn_step ops w (Book now oper) (upd_tracker (book now oper) w)"

inductive turn_run :: "'s sem_ops \<Rightarrow> label list \<Rightarrow> 's world \<Rightarrow> bool" for ops where
  start: "turn_run ops [] (start_world now)"
| step: "turn_run ops ls w \<Longrightarrow> turn_step ops w l w' \<Longrightarrow> turn_run ops (ls @ [l]) w'"

text \<open>The tasks of a switch in each phase.\<close>

definition tasks_of :: "(nat \<rightharpoonup> string \<times> phase) \<Rightarrow> string \<Rightarrow> phase \<Rightarrow> nat set" where
  "tasks_of m sid p = {t. m t = Some (sid, p)}"

abbreviation tasks_in :: "'s world \<Rightarrow> string \<Rightarrow> phase \<Rightarrow> nat set" where
  "tasks_in w \<equiv> tasks_of (w_tasks w)"

lemma tasks_of_move:
  assumes "m t = Some (sid, p)"
  shows "p \<noteq> q \<Longrightarrow> tasks_of (m(t \<mapsto> (sid, q))) sid =
      (tasks_of m sid)(p := tasks_of m sid p - {t}, q := insert t (tasks_of m sid q))"
    and "tasks_of (m(t := None)) sid = (tasks_of m sid)(p := tasks_of m sid p - {t})"
    and "sid' \<noteq> sid \<Longrightarrow> tasks_of (m(t \<mapsto> (sid, q))) sid' = tasks_of m sid'"
    and "sid' \<noteq> sid \<Longrightarrow> tasks_of (m(t := None)) sid' = tasks_of m sid'"
  using assms by (auto simp: tasks_of_def fun_eq_iff)

lemma tasks_of_new:
  assumes "m t = None"
  shows "tasks_of (m(t \<mapsto> (sid, q))) sid = (tasks_of m sid)(q := insert t (tasks_of m sid q))"
    and "sid' \<noteq> sid \<Longrightarrow> tasks_of (m(t \<mapsto> (sid, q))) sid' = tasks_of m sid'"
  using assms by (auto simp: tasks_of_def fun_eq_iff)

section \<open>The invariant\<close>

text \<open>Per switch: the one permit is free, handed out, or with a task that has not given it back; the line holds
  exactly the waiting tasks; the counter counts the tasks with a waiting token; and the
  busy flag is set exactly while a guard is held or about to clear it.\<close>

definition permits_held :: "(phase \<Rightarrow> nat set) \<Rightarrow> nat" where
  "permits_held T = card (T Permitted) + card (T Acquired) + card (T Holding) + card (T Clearing) + card (T Cleared)"

definition tokens_held :: "(phase \<Rightarrow> nat set) \<Rightarrow> nat" where
  "tokens_held T = card (T Counted) + card (T Waiting) + card (T Permitted) + card (T Abandoned)"

definition line_ok :: "line \<Rightarrow> (phase \<Rightarrow> nat set) \<Rightarrow> bool" where
  "line_ok v T \<longleftrightarrow> l_free v + length (l_granted v) + permits_held T = 1 \<and>
     distinct (l_granted v @ l_queue v) \<and> set (l_granted v) \<union> set (l_queue v) = T Waiting \<and>
     (l_queue v = [] \<or> l_free v = 0)"

definition turn_ok :: "('s \<Rightarrow> line) \<Rightarrow> 's switch_gate option \<Rightarrow> bool \<Rightarrow> (phase \<Rightarrow> nat set) \<Rightarrow> bool" where
  "turn_ok view gate flag T \<longleftrightarrow> (\<forall>p. finite (T p)) \<and>
     (case gate of
        None \<Rightarrow> (\<forall>p. T p = {}) \<and> \<not> flag
      | Some g \<Rightarrow> line_ok (view (g_turn g)) T \<and> g_waiting g = of_nat (tokens_held T) \<and>
          (flag \<longleftrightarrow> T Holding \<noteq> {} \<or> T Clearing \<noteq> {}))"

definition turns_ok :: "('s \<Rightarrow> line) \<Rightarrow> 's world \<Rightarrow> bool" where
  "turns_ok view w \<longleftrightarrow>
     (\<forall>sid. turn_ok view (tr_gates (w_tracker w) sid) (sid \<in> tr_currently_configuring (w_tracker w)) (tasks_in w sid))"

lemma take_out:
  assumes "finite A" and "t \<in> A"
  obtains n where "card A = Suc n" "card (A - {t}) = n"
  using card_Suc_Diff1 [OF assms] by metis

lemma phase_move_finite [simp]:
  "(\<forall>p. finite (T p)) \<Longrightarrow> finite ((T(p := T p - {t}, q := insert t (T q))) r)"
  "(\<forall>p. finite (T p)) \<Longrightarrow> finite ((T(p := T p - {t})) r)"
  "(\<forall>p. finite (T p)) \<Longrightarrow> finite ((T(q := insert t (T q))) r)"
  by auto

lemma turn_okD:
  assumes "turn_ok view (Some g) flag T"
  shows "finite (T p)"
    and "l_free (view (g_turn g)) + length (l_granted (view (g_turn g))) + permits_held T = 1"
    and "distinct (l_granted (view (g_turn g)) @ l_queue (view (g_turn g)))"
    and "set (l_granted (view (g_turn g))) \<union> set (l_queue (view (g_turn g))) = T Waiting"
    and "l_queue (view (g_turn g)) = [] \<or> l_free (view (g_turn g)) = 0"
    and "g_waiting g = of_nat (tokens_held T)"
    and "flag \<longleftrightarrow> T Holding \<noteq> {} \<or> T Clearing \<noteq> {}"
proof -
  note ok = assms [unfolded turn_ok_def line_ok_def option.case]
  show "finite (T p)"
    and "l_free (view (g_turn g)) + length (l_granted (view (g_turn g))) + permits_held T = 1"
    and "distinct (l_granted (view (g_turn g)) @ l_queue (view (g_turn g)))"
    and "set (l_granted (view (g_turn g))) \<union> set (l_queue (view (g_turn g))) = T Waiting"
    and "l_queue (view (g_turn g)) = [] \<or> l_free (view (g_turn g)) = 0"
    and "g_waiting g = of_nat (tokens_held T)"
    and "flag \<longleftrightarrow> T Holding \<noteq> {} \<or> T Clearing \<noteq> {}"
    using ok by simp_all
qed

lemma turn_okI:
  assumes "\<And>p. finite (T p)" and "line_ok (view (g_turn g)) T" and "g_waiting g = of_nat (tokens_held T)"
    and "flag \<longleftrightarrow> T Holding \<noteq> {} \<or> T Clearing \<noteq> {}"
  shows "turn_ok view (Some g) flag T"
  unfolding turn_ok_def option.case using assms by blast

text \<open>Moving a task within the phases that hold the permit, or within those that hold a token, keeps
  the sums; the line does not care unless \<open>Waiting\<close> or a sum changes.\<close>

lemma line_ok_cong:
  assumes "line_ok v T" and "permits_held T' = permits_held T" and "T' Waiting = T Waiting"
  shows "line_ok v T'"
  using assms by (simp add: line_ok_def)

lemma turn_ok_same_line:
  assumes ok: "turn_ok view (Some g) flag T"
    and "\<And>p. finite (T' p)" "permits_held T' = permits_held T" "T' Waiting = T Waiting"
    and "g_turn g' = g_turn g" "g_waiting g' = of_nat (tokens_held T')"
    and "flag' \<longleftrightarrow> T' Holding \<noteq> {} \<or> T' Clearing \<noteq> {}"
  shows "turn_ok view (Some g') flag' T'"
proof (rule turn_okI)
  have "line_ok (view (g_turn g)) T" using ok by (simp add: turn_ok_def)
  from line_ok_cong [OF this assms(3,4)] show "line_ok (view (g_turn g')) T'" by (simp only: assms(5))
qed (fact assms)+

lemma hand_on_ok:
  assumes "l_free v + length (l_granted v) + n = 0" "distinct (l_granted v @ l_queue v)"
    and "set (l_granted v) \<union> set (l_queue v) = W"
  shows "l_free (hand_on v) + length (l_granted (hand_on v)) + n = 1"
    "distinct (l_granted (hand_on v) @ l_queue (hand_on v))"
    "set (l_granted (hand_on v)) \<union> set (l_queue (hand_on v)) = W"
    "l_queue (hand_on v) = [] \<or> l_free (hand_on v) = 0"
  using assms by (auto simp: hand_on_def split: list.splits)

lemma holder_alone:
  assumes "turn_ok view (Some g) flag T" and "t \<in> T p"
    and "p \<in> {Permitted, Acquired, Holding, Clearing, Cleared}"
  shows "permits_held T = 1" "l_free (view (g_turn g)) = 0" "l_granted (view (g_turn g)) = []"
    "T p = {t}" "\<And>q. q \<in> {Permitted, Acquired, Holding, Clearing, Cleared} \<Longrightarrow> q \<noteq> p \<Longrightarrow> T q = {}"
proof -
  have pos: "card (T p) > 0"
    using turn_okD(1) [OF assms(1)] assms(2) card_gt_0_iff by blast
  moreover have "card (T p) \<le> permits_held T" using assms(3) by (auto simp: permits_held_def)
  ultimately show one: "permits_held T = 1" and "l_free (view (g_turn g)) = 0"
    using turn_okD(2) [OF assms(1)] by arith+
  then have "length (l_granted (view (g_turn g))) = 0"
    using turn_okD(2) [OF assms(1)] by arith
  then show "l_granted (view (g_turn g)) = []" by simp
  have "card (T p) = 1" using one pos assms(3) by (auto simp: permits_held_def)
  then show "T p = {t}" using assms(2) by (auto simp: card_1_singleton_iff)
  fix q assume "q \<in> {Permitted, Acquired, Holding, Clearing, Cleared}" and "q \<noteq> p"
  then have "card (T q) = 0" using one pos assms(3) by (auto simp: permits_held_def)
  then show "T q = {}" using turn_okD(1) [OF assms(1)] by simp
qed

context fair_semaphore
begin

lemma turn_ok_count:
  assumes "turn_ok view (Some g) flag T" "t \<in> T Entered" "t \<notin> T Counted"
  shows "turn_ok view (Some (waiting_token_new g)) flag (T(Entered := T Entered - {t}, Counted := insert t (T Counted)))"
  using assms(1)
proof (rule turn_ok_same_line)
  show "g_waiting (waiting_token_new g) =
      of_nat (tokens_held (T(Entered := T Entered - {t}, Counted := insert t (T Counted))))"
    using turn_okD(1,6) [OF assms(1)] assms(3) by (simp add: tokens_held_def waiting_token_new_def)
qed (use turn_okD(1,7) [OF assms(1)] in \<open>simp_all add: permits_held_def waiting_token_new_def\<close>)

lemma turn_ok_arrive:
  assumes "turn_ok view (Some g) flag T" "t \<in> T Counted" "t \<notin> T Waiting"
  shows "turn_ok view (Some (g\<lparr>g_turn := sem_wait ops t (g_turn g)\<rparr>)) flag
    (T(Counted := T Counted - {t}, Waiting := insert t (T Waiting)))"
proof (rule turn_okI)
  let ?T = "T(Counted := T Counted - {t}, Waiting := insert t (T Waiting))"
  show "finite (?T p)" for p using turn_okD(1) [OF assms(1)] by auto
  have held: "permits_held ?T = permits_held T" by (simp add: permits_held_def)
  note ok = turn_okD(2-5) [OF assms(1)]
  show "line_ok (view (g_turn (g\<lparr>g_turn := sem_wait ops t (g_turn g)\<rparr>))) ?T"
  proof (cases "l_free (view (g_turn g)) = 0")
    case True
    then show ?thesis using ok held assms(3) by (auto simp: line_ok_def view_wait join_line_def)
  next
    case False
    have "length (l_granted (view (g_turn g))) = 0" using False ok(1) by linarith
    moreover have "l_queue (view (g_turn g)) = []" using False ok(4) by simp
    ultimately show ?thesis using ok held assms(3) False by (simp add: line_ok_def view_wait join_line_def)
  qed
  from turn_okD(1) [OF assms(1)] assms(2) obtain n where "card (T Counted) = Suc n" "card (T Counted - {t}) = n"
    by (rule take_out)
  then show "g_waiting (g\<lparr>g_turn := sem_wait ops t (g_turn g)\<rparr>) = of_nat (tokens_held ?T)"
    using turn_okD(1,6) [OF assms(1)] assms(3) by (simp add: tokens_held_def)
  show "flag \<longleftrightarrow> ?T Holding \<noteq> {} \<or> ?T Clearing \<noteq> {}"
    using turn_okD(7) [OF assms(1)] by simp
qed

lemma turn_ok_serve:
  assumes "turn_ok view (Some g) flag T" "t \<in> T Waiting" "t \<notin> T Permitted" "sem_poll ops t (g_turn g) = Some s"
  shows "turn_ok view (Some (g\<lparr>g_turn := s\<rparr>)) flag (T(Waiting := T Waiting - {t}, Permitted := insert t (T Permitted)))"
proof (rule turn_okI)
  let ?T = "T(Waiting := T Waiting - {t}, Permitted := insert t (T Permitted))"
  note ok = turn_okD [OF assms(1)]
  have "t \<in> set (l_granted (view (g_turn g)))" using assms(4) poll_None [of t "g_turn g"] by auto
  moreover have "length (l_granted (view (g_turn g))) \<le> 1" using ok(2) by simp
  ultimately have granted: "l_granted (view (g_turn g)) = [t]" by (cases "l_granted (view (g_turn g))") auto
  show "finite (?T p)" for p using ok(1) by auto
  have "permits_held ?T = Suc (permits_held T)" using ok(1) assms(3) by (simp add: permits_held_def)
  then show "line_ok (view (g_turn (g\<lparr>g_turn := s\<rparr>))) ?T"
    using ok(2-5) granted by (auto simp: line_ok_def view_poll [OF assms(4)])
  from ok(1) assms(2) obtain n where "card (T Waiting) = Suc n" "card (T Waiting - {t}) = n"
    by (rule take_out)
  then show "g_waiting (g\<lparr>g_turn := s\<rparr>) = of_nat (tokens_held ?T)"
    using ok(1,6) assms(3) by (simp add: tokens_held_def)
  show "flag \<longleftrightarrow> ?T Holding \<noteq> {} \<or> ?T Clearing \<noteq> {}"
    using turn_okD(7) [OF assms(1)] by simp
qed

lemma turn_ok_uncount:
  assumes "turn_ok view (Some g) flag T" "t \<in> T Permitted" "t \<notin> T Acquired"
  shows "turn_ok view (Some (waiting_token_drop g)) flag (T(Permitted := T Permitted - {t}, Acquired := insert t (T Acquired)))"
  using assms(1)
proof (rule turn_ok_same_line)
  let ?T = "T(Permitted := T Permitted - {t}, Acquired := insert t (T Acquired))"
  note ok = turn_okD [OF assms(1)]
  from ok(1) assms(2) obtain n where "card (T Permitted) = Suc n" "card (T Permitted - {t}) = n"
    by (rule take_out)
  then show "permits_held ?T = permits_held T" "g_waiting (waiting_token_drop g) = of_nat (tokens_held ?T)"
    using ok(1,6) assms(3)
    by (simp_all add: permits_held_def tokens_held_def waiting_token_drop_def)
qed (use turn_okD(1,7) [OF assms(1)] in \<open>simp_all add: waiting_token_drop_def\<close>)

lemma turn_ok_leave:
  assumes "turn_ok view (Some g) flag T" "t \<in> T Abandoned"
  shows "turn_ok view (Some (waiting_token_drop g)) flag (T(Abandoned := T Abandoned - {t}))"
  using assms(1)
proof (rule turn_ok_same_line)
  from turn_okD(1) [OF assms(1)] assms(2) obtain n where "card (T Abandoned) = Suc n" "card (T Abandoned - {t}) = n"
    by (rule take_out)
  then show "g_waiting (waiting_token_drop g) = of_nat (tokens_held (T(Abandoned := T Abandoned - {t})))"
    using turn_okD(6) [OF assms(1)]
    by (simp add: tokens_held_def waiting_token_drop_def)
qed (use turn_okD(1,7) [OF assms(1)] in \<open>simp_all add: permits_held_def waiting_token_drop_def\<close>)

text \<open>The steps of the task that has the permit, within its phases.\<close>

lemma turn_ok_advance:
  assumes "turn_ok view (Some g) flag T" "t \<in> T p" "t \<notin> T q" "p \<noteq> q"
    and "p \<in> {Acquired, Holding, Clearing}" "q \<in> {Holding, Clearing, Cleared}"
    and flag': "flag' \<longleftrightarrow> q = Holding \<or> q = Clearing"
  shows "turn_ok view (Some g) flag' (T(p := T p - {t}, q := insert t (T q)))"
  using assms(1)
proof (rule turn_ok_same_line)
  let ?T = "T(p := T p - {t}, q := insert t (T q))"
  note ok = turn_okD [OF assms(1)] and alone = holder_alone(4,5) [OF assms(1,2)]
  from ok(1) assms(2) obtain n where n: "card (T p) = Suc n" "card (T p - {t}) = n" by (rule take_out)
  show "permits_held ?T = permits_held T"
    using ok(1) assms(3,4) n assms(5,6)
    by (elim insertE emptyE) (simp_all add: permits_held_def)
  show "g_waiting g = of_nat (tokens_held ?T)" using ok(6) assms(5,6)
    by (elim insertE emptyE) (simp_all add: tokens_held_def)
  show "flag' \<longleftrightarrow> ?T Holding \<noteq> {} \<or> ?T Clearing \<noteq> {}"
    using alone(1) alone(2) [of Holding] alone(2) [of Clearing] assms(4-6) unfolding flag'
    by (elim insertE emptyE) simp_all
  show "?T Waiting = T Waiting" using assms(5,6) by auto
qed (use turn_okD(1) [OF assms(1)] in simp_all)

lemma turn_ok_release:
  assumes "turn_ok view (Some g) flag T" "t \<in> T p" "p = Cleared \<or> p = Acquired"
  shows "turn_ok view (Some (g\<lparr>g_turn := sem_release ops (g_turn g)\<rparr>)) flag (T(p := T p - {t}))"
proof (rule turn_okI)
  let ?T = "T(p := T p - {t})"
  note ok = turn_okD [OF assms(1)]
  show "finite (?T q)" for q using ok(1) by auto
  from ok(1) assms(2) obtain n where "card (T p) = Suc n" "card (T p - {t}) = n" by (rule take_out)
  then have "permits_held T = Suc (permits_held ?T)"
    using assms(3) by (elim disjE) (simp_all add: permits_held_def)
  then have "l_free (view (g_turn g)) + length (l_granted (view (g_turn g))) + permits_held ?T = 0"
    using ok(2) by simp
  from hand_on_ok [OF this ok(3) ok(4)]
  show "line_ok (view (g_turn (g\<lparr>g_turn := sem_release ops (g_turn g)\<rparr>))) ?T"
    using assms(3) by (auto simp: line_ok_def view_release)
  show "g_waiting (g\<lparr>g_turn := sem_release ops (g_turn g)\<rparr>) = of_nat (tokens_held ?T)"
    using ok(6) assms(3) by (auto simp: tokens_held_def)
  show "flag \<longleftrightarrow> ?T Holding \<noteq> {} \<or> ?T Clearing \<noteq> {}"
    using ok(7) assms(3) by (elim disjE) simp_all
qed

lemma turn_ok_give_up:
  assumes "turn_ok view (Some g) flag T" "t \<in> T Waiting" "t \<notin> T Abandoned"
  shows "turn_ok view (Some (g\<lparr>g_turn := sem_leave ops t (g_turn g)\<rparr>)) flag
    (T(Waiting := T Waiting - {t}, Abandoned := insert t (T Abandoned)))"
proof (rule turn_okI)
  let ?T = "T(Waiting := T Waiting - {t}, Abandoned := insert t (T Abandoned))"
  let ?v = "view (g_turn g)"
  note ok = turn_okD [OF assms(1)]
  show "finite (?T p)" for p using ok(1) by auto
  have held: "permits_held ?T = permits_held T" by (simp add: permits_held_def)
  show "line_ok (view (g_turn (g\<lparr>g_turn := sem_leave ops t (g_turn g)\<rparr>))) ?T"
  proof (cases "t \<in> set (l_granted ?v)")
    case True
    moreover have "length (l_granted ?v) \<le> 1" using ok(2) by simp
    ultimately have granted: "l_granted ?v = [t]" by (cases "l_granted ?v") auto
    let ?u = "?v\<lparr>l_granted := []\<rparr>"
    have "l_free ?u + length (l_granted ?u) + permits_held T = 0" "distinct (l_granted ?u @ l_queue ?u)"
      "set (l_granted ?u) \<union> set (l_queue ?u) = T Waiting - {t}"
      using ok(2-4) granted by auto
    from hand_on_ok [OF this] show ?thesis
      using granted held by (simp add: line_ok_def view_leave leave_line_def)
  next
    case False
    then show ?thesis
      using ok(2-4) ok(5) held by (cases "l_queue ?v = []") (auto simp: line_ok_def view_leave leave_line_def distinct_removeAll)
  qed
  from ok(1) assms(2) obtain n where "card (T Waiting) = Suc n" "card (T Waiting - {t}) = n"
    by (rule take_out)
  then show "g_waiting (g\<lparr>g_turn := sem_leave ops t (g_turn g)\<rparr>) = of_nat (tokens_held ?T)"
    using ok(1,6) assms(3) by (simp add: tokens_held_def)
  show "flag \<longleftrightarrow> ?T Holding \<noteq> {} \<or> ?T Clearing \<noteq> {}"
    using turn_okD(7) [OF assms(1)] by simp
qed

text \<open>Putting a step of one switch into the whole world.\<close>

lemma turns_ok_at:
  assumes "turns_ok view w"
    and "\<And>s. s \<noteq> sid \<Longrightarrow> tr_gates (w_tracker w') s = tr_gates (w_tracker w) s"
    and "\<And>s. s \<noteq> sid \<Longrightarrow> s \<in> tr_currently_configuring (w_tracker w') \<longleftrightarrow> s \<in> tr_currently_configuring (w_tracker w)"
    and "\<And>s. s \<noteq> sid \<Longrightarrow> tasks_in w' s = tasks_in w s"
    and "turn_ok view (tr_gates (w_tracker w') sid) (sid \<in> tr_currently_configuring (w_tracker w')) (tasks_in w' sid)"
  shows "turns_ok view w'"
  unfolding turns_ok_def
proof
  fix s
  show "turn_ok view (tr_gates (w_tracker w') s) (s \<in> tr_currently_configuring (w_tracker w')) (tasks_in w' s)"
    using assms(1) [unfolded turns_ok_def, rule_format, of s] assms(2-4) [of s] assms(5) by (cases "s = sid") simp_all
qed

lemma task_gate:
  assumes "turns_ok view w" and "w_tasks w t = Some (sid, p)"
  obtains g where "tr_gates (w_tracker w) sid = Some g"
    "turn_ok view (Some g) (sid \<in> tr_currently_configuring (w_tracker w)) (tasks_in w sid)"
    "t \<in> tasks_in w sid p" "\<And>q. q \<noteq> p \<Longrightarrow> t \<notin> tasks_in w sid q"
proof -
  have t: "t \<in> tasks_in w sid p" "\<And>q. q \<noteq> p \<Longrightarrow> t \<notin> tasks_in w sid q"
    using assms(2) by (auto simp: tasks_of_def)
  have ok: "turn_ok view (tr_gates (w_tracker w) sid) (sid \<in> tr_currently_configuring (w_tracker w)) (tasks_in w sid)"
    using assms(1) by (simp add: turns_ok_def)
  show thesis
  proof (cases "tr_gates (w_tracker w) sid")
    case None
    with ok t(1) show thesis by (simp add: turn_ok_def)
  next
    case (Some g)
    with ok t that show thesis by simp
  qed
qed

lemma tracker_parts [simp]:
  "tr_gates (on_gate f sid tr) = (tr_gates tr)(sid := map_option f (tr_gates tr sid))"
  "tr_currently_configuring (on_gate f sid tr) = tr_currently_configuring tr"
  "tr_gates (set_currently_configuring sid tr) = tr_gates tr"
  "tr_currently_configuring (set_currently_configuring sid tr) = insert sid (tr_currently_configuring tr)"
  "tr_gates (clear_currently_configuring sid tr) = tr_gates tr"
  "tr_currently_configuring (clear_currently_configuring sid tr) = tr_currently_configuring tr - {sid}"
  "tr_currently_configuring (open_gate ops' sid tr) = tr_currently_configuring tr"
  by (simp_all add: on_gate_def set_currently_configuring_def clear_currently_configuring_def open_gate_def
      split: option.splits)

lemma open_gate_other: "s \<noteq> sid \<Longrightarrow> tr_gates (open_gate ops sid tr) s = tr_gates tr s"
  by (simp add: open_gate_def split: option.splits)

lemma turn_ok_new: "turn_ok view (Some (new_gate ops)) False (\<lambda>_. {})"
  by (simp add: turn_ok_def line_ok_def permits_held_def tokens_held_def new_gate_def view_new)

lemma open_gate_ok:
  assumes "turns_ok view w"
  obtains g where "tr_gates (open_gate ops sid (w_tracker w)) sid = Some g"
    "turn_ok view (Some g) (sid \<in> tr_currently_configuring (w_tracker w)) (tasks_in w sid)"
proof (cases "tr_gates (w_tracker w) sid")
  case None
  have ok: "turn_ok view (tr_gates (w_tracker w) sid) (sid \<in> tr_currently_configuring (w_tracker w)) (tasks_in w sid)"
    using assms by (simp add: turns_ok_def)
  then have "tasks_in w sid = (\<lambda>_. {})" "sid \<notin> tr_currently_configuring (w_tracker w)"
    unfolding None turn_ok_def by auto
  with None turn_ok_new that show thesis by (simp add: open_gate_def)
next
  case (Some g)
  with assms that show thesis by (simp add: turns_ok_def open_gate_def split: option.splits) metis
qed

lemma turn_ok_enter:
  assumes "turn_ok view (Some g) flag T"
  shows "turn_ok view (Some g) flag (T(Entered := insert t (T Entered)))"
  using assms
  by (rule turn_ok_same_line) (use turn_okD [OF assms] in \<open>simp_all add: permits_held_def tokens_held_def\<close>)

lemma turn_ok_acquire:
  assumes "turn_ok view (Some g) flag T" "sem_try ops (g_turn g) = Some s" "t \<notin> T Holding"
  shows "turn_ok view (Some (g\<lparr>g_turn := s\<rparr>)) True (T(Holding := insert t (T Holding)))"
proof (rule turn_okI)
  let ?T = "T(Holding := insert t (T Holding))"
  note ok = turn_okD [OF assms(1)]
  have free: "l_free (view (g_turn g)) > 0" using assms(2) try_None [of "g_turn g"] by auto
  then have "length (l_granted (view (g_turn g))) = 0" using ok(2) by linarith
  moreover have "l_queue (view (g_turn g)) = []" using free ok(5) by simp
  moreover have "permits_held ?T = Suc (permits_held T)" using ok(1) assms(3) by (simp add: permits_held_def)
  ultimately show "line_ok (view (g_turn (g\<lparr>g_turn := s\<rparr>))) ?T"
    using ok(2-5) free by (simp add: line_ok_def view_try [OF assms(2)])
  show "g_waiting (g\<lparr>g_turn := s\<rparr>) = of_nat (tokens_held ?T)" using ok(6) by (simp add: tokens_held_def)
qed (use turn_okD(1) [OF assms(1)] in simp_all)

lemma try_acquire_cases:
  assumes "turns_ok view w" and "try_acquire_configuring ops sid (w_tracker w) = (b, tr)"
  obtains "tr = w_tracker w" "\<not> b" | "tr = open_gate ops sid (w_tracker w)" "\<not> b"
  | g s where "b" "sid \<notin> tr_pending_config_reload (w_tracker w)" "sid \<notin> tr_currently_configuring (w_tracker w)"
      "tr_gates (open_gate ops sid (w_tracker w)) sid = Some g" "sem_try ops (g_turn g) = Some s"
      "turn_ok view (Some g) (sid \<in> tr_currently_configuring (w_tracker w)) (tasks_in w sid)"
      "tr = set_currently_configuring sid (set_turn (\<lambda>_. s) sid (open_gate ops sid (w_tracker w)))"
proof -
  from open_gate_ok [OF assms(1)] obtain g where g: "tr_gates (open_gate ops sid (w_tracker w)) sid = Some g"
    "turn_ok view (Some g) (sid \<in> tr_currently_configuring (w_tracker w)) (tasks_in w sid)" .
  show thesis
  proof (cases "sid \<in> tr_currently_configuring (w_tracker w) \<or> sid \<in> tr_pending_config_reload (w_tracker w)")
    case True
    with assms(2) that(1) show thesis by (simp add: try_acquire_configuring_def)
  next
    case False
    show thesis
    proof (cases "sem_try ops (g_turn g)")
      case None
      with False assms(2) g show thesis by (intro that(2)) (simp_all add: try_acquire_configuring_def Let_def)
    next
      case (Some s)
      with False assms(2) g show thesis
        by (intro that(3) [OF _ _ _ g(1) Some g(2)]) (simp_all add: try_acquire_configuring_def Let_def)
    qed
  qed
qed

lemma turns_ok_open:
  assumes "turns_ok view w"
  shows "turns_ok view (upd_tracker (open_gate ops sid) w)"
proof -
  from open_gate_ok [OF assms, of sid] obtain g where g: "tr_gates (open_gate ops sid (w_tracker w)) sid = Some g"
    "turn_ok view (Some g) (sid \<in> tr_currently_configuring (w_tracker w)) (tasks_in w sid)" .
  show ?thesis by (rule turns_ok_at [OF assms, of sid]) (simp_all add: open_gate_other g)
qed

lemma turns_ok_try:
  assumes "turns_ok view w" and "w_tasks w t = None" and "try_acquire_configuring ops sid (w_tracker w) = (True, tr)"
  shows "turns_ok view (move t sid Holding (w\<lparr>w_tracker := tr\<rparr>))"
  using assms(1,3)
proof (cases rule: try_acquire_cases)
  case (3 g s)
  have "t \<notin> tasks_in w sid Holding" using assms(2) by (simp add: tasks_of_def)
  note new = turn_ok_acquire [OF 3(6,5) this]
  show ?thesis
    by (rule turns_ok_at [OF assms(1), of sid])
      (use assms(2) new 3(4) in \<open>simp_all add: 3(7) tasks_of_new open_gate_other\<close>)
qed simp_all

lemma same_turns_ok: "same_turns (w_tracker w) tr \<Longrightarrow> turns_ok view w \<Longrightarrow> turns_ok view (w\<lparr>w_tracker := tr\<rparr>)"
  by (simp add: turns_ok_def same_turns_def)


lemma turns_ok_start: "turns_ok view (start_world now)"
  by (simp add: turns_ok_def turn_ok_def start_world_def new_tracker_def tasks_of_def)

lemma turns_ok_move:
  assumes ok: "turns_ok view w" and t: "w_tasks w t = Some (sid, p)" and "p \<noteq> q"
    and gates: "tr_gates tr = (tr_gates (w_tracker w))(sid := map_option f (tr_gates (w_tracker w) sid))"
    and other: "\<And>s. s \<noteq> sid \<Longrightarrow> s \<in> tr_currently_configuring tr \<longleftrightarrow> s \<in> tr_currently_configuring (w_tracker w)"
    and here: "\<And>g T. turn_ok view (Some g) (sid \<in> tr_currently_configuring (w_tracker w)) T \<Longrightarrow> t \<in> T p \<Longrightarrow>
        t \<notin> T q \<Longrightarrow> tr_gates (w_tracker w) sid = Some g \<Longrightarrow>
        turn_ok view (Some (f g)) (sid \<in> tr_currently_configuring tr) (T(p := T p - {t}, q := insert t (T q)))"
  shows "turns_ok view (move t sid q (w\<lparr>w_tracker := tr\<rparr>))"
  by (rule task_gate [OF ok t], rule turns_ok_at [OF ok, of sid])
    (use assms in \<open>simp_all add: tasks_of_move\<close>)

lemma turns_ok_gone:
  assumes ok: "turns_ok view w" and t: "w_tasks w t = Some (sid, p)"
    and gates: "tr_gates tr = (tr_gates (w_tracker w))(sid := map_option f (tr_gates (w_tracker w) sid))"
    and other: "tr_currently_configuring tr = tr_currently_configuring (w_tracker w)"
    and here: "\<And>g T. turn_ok view (Some g) (sid \<in> tr_currently_configuring (w_tracker w)) T \<Longrightarrow> t \<in> T p \<Longrightarrow>
        turn_ok view (Some (f g)) (sid \<in> tr_currently_configuring tr) (T(p := T p - {t}))"
  shows "turns_ok view (gone t (w\<lparr>w_tracker := tr\<rparr>))"
  by (rule task_gate [OF ok t], rule turns_ok_at [OF ok, of sid])
    (use assms in \<open>simp_all add: tasks_of_move\<close>)

lemma turn_step_ok:
  assumes "turn_step ops w l w'" and ok: "turns_ok view w"
  shows "turns_ok view w'"
  using assms(1)
proof (cases rule: turn_step.cases)
  case (acquire t sid tr)
  with ok show ?thesis by (simp only: turns_ok_try)
next
  case (refuse sid tr)
  from ok refuse(3) show ?thesis
    by (cases rule: try_acquire_cases) (use ok refuse turns_ok_open in simp_all)
next
  case (enter t sid)
  from open_gate_ok [OF ok, of sid] obtain g where g: "tr_gates (open_gate ops sid (w_tracker w)) sid = Some g"
    "turn_ok view (Some g) (sid \<in> tr_currently_configuring (w_tracker w)) (tasks_in w sid)" .
  show ?thesis
    by (rule turns_ok_at [OF ok, of sid])
      (use enter g turn_ok_enter [OF g(2), of t] in \<open>simp_all add: tasks_of_new open_gate_other\<close>)
next
  case (count t sid)
  show ?thesis unfolding count(2)
    by (rule turns_ok_move [OF ok count(3)]) (simp_all, erule (2) turn_ok_count)
next
  case (arrive t sid)
  show ?thesis unfolding arrive(2)
    by (rule turns_ok_move [OF ok arrive(3)]) (simp_all, erule (2) turn_ok_arrive)
next
  case (serve t sid g s)
  show ?thesis unfolding serve(2)
    by (rule turns_ok_move [OF ok serve(3)]) (use serve(4,5) in simp_all, erule (2) turn_ok_serve)
next
  case (uncount t sid)
  show ?thesis unfolding uncount(2)
    by (rule turns_ok_move [OF ok uncount(3)]) (simp_all, erule (2) turn_ok_uncount)
next
  case (mark t sid)
  show ?thesis unfolding mark(2)
    by (rule turns_ok_move [OF ok mark(3), where f = "\<lambda>g. g"])
      (simp_all add: option.map_ident, erule (2) turn_ok_advance, simp_all)
next
  case (finish t sid)
  have "sid \<in> tr_currently_configuring (w_tracker w)"
    by (rule task_gate [OF ok finish(3)]) (auto dest: turn_okD(7))
  then have "turns_ok view (move t sid Clearing (w\<lparr>w_tracker := w_tracker w\<rparr>))"
    by (intro turns_ok_move [OF ok finish(3), where f = "\<lambda>g. g"])
      (simp_all add: option.map_ident, erule (2) turn_ok_advance, simp_all)
  then show ?thesis by (simp add: finish(2))
next
  case (clear t sid)
  show ?thesis unfolding clear(2)
    by (rule turns_ok_move [OF ok clear(3), where f = "\<lambda>g. g"])
      (simp_all add: option.map_ident, erule (2) turn_ok_advance, simp_all)
next
  case (drop t sid)
  show ?thesis unfolding drop(2)
    by (rule turns_ok_gone [OF ok drop(3)]) (simp_all, erule (1) turn_ok_release, simp)
next
  case (give_up t sid)
  show ?thesis unfolding give_up(2)
    by (rule turns_ok_move [OF ok give_up(3)]) (simp_all, erule (2) turn_ok_give_up)
next
  case (leave t sid)
  show ?thesis unfolding leave(2)
    by (rule turns_ok_gone [OF ok leave(3)]) (simp_all, erule (1) turn_ok_leave)
next
  case (cancel t sid)
  show ?thesis unfolding cancel(2)
    by (rule turns_ok_gone [OF ok cancel(3)]) (simp_all, erule (1) turn_ok_release, simp)
next
  case (book now oper)
  show ?thesis unfolding book by (rule same_turns_ok [OF book_same_turns ok])
qed (use ok in \<open>simp_all add: turns_ok_def queue_pending_reload_def take_pending_reload_def\<close>)

lemma turn_run_ok: "turn_run ops ls w \<Longrightarrow> turns_ok view w"
  by (induction rule: turn_run.induct) (blast intro: turns_ok_start turn_step_ok)+

text \<open>What the invariant says about who has the switch and who is counted.\<close>

lemma holders_one:
  assumes "turns_ok view w" and "w_tasks w t = Some (sid, p)" "w_tasks w u = Some (sid, q)"
    and "p \<in> {Permitted, Acquired, Holding, Clearing, Cleared}" "q \<in> {Permitted, Acquired, Holding, Clearing, Cleared}"
  shows "t = u"
  using assms(1,2)
proof (rule task_gate)
  fix g
  assume g: "turn_ok view (Some g) (sid \<in> tr_currently_configuring (w_tracker w)) (tasks_in w sid)"
    "t \<in> tasks_in w sid p"
  have "u \<in> tasks_in w sid q" using assms(3) by (simp add: tasks_of_def)
  then show ?thesis using holder_alone(4,5) [OF g assms(4)] assms(5) by (cases "q = p") auto
qed

lemma flag_iff:
  assumes "turns_ok view w"
  shows "sid \<in> tr_currently_configuring (w_tracker w) \<longleftrightarrow>
    (\<exists>t. w_tasks w t \<in> {Some (sid, Holding), Some (sid, Clearing)})"
  using assms [unfolded turns_ok_def, rule_format, of sid]
  by (cases "tr_gates (w_tracker w) sid") (auto simp: turn_ok_def tasks_of_def)

lemma card_tokens:
  assumes "\<And>p. finite (tasks_of m sid p)"
  shows "card {t. \<exists>p \<in> {Counted, Waiting, Permitted, Abandoned}. m t = Some (sid, p)} = tokens_held (tasks_of m sid)"
proof -
  have "{t. \<exists>p \<in> {Counted, Waiting, Permitted, Abandoned}. m t = Some (sid, p)} =
      tasks_of m sid Counted \<union> tasks_of m sid Waiting \<union> tasks_of m sid Permitted \<union> tasks_of m sid Abandoned"
    by (auto simp: tasks_of_def)
  moreover have "p \<noteq> q \<Longrightarrow> tasks_of m sid p \<inter> tasks_of m sid q = {}" for p q
    by (auto simp: tasks_of_def)
  ultimately show ?thesis
    using assms by (simp add: tokens_held_def card_Un_disjoint Int_Un_distrib2)
qed

lemma queued_count_eq:
  assumes "turns_ok view w"
  shows "queued_count sid (w_tracker w) =
    of_nat (card {t. \<exists>p \<in> {Counted, Waiting, Permitted, Abandoned}. w_tasks w t = Some (sid, p)})"
proof -
  have ok: "turn_ok view (tr_gates (w_tracker w) sid) (sid \<in> tr_currently_configuring (w_tracker w)) (tasks_in w sid)"
    using assms by (simp add: turns_ok_def)
  then have fin: "finite (tasks_in w sid p)" for p by (simp add: turn_ok_def)
  show ?thesis
  proof (cases "tr_gates (w_tracker w) sid")
    case None
    with ok have "tasks_in w sid = (\<lambda>_. {})" by (simp add: turn_ok_def fun_eq_iff)
    then show ?thesis by (simp only: card_tokens [OF fin]) (simp add: queued_count_def None tokens_held_def)
  next
    case (Some g)
    with ok show ?thesis by (simp only: card_tokens [OF fin]) (simp add: queued_count_def turn_okD(6))
  qed
qed

end

section \<open>First come, first served\<close>

text \<open>The line of a switch, and the order in which a run put tasks into it and gave them their turn.\<close>

definition line_of :: "('s \<Rightarrow> line) \<Rightarrow> 's world \<Rightarrow> string \<Rightarrow> nat list" where
  "line_of view w sid =
     (case tr_gates (w_tracker w) sid of
        None \<Rightarrow> []
      | Some g \<Rightarrow> l_granted (view (g_turn g)) @ l_queue (view (g_turn g)))"

fun arrival :: "string \<Rightarrow> label \<Rightarrow> nat list" where
  "arrival sid (Arrive s t) = (if s = sid then [t] else [])"
| "arrival sid _ = []"

fun service :: "string \<Rightarrow> label \<Rightarrow> nat list" where
  "service sid (Serve s t) = (if s = sid then [t] else [])"
| "service sid _ = []"

definition arrived :: "string \<Rightarrow> label list \<Rightarrow> nat list" where
  "arrived sid ls = concat (map (arrival sid) ls)"

definition served :: "string \<Rightarrow> label list \<Rightarrow> nat list" where
  "served sid ls = concat (map (service sid) ls)"

context fair_semaphore
begin

lemma line_hand_on: "l_granted (hand_on v) @ l_queue (hand_on v) = l_granted v @ l_queue v"
  by (simp add: hand_on_def split: list.splits)

lemma subseq_leave:
  "subseq (l_granted (leave_line t v) @ l_queue (leave_line t v)) (l_granted v @ l_queue v)"
proof (cases "t \<in> set (l_granted v)")
  case True
  then show ?thesis
    using line_hand_on [of "v\<lparr>l_granted := removeAll t (l_granted v)\<rparr>"]
    by (simp add: leave_line_def removeAll_filter_not_eq list_emb_append_mono)
next
  case False
  then show ?thesis by (simp add: leave_line_def removeAll_filter_not_eq list_emb_append_mono)
qed

lemma line_of_gates:
  "tr_gates tr sid = tr_gates (w_tracker w) sid \<Longrightarrow> line_of view (w\<lparr>w_tracker := tr\<rparr>) sid = line_of view w sid"
  "line_of view (w\<lparr>w_tasks := m\<rparr>) sid = line_of view w sid"
  by (simp_all add: line_of_def)

lemma line_of_open: "line_of view (w\<lparr>w_tracker := open_gate ops s (w_tracker w)\<rparr>) sid = line_of view w sid"
  by (simp add: line_of_def open_gate_def new_gate_def view_new split: option.splits)

lemma line_of_token:
  "line_of view (upd_tracker (on_gate waiting_token_new s) w) sid = line_of view w sid"
  "line_of view (upd_tracker (on_gate waiting_token_drop s) w) sid = line_of view w sid"
  by (simp_all add: line_of_def waiting_token_new_def waiting_token_drop_def split: option.splits)

lemma line_step:
  assumes "turn_step ops w l w'" and ok: "turns_ok view w"
  shows "subseq (service sid l @ line_of view w' sid) (line_of view w sid @ arrival sid l)"
  using assms(1)
proof (cases rule: turn_step.cases)
  case (acquire t s tr)
  from ok acquire(4) show ?thesis
  proof (cases rule: try_acquire_cases)
    case (3 g s')
    have "line_of view w' sid = line_of view w sid"
    proof (cases "s = sid")
      case True
      then have "line_of view w' sid = l_granted (view (g_turn g)) @ l_queue (view (g_turn g))"
        using 3(4,5) by (simp add: acquire(2) 3(7) line_of_def view_try)
      also have "\<dots> = line_of view (upd_tracker (open_gate ops s) w) sid"
        using 3(4) True by (simp add: line_of_def)
      finally show ?thesis by (simp add: line_of_open)
    qed (simp add: acquire(2) 3(7) line_of_def open_gate_other)
    then show ?thesis by (simp add: acquire(1))
  qed simp_all
next
  case (refuse s tr)
  from ok refuse(3) show ?thesis
    by (cases rule: try_acquire_cases) (simp_all add: refuse line_of_open)
next
  case (arrive t s)
  show ?thesis
  proof (rule task_gate [OF ok arrive(3)])
    fix g assume g: "tr_gates (w_tracker w) s = Some g"
      "turn_ok view (Some g) (s \<in> tr_currently_configuring (w_tracker w)) (tasks_in w s)"
    have "l_granted (join_line t (view (g_turn g))) @ l_queue (join_line t (view (g_turn g))) =
        l_granted (view (g_turn g)) @ l_queue (view (g_turn g)) @ [t]"
      using turn_okD(5) [OF g(2)] by (auto simp: join_line_def)
    then show ?thesis
      using g(1) by (cases "s = sid") (simp_all add: arrive(1,2) line_of_def view_wait)
  qed
next
  case (serve t s g0 s')
  show ?thesis
  proof (rule task_gate [OF ok serve(3)])
    fix g assume g: "tr_gates (w_tracker w) s = Some g"
      "turn_ok view (Some g) (s \<in> tr_currently_configuring (w_tracker w)) (tasks_in w s)"
    with serve(4,5) have poll: "sem_poll ops t (g_turn g) = Some s'" by simp
    then have "t \<in> set (l_granted (view (g_turn g)))" using poll_None [of t "g_turn g"] by auto
    moreover have "length (l_granted (view (g_turn g))) \<le> 1" using turn_okD(2) [OF g(2)] by simp
    ultimately have "l_granted (view (g_turn g)) = [t]" by (cases "l_granted (view (g_turn g))") auto
    then show ?thesis
      using g(1) by (cases "s = sid") (simp_all add: serve(1,2) line_of_def view_poll [OF poll])
  qed
next
  case (give_up t s)
  show ?thesis
  proof (rule task_gate [OF ok give_up(3)])
    fix g assume "tr_gates (w_tracker w) s = Some g"
    then show ?thesis
      using subseq_leave [of t "view (g_turn g)"]
      by (cases "s = sid") (simp_all add: give_up(1,2) line_of_def view_leave)
  qed
next
  case (drop t s)
  show ?thesis
  proof (rule task_gate [OF ok drop(3)])
    fix g assume "tr_gates (w_tracker w) s = Some g"
    then show ?thesis
      by (cases "s = sid") (simp_all add: drop(1,2) line_of_def view_release line_hand_on)
  qed
next
  case (cancel t s)
  show ?thesis
  proof (rule task_gate [OF ok cancel(3)])
    fix g assume "tr_gates (w_tracker w) s = Some g"
    then show ?thesis
      by (cases "s = sid") (simp_all add: cancel(1,2) line_of_def view_release line_hand_on)
  qed
next
  case (book now oper)
  then show ?thesis
    using book_same_turns [of "w_tracker w" now oper] by (simp add: line_of_gates same_turns_def)
qed (simp_all add: line_of_gates line_of_open line_of_token queue_pending_reload_def take_pending_reload_def)

lemma run_line:
  assumes "turn_run ops ls w"
  shows "subseq (served sid ls @ line_of view w sid) (arrived sid ls)"
  using assms
proof (induction rule: turn_run.induct)
  case (start now)
  show ?case by (simp add: served_def line_of_def start_world_def new_tracker_def)
next
  case (step ls w l w')
  have "subseq (served sid ls @ (service sid l @ line_of view w' sid)) (served sid ls @ (line_of view w sid @ arrival sid l))"
    using line_step [OF step.hyps(2) turn_run_ok [OF step.hyps(1)]] by (simp add: list_emb_append_mono)
  also have "subseq \<dots> (arrived sid ls @ arrival sid l)"
    using step.IH by (simp add: list_emb_append_mono flip: append_assoc)
  finally show ?case by (simp add: served_def arrived_def)
qed

end

section \<open>Every turn comes and ends\<close>

text \<open>Steps a task takes by itself, without new tasks, timeouts or cancellations.\<close>

fun is_progress :: "label \<Rightarrow> bool" where
  "is_progress (Count _ _) = True" | "is_progress (Arrive _ _) = True" | "is_progress (Serve _ _) = True"
| "is_progress (Uncount _ _) = True" | "is_progress (Mark _ _) = True" | "is_progress (Finish _ _) = True"
| "is_progress (Clear _ _) = True" | "is_progress (Drop _ _) = True" | "is_progress (Leave _ _) = True"
| "is_progress _ = False"

definition progress :: "'s sem_ops \<Rightarrow> 's world \<Rightarrow> 's world \<Rightarrow> bool" where
  "progress ops w w' \<longleftrightarrow> (\<exists>l. is_progress l \<and> turn_step ops w l w')"

fun steps_left :: "phase \<Rightarrow> nat" where
  "steps_left Entered = 8" | "steps_left Counted = 7" | "steps_left Waiting = 6" | "steps_left Permitted = 5"
| "steps_left Acquired = 4" | "steps_left Holding = 3" | "steps_left Clearing = 2" | "steps_left Cleared = 1"
| "steps_left Abandoned = 1"

definition work :: "'s world \<Rightarrow> nat" where
  "work w = (\<Sum>t \<in> dom (w_tasks w). steps_left (snd (the (w_tasks w t))))"

lemma work_move:
  assumes "finite (dom m)" and "m t = Some (sid, p)"
  shows "(\<Sum>u \<in> dom (m(t \<mapsto> (sid, q))). steps_left (snd (the ((m(t \<mapsto> (sid, q))) u)))) + steps_left p =
    (\<Sum>u \<in> dom m. steps_left (snd (the (m u)))) + steps_left q"
    and "(\<Sum>u \<in> dom (m(t := None)). steps_left (snd (the ((m(t := None)) u)))) + steps_left p =
    (\<Sum>u \<in> dom m. steps_left (snd (the (m u))))"
proof -
  have t: "t \<in> dom m" using assms(2) by blast
  have rest: "(\<Sum>u \<in> dom m - {t}. steps_left (snd (the ((m(t := x)) u)))) =
      (\<Sum>u \<in> dom m - {t}. steps_left (snd (the (m u))))" for x
    by (rule sum.cong) auto
  have whole: "(\<Sum>u \<in> dom m. steps_left (snd (the (m u)))) =
      steps_left p + (\<Sum>u \<in> dom m - {t}. steps_left (snd (the (m u))))"
    using sum.remove [OF assms(1) t, of "\<lambda>u. steps_left (snd (the (m u)))"] assms(2) by simp
  have "insert t (dom m) = dom m" using t by blast
  then show "(\<Sum>u \<in> dom (m(t \<mapsto> (sid, q))). steps_left (snd (the ((m(t \<mapsto> (sid, q))) u)))) + steps_left p =
    (\<Sum>u \<in> dom m. steps_left (snd (the (m u)))) + steps_left q"
    using sum.remove [OF assms(1) t, of "\<lambda>u. steps_left (snd (the ((m(t \<mapsto> (sid, q))) u)))"] rest [of "Some (sid, q)"] whole
    by simp
  show "(\<Sum>u \<in> dom (m(t := None)). steps_left (snd (the ((m(t := None)) u)))) + steps_left p =
    (\<Sum>u \<in> dom m. steps_left (snd (the (m u))))"
    using rest [of None] whole by simp
qed

lemma progress_work:
  assumes "turn_step ops w l w'" and "is_progress l" and "finite (dom (w_tasks w))"
  shows "work w' < work w"
  using assms(1)
proof (cases rule: turn_step.cases)
  case (count t sid)
  then show ?thesis using work_move(1) [OF assms(3) count(3), of Counted] by (simp add: work_def)
next
  case (arrive t sid)
  then show ?thesis using work_move(1) [OF assms(3) arrive(3), of Waiting] by (simp add: work_def)
next
  case (serve t sid g s)
  then show ?thesis using work_move(1) [OF assms(3) serve(3), of Permitted] by (simp add: work_def)
next
  case (uncount t sid)
  then show ?thesis using work_move(1) [OF assms(3) uncount(3), of Acquired] by (simp add: work_def)
next
  case (mark t sid)
  then show ?thesis using work_move(1) [OF assms(3) mark(3), of Holding] by (simp add: work_def)
next
  case (finish t sid)
  then show ?thesis using work_move(1) [OF assms(3) finish(3), of Clearing] by (simp add: work_def)
next
  case (clear t sid)
  then show ?thesis using work_move(1) [OF assms(3) clear(3), of Cleared] by (simp add: work_def)
next
  case (drop t sid)
  then show ?thesis using work_move(2) [OF assms(3) drop(3)] by (simp add: work_def)
next
  case (leave t sid)
  then show ?thesis using work_move(2) [OF assms(3) leave(3)] by (simp add: work_def)
qed (use assms(2) in simp_all)

lemma run_finite: "turn_run ops ls w \<Longrightarrow> finite (dom (w_tasks w))"
proof (induction rule: turn_run.induct)
  case (step ls w l w')
  from step.hyps(2) have "\<exists>t. dom (w_tasks w') \<subseteq> insert t (dom (w_tasks w))"
    by (cases rule: turn_step.cases) (auto split: if_splits)
  then show ?case using step.IH finite_subset by blast
qed (simp add: start_world_def)

context fair_semaphore
begin

lemma task_progress:
  assumes "w_tasks w t = Some (sid, p)" and "p \<noteq> Waiting"
  shows "\<exists>w'. progress ops w w'"
  using assms unfolding progress_def
  by (cases p) (blast intro: is_progress.simps(1-9) [THEN iffD2, OF TrueI] turn_step.intros)+

lemma progress_possible:
  assumes ok: "turns_ok view w" and t: "w_tasks w t = Some (sid, p)"
  shows "\<exists>w'. progress ops w w'"
proof (cases "p = Waiting")
  case False
  with t show ?thesis by (rule task_progress)
next
  case True
  show ?thesis
  proof (rule task_gate [OF ok t])
    fix g
    assume g: "tr_gates (w_tracker w) sid = Some g"
      "turn_ok view (Some g) (sid \<in> tr_currently_configuring (w_tracker w)) (tasks_in w sid)"
      "t \<in> tasks_in w sid p"
    note inv = turn_okD [OF g(2)]
    show ?thesis
    proof (cases "l_granted (view (g_turn g))")
      case (Cons u us)
      then have "u \<in> tasks_in w sid Waiting" using inv(4) by auto
      moreover have "sem_poll ops u (g_turn g) \<noteq> None" using Cons poll_None [of u "g_turn g"] by simp
      ultimately obtain s where s: "sem_poll ops u (g_turn g) = Some s" "w_tasks w u = Some (sid, Waiting)"
        by (auto simp: tasks_of_def)
      from turn_step.serve [OF s(2) g(1) s(1)] show ?thesis
        unfolding progress_def using is_progress.simps(3) by blast
    next
      case Nil
      with True g(3) inv(4) have "l_queue (view (g_turn g)) \<noteq> []" by auto
      with inv(5) Nil inv(2) have "permits_held (tasks_in w sid) = 1" by auto
      then have "\<exists>q. q \<noteq> Waiting \<and> tasks_in w sid q \<noteq> {}"
        by (rule contrapos_pp) (metis permits_held_def card.empty add_0 phase.distinct zero_neq_one)
      then obtain q u where "q \<noteq> Waiting" "w_tasks w u = Some (sid, q)" by (auto simp: tasks_of_def)
      then show ?thesis by (intro task_progress)
    qed
  qed
qed

lemma progress_run:
  assumes "(progress ops ^^ k) w w'" and "turn_run ops ls w"
  shows "\<exists>ls'. turn_run ops ls' w'" "k + work w' \<le> work w"
proof -
  have "(\<exists>ls'. turn_run ops ls' w') \<and> k + work w' \<le> work w"
    using assms(1)
  proof (induction k arbitrary: w')
    case 0
    with assms(2) show ?case by auto
  next
    case (Suc k)
    from Suc.prems obtain v where v: "(progress ops ^^ k) w v" "progress ops v w'" by auto
    from Suc.IH [OF v(1)] obtain ls' where ls': "turn_run ops ls' v" "k + work v \<le> work w" by blast
    from v(2) obtain l where l: "is_progress l" "turn_step ops v l w'" by (auto simp: progress_def)
    from turn_run.step [OF ls'(1) l(2)] progress_work [OF l(2,1) run_finite [OF ls'(1)]] ls'(2)
    show ?case by (auto simp del: turn_run.simps)
  qed
  then show "\<exists>ls'. turn_run ops ls' w'" "k + work w' \<le> work w" by auto
qed

lemma quiet_when_stuck:
  assumes "turn_run ops ls w" and "\<nexists>w'. progress ops w w'"
  shows "w_tasks w = Map.empty" "tr_currently_configuring (w_tracker w) = {}" "queued_count sid (w_tracker w) = 0"
proof -
  note ok = turn_run_ok [OF assms(1)]
  have "w_tasks w t = None" for t
    using assms(2) progress_possible [OF ok, of t] by (cases "w_tasks w t") auto
  then show tasks: "w_tasks w = Map.empty" by blast
  then show "tr_currently_configuring (w_tracker w) = {}" using flag_iff [OF ok] by auto
  show "queued_count sid (w_tracker w) = 0" using queued_count_eq [OF ok, of sid] tasks by simp
qed

end

section \<open>Bookkeeping in a run\<close>

fun errors_of :: "label \<Rightarrow> error_record list" where
  "errors_of (Book now oper) = recorded now oper"
| "errors_of _ = []"

definition same_books :: "'s tracker \<Rightarrow> 's tracker \<Rightarrow> bool" where
  "same_books tr tr' \<longleftrightarrow> tr_recent_errors tr' = tr_recent_errors tr \<and> tr_switch_status tr' = tr_switch_status tr"

lemma same_books [simp]:
  "same_books tr tr" "same_books tr (on_gate f sid tr)" "same_books tr (open_gate ops sid tr)"
  "same_books tr (set_currently_configuring sid tr)" "same_books tr (clear_currently_configuring sid tr)"
  "same_books tr (queue_pending_reload sid tr)" "same_books tr (snd (take_pending_reload sid tr))"
  by (simp_all add: same_books_def on_gate_def open_gate_def set_currently_configuring_def
      clear_currently_configuring_def queue_pending_reload_def take_pending_reload_def split: option.splits)

lemma same_books_try: "same_books tr (snd (try_acquire_configuring ops sid tr))"
proof -
  have trans: "same_books a b \<Longrightarrow> same_books b c \<Longrightarrow> same_books a c" for a b c :: "'a tracker"
    by (simp add: same_books_def)
  have "same_books tr (set_currently_configuring sid (on_gate f sid (open_gate ops sid tr)))" for f
    by (meson trans same_books)
  then show ?thesis
    by (simp add: try_acquire_configuring_def Let_def split: option.splits)
qed

lemma step_books:
  assumes "turn_step ops w l w'"
  shows "(same_books (w_tracker w) (w_tracker w') \<and> errors_of l = []) \<or>
    (\<exists>now oper. l = Book now oper \<and> w_tracker w' = book now oper (w_tracker w))"
  using assms
proof (cases rule: turn_step.cases)
  case (acquire t sid tr)
  then show ?thesis using same_books_try [of "w_tracker w" ops sid] by simp
next
  case (refuse sid tr)
  then show ?thesis using same_books_try [of "w_tracker w" ops sid] by simp
qed simp_all

lemma run_books:
  assumes "turn_run ops ls w"
  shows "book_ok (w_tracker w) \<and> tr_recent_errors (w_tracker w) = newest (concat (map errors_of ls))"
  using assms
proof (induction rule: turn_run.induct)
  case (start now)
  show ?case by (simp add: start_world_def new_tracker_def book_ok_def newest_def)
next
  case (step ls w l w')
  from step_books [OF step.hyps(2)] show ?case
  proof
    assume "same_books (w_tracker w) (w_tracker w') \<and> errors_of l = []"
    then have same: "tr_recent_errors (w_tracker w') = tr_recent_errors (w_tracker w)"
      "tr_switch_status (w_tracker w') = tr_switch_status (w_tracker w)" "concat (map errors_of (ls @ [l])) = concat (map errors_of ls)"
      by (simp_all add: same_books_def)
    from step.IH show ?thesis unfolding book_ok_def same .
  next
    assume "\<exists>now oper. l = Book now oper \<and> w_tracker w' = book now oper (w_tracker w)"
    then obtain now oper where l: "l = Book now oper" "w_tracker w' = book now oper (w_tracker w)" by blast
    from step.IH book_book_ok [of "w_tracker w" now oper]
      book_errors [of "w_tracker w" "concat (map errors_of ls)" now oper]
    show ?thesis by (simp add: l)
  qed
qed

section \<open>Properties\<close>

text \<open>A run in which one task has the switch and another waits behind it.\<close>

definition example_labels :: "label list" where
  "example_labels = [Acquire ''sw1'' 0, Enter ''sw1'' 1, Count ''sw1'' 1, Arrive ''sw1'' 1]"

lemma example_run:
  obtains w where "turn_run fifo_ops example_labels w" "w_tasks w = [0 \<mapsto> (''sw1'', Holding), 1 \<mapsto> (''sw1'', Waiting)]"
    "tr_currently_configuring (w_tracker w) = {''sw1''}"
proof -
  let ?free = "\<lparr>l_free = 0, l_queue = [], l_granted = []\<rparr> :: line"
  let ?gate = "\<lparr>g_turn = ?free, g_waiting = 0\<rparr> :: line switch_gate"
  let ?tr = "(new_tracker 0 :: line tracker)\<lparr>tr_currently_configuring := {''sw1''}, tr_gates := [''sw1'' \<mapsto> ?gate]\<rparr>"
  let ?w1 = "\<lparr>w_tracker = ?tr, w_tasks = [0 \<mapsto> (''sw1'', Holding)]\<rparr>"
  have "try_acquire_configuring fifo_ops ''sw1'' (new_tracker 0) = (True, ?tr)"
    by (simp add: try_acquire_configuring_def new_tracker_def open_gate_def new_gate_def fifo_ops_def
        set_currently_configuring_def on_gate_def Let_def)
  then have "turn_step fifo_ops (start_world 0) (Acquire ''sw1'' 0) ?w1"
    using turn_step.acquire [of "start_world 0" 0 fifo_ops "''sw1''" ?tr] by (simp add: start_world_def)
  from turn_run.step [OF turn_run.start this] have r1: "turn_run fifo_ops [Acquire ''sw1'' 0] ?w1" by simp
  let ?w2 = "move 1 ''sw1'' Entered (upd_tracker (open_gate fifo_ops ''sw1'') ?w1)"
  let ?w3 = "move 1 ''sw1'' Counted (upd_tracker (on_gate waiting_token_new ''sw1'') ?w2)"
  let ?w4 = "move 1 ''sw1'' Waiting (upd_tracker (set_turn (sem_wait fifo_ops 1) ''sw1'') ?w3)"
  have "turn_step fifo_ops ?w1 (Enter ''sw1'' 1) ?w2" by (rule turn_step.enter) simp
  from turn_run.step [OF r1 this] have r2: "turn_run fifo_ops [Acquire ''sw1'' 0, Enter ''sw1'' 1] ?w2" by simp
  have "turn_step fifo_ops ?w2 (Count ''sw1'' 1) ?w3" by (rule turn_step.count) simp
  from turn_run.step [OF r2 this]
  have r3: "turn_run fifo_ops [Acquire ''sw1'' 0, Enter ''sw1'' 1, Count ''sw1'' 1] ?w3" by simp
  have "turn_step fifo_ops ?w3 (Arrive ''sw1'' 1) ?w4" by (rule turn_step.arrive) simp
  from turn_run.step [OF r3 this] have "turn_run fifo_ops example_labels ?w4" by (simp add: example_labels_def)
  then show thesis by (rule that) (simp_all add: fun_eq_iff)
qed



text \<open>C24: Turns on a switch are first come, first served: the order in which queued tasks got their turn is the order in
  which they joined the line, less those that gave up; no later caller overtakes an earlier one.\<close>

theorem first_come_first_served:
  assumes "fair_semaphore ops view" and "turn_run ops ls w"
  shows "subseq (served sid ls) (arrived sid ls)"
proof -
  have "subseq (served sid ls) (served sid ls @ line_of view w sid)" by (rule list_emb_prefix) simp
  then show ?thesis using fair_semaphore.run_line [OF assms, of sid] by (rule subseq_order.order_trans)
qed

theorem first_come_first_served_witness:
  "arrived ''sw1'' example_labels = [1] \<and> subseq (served ''sw1'' example_labels) [1]"
  by (rule example_run, drule first_come_first_served [OF fifo.fair_semaphore_axioms, of _ _ "''sw1''"])
    (simp add: arrived_def example_labels_def)

text \<open>C25: No queued task is forgotten and nothing deadlocks: from every reachable state, when no new tasks come, the
  tasks run to the end within a bounded number of steps, and wherever they cannot go on every task has had its turn,
  no switch is marked busy and every queue is empty.\<close>

theorem turns_run_out:
  assumes "fair_semaphore ops view" and "turn_run ops ls w" and "(progress ops ^^ k) w w'"
  shows "k \<le> work w \<and> ((\<exists>w''. progress ops w' w'') \<or>
    w_tasks w' = Map.empty \<and> tr_currently_configuring (w_tracker w') = {} \<and> queued_count sid (w_tracker w') = 0)"
proof -
  obtain ls' where "turn_run ops ls' w'" using fair_semaphore.progress_run(1) [OF assms(1,3,2)] by blast
  then show ?thesis
    using fair_semaphore.quiet_when_stuck [OF assms(1)] fair_semaphore.progress_run(2) [OF assms(1,3,2)] by fastforce
qed

theorem turns_run_out_witness:
  "\<exists>w w'. turn_run fifo_ops example_labels w \<and> (progress fifo_ops ^^ 1) w w' \<and> 1 \<le> work w"
proof -
  obtain w where w: "turn_run fifo_ops example_labels w"
    "w_tasks w = [0 \<mapsto> (''sw1'', Holding), 1 \<mapsto> (''sw1'', Waiting)]" by (rule example_run)
  have "turn_step fifo_ops w (Finish ''sw1'' 0) (move 0 ''sw1'' Clearing w)"
    by (rule turn_step.finish) (simp add: w(2))
  then have p: "(progress fifo_ops ^^ 1) w (move 0 ''sw1'' Clearing w)"
    using is_progress.simps(6) unfolding relpowp_1 progress_def by blast
  from turns_run_out [OF fifo.fair_semaphore_axioms w(1) p] w(1) p show ?thesis by blast
qed

text \<open>C28: The error history holds exactly the newest 50 of the errors recorded so far, in order; and for every switch the
  number of applies is the number of successes plus the number of failures.\<close>

theorem error_history_newest:
  assumes "turn_run ops ls w"
  shows "tr_recent_errors (w_tracker w) = newest (concat (map errors_of ls)) \<and>
    length (tr_recent_errors (w_tracker w)) \<le> 50 \<and>
    (\<forall>st \<in> ran (tr_switch_status (w_tracker w)). ss_apply_count st = ss_success_count st + ss_failure_count st)"
  using run_books [OF assms] by (auto simp: book_ok_def max_errors_def status_ok_def ran_def)

theorem error_history_newest_witness:
  "\<exists>w. turn_run fifo_ops [Book 7 (RecordError ''ConfigReload'' ''bad'' None ''reload'')] w \<and>
     length (tr_recent_errors (w_tracker w)) = 1"
proof -
  let ?oper = "RecordError ''ConfigReload'' ''bad'' None ''reload''"
  have "turn_run fifo_ops [] (start_world 0)" by (rule turn_run.start)
  from turn_run.step [OF this turn_step.book, of 7 ?oper]
  obtain w where w: "turn_run fifo_ops [Book 7 ?oper] w" by auto
  from w error_history_newest [OF w] show ?thesis by (auto simp: newest_def max_errors_def)
qed

end
