(* ===== verification/Watcher.thy ===== *)
theory Watcher
  imports Turns
begin

text \<open>
  \<^verbatim>\<open>watcher/mod.rs\<close>: after a change of the configuration files the watcher applies the new configuration to one
  switch after the other. Its loop is one task; it is composed here with all other tasks of the service, which take
  and give back turns as in theory \<open>Turns\<close>. What an apply to the switch itself returns is undetermined.
\<close>

section \<open>The watcher's loop\<close>

text \<open>Where the loop is: waiting for a change, at the remaining switches, about to queue a
  reload for a busy switch, applying with the guard of task \<open>t\<close>, about to take a pending reload, applying again,
  and giving the guard back in three steps.\<close>

datatype watcher_pc =
    Idle
  | Next "string list"
  | Queueing string "string list"
  | Applying string nat "string list"
  | Taking string nat "string list"
  | Reapplying string nat "string list"
  | Releasing string nat "string list"

record 's service =
  sv_world :: "'s world"
  sv_pc :: watcher_pc

definition start_service :: "nat \<Rightarrow> 's service" where
  "start_service now = \<lparr>sv_world = start_world now, sv_pc = Idle\<rparr>"

text \<open>The bookkeeping after an apply: \<open>Inr\<close> the warnings of a successful one, \<open>Inl\<close> the error.\<close>

definition record_result :: "nat \<Rightarrow> string \<Rightarrow> string + string list \<Rightarrow> 's tracker \<Rightarrow> 's tracker" where
  "record_result now sid result tr =
     (case result of
        Inr warnings \<Rightarrow> record_apply_success now sid (record_warnings sid warnings tr)
      | Inl e \<Rightarrow> record_apply_failure now sid e tr)"

text \<open>The task whose guard the watcher has.\<close>

fun own_guard :: "watcher_pc \<Rightarrow> nat option" where
  "own_guard (Applying _ t _) = Some t"
| "own_guard (Taking _ t _) = Some t"
| "own_guard (Reapplying _ t _) = Some t"
| "own_guard (Releasing _ t _) = Some t"
| "own_guard _ = None"

text \<open>The other tasks: all steps but those on the pending reloads, which no other code makes, and on the
  watcher's own guard.\<close>

fun foreign :: "nat option \<Rightarrow> label \<Rightarrow> bool" where
  "foreign own (QueueReload _) = False"
| "foreign own (TakeReload _) = False"
| "foreign own (Finish _ t) = (own \<noteq> Some t)"
| "foreign own (Clear _ t) = (own \<noteq> Some t)"
| "foreign own (Drop _ t) = (own \<noteq> Some t)"
| "foreign own _ = True"

inductive service_step :: "'s sem_ops \<Rightarrow> 's service \<Rightarrow> 's service \<Rightarrow> bool" for ops where
  other: "turn_step ops (sv_world v) l w' \<Longrightarrow> foreign (own_guard (sv_pc v)) l \<Longrightarrow>
     service_step ops v (v\<lparr>sv_world := w'\<rparr>)"
| changed: "sv_pc v = Idle \<Longrightarrow> service_step ops v (v\<lparr>sv_pc := Next sids\<rparr>)"
| through: "sv_pc v = Next [] \<Longrightarrow> service_step ops v (v\<lparr>sv_pc := Idle\<rparr>)"
| next_free: "sv_pc v = Next (sid # sids) \<Longrightarrow> turn_step ops (sv_world v) (Acquire sid t) w' \<Longrightarrow>
     service_step ops v (v\<lparr>sv_world := w', sv_pc := Applying sid t sids\<rparr>)"
| next_busy: "sv_pc v = Next (sid # sids) \<Longrightarrow> turn_step ops (sv_world v) (Refuse sid) w' \<Longrightarrow>
     service_step ops v (v\<lparr>sv_world := w', sv_pc := Queueing sid sids\<rparr>)"
| queue: "sv_pc v = Queueing sid sids \<Longrightarrow> turn_step ops (sv_world v) (QueueReload sid) w' \<Longrightarrow>
     service_step ops v (v\<lparr>sv_world := w', sv_pc := Next sids\<rparr>)"
| applied: "sv_pc v = Applying sid t sids \<Longrightarrow>
     service_step ops v (v\<lparr>sv_world := upd_tracker (record_result now sid result) (sv_world v),
       sv_pc := Taking sid t sids\<rparr>)"
| take: "sv_pc v = Taking sid t sids \<Longrightarrow> turn_step ops (sv_world v) (TakeReload sid) w' \<Longrightarrow>
     service_step ops v (v\<lparr>sv_world := w',
       sv_pc := if fst (take_pending_reload sid (w_tracker (sv_world v)))
                then Reapplying sid t sids else Releasing sid t sids\<rparr>)"
| reapplied: "sv_pc v = Reapplying sid t sids \<Longrightarrow>
     service_step ops v (v\<lparr>sv_world := upd_tracker (record_result now sid result) (sv_world v),
       sv_pc := Releasing sid t sids\<rparr>)"
| release: "sv_pc v = Releasing sid t sids \<Longrightarrow> turn_step ops (sv_world v) l w' \<Longrightarrow>
     l = Finish sid t \<or> l = Clear sid t \<Longrightarrow> service_step ops v (v\<lparr>sv_world := w'\<rparr>)"
| released: "sv_pc v = Releasing sid t sids \<Longrightarrow> turn_step ops (sv_world v) (Drop sid t) w' \<Longrightarrow>
     service_step ops v (v\<lparr>sv_world := w', sv_pc := Next sids\<rparr>)"

text \<open>Reachable states.\<close>

inductive service_run :: "'s sem_ops \<Rightarrow> 's service \<Rightarrow> bool" for ops where
  start: "service_run ops (start_service now)"
| step: "service_run ops v \<Longrightarrow> service_step ops v v' \<Longrightarrow> service_run ops v'"

section \<open>Pending reloads\<close>

abbreviation pending :: "'s service \<Rightarrow> string set" where
  "pending v \<equiv> tr_pending_config_reload (w_tracker (sv_world v))"

text \<open>The switch the watcher works on.\<close>

fun working_on :: "watcher_pc \<Rightarrow> string option" where
  "working_on (Applying sid _ _) = Some sid"
| "working_on (Taking sid _ _) = Some sid"
| "working_on (Reapplying sid _ _) = Some sid"
| "working_on (Releasing sid _ _) = Some sid"
| "working_on _ = None"

lemma pending_parts [simp]:
  "tr_pending_config_reload (on_gate f sid tr) = tr_pending_config_reload tr"
  "tr_pending_config_reload (open_gate ops' sid tr) = tr_pending_config_reload tr"
  "tr_pending_config_reload (set_currently_configuring sid tr) = tr_pending_config_reload tr"
  "tr_pending_config_reload (clear_currently_configuring sid tr) = tr_pending_config_reload tr"
  by (simp_all add: on_gate_def open_gate_def set_currently_configuring_def clear_currently_configuring_def
      split: option.splits)

lemma pending_try: "tr_pending_config_reload (snd (try_acquire_configuring ops sid tr)) = tr_pending_config_reload tr"
  by (simp add: try_acquire_configuring_def Let_def split: option.splits)

lemma pending_turn:
  assumes "turn_step ops w l w'"
  shows "tr_pending_config_reload (w_tracker w') =
    (case l of QueueReload sid \<Rightarrow> insert sid (tr_pending_config_reload (w_tracker w))
     | TakeReload sid \<Rightarrow> tr_pending_config_reload (w_tracker w) - {sid}
     | _ \<Rightarrow> tr_pending_config_reload (w_tracker w))"
  using assms
proof (cases rule: turn_step.cases)
  case (acquire t sid tr)
  then show ?thesis using pending_try [of ops sid "w_tracker w"] by simp
next
  case (refuse sid tr)
  then show ?thesis using pending_try [of ops sid "w_tracker w"] by simp
next
  case (book now oper)
  then show ?thesis using book_same_turns [of "w_tracker w" now oper] by (simp add: same_turns_def)
qed (simp_all add: queue_pending_reload_def take_pending_reload_def)

lemma try_refused: "sid \<in> tr_pending_config_reload tr \<Longrightarrow> try_acquire_configuring ops sid tr = (False, tr)"
  by (simp add: try_acquire_configuring_def)

inductive_cases acquireE: "turn_step ops w (Acquire sid t) w'"

lemma acquire_not_pending: "turn_step ops w (Acquire sid t) w' \<Longrightarrow> sid \<notin> tr_pending_config_reload (w_tracker w)"
  by (erule acquireE) (auto dest: try_refused [where ops = ops])

lemma record_result_pending [simp]:
  "tr_pending_config_reload (record_result now sid r tr) = tr_pending_config_reload tr"
  by (simp add: record_result_def record_apply_success_def record_apply_failure_def record_warnings_def
      on_status_def split: sum.splits)

text \<open>A switch the watcher works on has no pending reload: only the watcher queues one, and it does not while it
  works on a switch.\<close>

definition no_own_pending :: "'s service \<Rightarrow> bool" where
  "no_own_pending v \<longleftrightarrow> (\<forall>sid. working_on (sv_pc v) = Some sid \<longrightarrow> sid \<notin> pending v)"

lemma foreign_pending:
  assumes "turn_step ops w l w'" and "foreign own l"
  shows "tr_pending_config_reload (w_tracker w') = tr_pending_config_reload (w_tracker w)"
  using pending_turn [OF assms(1)] assms(2) by (cases l) simp_all

lemma service_step_no_own_pending:
  assumes "service_step ops v v'" and "no_own_pending v"
  shows "no_own_pending v'"
  using assms(1)
proof (cases rule: service_step.cases)
  case (other l w')
  then show ?thesis using assms(2) foreign_pending [OF other(2,3)] by (simp add: no_own_pending_def)
next
  case (next_free sid sids t w')
  then show ?thesis
    using acquire_not_pending [OF next_free(3)] pending_turn [OF next_free(3)] by (simp add: no_own_pending_def)
next
  case (take sid t sids w')
  then show ?thesis
    using assms(2) pending_turn [OF take(3)] by (simp add: no_own_pending_def)
next
  case (release sid t sids l w')
  then show ?thesis
    using release(4) assms(2) pending_turn [OF release(3)]
    by (elim disjE) (simp_all add: no_own_pending_def)
qed (use assms(2) in \<open>simp_all add: no_own_pending_def\<close>)

lemma run_no_own_pending: "service_run ops v \<Longrightarrow> no_own_pending v"
proof (induction rule: service_run.induct)
  case (start now)
  show ?case by (simp add: no_own_pending_def start_service_def)
next
  case (step v v')
  from step.hyps(2) step.IH show ?case by (rule service_step_no_own_pending)
qed

lemma service_step_pending:
  assumes "service_step ops v v'" and "no_own_pending v"
  shows "pending v \<subseteq> pending v'"
  using assms(1)
proof (cases rule: service_step.cases)
  case (other l w')
  then show ?thesis using foreign_pending [OF other(2,3)] by simp
next
  case (next_free sid sids t w')
  then show ?thesis using pending_turn [OF next_free(3)] by simp
next
  case (next_busy sid sids w')
  then show ?thesis using pending_turn [OF next_busy(3)] by simp
next
  case (queue sid sids w')
  then show ?thesis using pending_turn [OF queue(3)] by (simp add: subset_insertI)
next
  case (take sid t sids w')
  then show ?thesis using pending_turn [OF take(3)] assms(2) by (simp add: no_own_pending_def)
next
  case (release sid t sids l w')
  then show ?thesis using release(4) pending_turn [OF release(3)] by (elim disjE) simp_all
next
  case (released sid t sids w')
  then show ?thesis using pending_turn [OF released(3)] by simp
qed simp_all

lemma service_steps:
  assumes "(service_step ops)\<^sup>*\<^sup>* v v'" and "service_run ops v"
  shows "service_run ops v' \<and> pending v \<subseteq> pending v'"
  using assms
proof (induction rule: rtranclp_induct)
  case (step u u')
  from step.IH [OF step.prems] show ?case
    using service_step_pending [OF step.hyps(2)] run_no_own_pending service_run.step [OF _ step.hyps(2)] by blast
qed simp

text \<open>C26: A reload that was queued for a busy switch is never carried out: from then on, whatever the service does, it stays
  pending, the watcher does not work on the switch, and every attempt to take the switch without
  queueing (the watcher's and the background refresher's) is refused.\<close>

theorem pending_reload_is_stuck:
  assumes "service_run ops v" and "sid \<in> pending v" and "(service_step ops)\<^sup>*\<^sup>* v v'"
  shows "sid \<in> pending v' \<and> working_on (sv_pc v') \<noteq> Some sid \<and>
    \<not> fst (try_acquire_configuring ops sid (w_tracker (sv_world v')))"
proof -
  from service_steps [OF assms(3,1)] assms(2) have "sid \<in> pending v'" "service_run ops v'" by auto
  moreover from this run_no_own_pending [OF this(2)] have "working_on (sv_pc v') \<noteq> Some sid"
    by (auto simp: no_own_pending_def)
  ultimately show ?thesis by (simp add: try_refused)
qed

text \<open>An API request has the switch when the configuration file changes.\<close>

theorem pending_reload_is_stuck_witness:
  "\<exists>v. service_run fifo_ops v \<and> ''sw1'' \<in> pending v \<and>
     \<not> fst (try_acquire_configuring fifo_ops ''sw1'' (w_tracker (sv_world v)))"
proof -
  let ?free = "\<lparr>l_free = 0, l_queue = [], l_granted = []\<rparr> :: line"
  let ?tr = "(new_tracker 0 :: line tracker)\<lparr>tr_currently_configuring := {''sw1''},
      tr_gates := [''sw1'' \<mapsto> \<lparr>g_turn = ?free, g_waiting = 0\<rparr>]\<rparr>"
  let ?w1 = "\<lparr>w_tracker = ?tr, w_tasks = [0 \<mapsto> (''sw1'', Holding)]\<rparr>"
  have "try_acquire_configuring fifo_ops ''sw1'' (new_tracker 0) = (True, ?tr)"
    by (simp add: try_acquire_configuring_def new_tracker_def open_gate_def new_gate_def fifo_ops_def
        set_currently_configuring_def on_gate_def Let_def)
  then have s1: "turn_step fifo_ops (start_world 0) (Acquire ''sw1'' 0) ?w1"
    using turn_step.acquire [of "start_world 0" 0 fifo_ops "''sw1''" ?tr] by (simp add: start_world_def)
  let ?v1 = "\<lparr>sv_world = ?w1, sv_pc = Idle\<rparr>"
  have "service_step fifo_ops (start_service 0) ?v1"
    using service_step.other [of fifo_ops "start_service 0" "Acquire ''sw1'' 0" ?w1] s1
    by (simp add: start_service_def)
  from service_run.step [OF service_run.start this] have r1: "service_run fifo_ops ?v1" .
  have "service_step fifo_ops ?v1 (?v1\<lparr>sv_pc := Next [''sw1'']\<rparr>)" by (rule service_step.changed) simp
  from service_run.step [OF r1 this] have r2: "service_run fifo_ops (?v1\<lparr>sv_pc := Next [''sw1'']\<rparr>)" .
  have "turn_step fifo_ops ?w1 (Refuse ''sw1'') (?w1\<lparr>w_tracker := ?tr\<rparr>)"
    by (rule turn_step.refuse) (simp add: try_acquire_configuring_def)
  then have "service_step fifo_ops (?v1\<lparr>sv_pc := Next [''sw1'']\<rparr>) (?v1\<lparr>sv_pc := Queueing ''sw1'' []\<rparr>)"
    using service_step.next_busy [of "?v1\<lparr>sv_pc := Next [''sw1'']\<rparr>" "''sw1''" "[]" fifo_ops ?w1] by simp
  from service_run.step [OF r2 this] have r3: "service_run fifo_ops (?v1\<lparr>sv_pc := Queueing ''sw1'' []\<rparr>)" .
  let ?w2 = "upd_tracker (queue_pending_reload ''sw1'') ?w1"
  have "turn_step fifo_ops ?w1 (QueueReload ''sw1'') ?w2" by (rule turn_step.queue_reload)
  then have "service_step fifo_ops (?v1\<lparr>sv_pc := Queueing ''sw1'' []\<rparr>) \<lparr>sv_world = ?w2, sv_pc = Next []\<rparr>"
    using service_step.queue [of "?v1\<lparr>sv_pc := Queueing ''sw1'' []\<rparr>" "''sw1''" "[]" fifo_ops ?w2] by simp
  from service_run.step [OF r3 this] have r4: "service_run fifo_ops \<lparr>sv_world = ?w2, sv_pc = Next []\<rparr>" .
  have "''sw1'' \<in> pending \<lparr>sv_world = ?w2, sv_pc = Next []\<rparr>" by (simp add: queue_pending_reload_def)
  from r4 this pending_reload_is_stuck [OF r4 this rtranclp.rtrancl_refl] show ?thesis by blast
qed

end
