(* ===== verification/Session_Pool.thy ===== *)
theory Session_Pool
  imports Switch_Types
begin

text \<open>
  \<^verbatim>\<open>session_pool.rs\<close>: one logged-in vendor session per switch is kept open between operations. A vendor object is
  an opaque value here; how opening, resuming and closing it turn out are arguments. Every
  operation takes the pool's lock once, so it is one step; the closing that follows it is
  reported as the list of closed vendors.
\<close>

section \<open>The pool and its operations\<close>

record 'v slot =
  sl_vendor :: 'v
  sl_fingerprint :: u64
  sl_token :: u64

record 'v pool_state =
  ps_slots :: "string \<rightharpoonup> 'v slot"
  ps_next_token :: u64

record 'v session =
  se_vendor :: 'v
  se_switch_id :: string
  se_fingerprint :: u64

definition empty_pool :: "'v pool_state" where
  "empty_pool = \<lparr>ps_slots = Map.empty, ps_next_token = 0\<rparr>"

text \<open>What is hashed; the hash function of the standard library is a parameter.\<close>

type_synonym connection_identity =
  "string \<times> switch_model option \<times> string option \<times> credentials option \<times> u64 \<times> u32 \<times> bool"

definition connection_identity :: "switch_config \<Rightarrow> connection_identity" where
  "connection_identity c =
     (s_id c, s_model c, s_management_ip c, s_credentials c, ssh_timeout_secs (s_settings c),
      max_retries (s_settings c), enforce_port_config (s_settings c))"

definition fingerprint :: "(connection_identity \<Rightarrow> u64) \<Rightarrow> switch_config \<Rightarrow> u64" where
  "fingerprint hash c = hash (connection_identity c)"

definition new_session :: "switch_config \<Rightarrow> 'v \<Rightarrow> u64 \<Rightarrow> 'v session" where
  "new_session c v fp = \<lparr>se_vendor = v, se_switch_id = s_id c, se_fingerprint = fp\<rparr>"

text \<open>\<open>slots.remove(id)\<close>.\<close>

definition take_slot :: "string \<Rightarrow> 'v pool_state \<Rightarrow> 'v slot option \<times> 'v pool_state" where
  "take_slot sid st = (ps_slots st sid, st\<lparr>ps_slots := (ps_slots st)(sid := None)\<rparr>)"

text \<open>Result, closed vendors, new state.\<close>

definition checkout ::
  "(connection_identity \<Rightarrow> u64) \<Rightarrow> ('v \<Rightarrow> bool) \<Rightarrow> (switch_config \<Rightarrow> 'e + 'v) \<Rightarrow> switch_config \<Rightarrow> 'v pool_state \<Rightarrow>
     ('e + 'v session) \<times> 'v list \<times> 'v pool_state" where
  "checkout hash resume opener c st =
     (let fp = fingerprint hash c;
          (kept, st) = take_slot (s_id c) st;
          open_new = (\<lambda>closed. (case opener c of
                        Inl e \<Rightarrow> (Inl e, closed, st)
                      | Inr v \<Rightarrow> (Inr (new_session c v fp), closed, st)))
      in case kept of
           None \<Rightarrow> open_new []
         | Some slot \<Rightarrow>
             if sl_fingerprint slot = fp \<and> resume (sl_vendor slot)
             then (Inr (new_session c (sl_vendor slot) fp), [], st)
             else open_new [sl_vendor slot])"

definition close_idle :: "string \<Rightarrow> 'v pool_state \<Rightarrow> 'v list \<times> 'v pool_state" where
  "close_idle sid st =
     (case take_slot sid st of (kept, st) \<Rightarrow> (case kept of None \<Rightarrow> [] | Some slot \<Rightarrow> [sl_vendor slot], st))"

definition close_if_token :: "string \<Rightarrow> u64 \<Rightarrow> 'v pool_state \<Rightarrow> 'v list \<times> 'v pool_state" where
  "close_if_token sid token st =
     (case ps_slots st sid of
        Some slot \<Rightarrow>
          if sl_token slot = token then ([sl_vendor slot], snd (take_slot sid st)) else ([], st)
      | None \<Rightarrow> ([], st))"

text \<open>Closed vendors, the token an idle timer is armed with, new state.\<close>

definition release_session ::
  "('v \<Rightarrow> bool) \<Rightarrow> 'v session \<Rightarrow> 'v pool_state \<Rightarrow> 'v list \<times> u64 option \<times> 'v pool_state" where
  "release_session supports_reuse s st =
     (if \<not> supports_reuse (se_vendor s) then ([se_vendor s], None, st)
      else
        let token = ps_next_token st;
            replaced = ps_slots st (se_switch_id s)
        in (case replaced of None \<Rightarrow> [] | Some old \<Rightarrow> [sl_vendor old],
            Some token,
            st\<lparr>ps_next_token := token + 1,
               ps_slots := (ps_slots st)(se_switch_id s \<mapsto>
                 \<lparr>sl_vendor = se_vendor s, sl_fingerprint = se_fingerprint s, sl_token = token\<rparr>)\<rparr>))"

definition discard_session :: "'v session \<Rightarrow> 'v list" where
  "discard_session s = [se_vendor s]"

section \<open>Runs\<close>

text \<open>The pool with its users: the sessions checked out, the vendors closed so far, and for every kept release, in order,
  the switch and the vendor (an idle timer is armed by each).\<close>

record 'v pool_world =
  pw_state :: "'v pool_state"
  pw_out :: "'v session list"
  pw_closed :: "'v list"
  pw_releases :: "(string \<times> 'v) list"

definition start_pool :: "'v pool_world" where
  "start_pool = \<lparr>pw_state = empty_pool, pw_out = [], pw_closed = [], pw_releases = []\<rparr>"

text \<open>The vendors that exist in a world.\<close>

definition pool_vendors :: "'v pool_world \<Rightarrow> 'v set" where
  "pool_vendors w = sl_vendor ` ran (ps_slots (pw_state w)) \<union> se_vendor ` set (pw_out w) \<union> set (pw_closed w)"

text \<open>\<open>origin v\<close> is the configuration the vendor object was built from; an opener returns a new object, built from
  the configuration it is given.\<close>

inductive pool_step ::
  "(connection_identity \<Rightarrow> u64) \<Rightarrow> ('v \<Rightarrow> switch_config) \<Rightarrow> 'v pool_world \<Rightarrow> 'v pool_world \<Rightarrow> bool"
  for hash :: "connection_identity \<Rightarrow> u64" and origin :: "'v \<Rightarrow> switch_config" where
  checked_out: "(\<And>v. opener c = Inr v \<Longrightarrow> v \<notin> pool_vendors w \<and> origin v = c) \<Longrightarrow>
     checkout hash resume opener c (pw_state w) = (r, closed, st) \<Longrightarrow>
     pool_step hash origin w
       (w\<lparr>pw_state := st, pw_closed := closed @ pw_closed w,
          pw_out := (case r of Inl (_ :: string) \<Rightarrow> pw_out w | Inr s \<Rightarrow> s # pw_out w)\<rparr>)"
| released: "s \<in> set (pw_out w) \<Longrightarrow>
     release_session supports_reuse s (pw_state w) = (closed, armed, st) \<Longrightarrow>
     pool_step hash origin w
       (w\<lparr>pw_state := st, pw_closed := closed @ pw_closed w, pw_out := remove1 s (pw_out w),
          pw_releases := (case armed of None \<Rightarrow> pw_releases w
             | Some _ \<Rightarrow> pw_releases w @ [(se_switch_id s, se_vendor s)])\<rparr>)"
| discarded: "s \<in> set (pw_out w) \<Longrightarrow>
     pool_step hash origin w (w\<lparr>pw_closed := discard_session s @ pw_closed w, pw_out := remove1 s (pw_out w)\<rparr>)"
| closed_idle: "close_idle sid (pw_state w) = (closed, st) \<Longrightarrow>
     pool_step hash origin w (w\<lparr>pw_state := st, pw_closed := closed @ pw_closed w\<rparr>)"
| timer: "i < length (pw_releases w) \<Longrightarrow> close_if_token (fst (pw_releases w ! i)) (of_nat i) (pw_state w) = (closed, st) \<Longrightarrow>
     pool_step hash origin w (w\<lparr>pw_state := st, pw_closed := closed @ pw_closed w\<rparr>)"

inductive pool_run ::
  "(connection_identity \<Rightarrow> u64) \<Rightarrow> ('v \<Rightarrow> switch_config) \<Rightarrow> 'v pool_world \<Rightarrow> bool" for hash origin where
  start: "pool_run hash origin start_pool"
| step: "pool_run hash origin w \<Longrightarrow> pool_step hash origin w w' \<Longrightarrow> pool_run hash origin w'"

section \<open>Invariants\<close>

definition matches :: "(connection_identity \<Rightarrow> u64) \<Rightarrow> ('v \<Rightarrow> switch_config) \<Rightarrow> string \<Rightarrow> u64 \<Rightarrow> 'v \<Rightarrow> bool" where
  "matches hash origin sid fp v \<longleftrightarrow> s_id (origin v) = sid \<and> fingerprint hash (origin v) = fp"

text \<open>Kept and checked-out sessions were opened with the settings they are filed under.\<close>

definition settings_ok :: "(connection_identity \<Rightarrow> u64) \<Rightarrow> ('v \<Rightarrow> switch_config) \<Rightarrow> 'v pool_world \<Rightarrow> bool" where
  "settings_ok hash origin w \<longleftrightarrow>
     (\<forall>sid slot. ps_slots (pw_state w) sid = Some slot \<longrightarrow> matches hash origin sid (sl_fingerprint slot) (sl_vendor slot)) \<and>
     (\<forall>s \<in> set (pw_out w). matches hash origin (se_switch_id s) (se_fingerprint s) (se_vendor s))"

text \<open>Every vendor object is in one place: kept, checked out, or closed (once).\<close>

definition places_ok :: "'v pool_world \<Rightarrow> bool" where
  "places_ok w \<longleftrightarrow> distinct (map se_vendor (pw_out w) @ pw_closed w) \<and>
     (\<forall>sid slot. ps_slots (pw_state w) sid = Some slot \<longrightarrow>
        sl_vendor slot \<notin> set (map se_vendor (pw_out w) @ pw_closed w) \<and>
        (\<forall>sid' slot'. ps_slots (pw_state w) sid' = Some slot' \<longrightarrow> sl_vendor slot' = sl_vendor slot \<longrightarrow> sid' = sid))"

text \<open>A kept session is the one of the release that was given its token.\<close>

definition tokens_ok :: "'v pool_world \<Rightarrow> bool" where
  "tokens_ok w \<longleftrightarrow> ps_next_token (pw_state w) = of_nat (length (pw_releases w)) \<and>
     (\<forall>sid slot. ps_slots (pw_state w) sid = Some slot \<longrightarrow>
        (\<exists>i < length (pw_releases w). sl_token slot = of_nat i \<and> pw_releases w ! i = (sid, sl_vendor slot)))"

lemmas pool_op_defs = checkout_def close_idle_def close_if_token_def release_session_def discard_session_def
  take_slot_def new_session_def Let_def

lemma checkout_cases:
  assumes "checkout hash resume opener c st = (r, closed, st')"
  obtains
    (reused) slot where "ps_slots st (s_id c) = Some slot" "sl_fingerprint slot = fingerprint hash c"
      "r = Inr (new_session c (sl_vendor slot) (fingerprint hash c))" "closed = []" "st' = snd (take_slot (s_id c) st)"
  | (opened) v where "opener c = Inr v" "r = Inr (new_session c v (fingerprint hash c))"
      "closed = (case ps_slots st (s_id c) of None \<Rightarrow> [] | Some slot \<Rightarrow> [sl_vendor slot])" "st' = snd (take_slot (s_id c) st)"
  | (failed) e where "opener c = Inl e" "r = Inl e"
      "closed = (case ps_slots st (s_id c) of None \<Rightarrow> [] | Some slot \<Rightarrow> [sl_vendor slot])" "st' = snd (take_slot (s_id c) st)"
proof (cases "ps_slots st (s_id c)")
  case None
  with assms that show thesis
    by (cases "opener c") (auto simp: checkout_def take_slot_def Let_def)
next
  case (Some slot)
  show thesis
  proof (cases "sl_fingerprint slot = fingerprint hash c \<and> resume (sl_vendor slot)")
    case True
    with assms Some that(1) show thesis by (auto simp: checkout_def take_slot_def Let_def)
  next
    case False
    with assms Some that(2,3) show thesis
      by (cases "opener c") (auto simp: checkout_def take_slot_def Let_def)
  qed
qed

text \<open>Closing only takes slots away.\<close>

lemma close_shrinks:
  "close_idle sid st = (closed, st') \<Longrightarrow> ps_next_token st' = ps_next_token st \<and> ps_slots st' \<subseteq>\<^sub>m ps_slots st"
  "close_if_token sid token st = (closed, st') \<Longrightarrow> ps_next_token st' = ps_next_token st \<and> ps_slots st' \<subseteq>\<^sub>m ps_slots st"
  by (auto simp: close_idle_def close_if_token_def take_slot_def map_le_def split: option.splits if_splits)

lemma settings_ok_shrink:
  assumes "settings_ok hash origin w" and "ps_slots (pw_state w') \<subseteq>\<^sub>m ps_slots (pw_state w)"
    and "set (pw_out w') \<subseteq> set (pw_out w)"
  shows "settings_ok hash origin w'"
  unfolding settings_ok_def
proof (intro conjI allI impI ballI)
  fix sid slot assume "ps_slots (pw_state w') sid = Some slot"
  then have "ps_slots (pw_state w) sid = Some slot" using assms(2) unfolding map_le_def by (metis domI)
  then show "matches hash origin sid (sl_fingerprint slot) (sl_vendor slot)"
    using assms(1) unfolding settings_ok_def by blast
qed (use assms in \<open>auto simp: settings_ok_def\<close>)

lemma tokens_ok_shrink:
  assumes "tokens_ok w" and "ps_slots (pw_state w') \<subseteq>\<^sub>m ps_slots (pw_state w)"
    and "ps_next_token (pw_state w') = ps_next_token (pw_state w)" "pw_releases w' = pw_releases w"
  shows "tokens_ok w'"
  unfolding tokens_ok_def
proof (intro conjI allI impI)
  fix sid slot assume "ps_slots (pw_state w') sid = Some slot"
  then have "ps_slots (pw_state w) sid = Some slot" using assms(2) unfolding map_le_def by (metis domI)
  then show "\<exists>i < length (pw_releases w'). sl_token slot = of_nat i \<and> pw_releases w' ! i = (sid, sl_vendor slot)"
    using assms(1) unfolding tokens_ok_def assms(4) by blast
qed (use assms in \<open>simp add: tokens_ok_def\<close>)

lemma step_settings_ok:
  assumes "pool_step hash origin w w'" and "settings_ok hash origin w"
  shows "settings_ok hash origin w'"
  using assms(1)
proof (cases rule: pool_step.cases)
  case (checked_out opener c resume r closed st)
  from checked_out(3) show ?thesis
  proof (cases rule: checkout_cases)
    case (reused slot)
    then have "matches hash origin (s_id c) (fingerprint hash c) (sl_vendor slot)"
      using assms(2) unfolding settings_ok_def by metis
    then show ?thesis using assms(2) reused checked_out(1)
      by (simp add: settings_ok_def take_slot_def new_session_def)
  next
    case (opened v)
    then have "matches hash origin (s_id c) (fingerprint hash c) v"
      using checked_out(2) by (simp add: matches_def)
    then show ?thesis using assms(2) opened checked_out(1)
      by (simp add: settings_ok_def take_slot_def new_session_def)
  next
    case (failed e)
    then show ?thesis using assms(2) checked_out(1) by (simp add: settings_ok_def take_slot_def)
  qed
next
  case (released s supports_reuse closed armed st)
  then show ?thesis using assms(2)
    by (auto simp: settings_ok_def release_session_def Let_def split: if_splits dest: notin_set_remove1)
next
  case (discarded s)
  then show ?thesis using assms(2) by (auto simp: settings_ok_def dest: notin_set_remove1)
next
  case (closed_idle sid closed st)
  then show ?thesis using close_shrinks(1) [OF closed_idle(2)] by (intro settings_ok_shrink [OF assms(2)]) simp_all
next
  case (timer i closed st)
  then show ?thesis using close_shrinks(2) [OF timer(3)] by (intro settings_ok_shrink [OF assms(2)]) simp_all
qed

lemma run_settings_ok: "pool_run hash origin w \<Longrightarrow> settings_ok hash origin w"
proof (induction rule: pool_run.induct)
  case start
  show ?case by (simp add: settings_ok_def start_pool_def empty_pool_def)
next
  case (step w w')
  from step.hyps(2) step.IH show ?case by (rule step_settings_ok)
qed

lemma step_tokens_ok:
  assumes "pool_step hash origin w w'" and "tokens_ok w"
  shows "tokens_ok w'"
  using assms(1)
proof (cases rule: pool_step.cases)
  case (checked_out opener c resume r closed st)
  from checked_out(3) show ?thesis
    by (cases rule: checkout_cases) (use assms(2) checked_out(1) in \<open>simp_all add: tokens_ok_def take_slot_def\<close>)
next
  case (released s supports_reuse closed armed st)
  show ?thesis
  proof (cases "supports_reuse (se_vendor s)")
    case True
    with released have new: "pw_releases w' = pw_releases w @ [(se_switch_id s, se_vendor s)]"
      "ps_next_token (pw_state w') = ps_next_token (pw_state w) + 1"
      "ps_slots (pw_state w') = (ps_slots (pw_state w))(se_switch_id s \<mapsto>
         \<lparr>sl_vendor = se_vendor s, sl_fingerprint = se_fingerprint s, sl_token = ps_next_token (pw_state w)\<rparr>)"
      by (auto simp: release_session_def Let_def)
    show ?thesis
      unfolding tokens_ok_def new
    proof (intro conjI allI impI)
      fix sid slot
      assume slot: "((ps_slots (pw_state w))(se_switch_id s \<mapsto> \<lparr>sl_vendor = se_vendor s,
          sl_fingerprint = se_fingerprint s, sl_token = ps_next_token (pw_state w)\<rparr>)) sid = Some slot"
      show "\<exists>i < length (pw_releases w @ [(se_switch_id s, se_vendor s)]). sl_token slot = of_nat i \<and>
          (pw_releases w @ [(se_switch_id s, se_vendor s)]) ! i = (sid, sl_vendor slot)"
      proof (cases "sid = se_switch_id s")
        case True
        with slot assms(2) show ?thesis
          by (intro exI [of _ "length (pw_releases w)"]) (auto simp: tokens_ok_def)
      next
        case False
        with slot have "ps_slots (pw_state w) sid = Some slot" by simp
        with assms(2) obtain i where "i < length (pw_releases w)" "sl_token slot = of_nat i"
          "pw_releases w ! i = (sid, sl_vendor slot)" unfolding tokens_ok_def by blast
        then show ?thesis by (intro exI [of _ i]) (simp add: nth_append)
      qed
    qed (use assms(2) in \<open>simp add: tokens_ok_def\<close>)
  next
    case False
    with released assms(2) show ?thesis by (auto simp: tokens_ok_def release_session_def)
  qed
next
  case (discarded s)
  then show ?thesis using assms(2) by (simp add: tokens_ok_def)
next
  case (closed_idle sid closed st)
  then show ?thesis using close_shrinks(1) [OF closed_idle(2)] by (intro tokens_ok_shrink [OF assms(2)]) simp_all
next
  case (timer i closed st)
  then show ?thesis using close_shrinks(2) [OF timer(3)] by (intro tokens_ok_shrink [OF assms(2)]) simp_all
qed

lemma run_tokens_ok: "pool_run hash origin w \<Longrightarrow> tokens_ok w"
proof (induction rule: pool_run.induct)
  case start
  show ?case by (simp add: tokens_ok_def start_pool_def empty_pool_def)
next
  case (step w w')
  from step.hyps(2) step.IH show ?case by (rule step_tokens_ok)
qed

text \<open>For the places, one view of the world: the vendors checked out or closed, and the slots.\<close>

lemma places_okI:
  assumes "distinct xs" "\<And>sid slot. m sid = Some slot \<Longrightarrow> sl_vendor slot \<notin> set xs"
    and "\<And>sid slot sid' slot'. m sid = Some slot \<Longrightarrow> m sid' = Some slot' \<Longrightarrow> sl_vendor slot' = sl_vendor slot \<Longrightarrow> sid' = sid"
    and "m = ps_slots (pw_state w)" "mset xs = mset (map se_vendor (pw_out w) @ pw_closed w)"
  shows "places_ok w"
proof -
  have "distinct (map se_vendor (pw_out w) @ pw_closed w)" "set (map se_vendor (pw_out w) @ pw_closed w) = set xs"
    using assms(1,5) mset_eq_imp_distinct_iff mset_eq_setD by metis+
  then show ?thesis using assms(2,3) unfolding places_ok_def assms(4) by metis
qed

lemma places_okD:
  assumes "places_ok w"
  shows "distinct (map se_vendor (pw_out w) @ pw_closed w)"
    and "ps_slots (pw_state w) sid = Some slot \<Longrightarrow> sl_vendor slot \<notin> set (map se_vendor (pw_out w) @ pw_closed w)"
    and "ps_slots (pw_state w) sid = Some slot \<Longrightarrow> ps_slots (pw_state w) sid' = Some slot' \<Longrightarrow>
      sl_vendor slot' = sl_vendor slot \<Longrightarrow> sid' = sid"
  using assms unfolding places_ok_def by metis+

text \<open>Taking a vendor out of its slot and putting it elsewhere keeps it in one place; so does opening a new one.\<close>

lemma places_ok_take:
  assumes "places_ok w" and "ps_slots (pw_state w) sid = Some slot"
    and "ps_slots (pw_state w') = (ps_slots (pw_state w))(sid := None)"
    and "mset (map se_vendor (pw_out w') @ pw_closed w') =
      add_mset (sl_vendor slot) (mset (map se_vendor (pw_out w) @ pw_closed w))"
  shows "places_ok w'"
proof (rule places_okI)
  let ?xs = "sl_vendor slot # map se_vendor (pw_out w) @ pw_closed w"
  note ok = places_okD [OF assms(1)]
  show "distinct ?xs" using ok(1) ok(2) [OF assms(2)] by simp
  show "mset ?xs = mset (map se_vendor (pw_out w') @ pw_closed w')" using assms(4) by simp
  fix sid1 slot1 assume s1: "((ps_slots (pw_state w))(sid := None)) sid1 = Some slot1"
  then have "sid1 \<noteq> sid" "ps_slots (pw_state w) sid1 = Some slot1" by (auto split: if_splits)
  then show "sl_vendor slot1 \<notin> set ?xs"
    using ok(2) [of sid1 slot1] ok(3) [of sid1 slot1 sid slot] assms(2) by auto
  fix sid2 slot2 assume "((ps_slots (pw_state w))(sid := None)) sid2 = Some slot2" "sl_vendor slot2 = sl_vendor slot1"
  then show "sid2 = sid1" using s1 ok(3) [of sid1 slot1 sid2 slot2] by (auto split: if_splits)
qed (simp only: assms(3))

lemma places_ok_open:
  assumes "places_ok w" and "v \<notin> pool_vendors w"
    and "ps_slots (pw_state w') = ps_slots (pw_state w)"
    and "mset (map se_vendor (pw_out w') @ pw_closed w') = add_mset v (mset (map se_vendor (pw_out w) @ pw_closed w))"
  shows "places_ok w'"
proof (rule places_okI)
  let ?xs = "v # map se_vendor (pw_out w) @ pw_closed w"
  note ok = places_okD [OF assms(1)]
  show "distinct ?xs" using ok(1) assms(2) by (auto simp: pool_vendors_def)
  show "mset ?xs = mset (map se_vendor (pw_out w') @ pw_closed w')" using assms(4) by simp
  fix sid1 slot1 assume s1: "ps_slots (pw_state w) sid1 = Some slot1"
  then show "sl_vendor slot1 \<notin> set ?xs" using ok(2) [OF s1] assms(2) by (auto simp: pool_vendors_def ran_def)
  fix sid2 slot2 assume "ps_slots (pw_state w) sid2 = Some slot2" "sl_vendor slot2 = sl_vendor slot1"
  then show "sid2 = sid1" using ok(3) [OF s1] by blast
qed (simp add: assms(3))

lemma places_ok_same:
  assumes "places_ok w" and "ps_slots (pw_state w') = ps_slots (pw_state w)"
    and "mset (map se_vendor (pw_out w') @ pw_closed w') = mset (map se_vendor (pw_out w) @ pw_closed w)"
  shows "places_ok w'"
  by (rule places_okI [OF places_okD(1) [OF assms(1)], where m = "ps_slots (pw_state w)"])
    (use assms(2,3) places_okD(2,3) [OF assms(1)] in \<open>simp_all\<close>, (blast dest: places_okD(3) [OF assms(1)])?)

lemma places_ok_put:
  assumes "places_ok w" and "s \<in> set (pw_out w)" and "ps_slots (pw_state w) (se_switch_id s) = None"
    and "ps_slots (pw_state w') = (ps_slots (pw_state w))(se_switch_id s \<mapsto> slot)" "sl_vendor slot = se_vendor s"
    and "pw_out w' = remove1 s (pw_out w)" "pw_closed w' = pw_closed w"
  shows "places_ok w'"
proof (rule places_okI)
  let ?xs = "map se_vendor (remove1 s (pw_out w)) @ pw_closed w"
  note ok = places_okD [OF assms(1)]
  have split: "mset (map se_vendor (pw_out w) @ pw_closed w) = mset (se_vendor s # ?xs)"
  proof -
    have "mset (pw_out w) = add_mset s (mset (remove1 s (pw_out w)))" using assms(2) by simp
    then show ?thesis by (simp del: mset_remove1)
  qed
  then have d: "distinct (se_vendor s # ?xs)" and set_xs: "set (map se_vendor (pw_out w) @ pw_closed w) = set (se_vendor s # ?xs)"
    using ok(1) mset_eq_imp_distinct_iff mset_eq_setD by metis+
  then show "distinct ?xs" by simp
  show "mset ?xs = mset (map se_vendor (pw_out w') @ pw_closed w')" by (simp add: assms(6,7))
  fix sid1 slot1 assume s1: "((ps_slots (pw_state w))(se_switch_id s \<mapsto> slot)) sid1 = Some slot1"
  show "sl_vendor slot1 \<notin> set ?xs"
  proof (cases "sid1 = se_switch_id s")
    case True
    with s1 d assms(5) show ?thesis by auto
  next
    case False
    with s1 ok(2) [of sid1 slot1] set_xs show ?thesis by auto
  qed
  fix sid2 slot2 assume "((ps_slots (pw_state w))(se_switch_id s \<mapsto> slot)) sid2 = Some slot2" "sl_vendor slot2 = sl_vendor slot1"
  then show "sid2 = sid1"
    using s1 ok(3) [of sid1 slot1 sid2 slot2] ok(2) [of sid1 slot1] ok(2) [of sid2 slot2] set_xs assms(5)
    by (auto split: if_splits)
qed (simp only: assms(4))

lemma places_ok_closed:
  assumes "places_ok w" and "ps_slots st = (ps_slots (pw_state w))(sid := None)"
    and "closed = (case ps_slots (pw_state w) sid of None \<Rightarrow> [] | Some slot \<Rightarrow> [sl_vendor slot])"
  shows "places_ok (w\<lparr>pw_state := st, pw_closed := closed @ pw_closed w\<rparr>)"
proof (cases "ps_slots (pw_state w) sid")
  case None
  then have "(ps_slots (pw_state w))(sid := None) = ps_slots (pw_state w)" by auto
  with None show ?thesis by (intro places_ok_same [OF assms(1)]) (simp_all add: assms(2,3))
next
  case (Some slot)
  then show ?thesis by (intro places_ok_take [OF assms(1) Some]) (simp_all add: assms(2,3))
qed

lemma pool_vendors_closed:
  assumes "ps_slots st = (ps_slots (pw_state w))(sid := None)"
    and "closed = (case ps_slots (pw_state w) sid of None \<Rightarrow> [] | Some slot \<Rightarrow> [sl_vendor slot])"
  shows "pool_vendors (w\<lparr>pw_state := st, pw_closed := closed @ pw_closed w\<rparr>) \<subseteq> pool_vendors w"
  using assms by (auto simp: pool_vendors_def ran_def split: option.splits if_splits)

lemma step_places_ok:
  assumes "pool_step hash origin w w'" and ok: "places_ok w"
  shows "places_ok w'"
  using assms(1)
proof (cases rule: pool_step.cases)
  case (checked_out opener c resume r closed st)
  have slots: "ps_slots (snd (take_slot (s_id c) (pw_state w))) = (ps_slots (pw_state w))(s_id c := None)"
    by (simp add: take_slot_def)
  from checked_out(3) show ?thesis
  proof (cases rule: checkout_cases)
    case (reused slot)
    then show ?thesis
      by (intro places_ok_take [OF ok reused(1)]) (simp_all add: checked_out(1) slots new_session_def)
  next
    case (opened v)
    let ?u = "w\<lparr>pw_state := st, pw_closed := closed @ pw_closed w\<rparr>"
    have "places_ok ?u" by (rule places_ok_closed [OF ok]) (simp_all add: opened slots)
    moreover have "v \<notin> pool_vendors ?u"
      using pool_vendors_closed [of st w "s_id c" closed] checked_out(2) [OF opened(1)] opened slots by auto
    ultimately show ?thesis
      by (rule places_ok_open) (simp_all add: checked_out(1) opened new_session_def)
  next
    case (failed e)
    have "places_ok (w\<lparr>pw_state := st, pw_closed := closed @ pw_closed w\<rparr>)"
      by (rule places_ok_closed [OF ok]) (simp_all add: failed slots)
    then show ?thesis by (simp add: checked_out(1) failed)
  qed
next
  case (released s supports_reuse closed armed st)
  have given: "mset (map se_vendor (pw_out w)) = add_mset (se_vendor s) (mset (map se_vendor (remove1 s (pw_out w))))"
  proof -
    have "mset (pw_out w) = add_mset s (mset (remove1 s (pw_out w)))" using released(2) by simp
    then show ?thesis by (simp del: mset_remove1)
  qed
  show ?thesis
  proof (cases "supports_reuse (se_vendor s)")
    case False
    with released given show ?thesis
      by (intro places_ok_same [OF ok]) (auto simp: release_session_def)
  next
    case True
    let ?st = "snd (take_slot (se_switch_id s) (pw_state w))"
    let ?u = "w\<lparr>pw_state := ?st, pw_closed := closed @ pw_closed w\<rparr>"
    from True released have new: "closed = (case ps_slots (pw_state w) (se_switch_id s) of None \<Rightarrow> [] | Some old \<Rightarrow> [sl_vendor old])"
      "ps_slots (pw_state w') = (ps_slots (pw_state w))(se_switch_id s \<mapsto> \<lparr>sl_vendor = se_vendor s,
          sl_fingerprint = se_fingerprint s, sl_token = ps_next_token (pw_state w)\<rparr>)"
      "pw_out w' = remove1 s (pw_out w)" "pw_closed w' = closed @ pw_closed w"
      by (auto simp: release_session_def Let_def)
    have "places_ok ?u" by (rule places_ok_closed [OF ok]) (simp_all add: new take_slot_def)
    then show ?thesis
      by (rule places_ok_put [where s = s and slot = "\<lparr>sl_vendor = se_vendor s,
            sl_fingerprint = se_fingerprint s, sl_token = ps_next_token (pw_state w)\<rparr>"])
        (use released(2) new in \<open>simp_all add: take_slot_def\<close>)
  qed
next
  case (discarded s)
  have "mset (pw_out w) = add_mset s (mset (remove1 s (pw_out w)))" using discarded(2) by simp
  then have "mset (map se_vendor (pw_out w)) = add_mset (se_vendor s) (mset (map se_vendor (remove1 s (pw_out w))))"
    by (simp del: mset_remove1)
  then show ?thesis
    by (intro places_ok_same [OF ok]) (simp_all add: discarded(1) discard_session_def)
next
  case (closed_idle sid closed st)
  show ?thesis unfolding closed_idle(1)
    by (rule places_ok_closed [OF ok, where sid = sid])
      (use closed_idle(2) in \<open>auto simp: close_idle_def take_slot_def\<close>)
next
  case (timer i closed st)
  let ?sid = "fst (pw_releases w ! i)"
  show ?thesis
  proof (cases "\<exists>slot. ps_slots (pw_state w) ?sid = Some slot \<and> sl_token slot = of_nat i")
    case True
    with timer(3) show ?thesis unfolding timer(1)
      by (intro places_ok_closed [OF ok, where sid = ?sid]) (auto simp: close_if_token_def take_slot_def)
  next
    case False
    with timer(3) have "closed = []" "st = pw_state w"
      by (auto simp: close_if_token_def split: option.splits if_splits)
    then show ?thesis using ok by (simp add: timer(1))
  qed
qed

lemma run_places_ok: "pool_run hash origin w \<Longrightarrow> places_ok w"
proof (induction rule: pool_run.induct)
  case start
  show ?case by (simp add: places_ok_def start_pool_def empty_pool_def)
next
  case (step w w')
  from step.hyps(2) step.IH show ?case by (rule step_places_ok)
qed

section \<open>Properties\<close>

text \<open>C27: A session handed out is the caller's alone and fits the caller's settings: its vendor object was opened with the same
  fingerprint of settings for this very switch, it has not been closed, and it is neither kept in the pool
  nor handed out to anyone else.\<close>

theorem checkout_exclusive:
  fixes opener :: "switch_config \<Rightarrow> string + 'v"
  assumes "pool_run hash origin w" and "\<And>v. opener c = Inr v \<Longrightarrow> v \<notin> pool_vendors w \<and> origin v = c"
    and "checkout hash resume opener c (pw_state w) = (Inr s, closed, st)"
  shows "s_id (origin (se_vendor s)) = s_id c \<and> fingerprint hash (origin (se_vendor s)) = fingerprint hash c \<and>
    se_vendor s \<notin> set closed \<union> set (pw_closed w) \<and> se_vendor s \<notin> se_vendor ` set (pw_out w) \<and>
    se_vendor s \<notin> sl_vendor ` ran (ps_slots st)"
proof -
  let ?w' = "w\<lparr>pw_state := st, pw_closed := closed @ pw_closed w, pw_out := s # pw_out w\<rparr>"
  have "pool_step hash origin w (w\<lparr>pw_state := st, pw_closed := closed @ pw_closed w,
      pw_out := (case Inr s of Inl (_ :: string) \<Rightarrow> pw_out w | Inr s \<Rightarrow> s # pw_out w)\<rparr>)"
    by (rule pool_step.checked_out [OF _ assms(3)]) (rule assms(2))
  then have "pool_step hash origin w ?w'" by simp
  with assms(1) have run: "pool_run hash origin ?w'" by (rule pool_run.step)
  from run_settings_ok [OF run] have fits: "matches hash origin (se_switch_id s) (se_fingerprint s) (se_vendor s)"
    by (simp add: settings_ok_def)
  from assms(3) have own: "se_switch_id s = s_id c" "se_fingerprint s = fingerprint hash c"
    by (cases rule: checkout_cases; simp add: new_session_def)+
  note ok = places_okD [OF run_places_ok [OF run]]
  have "se_vendor s \<notin> sl_vendor ` ran (ps_slots st)" using ok(2) by (fastforce simp: ran_def)
  with ok(1) fits own show ?thesis by (auto simp: matches_def)
qed

text \<open>An idle timer closes only the session of the release that armed it: as long as fewer than 2^64 sessions were
  released, a session that was reused and released again since is not touched by the
  timer of the earlier release.\<close>

theorem idle_timer_own_session:
  assumes "pool_run hash origin w" and "length (pw_releases w) < 2 ^ 64"
    and "i < length (pw_releases w)" "pw_releases w ! i = (sid, v)"
    and "close_if_token sid (of_nat i) (pw_state w) = (closed, st)"
  shows "(closed = [v] \<and> st = snd (take_slot sid (pw_state w))) \<or> (closed = [] \<and> st = pw_state w)"
proof (cases "\<exists>slot. ps_slots (pw_state w) sid = Some slot \<and> sl_token slot = of_nat i")
  case True
  then obtain slot where slot: "ps_slots (pw_state w) sid = Some slot" "sl_token slot = of_nat i" by blast
  from run_tokens_ok [OF assms(1)] slot(1) obtain j where j: "j < length (pw_releases w)" "sl_token slot = of_nat j"
    "pw_releases w ! j = (sid, sl_vendor slot)" unfolding tokens_ok_def by blast
  have "(of_nat i :: u64) = of_nat j" using slot(2) j(2) by simp
  then have "unat (of_nat i :: u64) = unat (of_nat j :: u64)" by simp
  then have "i = j" using assms(2,3) j(1) by (simp add: unat_of_nat)
  with j(3) assms(4) have "sl_vendor slot = v" by simp
  with slot assms(5) show ?thesis by (simp add: close_if_token_def)
next
  case False
  with assms(5) show ?thesis by (auto simp: close_if_token_def split: option.splits if_splits)
qed

text \<open>A session is opened and released; its timer fires, once while it is kept and once after it was taken again.\<close>

definition example_opener :: "switch_config \<Rightarrow> string + string" where
  "example_opener c = Inr (s_id c)"

definition example_pool_config :: switch_config where
  "example_pool_config = \<lparr>s_id = ''sw1'', s_hostname = None, s_model = None, s_management_ip = None, s_credentials = None,
     s_vlans = [], s_ports = [], s_port_mirrors = [], s_snmp = None, s_management_vlan = None, s_validation = None,
     s_vendor_specific = Map.empty, s_settings = default_settings\<rparr>"

abbreviation "example_session \<equiv> new_session example_pool_config ''sw1'' 7"

theorem checkout_exclusive_witness:
  "\<exists>st. checkout (\<lambda>_. 7) (\<lambda>_. True) example_opener example_pool_config (pw_state start_pool) = (Inr example_session, [], st) \<and>
     ''sw1'' \<notin> sl_vendor ` ran (ps_slots st)"
proof -
  have opener: "v \<notin> pool_vendors start_pool \<and> example_pool_config = example_pool_config" for v :: string
    by (simp add: pool_vendors_def start_pool_def empty_pool_def)
  obtain st where c: "checkout (\<lambda>_. 7) (\<lambda>_. True) example_opener example_pool_config (pw_state start_pool) =
      (Inr example_session, [], st)"
    by (simp add: checkout_def take_slot_def start_pool_def empty_pool_def example_opener_def fingerprint_def
        example_pool_config_def Let_def)
  from c checkout_exclusive [OF pool_run.start opener c] show ?thesis by (auto simp: new_session_def)
qed

theorem idle_timer_own_session_witness:
  "\<exists>w. pool_run (\<lambda>_. 7) (\<lambda>_. example_pool_config) w \<and> pw_releases w = [(''sw1'', ''sw1'')] \<and>
     close_if_token ''sw1'' 0 (pw_state w) = ([''sw1''], snd (take_slot ''sw1'' (pw_state w)))"
proof -
  let ?hash = "\<lambda>_ :: connection_identity. 7 :: u64" and ?origin = "\<lambda>_ :: string. example_pool_config"
  have opener: "v \<notin> pool_vendors start_pool \<and> example_pool_config = example_pool_config" for v :: string
    by (simp add: pool_vendors_def start_pool_def empty_pool_def)
  have c: "checkout ?hash (\<lambda>_. True) example_opener example_pool_config (pw_state start_pool) =
      (Inr example_session, [], empty_pool)"
    by (simp add: checkout_def take_slot_def start_pool_def empty_pool_def example_opener_def fingerprint_def
        example_pool_config_def Let_def)
  let ?w1 = "start_pool\<lparr>pw_out := [example_session]\<rparr>"
  have "pool_step ?hash ?origin start_pool ?w1"
    using pool_step.checked_out [where hash = ?hash and origin = ?origin, OF opener c] by (simp add: start_pool_def)
  with pool_run.start have r1: "pool_run ?hash ?origin ?w1" by (rule pool_run.step)
  let ?st = "\<lparr>ps_slots = [''sw1'' \<mapsto> \<lparr>sl_vendor = ''sw1'', sl_fingerprint = 7, sl_token = 0\<rparr>], ps_next_token = 1\<rparr>"
  have "release_session (\<lambda>_. True) example_session (pw_state ?w1) = ([], Some 0, ?st)"
    by (simp add: release_session_def start_pool_def empty_pool_def new_session_def example_pool_config_def Let_def)
  from pool_step.released [OF _ this, where hash = ?hash and origin = ?origin]
  have "pool_step ?hash ?origin ?w1 (start_pool\<lparr>pw_state := ?st, pw_releases := [(''sw1'', ''sw1'')]\<rparr>)"
    by (simp add: start_pool_def new_session_def example_pool_config_def)
  with r1 have r2: "pool_run ?hash ?origin (start_pool\<lparr>pw_state := ?st, pw_releases := [(''sw1'', ''sw1'')]\<rparr>)"
    by (rule pool_run.step)
  have cl: "close_if_token ''sw1'' (of_nat 0) (pw_state (start_pool\<lparr>pw_state := ?st, pw_releases := [(''sw1'', ''sw1'')]\<rparr>)) =
      ([''sw1''], snd (take_slot ''sw1'' ?st))"
    by (simp add: close_if_token_def)
  from idle_timer_own_session [OF r2 _ _ _ cl, of "''sw1''"] r2 cl show ?thesis
    by (intro exI [of _ "start_pool\<lparr>pw_state := ?st, pw_releases := [(''sw1'', ''sw1'')]\<rparr>"]) simp
qed

end
