(* ===== verification/Rust_Text.thy ===== *)
theory Rust_Text
  imports Rust_Str
begin

text \<open>
  The operations of Rust's \<open>str\<close> that the readers of running configurations use: \<open>lines\<close>,
  \<open>split_whitespace\<close>, \<open>trim_matches\<close>, \<open>find\<close>, with the facts about lines that were put
  together from literals and numbers.
\<close>

named_theorems line_simps \<open>reading a generated line\<close>

section \<open>Lines\<close>

definition newline :: char where
  "newline = CHR 0x0A"

definition carriage_return :: char where
  "carriage_return = CHR 0x0D"

definition escape :: char where
  "escape = CHR 0x1B"

text \<open>The line ending \<open>\n\<close> or \<open>\r\n\<close> is removed; a last line without one is taken as it is.\<close>

definition chomp :: "string \<Rightarrow> string" where
  "chomp s = (if s \<noteq> [] \<and> last s = carriage_return then butlast s else s)"

definition lines :: "string \<Rightarrow> string list" where
  "lines s =
     (let ps = split_on newline s
      in map chomp (butlast ps) @ (if last ps = [] then [] else [last ps]))"

text \<open>The text of a list of lines, each ended by a newline.\<close>

definition unlines :: "string list \<Rightarrow> string" where
  "unlines ls = concat (map (\<lambda>l. l @ [newline]) ls)"

definition one_line :: "string \<Rightarrow> bool" where
  "one_line l \<longleftrightarrow> newline \<notin> set l \<and> carriage_return \<notin> set l"

lemma split_on_unlines:
  "(\<And>l. l \<in> set ls \<Longrightarrow> newline \<notin> set l) \<Longrightarrow> split_on newline (unlines ls) = ls @ [[]]"
proof (induction ls)
  case (Cons l ls)
  have "split_on newline (unlines (l # ls)) = split_on newline (l @ newline # unlines ls)"
    by (simp add: unlines_def)
  also have "\<dots> = split_on newline l @ split_on newline (unlines ls)"
    by (rule split_on_append_sep)
  also have "\<dots> = (l # ls) @ [[]]" using Cons by (simp add: split_on_no_sep)
  finally show ?case .
qed (simp add: unlines_def)

lemma chomp_one_line: "one_line l \<Longrightarrow> chomp l = l"
  by (metis chomp_def last_in_set one_line_def)

lemma lines_unlines:
  assumes "\<And>l. l \<in> set ls \<Longrightarrow> one_line l"
  shows "lines (unlines ls) = ls"
proof -
  have "split_on newline (unlines ls) = ls @ [[]]"
    using assms by (intro split_on_unlines) (auto simp: one_line_def)
  then show ?thesis
    using assms by (simp add: lines_def chomp_one_line map_idI)
qed

section \<open>Words\<close>

definition at_space :: "string \<Rightarrow> bool" where
  "at_space s \<longleftrightarrow> list_ex (\<lambda>p. starts_with p s) white_space"

fun take_word :: "string \<Rightarrow> string \<times> string" where
  "take_word [] = ([], [])"
| "take_word (c # cs) =
     (if at_space (c # cs) then ([], c # cs)
      else case take_word cs of (w, r) \<Rightarrow> (c # w, r))"

lemma take_word_append: "take_word s = (w, r) \<Longrightarrow> s = w @ r"
  by (induction s arbitrary: w r) (auto split: if_splits prod.splits)

lemma white_space_nonempty: "p \<in> set white_space \<Longrightarrow> p \<noteq> []"
  by (auto simp: white_space_def byte_str_def)

lemma at_space_no_pat: "at_space s \<longleftrightarrow> \<not> no_pat white_space s"
  using white_space_nonempty by (auto simp: at_space_def no_pat_def list_ex_iff)

function split_whitespace :: "string \<Rightarrow> string list" where
  "split_whitespace s =
     (let t = trim_start s in
      if t = [] then [] else fst (take_word t) # split_whitespace (snd (take_word t)))"
  by pat_completeness auto
termination
proof (relation "measure length")
  fix s t :: string
  assume t: "t = trim_start s" and ne: "t \<noteq> []"
  from t have "no_pat white_space t" by (simp add: trim_start_def strip_pats_no_pat)
  then have "\<not> at_space t" by (simp add: at_space_no_pat)
  obtain c cs where c: "t = c # cs" using ne by (cases t) auto
  obtain w r where w: "take_word cs = (w, r)" by fastforce
  have "length r \<le> length cs" using take_word_append [OF w] by simp
  with w c \<open>\<not> at_space t\<close> have "length (snd (take_word t)) < length t" by simp
  moreover have "length t \<le> length s"
    using strip_pats_suffix [of s white_space] t by (metis trim_start_def length_append le_add2)
  ultimately show "(snd (take_word t), s) \<in> measure length" by simp
qed simp

declare split_whitespace.simps [simp del]

text \<open>Words made of visible ASCII characters, joined by single spaces.\<close>

definition visible_word :: "string \<Rightarrow> bool" where
  "visible_word w \<longleftrightarrow> w \<noteq> [] \<and> list_all visible w"

lemma not_at_space_visible: "visible c \<Longrightarrow> \<not> at_space (c # s)"
  by (simp add: at_space_no_pat no_pat_visible white_space_invisible)

lemma at_space_space: "at_space (CHR '' '' # s)"
  by (simp add: at_space_def white_space_def byte_str_def starts_with_def char_of_eq_iff
      eq_char_of_iff)

lemma at_space_Nil: "\<not> at_space []"
  by (auto simp: at_space_def list_ex_iff starts_with_def dest: white_space_nonempty)

lemma take_word_visible:
  "list_all visible w \<Longrightarrow> r = [] \<or> at_space r \<Longrightarrow> take_word (w @ r) = (w, r)"
proof (induction w)
  case Nil
  then show ?case by (cases r) auto
next
  case (Cons c w)
  then show ?case by (simp add: not_at_space_visible)
qed

lemma trim_start_visible: "visible c \<Longrightarrow> trim_start (c # s) = c # s"
  unfolding trim_start_def by (intro strip_pats_id no_pat_visible) (auto dest: white_space_invisible)

lemma trim_start_space: "trim_start (CHR '' '' # s) = trim_start s"
proof -
  have "find (\<lambda>p. p \<noteq> [] \<and> starts_with p (CHR '' '' # s)) white_space = Some '' ''"
    by (simp add: white_space_def byte_str_def starts_with_def eq_commute [of "CHR '' ''"] char_of_eq_iff)
  then show ?thesis unfolding trim_start_def by (subst strip_pats.simps) simp
qed

lemma strip_pats_Nil [simp]: "strip_pats ps [] = []"
  by (rule strip_pats_id) (simp add: no_pat_def starts_with_def)

lemma trim_start_Nil [simp]: "trim_start [] = []"
  by (simp add: trim_start_def)

lemma split_whitespace_Nil [simp]: "split_whitespace [] = []"
  by (subst split_whitespace.simps) simp

lemma split_whitespace_space: "split_whitespace (CHR '' '' # s) = split_whitespace s"
  by (subst (1 2) split_whitespace.simps) (simp add: trim_start_space)

lemma split_whitespace_word:
  assumes "visible_word w" and "r = [] \<or> at_space r"
  shows "split_whitespace (w @ r) = w # split_whitespace r"
proof -
  obtain c cs where "w = c # cs" and "visible c"
    using assms(1) by (cases w) (auto simp: visible_word_def)
  then have "trim_start (w @ r) = w @ r" by (simp add: trim_start_visible)
  moreover have "take_word (w @ r) = (w, r)"
    using assms by (simp add: take_word_visible visible_word_def)
  ultimately show ?thesis
    using assms(1) by (subst split_whitespace.simps) (simp add: visible_word_def)
qed

lemma split_whitespace_words:
  assumes "\<And>w. w \<in> set ws \<Longrightarrow> visible_word w"
  shows "split_whitespace (join '' '' ws) = ws"
  using assms
proof (induction "'' ''" ws rule: join.induct)
  case (2 w)
  then show ?case using split_whitespace_word [of w "[]"] by simp
next
  case (3 v w ws)
  then have "split_whitespace (v @ CHR '' '' # join '' '' (w # ws)) =
      v # split_whitespace (CHR '' '' # join '' '' (w # ws))"
    by (intro split_whitespace_word) (simp_all add: at_space_space)
  with 3 show ?case by (simp add: split_whitespace_space)
qed simp

lemma split_whitespace_two:
  assumes "visible_word a" and "visible_word b"
  shows "split_whitespace (a @ CHR '' '' # b) = [a, b]"
  using split_whitespace_words [of "[a, b]"] assms by auto

section \<open>Trimming characters, searching\<close>

text \<open>\<open>trim_matches(c)\<close> for a character.\<close>

definition trim_matches :: "char \<Rightarrow> string \<Rightarrow> string" where
  "trim_matches c s = rev (dropWhile (\<lambda>x. x = c) (rev (dropWhile (\<lambda>x. x = c) s)))"

definition no_end :: "char \<Rightarrow> string \<Rightarrow> bool" where
  "no_end c s \<longleftrightarrow> (s = [] \<or> hd s \<noteq> c \<and> last s \<noteq> c)"

lemma dropWhile_no_hd: "s = [] \<or> hd s \<noteq> c \<Longrightarrow> dropWhile (\<lambda>x. x = c) s = s"
  by (cases s) auto

lemma trim_matches_id: "no_end c s \<Longrightarrow> trim_matches c s = s"
  by (auto simp: trim_matches_def no_end_def dropWhile_no_hd hd_rev)

lemma trim_matches_quoted:
  assumes "no_end c s"
  shows "trim_matches c (c # s @ [c]) = s"
proof (cases "s = []")
  case True
  then show ?thesis by (simp add: trim_matches_def)
next
  case False
  with assms have "dropWhile (\<lambda>x. x = c) (s @ [c]) = s @ [c]"
    by (intro dropWhile_no_hd) (auto simp: no_end_def)
  with False assms show ?thesis
    by (simp add: trim_matches_def no_end_def dropWhile_no_hd hd_rev)
qed

text \<open>\<open>str::find\<close>: where the pattern occurs first.\<close>

fun find_str :: "string \<Rightarrow> string \<Rightarrow> nat option" where
  "find_str p [] = (if p = [] then Some 0 else None)"
| "find_str p (x # xs) =
     (if starts_with p (x # xs) then Some 0 else map_option Suc (find_str p xs))"

lemma find_str_prefix: "find_str p (p @ s) = Some 0"
proof (cases "p @ s")
  case (Cons x xs)
  then have "starts_with p (x # xs)" by (metis starts_with_iff)
  with Cons show ?thesis by simp
qed simp

definition is_ascii_hexdigit :: "char \<Rightarrow> bool" where
  "is_ascii_hexdigit c \<longleftrightarrow>
     is_ascii_digit c \<or> (97 \<le> (of_char c :: nat) \<and> (of_char c :: nat) \<le> 102) \<or>
     (65 \<le> (of_char c :: nat) \<and> (of_char c :: nat) \<le> 70)"

lemma contains_str_subset: "contains_str p s \<Longrightarrow> set p \<subseteq> set s"
proof (induction p s rule: contains_str.induct)
  case (2 p x xs)
  have "set p \<subseteq> set (x # xs)" if "starts_with p (x # xs)"
    using that by (metis starts_with_iff set_append Un_upper1)
  with 2 show ?case by auto
qed simp

section \<open>Generated lines\<close>

text \<open>A text between double quotes.\<close>

definition dquote :: char where
  "dquote = CHR 0x22"

definition quoted :: "string \<Rightarrow> string" where
  "quoted s = dquote # s @ [dquote]"

lemma strip_prefix_append [line_simps]: "strip_prefix p (p @ s) = Some s"
  by (simp add: strip_prefix_Some)

lemma starts_with_append [line_simps]: "starts_with p (p @ s)"
  by (auto simp: starts_with_iff)

lemma visible_digit: "is_ascii_digit c \<Longrightarrow> visible c"
  by (simp add: is_ascii_digit_def visible_def)

lemma list_all_visible_show_nat [line_simps]: "list_all visible (show_nat n)"
  by (auto simp: list_all_iff intro: visible_digit show_nat_is_digit)

lemma visible_word_show_u16: "visible_word (show_u16 w)"
  by (simp add: visible_word_def show_u16_def list_all_visible_show_nat)

lemma last_show_u16_visible [line_simps]: "visible (last (show_u16 w))"
  by (metis last_in_set list_all_iff list_all_visible_show_nat show_nat_nonempty show_u16_def)

lemma hd_show_u16_visible [line_simps]: "visible (hd (show_u16 w))"
  by (metis hd_in_set list_all_iff list_all_visible_show_nat show_nat_nonempty show_u16_def)

lemma show_u16_nonempty [simp]: "show_u16 w \<noteq> []"
  by (simp add: show_u16_def)

lemma trim_visible_Cons:
  "visible c \<Longrightarrow> visible (last (c # s)) \<Longrightarrow> trim (c # s) = c # s"
  by (rule trim_visible) simp_all

lemma visible_word_trim: "visible_word w \<Longrightarrow> trim w = w"
  by (rule trim_visible) (auto simp: visible_word_def list_all_iff)

lemma trim_Nil [simp]: "trim [] = []"
  by (simp add: trim_def trim_end_def)

lemma visible_not_control: "visible c \<Longrightarrow> c \<noteq> escape" "visible c \<Longrightarrow> c \<noteq> newline"
    "visible c \<Longrightarrow> c \<noteq> carriage_return" "visible c \<Longrightarrow> c \<noteq> CHR '' ''"
  by (auto simp: visible_def escape_def newline_def carriage_return_def)

lemma escape_show_u16 [line_simps]: "escape \<notin> set (show_u16 w)"
  using list_all_visible_show_nat [of "unat w"]
  by (auto simp: show_u16_def list_all_iff dest: visible_not_control)

end
