(* ===== verification/Vendor.thy ===== *)
theory Vendor
  imports Diff Rust_Text
begin

text \<open>
  What the three vendor drivers share: the errors and checks of \<open>vendors/traits.rs\<close>, the session with
  a switch, and \<open>apply_configuration\<close>, which every driver writes out in the same words.

  A session hands lists of commands to the transport (\<open>ssh\<close>, serial), which is a parameter: \<open>cli\<close>
  says, for any state \<open>'d\<close> of the far side, what comes back and which state is left. The
  batches handed over are recorded in \<open>sent\<close>, which is the observable effect of a driver.
\<close>

section \<open>Errors, results\<close>

datatype vendor_error =
    SshError string
  | CommandError string
  | ValidationError string
  | UnsupportedFeature string
  | ParseError string

text \<open>Without the time stamp.\<close>

record config_result =
  res_switch :: string
  res_success :: bool
  res_message :: string
  res_commands :: "string list"

record command_preview =
  vlan_commands :: "string list"
  port_commands :: "string list"
  mirror_commands :: "string list"
  snmp_commands :: "string list"
  reset_commands :: "string list"
  other_commands :: "string list"

definition default_preview :: command_preview where
  "default_preview =
     \<lparr>vlan_commands = [], port_commands = [], mirror_commands = [], snmp_commands = [],
      reset_commands = [], other_commands = []\<rparr>"

record mac_table_entry =
  mt_mac_address :: string
  mt_vlan_id :: "u16 option"
  mt_port_id :: string

record port_status_entry =
  ps_port_id :: string
  ps_link_status :: "string option"
  ps_speed :: "string option"
  ps_duplex :: "string option"
  ps_poe_status :: "string option"

definition default_state :: switch_state where
  "default_state =
     \<lparr>st_vlans = [], st_ports = [], st_port_mirrors = [], st_snmp = None, st_management_vlan = None,
      st_warnings = []\<rparr>"

section \<open>Checks shared by the drivers\<close>

fun model_debug :: "switch_model \<Rightarrow> string" where
  "model_debug Aruba2530_24G_POE = ''Aruba2530_24G_POE''"
| "model_debug Aruba2530_8G_POE = ''Aruba2530_8G_POE''"
| "model_debug Aruba2530_48G_2SFP = ''Aruba2530_48G_2SFP''"
| "model_debug Aruba2540_24G = ''Aruba2540_24G''"
| "model_debug Aruba2540_48G_4SFP = ''Aruba2540_48G_4SFP''"
| "model_debug Aruba2930F = ''Aruba2930F''"
| "model_debug Fortiswitch124F_FPOE = ''Fortiswitch124F_FPOE''"
| "model_debug CiscoCatalyst9300_24P_UPOE = ''CiscoCatalyst9300_24P_UPOE''"

text \<open>A list of strings without special characters in \<open>Debug\<close> format.\<close>

definition debug_strings :: "string list \<Rightarrow> string" where
  "debug_strings ss = ''['' @ join '', '' (map quoted ss) @ '']''"

text \<open>
  \<open>hw_id\<close> is the vendor's regular expression: the first group of its first match in a text.
\<close>

definition verify_hardware_model ::
  "(string \<Rightarrow> string option) \<Rightarrow> string \<Rightarrow> switch_model \<Rightarrow> string list" where
  "verify_hardware_model hw_id config_text model =
     (case hw_id config_text of
        None \<Rightarrow> []
      | Some detected \<Rightarrow>
          let known_products = product_numbers model in
          if known_products = [] then []
          else if List.member known_products detected then []
          else [''Hardware model mismatch: switch reports '' @ detected @ '' but configured model ''
                @ model_debug model @ '' expects one of '' @ debug_strings known_products])"

definition em_dash :: string where
  "em_dash = byte_str [226, 128, 148]"

definition check_empty_state_safety ::
  "switch_state \<Rightarrow> nat \<Rightarrow> nat \<Rightarrow> string \<Rightarrow> vendor_error + unit" where
  "check_empty_state_safety current desired_vlans desired_ports hostname =
     bail_if
       (st_vlans current = [] \<and> st_ports current = [] \<and> (desired_vlans > 0 \<or> desired_ports > 0))
       (ParseError
         (''Parsed state for '' @ [CHR 0x27] @ hostname @ [CHR 0x27]
          @ '' is completely empty (0 VLANs, 0 ports) but desired config has ''
          @ show_nat desired_vlans @ '' VLANs and '' @ show_nat desired_ports
          @ '' ports. This likely indicates a failed '' @ [CHR 0x27] @ ''show running-config''
          @ [CHR 0x27] @ '' '' @ em_dash
          @ '' refusing to apply to avoid overwriting the switch from scratch.''))"

section \<open>Sessions\<close>

record 'd client =
  device :: 'd
  sent :: "string list list"

text \<open>\<open>execute_commands\<close> and \<open>execute_command\<close> of the transport, with the text of its error.\<close>

record 'd cli =
  cli_run :: "string list \<Rightarrow> 'd \<Rightarrow> (string + string list) \<times> 'd"
  cli_run_one :: "string \<Rightarrow> 'd \<Rightarrow> (string + string) \<times> 'd"

text \<open>
  The struct of a driver. \<open>hostname()\<close> and \<open>model()\<close> of its configuration panic when the field is
  missing; \<open>new_driver\<close> takes them once, so a driver has both.
\<close>

record 'd driver =
  dr_config :: switch_config
  dr_hostname :: string
  dr_model :: switch_model
  dr_client :: "'d client option"
  dr_current :: "switch_state option"
  dr_enforce :: bool

definition new_driver :: "switch_config \<Rightarrow> bool \<Rightarrow> 'd driver option" where
  "new_driver config enforce =
     (case (hostname_of config, model_of config) of
        (Some h, Some m) \<Rightarrow>
          Some \<lparr>dr_config = config, dr_hostname = h, dr_model = m, dr_client = None,
                dr_current = None, dr_enforce = enforce\<rparr>
      | _ \<Rightarrow> None)"

text \<open>
  An operation of a driver: it may fail, and changes the driver and the switch also then. A driver may
  have fields of its own (\<open>'x\<close>); \<open>act\<close> is for those that have none.
\<close>

type_synonym ('d, 'x, 'a) xact = "('d, 'x) driver_scheme \<Rightarrow> (vendor_error + 'a) \<times> ('d, 'x) driver_scheme"

type_synonym ('d, 'a) act = "('d, unit, 'a) xact"

definition act_return :: "'a \<Rightarrow> ('d, 'x, 'a) xact" where
  "act_return x s = (Inr x, s)"

definition act_fail :: "vendor_error \<Rightarrow> ('d, 'x, 'a) xact" where
  "act_fail e s = (Inl e, s)"

definition act_bind :: "('d, 'x, 'a) xact \<Rightarrow> ('a \<Rightarrow> ('d, 'x, 'b) xact) \<Rightarrow> ('d, 'x, 'b) xact" where
  "act_bind f g s = (case f s of (Inl e, s') \<Rightarrow> (Inl e, s') | (Inr x, s') \<Rightarrow> g x s')"

definition act_get :: "('d, 'x, ('d, 'x) driver_scheme) xact" where
  "act_get s = (Inr s, s)"

text \<open>Changes of the driver's own fields; a result computed from them; a failure that is not passed on.\<close>

definition act_modify :: "(('d, 'x) driver_scheme \<Rightarrow> ('d, 'x) driver_scheme) \<Rightarrow> ('d, 'x, unit) xact" where
  "act_modify f s = (Inr (), f s)"

definition act_lift :: "vendor_error + 'a \<Rightarrow> ('d, 'x, 'a) xact" where
  "act_lift r s = (r, s)"

definition act_attempt :: "('d, 'x, 'a) xact \<Rightarrow> ('d, 'x, vendor_error + 'a) xact" where
  "act_attempt f s = (case f s of (r, t) \<Rightarrow> (Inr r, t))"

text \<open>\<open>results.push(f().await?)\<close> under a condition.\<close>

definition push_if :: "bool \<Rightarrow> ('d, 'x, 'a) xact \<Rightarrow> 'a list \<Rightarrow> ('d, 'x, 'a list) xact" where
  "push_if c f results =
     (if c then act_bind f (\<lambda>r. act_return (results @ [r])) else act_return results)"

definition run_commands :: "'d cli \<Rightarrow> string list \<Rightarrow> ('d, 'x, string list) xact" where
  "run_commands cli cmds s =
     (case dr_client s of
        None \<Rightarrow> (Inl (SshError ''Not connected''), s)
      | Some c \<Rightarrow>
          (case cli_run cli cmds (device c) of
             (r, d) \<Rightarrow>
               (map_err CommandError r,
                s\<lparr>dr_client := Some \<lparr>device = d, sent = sent c @ [cmds]\<rparr>\<rparr>)))"

definition run_command_as :: "'d cli \<Rightarrow> string \<Rightarrow> string \<Rightarrow> ('d, 'x, string) xact" where
  "run_command_as cli prefix cmd s =
     (case dr_client s of
        None \<Rightarrow> (Inl (SshError ''Not connected''), s)
      | Some c \<Rightarrow>
          (case cli_run_one cli cmd (device c) of
             (r, d) \<Rightarrow>
               (map_err (\<lambda>e. CommandError (prefix @ e)) r,
                s\<lparr>dr_client := Some \<lparr>device = d, sent = sent c @ [[cmd]]\<rparr>\<rparr>)))"

definition run_command :: "'d cli \<Rightarrow> string \<Rightarrow> ('d, 'x, string) xact" where
  "run_command cli cmd = run_command_as cli [] cmd"

text \<open>\<open>outputs.get(0)\<close>, or the empty string.\<close>

definition first_output :: "string list \<Rightarrow> string" where
  "first_output outputs = (case outputs of [] \<Rightarrow> [] | o1 # _ \<Rightarrow> o1)"

definition counted :: "string \<Rightarrow> nat \<Rightarrow> string \<Rightarrow> string" where
  "counted before n after = before @ show_nat n @ after"

text \<open>The shape of most operations: run the commands, report them.\<close>

definition run_and_report :: "'d cli \<Rightarrow> string list \<Rightarrow> string \<Rightarrow> ('d, 'x, config_result) xact" where
  "run_and_report cli cmds message =
     act_bind (run_commands cli cmds) (\<lambda>_.
     act_bind act_get (\<lambda>s.
     act_return \<lparr>res_switch = dr_hostname s, res_success = True, res_message = message,
                 res_commands = cmds\<rparr>))"

text \<open>What was sent so far; nothing without a session.\<close>

definition sent_by :: "('d, 'x) driver_scheme \<Rightarrow> string list list" where
  "sent_by s = (case dr_client s of None \<Rightarrow> [] | Some c \<Rightarrow> sent c)"

section \<open>The apply loop of a driver\<close>

definition did_not_converge :: "state_diff \<Rightarrow> string" where
  "did_not_converge d = ''Configuration did not converge: '' @ remaining_changes_summary d"

text \<open>
  \<open>parse\<close> and \<open>parse'\<close> are the two calls of the driver's \<open>parse_current_state\<close>, \<open>carry_out\<close> is its \<open>apply_diff\<close>; \<open>it\<close> and \<open>it'\<close> are
  the iteration orders of the two calls of \<open>compute_diff\<close>.
\<close>

definition apply_configuration ::
  "hash_iter \<Rightarrow> hash_iter \<Rightarrow> ('d, 'x, switch_state) xact \<Rightarrow> ('d, 'x, switch_state) xact \<Rightarrow>
   (state_diff \<Rightarrow> ('d, 'x, config_result list) xact) \<Rightarrow> ('d, 'x, config_result list) xact" where
  "apply_configuration it it' parse parse' carry_out s =
     (case parse s of
        (Inl e, s1) \<Rightarrow> (Inl e, s1)
      | (Inr current, s1) \<Rightarrow>
          (case check_empty_state_safety current (length (s_vlans (dr_config s1)))
                  (length (s_ports (dr_config s1))) (dr_hostname s1) of
             Inl e \<Rightarrow> (Inl e, s1)
           | Inr _ \<Rightarrow>
               let s2 = s1\<lparr>dr_current := Some current\<rparr>;
                   d = compute_diff it current (dr_config s2) (dr_enforce s2)
               in if \<not> has_changes d then (Inr [], s2)
                  else (case carry_out d s2 of
                          (Inl e, s3) \<Rightarrow> (Inl e, s3)
                        | (Inr results, s3) \<Rightarrow>
                            (case parse' s3 of
                               (Inl e, s4) \<Rightarrow> (Inr results, s4)
                             | (Inr post, s4) \<Rightarrow>
                                 let remaining = compute_diff it' post (dr_config s4) (dr_enforce s4);
                                     post' = (if has_changes remaining
                                              then post\<lparr>st_warnings := st_warnings post
                                                          @ [did_not_converge remaining]\<rparr>
                                              else post)
                                 in (Inr results, s4\<lparr>dr_current := Some post'\<rparr>)))))"

definition get_warnings :: "('d, 'x) driver_scheme \<Rightarrow> string list" where
  "get_warnings s = (case dr_current s of None \<Rightarrow> [] | Some st \<Rightarrow> st_warnings st)"

section \<open>Lemmas on operations\<close>

named_theorems act_simps \<open>running the operations of a driver\<close>

lemma act_return_simp [act_simps]: "act_return x s = (Inr x, s)"
  by (simp add: act_return_def)

lemma act_fail_simp [act_simps]: "act_fail e s = (Inl e, s)"
  by (simp add: act_fail_def)

lemma act_get_simp [act_simps]: "act_get s = (Inr s, s)"
  by (simp add: act_get_def)

lemma act_bind_simps [act_simps]:
  "f s = (Inl e, t) \<Longrightarrow> act_bind f g s = (Inl e, t)"
  "f s = (Inr x, t) \<Longrightarrow> act_bind f g s = g x t"
  by (simp_all add: act_bind_def)

lemma act_bind_Inr:
  "act_bind f g s = (Inr y, t) \<longleftrightarrow> (\<exists>x u. f s = (Inr x, u) \<and> g x u = (Inr y, t))"
  by (auto simp: act_bind_def split: prod.splits sum.splits)

lemma act_bind_Inl:
  "act_bind f g s = (Inl e, t) \<longleftrightarrow>
     f s = (Inl e, t) \<or> (\<exists>x u. f s = (Inr x, u) \<and> g x u = (Inl e, t))"
  by (auto simp: act_bind_def split: prod.splits sum.splits)

text \<open>
  \<open>sends f bs\<close>: \<open>f\<close> hands the batches \<open>bs\<close> to the transport, in this order and no others, unless it
  fails; then it has handed over the first of them. It changes nothing else of the driver.
\<close>

definition same_driver :: "('d, 'x) driver_scheme \<Rightarrow> ('d, 'x) driver_scheme \<Rightarrow> bool" where
  "same_driver s t \<longleftrightarrow>
     dr_config t = dr_config s \<and> dr_hostname t = dr_hostname s \<and> dr_model t = dr_model s \<and>
     dr_current t = dr_current s \<and> dr_enforce t = dr_enforce s"

definition sends :: "('d, 'x, 'a) xact \<Rightarrow> ('d, 'x) driver_scheme \<Rightarrow> string list list \<Rightarrow> bool" where
  "sends f s bs \<longleftrightarrow>
     (case f s of
        (Inr x, t) \<Rightarrow> same_driver s t \<and> sent_by t = sent_by s @ bs
      | (Inl e, t) \<Rightarrow> same_driver s t \<and> (\<exists>n. sent_by t = sent_by s @ take n bs))"

lemma same_driver_refl [simp]: "same_driver s s"
  by (simp add: same_driver_def)

lemma same_driver_trans: "same_driver s t \<Longrightarrow> same_driver t u \<Longrightarrow> same_driver s u"
  by (simp add: same_driver_def)

lemma sends_return: "sends (act_return x) s []"
  by (simp add: sends_def act_simps)

lemma sends_get: "sends act_get s []"
  by (simp add: sends_def act_simps)

lemma sends_fail: "sends (act_fail e) s []"
  by (simp add: sends_def act_fail_def)

lemma sends_lift: "sends (act_lift r) s []"
  by (cases r) (simp_all add: sends_def act_lift_def)

lemma sends_modify: "same_driver s (f s) \<Longrightarrow> dr_client (f s) = dr_client s \<Longrightarrow> sends (act_modify f) s []"
  by (simp add: sends_def act_modify_def sent_by_def)

lemma sends_run_commands: "sends (run_commands cli cmds) s [cmds]"
proof (cases "dr_client s")
  case None
  then have "sent_by s = sent_by s @ take 0 [cmds]" by simp
  with None show ?thesis unfolding sends_def run_commands_def by auto
next
  case (Some c)
  obtain r d where rd: "cli_run cli cmds (device c) = (r, d)" by fastforce
  have "\<exists>n. sent c @ [cmds] = sent c @ take n [cmds]" by (rule exI [of _ 1]) simp
  with Some rd show ?thesis
    by (cases r) (simp_all add: sends_def run_commands_def same_driver_def sent_by_def)
qed

lemma sends_run_command_as: "sends (run_command_as cli prefix cmd) s [[cmd]]"
proof (cases "dr_client s")
  case None
  then have "sent_by s = sent_by s @ take 0 [[cmd]]" by simp
  with None show ?thesis unfolding sends_def run_command_as_def by auto
next
  case (Some c)
  obtain r d where rd: "cli_run_one cli cmd (device c) = (r, d)" by fastforce
  have "\<exists>n. sent c @ [[cmd]] = sent c @ take n [[cmd]]" by (rule exI [of _ 1]) simp
  with Some rd show ?thesis
    by (cases r) (simp_all add: sends_def run_command_as_def same_driver_def sent_by_def)
qed

lemma sends_run_command: "sends (run_command cli cmd) s [[cmd]]"
  unfolding run_command_def by (rule sends_run_command_as)

text \<open>A failure that is ignored: with a session the command was sent all the same.\<close>

lemma run_command_connected: "run_command cli cmd s = (Inr x, t) \<Longrightarrow> dr_client t \<noteq> None"
  by (auto simp: run_command_def run_command_as_def split: option.splits prod.splits)

lemma sends_attempt_command:
  assumes "dr_client s \<noteq> None"
  shows "sends (act_attempt (run_command cli cmd)) s [[cmd]] \<and>
         dr_client (snd (act_attempt (run_command cli cmd) s)) \<noteq> None"
proof -
  from assms obtain c where c: "dr_client s = Some c" by blast
  obtain r d where "cli_run_one cli cmd (device c) = (r, d)" by fastforce
  with c show ?thesis
    by (simp add: sends_def act_attempt_def run_command_def run_command_as_def same_driver_def sent_by_def)
qed

lemma sends_bind:
  assumes "sends f s bs"
    and "\<And>x t. f s = (Inr x, t) \<Longrightarrow> same_driver s t \<Longrightarrow> sends (g x) t cs"
  shows "sends (act_bind f g) s (bs @ cs)"
proof (cases "f s")
  case (Pair r t)
  show ?thesis
  proof (cases r)
    case (Inl e)
    with Pair assms(1) obtain n where n: "same_driver s t" "sent_by t = sent_by s @ take n bs"
      by (auto simp: sends_def)
    have "take n bs = take (min n (length bs)) (bs @ cs)" by (simp add: min_def)
    with n have "\<exists>k. sent_by t = sent_by s @ take k (bs @ cs)" by metis
    with n(1) Pair Inl show ?thesis unfolding sends_def by (simp add: act_bind_def)
  next
    case (Inr x)
    with Pair assms(1) have t: "same_driver s t" "sent_by t = sent_by s @ bs"
      by (auto simp: sends_def)
    with assms(2) Pair Inr have g: "sends (g x) t cs" by blast
    obtain r' u where ru: "g x t = (r', u)" by fastforce
    show ?thesis
    proof (cases r')
      case (Inl e)
      with g ru t obtain n where n: "same_driver t u" "sent_by u = sent_by s @ bs @ take n cs"
        by (auto simp: sends_def)
      have "bs @ take n cs = take (length bs + n) (bs @ cs)" by simp
      with n have "\<exists>k. sent_by u = sent_by s @ take k (bs @ cs)" by metis
      with same_driver_trans [OF t(1) n(1)] Inl Pair \<open>r = Inr x\<close> ru show ?thesis
        unfolding sends_def by (simp add: act_bind_def)
    next
      case (Inr y)
      with g ru t Pair \<open>r = Inr x\<close> show ?thesis
        by (auto simp: sends_def act_bind_def dest: same_driver_trans)
    qed
  qed
qed

text \<open>Operations that leave the fields alone a driver has of its own.\<close>

definition keeps_more :: "('d, 'x, 'a) xact \<Rightarrow> bool" where
  "keeps_more f \<longleftrightarrow> (\<forall>s. driver.more (snd (f s)) = driver.more s)"

lemma keeps_moreD: "keeps_more f \<Longrightarrow> f s = (r, t) \<Longrightarrow> driver.more t = driver.more s"
  unfolding keeps_more_def by (metis snd_conv)

lemma keeps_more_basic [simp]:
  "keeps_more (act_return x)" "keeps_more act_get" "keeps_more (act_fail e)" "keeps_more (act_lift r)"
  by (simp_all add: keeps_more_def act_return_def act_get_def act_fail_def act_lift_def)

lemma keeps_more_bind:
  assumes "keeps_more f" and "\<And>x. keeps_more (g x)"
  shows "keeps_more (act_bind f g)"
  unfolding keeps_more_def
proof
  fix s
  obtain r t where f: "f s = (r, t)" by fastforce
  with assms(1) have t: "driver.more t = driver.more s" by (rule keeps_moreD)
  show "driver.more (snd (act_bind f g s)) = driver.more s"
  proof (cases r)
    case (Inr x)
    obtain r' u where g: "g x t = (r', u)" by fastforce
    with assms(2) have "driver.more u = driver.more t" by (rule keeps_moreD)
    with f t Inr g show ?thesis by (simp add: act_bind_def)
  qed (use f t in \<open>simp add: act_bind_def\<close>)
qed

lemma keeps_more_report: "keeps_more (run_and_report cli cmds message)"
proof -
  have "keeps_more (run_commands cli cmds)"
    by (simp add: keeps_more_def run_commands_def split: option.splits prod.splits)
  then show ?thesis unfolding run_and_report_def by (intro keeps_more_bind) simp_all
qed

lemma keeps_more_push_if: "keeps_more f \<Longrightarrow> keeps_more (push_if c f results)"
  by (simp add: push_if_def keeps_more_bind)

lemma sends_bind_keep:
  assumes "sends f s bs" and "keeps_more f"
    and "\<And>x t. same_driver s t \<Longrightarrow> driver.more t = driver.more s \<Longrightarrow> sends (g x) t cs"
  shows "sends (act_bind f g) s (bs @ cs)"
  using assms(1) by (rule sends_bind) (intro assms(3) keeps_moreD [OF assms(2)])

lemma sends_with_get:
  assumes "sends (f s) s bs"
  shows "sends (act_bind act_get f) s bs"
  using assms by (simp add: sends_def act_bind_def act_get_def)

lemma sends_run_and_report: "sends (run_and_report cli cmds message) s [cmds]"
proof -
  have "sends (run_and_report cli cmds message) s ([cmds] @ [] @ [])"
    unfolding run_and_report_def
    by (intro sends_bind sends_run_commands sends_get sends_return)
  then show ?thesis by simp
qed

lemma sends_push_if:
  assumes "c \<Longrightarrow> sends f s bs"
  shows "sends (push_if c f results) s (if c then bs else [])"
proof (cases c)
  case True
  then have "sends (push_if c f results) s (bs @ [])"
    unfolding push_if_def using assms by (simp only: if_True) (intro sends_bind sends_return, simp)
  with True show ?thesis by simp
qed (simp add: push_if_def sends_return)

lemma sends_Inr: "sends f s bs \<Longrightarrow> f s = (Inr x, t) \<Longrightarrow> same_driver s t \<and> sent_by t = sent_by s @ bs"
  by (simp add: sends_def)

lemma sends_Inl:
  "sends f s bs \<Longrightarrow> f s = (Inl e, t) \<Longrightarrow> same_driver s t \<and> (\<exists>n. sent_by t = sent_by s @ take n bs)"
  by (simp add: sends_def)

lemma sends_prefix:
  assumes "sends f s bs" and "f s = (r, t)"
  shows "same_driver s t \<and> (\<exists>n. sent_by t = sent_by s @ take n bs)"
proof (cases r)
  case (Inr x)
  with sends_Inr assms have "same_driver s t \<and> sent_by t = sent_by s @ take (length bs) bs"
    by force
  then show ?thesis by blast
qed (use assms sends_Inl in blast)

section \<open>Batches\<close>

definition batch_if :: "bool \<Rightarrow> string list \<Rightarrow> string list list" where
  "batch_if c b = (if c then [b] else [])"

lemma sends_push_batch:
  assumes "sends f s [b]"
  shows "sends (push_if c f results) s (batch_if c b)"
  using sends_push_if [of c f s "[b]" results] assms by (simp add: batch_if_def)

lemma sends_cong: "sends f t bs \<Longrightarrow> bs = cs \<Longrightarrow> sends f t cs"
  by simp

section \<open>Two transports\<close>

definition silent_cli :: "unit cli" where
  "silent_cli = \<lparr>cli_run = (\<lambda>cmds d. (Inr [], d)), cli_run_one = (\<lambda>cmd d. (Inr [], d))\<rparr>"

definition broken_cli :: "unit cli" where
  "broken_cli = \<lparr>cli_run = (\<lambda>cmds d. (Inl ''timeout'', d)), cli_run_one = (\<lambda>cmd d. (Inl ''timeout'', d))\<rparr>"

text \<open>On a transport that never fails, an apply succeeds.\<close>

definition succeeds :: "('d, 'x, 'a) xact \<Rightarrow> bool" where
  "succeeds f \<longleftrightarrow> (\<forall>s. dr_client s \<noteq> None \<longrightarrow> (\<exists>x t. f s = (Inr x, t) \<and> dr_client t \<noteq> None))"

lemma succeeds_return: "succeeds (act_return x)" "succeeds act_get"
  by (simp_all add: succeeds_def act_return_def act_get_def)

lemma succeeds_bind:
  fixes f :: "('d, 'x, 'a) xact"
  assumes "succeeds f" and "\<And>x. succeeds (g x)"
  shows "succeeds (act_bind f g)"
  unfolding succeeds_def
proof (intro allI impI)
  fix s :: "('d, 'x) driver_scheme" assume "dr_client s \<noteq> None"
  with assms(1) obtain x t where "f s = (Inr x, t)" "dr_client t \<noteq> None"
    unfolding succeeds_def by blast
  with assms(2) show "\<exists>y u. act_bind f g s = (Inr y, u) \<and> dr_client u \<noteq> None"
    unfolding succeeds_def by (simp add: act_bind_simps)
qed

lemma succeeds_run: "succeeds (run_commands silent_cli cmds)"
  by (auto simp: succeeds_def run_commands_def silent_cli_def)

lemma succeeds_report: "succeeds (run_and_report silent_cli cmds msg)"
  unfolding run_and_report_def by (intro succeeds_bind succeeds_run succeeds_return)

lemma succeeds_push: "succeeds f \<Longrightarrow> succeeds (push_if c f r)"
  by (auto simp: push_if_def intro!: succeeds_bind succeeds_return)

lemma succeeds_if: "succeeds f \<Longrightarrow> succeeds g \<Longrightarrow> succeeds (if c then f else g)"
  by simp

section \<open>The contract of a driver\<close>

text \<open>
  The drivers still have a path for a difference that says SNMP changed but not how; \<open>compute_diff\<close>
  yields no such difference.
\<close>

definition granular_diff :: "state_diff \<Rightarrow> bool" where
  "granular_diff d \<longleftrightarrow> (snmp_diff d = None \<longrightarrow> \<not> snmp_config_changed d)"

lemma granular_compute_diff: "granular_diff (compute_diff it cur des f)"
  by (auto simp: granular_diff_def compute_diff_def diff_snmp_def diff_management_vlan_def
      diff_mirrors_def diff_ports_def diff_vlans_def default_diff_def Let_def
      split: option.splits prod.splits)

text \<open>
  A driver parses its switch with reading commands only (\<open>reads\<close>; the argument of \<open>parse\<close> is the order in
  which the hash maps of the reader come out), and carries a difference out by
  the batches of \<open>plan\<close>, which depend on the difference and on the driver but not on the answers of
  the switch.
\<close>

locale switch_driver =
  fixes parse :: "'o \<Rightarrow> ('d, 'x, switch_state) xact"
    and carry_out :: "state_diff \<Rightarrow> ('d, 'x, config_result list) xact"
    and reads :: "string list list"
    and plan :: "state_diff \<Rightarrow> ('d, 'x) driver_scheme \<Rightarrow> string list list"
  assumes parse_reads: "sends (parse o1) s reads"
    and carry_out_plan: "granular_diff d \<Longrightarrow> sends (carry_out d) s (plan d s)"
begin

lemma parse_error:
  assumes "parse o1 s = (Inl e, s1)"
  shows "apply_configuration it it' (parse o1) (parse o2) carry_out s = (Inl e, s1)"
  using assms by (simp add: apply_configuration_def)

text \<open>An empty reading of a switch that should not be empty is refused, and nothing is configured.\<close>

lemma refuses_empty_reading:
  assumes "parse o1 s = (Inr current, s1)" and "st_vlans current = []" and "st_ports current = []"
    and "s_vlans (dr_config s) \<noteq> [] \<or> s_ports (dr_config s) \<noteq> []"
  shows "\<exists>msg t. apply_configuration it it' (parse o1) (parse o2) carry_out s = (Inl (ParseError msg), t) \<and>
           sent_by t = sent_by s @ reads"
proof -
  have s1: "same_driver s s1" "sent_by s1 = sent_by s @ reads"
    using sends_Inr [OF parse_reads assms(1)] by simp_all
  with assms show ?thesis
    by (auto simp: apply_configuration_def check_empty_state_safety_def same_driver_def bail_if_def)
qed

text \<open>A switch that is in sync gets no configuration command.\<close>

lemma in_sync_sends_nothing:
  assumes "parse o1 s = (Inr current, s1)"
    and "check_empty_state_safety current (length (s_vlans (dr_config s)))
           (length (s_ports (dr_config s))) (dr_hostname s) = Inr ()"
    and "\<not> has_changes (compute_diff it current (dr_config s) (dr_enforce s))"
  shows "apply_configuration it it' (parse o1) (parse o2) carry_out s = (Inr [], s1\<lparr>dr_current := Some current\<rparr>) \<and>
           sent_by (s1\<lparr>dr_current := Some current\<rparr>) = sent_by s @ reads"
proof -
  have s1: "same_driver s s1" "sent_by s1 = sent_by s @ reads"
    using sends_Inr [OF parse_reads assms(1)] by simp_all
  with assms show ?thesis
    by (simp add: apply_configuration_def same_driver_def sent_by_def)
qed

text \<open>A successful apply: read, the batches of the plan for the difference, read again.\<close>

lemma sends_read_plan_read:
  assumes "parse o1 s = (Inr current, s1)"
    and d: "d = compute_diff it current (dr_config s) (dr_enforce s)"
    and s2: "s2 = s1\<lparr>dr_current := Some current\<rparr>"
    and "has_changes d"
    and res: "apply_configuration it it' (parse o1) (parse o2) carry_out s = (Inr results, t)"
  shows "\<exists>n. sent_by t = sent_by s @ reads @ plan d s2 @ take n reads"
proof -
  have s1: "same_driver s s1" "sent_by s1 = sent_by s @ reads"
    using sends_Inr [OF parse_reads assms(1)] by simp_all
  from s1(1) have cfg: "dr_config s1 = dr_config s" "dr_enforce s1 = dr_enforce s"
    by (simp_all add: same_driver_def)
  from s2 have sent2: "sent_by s2 = sent_by s1" by (simp add: sent_by_def)
  obtain r s3 where c: "carry_out d s2 = (r, s3)" by fastforce
  from res assms(1,4) cfg c obtain rs where r: "r = Inr rs"
    unfolding apply_configuration_def d s2
    by (cases r) (auto simp: Let_def split: sum.splits)
  have s3: "sent_by s3 = sent_by s2 @ plan d s2"
    using sends_Inr [OF carry_out_plan c [unfolded r]] granular_compute_diff [of it] d by simp
  obtain r4 s4 where p: "parse o2 s3 = (r4, s4)" by fastforce
  obtain n where s4: "sent_by s4 = sent_by s3 @ take n reads"
    using sends_prefix [OF parse_reads p] by blast
  from res assms(1,4) cfg c r p have "sent_by t = sent_by s4"
    unfolding apply_configuration_def d s2
    by (cases r4) (auto simp: Let_def sent_by_def split: sum.splits)
  with s4 s3 sent2 s1(2) show ?thesis by auto
qed

text \<open>Whatever fails, every batch sent is a reading one or one of the plan.\<close>

lemma sends_only_plan:
  assumes "apply_configuration it it' (parse o1) (parse o2) carry_out s = (r, t)"
    and b: "b \<in> set (drop (length (sent_by s)) (sent_by t))"
  shows "b \<in> set reads \<or>
     (\<exists>current s1. parse o1 s = (Inr current, s1) \<and>
        b \<in> set (plan (compute_diff it current (dr_config s) (dr_enforce s))
                      (s1\<lparr>dr_current := Some current\<rparr>)))"
proof -
  obtain r1 s1 where p: "parse o1 s = (r1, s1)" by fastforce
  obtain n1 where s1: "same_driver s s1" "sent_by s1 = sent_by s @ take n1 reads"
    using sends_prefix [OF parse_reads p] by blast
  show ?thesis
  proof (cases "sent_by t = sent_by s1")
    case True
    with b s1(2) have "b \<in> set (take n1 reads)" by simp
    then show ?thesis by (auto dest: in_set_takeD)
  next
    case False
    from s1(1) have cfg: "dr_config s1 = dr_config s" "dr_enforce s1 = dr_enforce s"
      by (simp_all add: same_driver_def)
    from False assms(1) p obtain current where r1: "r1 = Inr current"
      by (cases r1) (auto simp: apply_configuration_def)
    let ?s2 = "s1\<lparr>dr_current := Some current\<rparr>"
    let ?d = "compute_diff it current (dr_config s) (dr_enforce s)"
    have sent2: "sent_by ?s2 = sent_by s1" by (simp add: sent_by_def)
    obtain r3 s3 where c: "carry_out ?d ?s2 = (r3, s3)" by fastforce
    obtain n3 where s3: "sent_by s3 = sent_by s1 @ take n3 (plan ?d ?s2)"
      using sends_prefix [OF carry_out_plan [OF granular_compute_diff] c] sent2 by auto
    obtain r4 s4 where p4: "parse o2 s3 = (r4, s4)" by fastforce
    obtain n4 where s4: "sent_by s4 = sent_by s3 @ take n4 reads"
      using sends_prefix [OF parse_reads p4] by blast
    from False assms(1) p r1 c p4 cfg sent2 have "sent_by t = sent_by s3 \<or> sent_by t = sent_by s4"
      unfolding apply_configuration_def
      by (cases r3; cases r4) (auto simp: Let_def sent_by_def split: sum.splits if_splits)
    then have "b \<in> set (take n1 reads) \<union> set (take n3 (plan ?d ?s2)) \<union> set (take n4 reads)"
      using b s1(2) s3 s4 by auto
    then show ?thesis using p r1 by (auto dest: in_set_takeD)
  qed
qed

end

end
