(* ===== verification/Aruba_Commands.thy ===== *)
theory Aruba_Commands
  imports Vendor
begin

text \<open>
  The commands \<open>vendors/aruba.rs\<close> generates for an ArubaOS switch. Where a function reads
  \<open>self\<close>, the model takes what it reads as arguments: \<open>m\<close> the switch model, \<open>cur\<close> the state stored
  by the last parse.
\<close>

abbreviation configure_terminal :: string where
  "configure_terminal \<equiv> ''configure terminal''"

abbreviation exit_cmd :: string where
  "exit_cmd \<equiv> ''exit''"

definition in_config_mode :: "string list \<Rightarrow> string list" where
  "in_config_mode cmds = configure_terminal # cmds @ [exit_cmd]"

section \<open>VLANs\<close>

definition aruba_vlan_name_command :: "string \<Rightarrow> string" where
  "aruba_vlan_name_command name =
     (if List.member name (CHR '' '') then ''name '' @ quoted name else ''name '' @ name)"

fun aruba_ip_command :: "vlan_ip_config \<Rightarrow> string" where
  "aruba_ip_command Dhcp = ''ip address dhcp-bootp''"
| "aruba_ip_command (Static a nm) = ''ip address '' @ a @ '' '' @ nm"
| "aruba_ip_command IpNone = ''no ip address''"

definition aruba_vlan_block :: "vlan \<Rightarrow> string list" where
  "aruba_vlan_block vl =
     [''vlan '' @ show_u16 (v_id vl), aruba_vlan_name_command (v_name vl),
      aruba_ip_command (v_ip_config vl), exit_cmd]"

definition aruba_vlan_commands :: "vlan list \<Rightarrow> string list" where
  "aruba_vlan_commands vlans = in_config_mode (concat (map aruba_vlan_block vlans))"

section \<open>Ports\<close>

definition normalize_port_id :: "string \<Rightarrow> string" where
  "normalize_port_id port_id = last (split_on (CHR ''/'') port_id)"

text \<open>The entries of the map from a source port to its mirror sessions.\<close>

definition mirror_sources :: "port_mirror list \<Rightarrow> string \<Rightarrow> (string \<times> mirror_direction) list" where
  "mirror_sources mirrors interface =
     concat (map (\<lambda>mirror.
       map (\<lambda>_. (m_session_id mirror, m_direction mirror))
         (filter (\<lambda>source_port. normalize_port_id source_port = interface) (m_source_ports mirror)))
       mirrors)"

text \<open>The port of the stored state with this id.\<close>

definition current_port :: "switch_state option \<Rightarrow> string \<Rightarrow> port option" where
  "current_port cur port_id =
     (case cur of None \<Rightarrow> None | Some st \<Rightarrow> find (\<lambda>p. p_port_id p = port_id) (st_ports st))"

definition no_tagged :: "u16 \<Rightarrow> string" where
  "no_tagged v = ''no tagged vlan '' @ show_u16 v"

definition aruba_name_commands :: "switch_state option \<Rightarrow> port \<Rightarrow> string list" where
  "aruba_name_commands cur port =
     (case p_description port of
        Some desc \<Rightarrow> [''name '' @ quoted desc]
      | None \<Rightarrow>
          (case current_port cur (p_port_id port) of
             Some c \<Rightarrow> if p_description c \<noteq> None then [''no name''] else []
           | None \<Rightarrow> []))"

definition aruba_mode_commands :: "switch_state option \<Rightarrow> port \<Rightarrow> string list" where
  "aruba_mode_commands cur port =
     [''untagged vlan '' @ show_u16 (p_vlan port)]
     @ (case inferred_mode port of
          Access \<Rightarrow>
            (case current_port cur (p_port_id port) of
               Some c \<Rightarrow> map no_tagged (filter (\<lambda>v. v \<noteq> p_vlan c) (p_tagged_vlans c))
             | None \<Rightarrow> [])
        | Trunk \<Rightarrow>
            (let desired_tagged = filter (\<lambda>v. v \<noteq> p_vlan port) (p_tagged_vlans port)
             in (case current_port cur (p_port_id port) of
                   Some c \<Rightarrow>
                     map no_tagged
                       (filter (\<lambda>v. \<not> List.member desired_tagged v)
                         (filter (\<lambda>v. v \<noteq> p_vlan c) (p_tagged_vlans c)))
                 | None \<Rightarrow> [])
                @ (if desired_tagged \<noteq> []
                   then [''tagged vlan '' @ join '','' (map show_u16 desired_tagged)]
                   else [])))"

definition aruba_poe_commands :: "switch_model \<Rightarrow> port \<Rightarrow> string list" where
  "aruba_poe_commands m port =
     (if supports_poe m
      then if p_poe_enabled port
           then (case port_capabilities_for m (p_port_id port) of
                   Some caps \<Rightarrow>
                     (case cap_poe_support caps of
                        Some poe_standard \<Rightarrow> [''power-over-ethernet'', ''poe-allocate-by class'']
                      | None \<Rightarrow> [''no power-over-ethernet''])
                 | None \<Rightarrow> [''no power-over-ethernet''])
           else [''no power-over-ethernet'']
      else [])"

definition aruba_mac_commands :: "port \<Rightarrow> string list" where
  "aruba_mac_commands port =
     (if p_mac_notify port then [''mac-notify traps learned'', ''mac-notify traps removed'']
      else [''no mac-notify traps learned'', ''no mac-notify traps removed''])"

fun aruba_direction_command :: "string \<times> mirror_direction \<Rightarrow> string" where
  "aruba_direction_command (session_id, Both) = ''monitor all both mirror '' @ session_id"
| "aruba_direction_command (session_id, Rx) = ''monitor all in mirror '' @ session_id"
| "aruba_direction_command (session_id, Tx) = ''monitor all out mirror '' @ session_id"

text \<open>The loop over a port's sessions; with the legacy syntax it breaks after the first.\<close>

definition aruba_monitor_commands ::
  "switch_model \<Rightarrow> (string \<times> mirror_direction) list \<Rightarrow> string list" where
  "aruba_monitor_commands m mirror_configs =
     (if uses_legacy_mirror_syntax m then map (\<lambda>_. ''monitor'') (take 1 mirror_configs)
      else map aruba_direction_command mirror_configs)"

definition aruba_port_block ::
  "switch_model \<Rightarrow> switch_state option \<Rightarrow> port_mirror list \<Rightarrow> port \<Rightarrow> string list" where
  "aruba_port_block m cur mirrors port =
     (let interface = normalize_port_id (p_port_id port)
      in [''interface '' @ interface]
         @ aruba_name_commands cur port
         @ aruba_mode_commands cur port
         @ [if p_enabled port then ''enable'' else ''disable'']
         @ aruba_poe_commands m port
         @ aruba_mac_commands port
         @ [''speed-duplex '' @ to_aruba_syntax (p_speed_duplex port)]
         @ aruba_monitor_commands m (mirror_sources mirrors interface)
         @ [exit_cmd])"

definition aruba_port_commands ::
  "switch_model \<Rightarrow> switch_state option \<Rightarrow> port list \<Rightarrow> port_mirror list \<Rightarrow> string list" where
  "aruba_port_commands m cur ports mirrors =
     in_config_mode (concat (map (aruba_port_block m cur mirrors) ports))"

definition poe_disable_commands :: "string \<Rightarrow> string list" where
  "poe_disable_commands port_id =
     [configure_terminal, ''interface '' @ normalize_port_id port_id, ''no power-over-ethernet'',
      exit_cmd, exit_cmd]"

definition poe_enable_commands :: "string \<Rightarrow> string list" where
  "poe_enable_commands port_id =
     [configure_terminal, ''interface '' @ normalize_port_id port_id, ''power-over-ethernet'',
      exit_cmd, exit_cmd]"

section \<open>Mirrors\<close>

definition aruba_mirror_command :: "switch_model \<Rightarrow> port_mirror \<Rightarrow> string" where
  "aruba_mirror_command m mirror =
     (let dest = normalize_port_id (m_destination_port mirror)
      in if uses_legacy_mirror_syntax m then ''mirror-port '' @ dest
         else ''mirror '' @ m_session_id mirror @ '' port '' @ dest)"

definition aruba_mirror_commands :: "switch_model \<Rightarrow> port_mirror list \<Rightarrow> string list" where
  "aruba_mirror_commands m mirrors = in_config_mode (map (aruba_mirror_command m) mirrors)"

section \<open>Removals\<close>

definition no_vlan :: "u16 \<Rightarrow> string" where
  "no_vlan v = ''no vlan '' @ show_u16 v"

definition aruba_remove_vlan_commands :: "u16 list \<Rightarrow> string list" where
  "aruba_remove_vlan_commands vlan_ids = in_config_mode (map no_vlan vlan_ids)"

definition aruba_remove_mirror_commands :: "string list \<Rightarrow> string list" where
  "aruba_remove_mirror_commands session_ids =
     in_config_mode (map (\<lambda>i. ''no mirror '' @ i) session_ids)"

text \<open>
  The migrations grouped by the VLAN that goes away, in a hash map (\<open>it\<close> is the order in which its
  keys come out): the ports that are untagged and those that are tagged in it.
\<close>

definition untagged_in :: "port_migration list \<Rightarrow> u16 \<Rightarrow> string list" where
  "untagged_in migrations v =
     map pm_port_id (filter (\<lambda>g. pm_vlan_being_removed g = v \<and> pm_action g = MoveAccessToVlan1) migrations)"

definition tagged_in :: "port_migration list \<Rightarrow> u16 \<Rightarrow> string list" where
  "tagged_in migrations v =
     map pm_port_id (filter (\<lambda>g. pm_vlan_being_removed g = v \<and> pm_action g \<noteq> MoveAccessToVlan1) migrations)"

definition aruba_clean_vlan :: "port_migration list \<Rightarrow> u16 \<Rightarrow> string list" where
  "aruba_clean_vlan migrations v =
     [''vlan '' @ show_u16 v]
     @ (if untagged_in migrations v \<noteq> []
        then [''no untagged '' @ join '','' (untagged_in migrations v)] else [])
     @ (if tagged_in migrations v \<noteq> []
        then [''no tagged '' @ join '','' (tagged_in migrations v)] else [])
     @ [exit_cmd]"

definition aruba_migrate_commands :: "(u16 list \<Rightarrow> u16 list) \<Rightarrow> port_migration list \<Rightarrow> string list" where
  "aruba_migrate_commands it migrations =
     in_config_mode
       (concat (map (aruba_clean_vlan migrations) (it (hash_keys pm_vlan_being_removed migrations))))"

section \<open>SNMP\<close>

fun aruba_access :: "snmp_access \<Rightarrow> string" where
  "aruba_access Unrestricted = ''unrestricted''"
| "aruba_access Manager = ''manager''"
| "aruba_access Operator = ''operator''"

fun aruba_trap_name :: "trap_type \<Rightarrow> string" where
  "aruba_trap_name MacNotify = ''mac-notify''"
| "aruba_trap_name LinkChange = ''link-change all''"
| "aruba_trap_name AllTraps = ''all''"

definition aruba_community_command :: "snmp_community \<Rightarrow> string" where
  "aruba_community_command c =
     ''snmp-server community '' @ quoted (c_name c) @ '' '' @ aruba_access (c_access c)"

definition aruba_receiver_command :: "snmp_trap_receiver \<Rightarrow> string" where
  "aruba_receiver_command r =
     ''snmp-server host '' @ r_host r @ '' community '' @ quoted (r_community r)"

text \<open>The full replacement: \<open>generate_snmp_commands\<close>.\<close>

definition aruba_snmp_commands :: "snmp_config \<Rightarrow> trap_type list \<Rightarrow> string list" where
  "aruba_snmp_commands snmp current_traps =
     in_config_mode
      (map (\<lambda>trap. ''no snmp-server enable traps '' @ aruba_trap_name trap)
         (filter (\<lambda>trap. \<not> List.member (sn_enabled_traps snmp) trap) current_traps)
       @ [''no snmp-server community '' @ quoted ''public'',
          ''no snmp-server community '' @ quoted ''private'']
       @ map aruba_community_command (sn_communities snmp)
       @ map aruba_receiver_command (sn_trap_receivers snmp)
       @ map (\<lambda>trap. ''snmp-server enable traps '' @ aruba_trap_name trap) (sn_enabled_traps snmp))"

text \<open>The granular difference: the commands of \<open>apply_snmp_diff\<close>, and how many actions it counts.\<close>

fun aruba_enable_trap :: "trap_type \<Rightarrow> string list" where
  "aruba_enable_trap MacNotify = [''snmp-server enable traps mac-notify'']"
| "aruba_enable_trap LinkChange = [''snmp-server enable traps link-change all'']"
| "aruba_enable_trap AllTraps =
     [''snmp-server enable traps mac-notify'', ''snmp-server enable traps link-change all'']"

fun aruba_disable_trap :: "trap_type \<Rightarrow> string list" where
  "aruba_disable_trap MacNotify = [''no snmp-server enable traps mac-notify'']"
| "aruba_disable_trap LinkChange = [''no snmp-server enable traps link-change'']"
| "aruba_disable_trap AllTraps =
     [''no snmp-server enable traps mac-notify'', ''no snmp-server enable traps link-change'']"

definition no_community :: "string \<Rightarrow> string" where
  "no_community name = ''no snmp-server community '' @ quoted name"

definition aruba_snmp_diff_commands :: "snmp_state_diff \<Rightarrow> string list" where
  "aruba_snmp_diff_commands d =
     in_config_mode
      (map no_community (communities_to_remove d)
       @ concat (map (\<lambda>c. [no_community (c_name c), aruba_community_command c]) (communities_to_update d))
       @ map aruba_community_command (communities_to_add d)
       @ map (\<lambda>host. ''no snmp-server host '' @ host) (trap_receivers_to_remove d)
       @ map aruba_receiver_command (trap_receivers_to_add d)
       @ concat (map aruba_enable_trap (traps_to_enable d))
       @ concat (map aruba_disable_trap (traps_to_disable d)))"

definition aruba_snmp_diff_actions :: "snmp_state_diff \<Rightarrow> nat" where
  "aruba_snmp_diff_actions d =
     length (communities_to_remove d) + length (communities_to_update d) + length (communities_to_add d)
     + length (trap_receivers_to_remove d) + length (trap_receivers_to_add d)
     + length (traps_to_enable d) + length (traps_to_disable d)"

section \<open>Management VLAN, resets, baseline\<close>

definition aruba_management_vlan_commands :: "u16 \<Rightarrow> string list" where
  "aruba_management_vlan_commands v = in_config_mode [''management-vlan '' @ show_u16 v]"

definition aruba_remove_management_vlan_commands :: "string list" where
  "aruba_remove_management_vlan_commands = in_config_mode [''no management-vlan'']"

definition aruba_reset_block :: "switch_model \<Rightarrow> switch_state option \<Rightarrow> string \<Rightarrow> string list" where
  "aruba_reset_block m cur port_id =
     [''interface '' @ normalize_port_id port_id, ''disable'', ''no name'', ''untagged vlan 1'']
     @ (case current_port cur port_id of
          Some c \<Rightarrow> map no_tagged (filter (\<lambda>v. v \<noteq> p_vlan c) (p_tagged_vlans c))
        | None \<Rightarrow> [])
     @ [''no mac-notify traps learned'', ''no mac-notify traps removed'']
     @ (if supports_poe m then [''poe-allocate-by class''] else [])
     @ [exit_cmd]"

definition aruba_reset_commands :: "switch_model \<Rightarrow> switch_state option \<Rightarrow> string list \<Rightarrow> string list" where
  "aruba_reset_commands m cur port_ids =
     in_config_mode (concat (map (aruba_reset_block m cur) port_ids))"

definition aruba_baseline_block :: "string \<Rightarrow> string list" where
  "aruba_baseline_block port_id =
     [''interface '' @ normalize_port_id port_id, ''disable'', ''untagged vlan 1'', ''no name'',
      ''enable'', exit_cmd]"

definition aruba_baseline_commands :: "string list \<Rightarrow> string list" where
  "aruba_baseline_commands port_ids = in_config_mode (concat (map aruba_baseline_block port_ids))"

section \<open>The preview\<close>

definition extend_if :: "bool \<Rightarrow> string list \<Rightarrow> string list" where
  "extend_if c cmds = (if c then cmds else [])"

definition aruba_commands_for_diff ::
  "switch_model \<Rightarrow> switch_state option \<Rightarrow> state_diff \<Rightarrow> command_preview" where
  "aruba_commands_for_diff m cur d =
     default_preview
       \<lparr>vlan_commands :=
          extend_if (vlans_to_remove d \<noteq> []) (aruba_remove_vlan_commands (vlans_to_remove d))
          @ extend_if (vlans_to_add d \<noteq> []) (aruba_vlan_commands (vlans_to_add d))
          @ extend_if (vlans_to_update d \<noteq> []) (aruba_vlan_commands (vlans_to_update d)),
        port_commands :=
          extend_if (ports_to_configure d \<noteq> [])
            (aruba_port_commands m cur (ports_to_configure d) (mirrors_to_add d @ mirrors_to_update d)),
        reset_commands :=
          extend_if (ports_to_reset d \<noteq> [])
            (concat (map (\<lambda>port_id.
               [''interface '' @ normalize_port_id port_id, ''disable'', ''untagged vlan 1'', exit_cmd])
               (ports_to_reset d))),
        mirror_commands :=
          extend_if (mirrors_to_remove d \<noteq> []) (aruba_remove_mirror_commands (mirrors_to_remove d))
          @ extend_if (mirrors_to_add d \<noteq> []) (aruba_mirror_commands m (mirrors_to_add d))
          @ extend_if (mirrors_to_update d \<noteq> []) (aruba_mirror_commands m (mirrors_to_update d)),
        snmp_commands :=
          (case snmp_diff d of
             None \<Rightarrow> []
           | Some sd \<Rightarrow>
               if snmp_has_changes sd
               then (case snmp_config_new d of
                       None \<Rightarrow> []
                     | Some snmp \<Rightarrow>
                         aruba_snmp_commands snmp
                           (case cur of
                              None \<Rightarrow> []
                            | Some st \<Rightarrow> (case st_snmp st of None \<Rightarrow> [] | Some s \<Rightarrow> sn_enabled_traps s)))
               else [])\<rparr>"

section \<open>\<open>validate_configuration\<close>\<close>

definition vlan_id_in_range :: "u16 \<Rightarrow> bool" where
  "vlan_id_in_range v \<longleftrightarrow> \<not> (v < 1 \<or> v > 4094)"

definition aruba_validate_configuration :: "switch_config \<Rightarrow> vendor_error + unit" where
  "aruba_validate_configuration config =
     and_then
       (check_all (\<lambda>vl. if vlan_id_in_range (v_id vl) then None
                        else Some (ValidationError (''Invalid VLAN ID: '' @ show_u16 (v_id vl))))
          (s_vlans config))
       (\<lambda>_. check_all (\<lambda>p. if vlan_id_in_range (p_vlan p) then None
                           else Some (ValidationError (''Invalid VLAN ID on port '' @ p_port_id p
                                        @ '': '' @ show_u16 (p_vlan p))))
              (s_ports config))"

end
