(* ===== verification/Aruba_Parser.thy ===== *)
theory Aruba_Parser
  imports Aruba_Commands "HOL-Library.AList"
begin

text \<open>
  How \<open>vendors/aruba.rs\<close> reads a running configuration: the block readers, the two passes of
  \<open>parse_current_state\<close>, SNMP and the management VLAN. \<open>ansi\<close> is the replacement of the regular
  expression for escape sequences, a parameter. A position in the lines (\<open>lines\<close> and \<open>index\<close>)
  is the list of the lines from there on.
\<close>

section \<open>Blocks\<close>

text \<open>What ends a block: \<open>exit\<close> or the header of another block.\<close>

definition block_end :: "string \<Rightarrow> bool" where
  "block_end l \<longleftrightarrow>
     l = ''exit'' \<or> starts_with ''vlan '' l \<or> starts_with ''interface '' l \<or>
     starts_with ''hostname '' l \<or> starts_with ''module '' l"

text \<open>The loop over the lines of a block; it stops at the line that ends it.\<close>

fun scan_block ::
  "(string \<Rightarrow> string) \<Rightarrow> (string \<Rightarrow> 's \<Rightarrow> 's) \<Rightarrow> string list \<Rightarrow> 's \<Rightarrow> 's \<times> string list" where
  "scan_block ansi f [] s = (s, [])"
| "scan_block ansi f (l # ls) s =
     (let inner_line = trim (ansi l) in
      if block_end inner_line then (s, l # ls)
      else if inner_line = [] then scan_block ansi f ls s
      else scan_block ansi f ls (f inner_line s))"

subsection \<open>Interface blocks\<close>

record interface_settings =
  if_description :: "string option"
  if_monitor :: bool
  if_poe_enabled :: bool
  if_mac_notify :: bool
  if_enabled :: bool
  if_speed_duplex :: speed_duplex

definition interface_defaults :: "switch_model \<Rightarrow> interface_settings" where
  "interface_defaults m =
     \<lparr>if_description = None, if_monitor = False, if_poe_enabled = supports_poe m,
      if_mac_notify = False, if_enabled = True, if_speed_duplex = Auto\<rparr>"

definition interface_line :: "string \<Rightarrow> interface_settings \<Rightarrow> interface_settings" where
  "interface_line l s =
     (case strip_prefix ''name '' l of
        Some name \<Rightarrow> s\<lparr>if_description := Some (trim_matches dquote name)\<rparr>
      | None \<Rightarrow>
          if starts_with ''monitor'' l then s\<lparr>if_monitor := True\<rparr>
          else if l = ''no power-over-ethernet'' then s\<lparr>if_poe_enabled := False\<rparr>
          else if starts_with ''power-over-ethernet'' l then s\<lparr>if_poe_enabled := True\<rparr>
          else if starts_with ''mac-notify'' l then s\<lparr>if_mac_notify := True\<rparr>
          else if l = ''no mac-notify'' \<or> starts_with ''no mac-notify'' l then s\<lparr>if_mac_notify := False\<rparr>
          else if l = ''disable'' then s\<lparr>if_enabled := False\<rparr>
          else if l = ''enable'' then s\<lparr>if_enabled := True\<rparr>
          else (case strip_prefix ''speed-duplex '' l of
                  None \<Rightarrow> s
                | Some speed_str \<Rightarrow>
                    (case from_aruba_output (trim speed_str) of
                       Some parsed \<Rightarrow> s\<lparr>if_speed_duplex := parsed\<rparr>
                     | None \<Rightarrow> s)))"

definition parse_interface_name ::
  "(string \<Rightarrow> string) \<Rightarrow> switch_model \<Rightarrow> string list \<Rightarrow> (string \<times> interface_settings) option \<times> string list" where
  "parse_interface_name ansi m ls =
     (case strip_prefix ''interface '' (trim (hd ls)) of
        None \<Rightarrow> (None, ls)
      | Some r \<Rightarrow>
          (case scan_block ansi interface_line (tl ls) (interface_defaults m) of
             (s, rest) \<Rightarrow> (Some (trim r, s), rest)))"

subsection \<open>VLAN blocks\<close>

text \<open>A list of ports like \<open>1-5,7,10-12\<close>.\<close>

definition port_list_part :: "string \<Rightarrow> string list" where
  "port_list_part part =
     (if List.member part (CHR ''-'')
      then (case split_once (CHR ''-'') part of
              None \<Rightarrow> []
            | Some (a, b) \<Rightarrow>
                (case (parse_u16 (trim a), parse_u16 (trim b)) of
                   (Some start, Some stop) \<Rightarrow> map show_nat [unat start ..< Suc (unat stop)]
                 | _ \<Rightarrow> []))
      else (case parse_u16 part of Some _ \<Rightarrow> [part] | None \<Rightarrow> []))"

definition parse_port_list :: "string \<Rightarrow> string list" where
  "parse_port_list port_list =
     concat (map (\<lambda>part. port_list_part (trim part)) (split_on (CHR '','') port_list))"

record vlan_block =
  vb_name :: string
  vb_untagged :: "string list"
  vb_tagged :: "string list"
  vb_ip_config :: vlan_ip_config

definition vlan_block_line :: "string \<Rightarrow> vlan_block \<Rightarrow> vlan_block" where
  "vlan_block_line l s =
     (case strip_prefix ''name '' l of
        Some name \<Rightarrow> s\<lparr>vb_name := trim_matches dquote name\<rparr>
      | None \<Rightarrow>
     (case strip_prefix ''untagged '' l of
        Some ports \<Rightarrow> s\<lparr>vb_untagged := vb_untagged s @ parse_port_list ports\<rparr>
      | None \<Rightarrow>
     (case strip_prefix ''tagged '' l of
        Some ports \<Rightarrow> s\<lparr>vb_tagged := vb_tagged s @ parse_port_list ports\<rparr>
      | None \<Rightarrow>
          if l = ''ip address dhcp-bootp'' then s\<lparr>vb_ip_config := Dhcp\<rparr>
          else (case strip_prefix ''ip address '' l of
                  Some ip_info \<Rightarrow>
                    (case split_whitespace ip_info of
                       a # nm # _ \<Rightarrow> s\<lparr>vb_ip_config := Static a nm\<rparr>
                     | _ \<Rightarrow> s)
                | None \<Rightarrow> if l = ''no ip address'' then s\<lparr>vb_ip_config := IpNone\<rparr> else s))))"

definition parse_vlan_with_ports ::
  "(string \<Rightarrow> string) \<Rightarrow> string list \<Rightarrow> (vlan \<times> string list \<times> string list) option \<times> string list" where
  "parse_vlan_with_ports ansi ls =
     (case strip_prefix ''vlan '' (trim (hd ls)) of
        None \<Rightarrow> (None, ls)
      | Some r \<Rightarrow>
          (case parse_u16 (trim r) of
             None \<Rightarrow> (None, ls)
           | Some vlan_id \<Rightarrow>
               (case scan_block ansi vlan_block_line (tl ls)
                       \<lparr>vb_name = ''VLAN'' @ show_u16 vlan_id, vb_untagged = [], vb_tagged = [],
                        vb_ip_config = IpNone\<rparr> of
                  (s, rest) \<Rightarrow>
                    (Some (\<lparr>v_id = vlan_id, v_name = vb_name s, v_description = None,
                            v_ip_config = vb_ip_config s\<rparr>, vb_untagged s, vb_tagged s), rest))))"

section \<open>The first pass\<close>

record port_vlan_info =
  pv_port_id :: string
  pv_untagged_vlan :: "u16 option"
  pv_tagged_vlans :: "u16 list"
  pv_has_mirror :: bool
  pv_has_monitor :: bool
  pv_poe_enabled :: bool
  pv_mac_notify :: bool
  pv_enabled :: bool
  pv_speed_duplex :: speed_duplex

definition port_vlan_info_new :: "string \<Rightarrow> port_vlan_info" where
  "port_vlan_info_new port_id =
     \<lparr>pv_port_id = port_id, pv_untagged_vlan = None, pv_tagged_vlans = [], pv_has_mirror = False,
      pv_has_monitor = False, pv_poe_enabled = True, pv_mac_notify = False, pv_enabled = True,
      pv_speed_duplex = Auto\<rparr>"

text \<open>\<open>entry(id).or_insert_with(new)\<close>, then a change of the entry.\<close>

definition update_port ::
  "string \<Rightarrow> (port_vlan_info \<Rightarrow> port_vlan_info) \<Rightarrow> (string \<times> port_vlan_info) list \<Rightarrow>
   (string \<times> port_vlan_info) list" where
  "update_port port_id f ports =
     AList.update port_id
       (f (case map_of ports port_id of Some info \<Rightarrow> info | None \<Rightarrow> port_vlan_info_new port_id)) ports"

definition set_interface :: "interface_settings \<Rightarrow> port_vlan_info \<Rightarrow> port_vlan_info" where
  "set_interface s info =
     info\<lparr>pv_has_monitor := if_monitor s, pv_poe_enabled := if_poe_enabled s,
          pv_mac_notify := if_mac_notify s, pv_enabled := if_enabled s,
          pv_speed_duplex := if_speed_duplex s\<rparr>"

definition set_untagged :: "u16 \<Rightarrow> port_vlan_info \<Rightarrow> port_vlan_info" where
  "set_untagged v info = info\<lparr>pv_untagged_vlan := Some v\<rparr>"

definition push_tagged :: "u16 \<Rightarrow> port_vlan_info \<Rightarrow> port_vlan_info" where
  "push_tagged v info = info\<lparr>pv_tagged_vlans := pv_tagged_vlans info @ [v]\<rparr>"

record aruba_reading =
  ar_vlans :: "vlan list"
  ar_names :: "string \<rightharpoonup> string"
  ar_ports :: "(string \<times> port_vlan_info) list"
  ar_mirror_destination :: "string option"

definition empty_reading :: aruba_reading where
  "empty_reading =
     \<lparr>ar_vlans = [], ar_names = Map.empty, ar_ports = [], ar_mirror_destination = None\<rparr>"

definition add_interface :: "string \<Rightarrow> interface_settings \<Rightarrow> aruba_reading \<Rightarrow> aruba_reading" where
  "add_interface port_id s acc =
     acc\<lparr>ar_names := (case if_description s of
                        Some name_val \<Rightarrow> (ar_names acc)(port_id \<mapsto> name_val)
                      | None \<Rightarrow> ar_names acc),
         ar_ports := update_port port_id (set_interface s) (ar_ports acc)\<rparr>"

definition add_vlan :: "vlan \<Rightarrow> string list \<Rightarrow> string list \<Rightarrow> aruba_reading \<Rightarrow> aruba_reading" where
  "add_vlan vl untagged_ports tagged_ports acc =
     acc\<lparr>ar_vlans := ar_vlans acc @ [vl],
         ar_ports :=
           fold (\<lambda>port_id. update_port port_id (push_tagged (v_id vl))) tagged_ports
             (fold (\<lambda>port_id. update_port port_id (set_untagged (v_id vl))) untagged_ports
               (ar_ports acc))\<rparr>"

definition is_comment :: "string \<Rightarrow> bool" where
  "is_comment l \<longleftrightarrow> l = [] \<or> starts_with '';'' l \<or> starts_with ''Running configuration'' l"

text \<open>
  One round of the loop: what is recorded, and the position at the end of the round, which the
  loop then moves one line further.
\<close>

definition aruba_step ::
  "(string \<Rightarrow> string) \<Rightarrow> switch_model \<Rightarrow> string list \<Rightarrow> aruba_reading \<Rightarrow> aruba_reading \<times> string list" where
  "aruba_step ansi m ls acc =
     (let l = trim (hd ls) in
      if is_comment l then (acc, ls)
      else if starts_with ''mirror '' l
      then (case strip_prefix ''mirror '' l of
              Some r \<Rightarrow>
                (case split_whitespace r of
                   _ # p # dest # _ \<Rightarrow>
                     if p = ''port'' then (acc\<lparr>ar_mirror_destination := Some dest\<rparr>, ls) else (acc, ls)
                 | _ \<Rightarrow> (acc, ls))
            | None \<Rightarrow> (acc, ls))
      else if starts_with ''mirror-port '' l
      then (case strip_prefix ''mirror-port '' l of
              Some dest \<Rightarrow> (acc\<lparr>ar_mirror_destination := Some (trim dest)\<rparr>, ls)
            | None \<Rightarrow> (acc, ls))
      else if starts_with ''interface '' l
      then (case parse_interface_name ansi m ls of
              (Some (port_id, s), rest) \<Rightarrow> (add_interface port_id s acc, rest)
            | (None, rest) \<Rightarrow> (acc, rest))
      else if starts_with ''vlan '' l
      then (case parse_vlan_with_ports ansi ls of
              (Some (vl, untagged_ports, tagged_ports), rest) \<Rightarrow>
                (add_vlan vl untagged_ports tagged_ports acc, rest)
            | (None, rest) \<Rightarrow> (acc, rest))
      else (acc, ls))"

lemma scan_block_rest: "length (snd (scan_block ansi f ls s)) \<le> length ls"
  by (induction ansi f ls s rule: scan_block.induct) (auto simp: Let_def le_SucI)

lemma parse_interface_name_rest: "length (snd (parse_interface_name ansi m ls)) \<le> length ls"
  using scan_block_rest [of ansi interface_line "tl ls" "interface_defaults m"]
  by (auto simp: parse_interface_name_def split: option.splits prod.splits)

lemma parse_vlan_with_ports_rest: "length (snd (parse_vlan_with_ports ansi ls)) \<le> length ls"
proof -
  have "length (snd (scan_block ansi vlan_block_line (tl ls) s)) \<le> length ls" for s
    using scan_block_rest [of ansi vlan_block_line "tl ls" s] by simp
  then show ?thesis
    by (auto simp: parse_vlan_with_ports_def split: option.splits prod.splits) (metis snd_conv)
qed

lemma aruba_step_rest: "length (snd (aruba_step ansi m ls acc)) \<le> length ls"
  using parse_interface_name_rest [of ansi m ls] parse_vlan_with_ports_rest [of ansi ls]
  by (auto simp: aruba_step_def Let_def split: option.splits list.splits prod.splits)

function aruba_first_pass ::
  "(string \<Rightarrow> string) \<Rightarrow> switch_model \<Rightarrow> string list \<Rightarrow> aruba_reading \<Rightarrow> aruba_reading" where
  "aruba_first_pass ansi m ls acc =
     (if ls = [] then acc
      else aruba_first_pass ansi m (drop 1 (snd (aruba_step ansi m ls acc)))
             (fst (aruba_step ansi m ls acc)))"
  by pat_completeness auto
termination
proof (relation "measure (\<lambda>(ansi, m, ls, acc). length ls)")
  fix ansi :: "string \<Rightarrow> string" and m :: switch_model and ls :: "string list" and acc :: aruba_reading
  assume ne: "ls \<noteq> []"
  have "length (drop 1 (snd (aruba_step ansi m ls acc))) < length ls"
    using aruba_step_rest [of ansi m ls acc] ne by (cases ls) auto
  then show "((ansi, m, drop 1 (snd (aruba_step ansi m ls acc)), fst (aruba_step ansi m ls acc)),
      ansi, m, ls, acc) \<in> measure (\<lambda>(ansi, m, ls, acc). length ls)"
    by simp
qed simp

declare aruba_first_pass.simps [simp del]

section \<open>The second pass\<close>

definition build_port :: "(string \<rightharpoonup> string) \<Rightarrow> string \<Rightarrow> port_vlan_info \<Rightarrow> port" where
  "build_port names port_id info =
     (let untagged = (case pv_untagged_vlan info of Some v \<Rightarrow> v | None \<Rightarrow> 1);
          mode = (if pv_tagged_vlans info = [] then Access else Trunk);
          tagged =
            (if mode = Trunk
             then sort (if List.member (pv_tagged_vlans info) untagged then pv_tagged_vlans info
                        else pv_tagged_vlans info @ [untagged])
             else pv_tagged_vlans info)
      in \<lparr>p_port_id = port_id, p_mode = mode, p_vlan = untagged, p_tagged_vlans = tagged,
          p_description = names port_id, p_enabled = pv_enabled info,
          p_poe_enabled = pv_poe_enabled info, p_mac_notify = pv_mac_notify info,
          p_speed_duplex = pv_speed_duplex info, p_vlan_name = None, p_tagged_vlan_refs = []\<rparr>)"

text \<open>\<open>it\<close>: the order in which the hash map of ports is gone through.\<close>

definition in_order ::
  "(string list \<Rightarrow> string list) \<Rightarrow> (string \<times> port_vlan_info) list \<Rightarrow> (string \<times> port_vlan_info) list" where
  "in_order it ports =
     List.map_filter (\<lambda>k. map_option (\<lambda>info. (k, info)) (map_of ports k)) (it (map fst ports))"

definition build_ports ::
  "(string list \<Rightarrow> string list) \<Rightarrow> aruba_reading \<Rightarrow> port list" where
  "build_ports it acc = map (\<lambda>(k, info). build_port (ar_names acc) k info) (in_order it (ar_ports acc))"

definition build_mirrors :: "(string list \<Rightarrow> string list) \<Rightarrow> aruba_reading \<Rightarrow> port_mirror list" where
  "build_mirrors it acc =
     (let monitor_ports = map fst (filter (\<lambda>(k, info). pv_has_monitor info) (in_order it (ar_ports acc)))
      in (case ar_mirror_destination acc of
            Some dest \<Rightarrow>
              if monitor_ports \<noteq> []
              then [\<lparr>m_session_id = ''1'', m_source_ports = monitor_ports, m_destination_port = dest,
                     m_direction = Both\<rparr>]
              else []
          | None \<Rightarrow> []))"

section \<open>SNMP and the management VLAN\<close>

text \<open>One line of \<open>show snmp-server traps\<close>: link-change and mac-notify.\<close>

definition trap_status_line :: "string \<Rightarrow> bool \<times> bool \<Rightarrow> bool \<times> bool" where
  "trap_status_line line st =
     (let l = trim line;
          link = (if contains_str ''Link-Change Traps Enabled on Ports'' l
                  then if contains_str '': None'' l then False
                       else if contains_str '': All'' l \<or> contains_str '':'' l then True
                       else fst st
                  else fst st);
          mac = (if contains_str ''MAC address table changes'' l \<and> contains_str ''Enabled'' l then True
                 else if contains_str ''MAC address table changes'' l \<and> contains_str ''Disabled'' l then False
                 else snd st)
      in (link, mac))"

definition trap_status :: "string \<Rightarrow> bool \<times> bool" where
  "trap_status output = fold trap_status_line (lines output) (False, False)"

definition parse_access :: "string \<Rightarrow> snmp_access" where
  "parse_access s =
     (if s = ''unrestricted'' then Unrestricted else if s = ''manager'' then Manager
      else if s = ''operator'' then Operator else Unrestricted)"

text \<open>A community line after its prefix; the name may be quoted.\<close>

definition parse_community :: "string \<Rightarrow> snmp_community option" where
  "parse_community r =
     (let parts = (if starts_with [dquote] r
                   then (case split_once dquote (tl r) of
                           Some (name, remaining) \<Rightarrow> Some [name, trim remaining]
                         | None \<Rightarrow> None)
                   else Some (split_whitespace r))
      in (case parts of
            Some (name # access # _) \<Rightarrow> Some (snmp_community_new name (parse_access access))
          | _ \<Rightarrow> None))"

definition parse_receiver :: "string \<Rightarrow> snmp_trap_receiver option" where
  "parse_receiver r =
     (case split_whitespace r of
        host # kw # c # cs \<Rightarrow>
          if kw = ''community''
          then Some \<lparr>r_host = host,
                     r_community = (if starts_with [dquote] c
                                    then trim_matches dquote (join '' '' (c # cs)) else c),
                     r_version = Some ''2c''\<rparr>
          else None
      | _ \<Rightarrow> None)"

definition snmp_line ::
  "string \<Rightarrow> snmp_community list \<times> snmp_trap_receiver list \<Rightarrow>
   snmp_community list \<times> snmp_trap_receiver list" where
  "snmp_line line st =
     (let l = trim line in
      if starts_with ''snmp-server community'' l
      then (case strip_prefix ''snmp-server community '' l of
              None \<Rightarrow> st
            | Some r \<Rightarrow>
                (case parse_community r of Some c \<Rightarrow> (fst st @ [c], snd st) | None \<Rightarrow> st))
      else if starts_with ''snmp-server host '' l
      then (case strip_prefix ''snmp-server host '' l of
              None \<Rightarrow> st
            | Some r \<Rightarrow>
                (case parse_receiver r of Some c \<Rightarrow> (fst st, snd st @ [c]) | None \<Rightarrow> st))
      else st)"

definition parse_snmp_config :: "string list \<Rightarrow> bool \<times> bool \<Rightarrow> snmp_config option" where
  "parse_snmp_config ls status =
     (let (communities, trap_receivers) = fold snmp_line ls ([], []);
          enabled_traps = (if fst status then [LinkChange] else []) @ (if snd status then [MacNotify] else [])
      in if communities \<noteq> [] \<or> trap_receivers \<noteq> [] \<or> enabled_traps \<noteq> []
         then Some \<lparr>sn_communities = communities, sn_trap_receivers = trap_receivers,
                    sn_enabled_traps = enabled_traps, sn_reads = None\<rparr>
         else None)"

fun parse_management_vlan :: "string list \<Rightarrow> u16 option" where
  "parse_management_vlan [] = None"
| "parse_management_vlan (line # ls) =
     (case strip_prefix ''management-vlan '' (trim line) of
        None \<Rightarrow> parse_management_vlan ls
      | Some r \<Rightarrow>
          (case parse_u16 (trim r) of
             Some vlan_id \<Rightarrow> Some vlan_id
           | None \<Rightarrow>
               (case strip_prefix ''vlan'' (trim r) of
                  None \<Rightarrow> parse_management_vlan ls
                | Some num_str \<Rightarrow>
                    (case parse_u16 num_str of
                       Some vlan_id \<Rightarrow> Some vlan_id
                     | None \<Rightarrow> parse_management_vlan ls))))"

section \<open>The parsed state\<close>

text \<open>
  What \<open>parse_current_state\<close> makes of the running configuration and of the trap status read from
  \<open>show snmp-server traps\<close>; \<open>hw_id\<close> is the regular expression for the product number.
\<close>

definition aruba_parse ::
  "(string \<Rightarrow> string) \<Rightarrow> (string \<Rightarrow> string option) \<Rightarrow> (string list \<Rightarrow> string list) \<Rightarrow> switch_model \<Rightarrow>
   string \<Rightarrow> bool \<times> bool \<Rightarrow> switch_state" where
  "aruba_parse ansi hw_id it m config status =
     (let clean_config = ansi config;
          ls = lines clean_config;
          acc = aruba_first_pass ansi m ls empty_reading
      in default_state
           \<lparr>st_warnings := verify_hardware_model hw_id clean_config m,
            st_vlans := ar_vlans acc,
            st_ports := build_ports it acc,
            st_port_mirrors := build_mirrors it acc,
            st_snmp := parse_snmp_config ls status,
            st_management_vlan := parse_management_vlan ls\<rparr>)"

section \<open>MAC-address table\<close>

definition aruba_looks_like_mac :: "string \<Rightarrow> bool" where
  "aruba_looks_like_mac token \<longleftrightarrow>
     (let parts = split_on (CHR ''-'') token
      in length parts = 3 \<and> list_all (\<lambda>p. length p = 4 \<and> list_all is_ascii_hexdigit p) parts)"

definition aruba_mac_line :: "string \<Rightarrow> mac_table_entry option" where
  "aruba_mac_line line =
     (case split_whitespace line of
        mac # port_id # _ \<Rightarrow>
          if aruba_looks_like_mac mac
          then Some \<lparr>mt_mac_address = mac, mt_vlan_id = None, mt_port_id = port_id\<rparr>
          else None
      | _ \<Rightarrow> None)"

definition aruba_parse_mac_table :: "string \<Rightarrow> mac_table_entry list" where
  "aruba_parse_mac_table raw = List.map_filter aruba_mac_line (lines raw)"

definition aruba_command_rejected :: "string \<Rightarrow> bool" where
  "aruba_command_rejected raw \<longleftrightarrow> contains_str ''Invalid input:'' raw"

end
