(* ===== verification/Aruba_State.thy ===== *)
theory Aruba_State
  imports Aruba_Parser
begin

text \<open>
  What every state read from an Aruba switch looks like, whatever the text, and which
  configurations such a state can therefore never agree with.
\<close>

section \<open>The map of ports has one entry per port\<close>

lemma distinct_update_port: "distinct (map fst m) \<Longrightarrow> distinct (map fst (update_port k f m))"
  by (simp add: update_port_def AList.distinct_update)

lemma distinct_fold_update_port:
  "distinct (map fst m) \<Longrightarrow> distinct (map fst (fold (\<lambda>k. update_port k f) ks m))"
  by (induction ks arbitrary: m) (simp_all add: distinct_update_port)

lemma distinct_add_interface:
  "distinct (map fst (ar_ports acc)) \<Longrightarrow> distinct (map fst (ar_ports (add_interface k s acc)))"
  by (simp add: add_interface_def distinct_update_port)

lemma distinct_add_vlan:
  "distinct (map fst (ar_ports acc)) \<Longrightarrow> distinct (map fst (ar_ports (add_vlan v us ts acc)))"
  by (simp add: add_vlan_def distinct_fold_update_port)

lemma distinct_aruba_step:
  "distinct (map fst (ar_ports acc)) \<Longrightarrow> distinct (map fst (ar_ports (fst (aruba_step ansi m ls acc))))"
  by (auto simp: aruba_step_def Let_def distinct_add_interface distinct_add_vlan
      split: option.splits list.splits prod.splits)

lemma distinct_aruba_first_pass:
  "distinct (map fst (ar_ports acc)) \<Longrightarrow> distinct (map fst (ar_ports (aruba_first_pass ansi m ls acc)))"
proof (induction ansi m ls acc rule: aruba_first_pass.induct)
  case (1 ansi m ls acc)
  then show ?case
    by (subst aruba_first_pass.simps) (simp add: distinct_aruba_step)
qed

lemma in_order_keys:
  assumes "iterates it" and "distinct (map fst ports)"
  shows "map fst (in_order it ports) = it (map fst ports)"
proof -
  have "map fst (in_order it ports) = filter (\<lambda>k. map_of ports k \<noteq> None) (it (map fst ports))"
    unfolding in_order_def by (subst map_filter_keys) auto
  also have "\<dots> = it (map fst ports)"
    using set_iterates [OF assms(1)] by (auto simp: filter_id_conv map_of_eq_None_iff)
  finally show ?thesis .
qed

lemma build_port_id [simp]: "p_port_id (build_port names k info) = k"
  by (simp add: build_port_def Let_def)

lemma build_ports_ids:
  assumes "iterates it" and "distinct (map fst (ar_ports acc))"
  shows "map p_port_id (build_ports it acc) = it (map fst (ar_ports acc))"
  using in_order_keys [OF assms] by (simp add: build_ports_def comp_def case_prod_beta)

section \<open>Ports that were read\<close>

definition wf_read_port :: "port \<Rightarrow> bool" where
  "wf_read_port p \<longleftrightarrow>
     p_mode p = inferred_mode p \<and> sorted (p_tagged_vlans p) \<and>
     (p_tagged_vlans p = [] \<or> p_vlan p \<in> set (p_tagged_vlans p)) \<and>
     p_vlan_name p = None \<and> p_tagged_vlan_refs p = []"

lemma sort_Nil_iff: "sort xs = [] \<longleftrightarrow> xs = []"
  by (metis length_0_conv length_sort)

lemma wf_build_port: "wf_read_port (build_port names k info)"
  by (auto simp: wf_read_port_def build_port_def Let_def inferred_mode_def sort_Nil_iff)

lemma aruba_parse_ports:
  "st_ports (aruba_parse ansi hw_id it m config status) =
     build_ports it (aruba_first_pass ansi m (lines (ansi config)) empty_reading)"
  by (simp add: aruba_parse_def Let_def)

lemma wf_aruba_parse: "p \<in> set (st_ports (aruba_parse ansi hw_id it m config status)) \<Longrightarrow> wf_read_port p"
  by (auto simp: aruba_parse_ports build_ports_def wf_build_port)

lemma distinct_aruba_parse:
  assumes "iterates it"
  shows "distinct (map p_port_id (st_ports (aruba_parse ansi hw_id it m config status)))"
proof -
  have "distinct (map fst (ar_ports (aruba_first_pass ansi m (lines (ansi config)) empty_reading)))"
    by (intro distinct_aruba_first_pass) (simp add: empty_reading_def)
  with assms show ?thesis
    by (simp add: aruba_parse_ports build_ports_ids distinct_iterates)
qed

text \<open>C12: Whatever text an Aruba switch answers with, the state read from it is well-formed: every port
  occurs once, its stored mode is the one inferred from its tagged VLANs, these are sorted and, on a
  trunk, contain the native VLAN, and no VLAN name is left to resolve.\<close>

theorem aruba_state_wellformed:
  assumes "iterates it"
  shows "distinct (map p_port_id (st_ports (aruba_parse ansi hw_id it m config status))) \<and>
         list_all wf_read_port (st_ports (aruba_parse ansi hw_id it m config status))"
  using distinct_aruba_parse [OF assms] wf_aruba_parse by (auto simp: list_all_iff)

theorem aruba_state_wellformed_witness:
  "iterates rev \<and>
   distinct (map p_port_id (st_ports (aruba_parse (\<lambda>s. s) (\<lambda>_. None) rev Aruba2930F
     (unlines [''interface 1'', ''   name Uplink'', ''   exit'']) (False, True))))"
  using aruba_state_wellformed [OF iterates_rev] iterates_rev by blast

section \<open>Configurations no reading agrees with\<close>

lemma collect_build_port:
  "collect p_port_id (st_ports (aruba_parse ansi hw_id it m config status)) k = Some c \<Longrightarrow> wf_read_port c"
  by (auto dest: collect_SomeD wf_aruba_parse)

lemma sorted_filter_u16: "sorted (xs :: u16 list) \<Longrightarrow> sorted (filter P xs)"
  by (rule sorted_filter [of "\<lambda>x. x", simplified])

text \<open>A trunk port whose tagged VLANs are listed in any but ascending order (the documentation allows
  that, and says that the order is kept) is never in sync on an Aruba switch: every state read from it
  lists them sorted, and the comparison looks at the order.\<close>

theorem aruba_unsorted_trunk_never_in_sync:
  assumes "p \<in> set (s_ports sw)" and "\<not> sorted (filter (\<lambda>v. v \<noteq> p_vlan p) (p_tagged_vlans p))"
    and "hash_iter_ok it"
  shows "has_changes (compute_diff it (aruba_parse ansi hw_id ord m config status) sw f)"
proof -
  have "\<not> ports_equivalent_for_model c p poe" if "wf_read_port c" for c poe
  proof
    assume "ports_equivalent_for_model c p poe"
    then have "filter (\<lambda>v. v \<noteq> p_vlan c) (p_tagged_vlans c) = filter (\<lambda>v. v \<noteq> p_vlan p) (p_tagged_vlans p)"
      by (auto simp: ports_equivalent_for_model_def Let_def split: if_splits)
    moreover have "sorted (filter (\<lambda>v. v \<noteq> p_vlan c) (p_tagged_vlans c))"
      using that by (simp add: wf_read_port_def sorted_filter_u16)
    ultimately show False using assms(2) by simp
  qed
  with assms(1) have "\<not> state_in_sync (aruba_parse ansi hw_id ord m config status) sw f"
    unfolding state_in_sync_def by (blast dest: collect_build_port)
  then show ?thesis using has_changes_iff_out_of_sync [OF assms(3)] by blast
qed

definition trunk_example :: switch_config where
  "trunk_example =
     example_desired\<lparr>s_ports := [(plain_port True ''7'')\<lparr>p_vlan := 10, p_tagged_vlans := [30, 20]\<rparr>]\<rparr>"

theorem aruba_unsorted_trunk_never_in_sync_witness:
  "p_tagged_vlans (hd (s_ports trunk_example)) = [30, 20] \<and>
   has_changes (compute_diff plain_iter
     (aruba_parse (\<lambda>s. s) (\<lambda>_. None) rev Aruba2930F (unlines [''vlan 20'', ''   tagged 7'', ''   exit'']) (False, True))
     trunk_example False)"
proof -
  let ?p = "(plain_port True ''7'')\<lparr>p_vlan := 10, p_tagged_vlans := [30, 20]\<rparr>"
  have 1: "?p \<in> set (s_ports trunk_example)" by (simp add: trunk_example_def)
  have 2: "\<not> sorted (filter (\<lambda>v. v \<noteq> p_vlan ?p) (p_tagged_vlans ?p))" by simp
  from aruba_unsorted_trunk_never_in_sync [OF 1 2 iter_ok(1)] show ?thesis
    by (simp add: trunk_example_def)
qed

text \<open>A mirror whose session is not called \<open>1\<close>, or that mirrors one direction only, is never in sync
  on an Aruba switch: the reader reports the session as \<open>1\<close> and the direction as both.\<close>

theorem aruba_mirror_never_in_sync:
  assumes "mir \<in> set (s_port_mirrors sw)" and "distinct (map m_session_id (s_port_mirrors sw))"
    and "m_session_id mir \<noteq> ''1'' \<or> m_direction mir \<noteq> Both" and "hash_iter_ok it"
  shows "has_changes (compute_diff it (aruba_parse ansi hw_id ord m config status) sw f)"
proof -
  let ?st = "aruba_parse ansi hw_id ord m config status"
  have read: "m_session_id c = ''1'' \<and> m_direction c = Both" if "c \<in> set (st_port_mirrors ?st)" for c
    using that by (auto simp: aruba_parse_def build_mirrors_def Let_def split: option.splits if_splits)
  have des: "collect m_session_id (s_port_mirrors sw) (m_session_id mir) = Some mir"
    using assms(1,2) by (intro collect_distinct)
  have "\<not> tables_in_sync m_session_id (=) (\<lambda>_. False) (st_port_mirrors ?st) (s_port_mirrors sw)"
  proof
    assume sync: "tables_in_sync m_session_id (=) (\<lambda>_. False) (st_port_mirrors ?st) (s_port_mirrors sw)"
    from assms(1) have "m_session_id mir \<in> m_session_id ` set (s_port_mirrors sw)" by blast
    with sync des have "collect m_session_id (st_port_mirrors ?st) (m_session_id mir) = Some mir"
      unfolding tables_in_sync_def by (auto split: option.splits)
    then have "mir \<in> set (st_port_mirrors ?st)" by (auto dest: collect_SomeD)
    with read assms(3) show False by blast
  qed
  then have "\<not> state_in_sync ?st sw f" by (simp add: state_in_sync_def)
  then show ?thesis using has_changes_iff_out_of_sync [OF assms(4)] by blast
qed

definition mirror_example :: switch_config where
  "mirror_example =
     example_desired\<lparr>s_port_mirrors := [\<lparr>m_session_id = ''1'', m_source_ports = [''3''],
        m_destination_port = ''24'', m_direction = Rx\<rparr>]\<rparr>"

theorem aruba_mirror_never_in_sync_witness:
  "m_direction (hd (s_port_mirrors mirror_example)) = Rx \<and>
   has_changes (compute_diff plain_iter
     (aruba_parse (\<lambda>s. s) (\<lambda>_. None) rev Aruba2930F (unlines [''mirror 1 port 24'']) (False, True)) mirror_example False)"
proof -
  let ?m = "\<lparr>m_session_id = ''1'', m_source_ports = [''3''], m_destination_port = ''24'', m_direction = Rx\<rparr>"
  have 1: "?m \<in> set (s_port_mirrors mirror_example)" by (simp add: mirror_example_def)
  have 2: "distinct (map m_session_id (s_port_mirrors mirror_example))" by (simp add: mirror_example_def)
  have 3: "m_session_id ?m \<noteq> ''1'' \<or> m_direction ?m \<noteq> Both" by simp
  from aruba_mirror_never_in_sync [OF 1 2 3 iter_ok(1)] show ?thesis by (simp add: mirror_example_def)
qed

lemma distinct_singleton: "distinct xs \<Longrightarrow> set xs = {a} \<Longrightarrow> xs = [a]"
  by (cases xs) (auto simp: subset_singleton_iff)

lemma parsed_traps:
  "parse_snmp_config ls (link, mac) = Some c \<Longrightarrow>
     sn_enabled_traps c = (if link then [LinkChange] else []) @ (if mac then [MacNotify] else [])"
  by (auto simp: parse_snmp_config_def Let_def split: prod.splits if_splits)

text \<open>With the trap type \<open>all\<close> an Aruba switch never settles. Once its first apply has switched on
  link-change and mac-notify traps, the next difference enables \<open>all\<close> again and disables both,
  and the commands run in that order, so the switch ends with its traps off.\<close>

theorem aruba_all_traps_flip:
  assumes "hash_iter_ok it" and "parse_snmp_config ls (True, True) = Some current"
    and "set (sn_enabled_traps desired) = {AllTraps}"
  shows "traps_to_enable (compute_snmp_diff it current desired) = [AllTraps] \<and>
         set (traps_to_disable (compute_snmp_diff it current desired)) = {LinkChange, MacNotify} \<and>
         (\<exists>pre post. aruba_snmp_diff_commands (compute_snmp_diff it current desired) =
            pre @ [''snmp-server enable traps mac-notify'', ''snmp-server enable traps link-change all'']
            @ post @ [exit_cmd] \<and>
            set post = {''no snmp-server enable traps mac-notify'', ''no snmp-server enable traps link-change''})"
proof -
  let ?d = "compute_snmp_diff it current desired"
  have cur: "sn_enabled_traps current = [LinkChange, MacNotify]" using parsed_traps [OF assms(2)] by simp
  have e: "set (traps_to_enable ?d) = {AllTraps}" and d: "set (traps_to_disable ?d) = {LinkChange, MacNotify}"
    and dist: "distinct (traps_to_enable ?d)"
    using assms(1,3) cur by (auto simp: compute_snmp_diff_def trap_changes_def hash_difference_def hash_iter_ok_def
        tab_simps Let_def split: prod.splits)
  from dist e have en: "traps_to_enable ?d = [AllTraps]" by (rule distinct_singleton)
  let ?post = "concat (map aruba_disable_trap (traps_to_disable ?d))"
  have "set ?post = {''no snmp-server enable traps mac-notify'', ''no snmp-server enable traps link-change''}"
    by (simp add: d insert_commute)
  moreover have "aruba_snmp_diff_commands ?d =
      (configure_terminal # map no_community (communities_to_remove ?d)
         @ concat (map (\<lambda>c. [no_community (c_name c), aruba_community_command c]) (communities_to_update ?d))
         @ map aruba_community_command (communities_to_add ?d)
         @ map (\<lambda>host. ''no snmp-server host '' @ host) (trap_receivers_to_remove ?d)
         @ map aruba_receiver_command (trap_receivers_to_add ?d))
      @ [''snmp-server enable traps mac-notify'', ''snmp-server enable traps link-change all'']
      @ ?post @ [exit_cmd]"
    unfolding aruba_snmp_diff_commands_def in_config_mode_def en by simp
  ultimately show ?thesis using en d by blast
qed

theorem aruba_all_traps_flip_witness:
  "traps_to_enable (compute_snmp_diff plain_iter
       \<lparr>sn_communities = [], sn_trap_receivers = [], sn_enabled_traps = [LinkChange, MacNotify], sn_reads = None\<rparr>
       \<lparr>sn_communities = [], sn_trap_receivers = [], sn_enabled_traps = [AllTraps], sn_reads = None\<rparr>) = [AllTraps] \<and>
   set (traps_to_disable (compute_snmp_diff plain_iter
       \<lparr>sn_communities = [], sn_trap_receivers = [], sn_enabled_traps = [LinkChange, MacNotify], sn_reads = None\<rparr>
       \<lparr>sn_communities = [], sn_trap_receivers = [], sn_enabled_traps = [AllTraps], sn_reads = None\<rparr>)) =
     {LinkChange, MacNotify}"
proof -
  let ?d = "\<lparr>sn_communities = [], sn_trap_receivers = [], sn_enabled_traps = [AllTraps], sn_reads = None\<rparr>"
  have 1: "parse_snmp_config [] (True, True) =
      Some \<lparr>sn_communities = [], sn_trap_receivers = [], sn_enabled_traps = [LinkChange, MacNotify], sn_reads = None\<rparr>"
    by (simp add: parse_snmp_config_def)
  have 2: "set (sn_enabled_traps ?d) = {AllTraps}" by simp
  from aruba_all_traps_flip [OF iter_ok(1) 1 2] show ?thesis by blast
qed

end
