(* ===== verification/Aruba.thy ===== *)
theory Aruba
  imports Aruba_State
begin

text \<open>
  The driver of \<open>vendors/aruba.rs\<close>: its operations on a session. \<open>aruba_plan\<close> says which batches of
  commands \<open>apply_diff\<close> sends, in which order; the driver is an instance of the contract
  \<open>switch_driver\<close>.
\<close>

section \<open>Reading\<close>

abbreviation show_running_config :: string where
  "show_running_config \<equiv> ''show running-config''"

abbreviation show_traps :: string where
  "show_traps \<equiv> ''show snmp-server traps''"

definition aruba_get_running_config :: "'d cli \<Rightarrow> ('d, string) act" where
  "aruba_get_running_config cli = run_command cli show_running_config"

definition aruba_parse_snmp_trap_status :: "'d cli \<Rightarrow> ('d, bool \<times> bool) act" where
  "aruba_parse_snmp_trap_status cli =
     act_bind (run_commands cli [show_traps]) (\<lambda>outputs.
     act_return (trap_status (first_output outputs)))"

text \<open>\<open>ord\<close>: the order in which the hash map of ports comes out.\<close>

definition aruba_parse_current_state ::
  "'d cli \<Rightarrow> (string \<Rightarrow> string) \<Rightarrow> (string \<Rightarrow> string option) \<Rightarrow> (string list \<Rightarrow> string list) \<Rightarrow>
   ('d, switch_state) act" where
  "aruba_parse_current_state cli ansi hw_id ord =
     act_bind (aruba_get_running_config cli) (\<lambda>config.
     act_bind (aruba_parse_snmp_trap_status cli) (\<lambda>status.
     act_bind act_get (\<lambda>s.
     act_return (aruba_parse ansi hw_id ord (dr_model s) config status))))"

definition aruba_get_mac_table :: "'d cli \<Rightarrow> ('d, mac_table_entry list \<times> string) act" where
  "aruba_get_mac_table cli =
     act_bind (run_commands cli [''show mac-address'']) (\<lambda>outputs.
       let raw = join [newline] outputs in
       if aruba_command_rejected raw
       then act_fail (CommandError (''Switch rejected '' @ [CHR 0x27] @ ''show mac-address''
                        @ [CHR 0x27] @ '': '' @ trim raw))
       else act_return (aruba_parse_mac_table raw, raw))"

section \<open>Writing\<close>

definition aruba_remove_vlans :: "'d cli \<Rightarrow> u16 list \<Rightarrow> ('d, config_result) act" where
  "aruba_remove_vlans cli vlan_ids =
     run_and_report cli (aruba_remove_vlan_commands vlan_ids) (counted ''Removed '' (length vlan_ids) '' VLANs'')"

definition aruba_migrate_ports ::
  "'d cli \<Rightarrow> (u16 list \<Rightarrow> u16 list) \<Rightarrow> port_migration list \<Rightarrow> ('d, config_result) act" where
  "aruba_migrate_ports cli it migrations =
     run_and_report cli (aruba_migrate_commands it migrations)
       (counted ''Migrated '' (length migrations) '' ports before VLAN deletion'')"

definition aruba_remove_mirrors :: "'d cli \<Rightarrow> string list \<Rightarrow> ('d, config_result) act" where
  "aruba_remove_mirrors cli session_ids =
     run_and_report cli (aruba_remove_mirror_commands session_ids)
       (counted ''Removed '' (length session_ids) '' port mirrors'')"

definition aruba_configure_vlans :: "'d cli \<Rightarrow> vlan list \<Rightarrow> ('d, config_result) act" where
  "aruba_configure_vlans cli vlans =
     run_and_report cli (aruba_vlan_commands vlans) (counted ''Configured '' (length vlans) '' VLANs'')"

definition aruba_configure_ports :: "'d cli \<Rightarrow> port list \<Rightarrow> ('d, config_result) act" where
  "aruba_configure_ports cli ports =
     act_bind act_get (\<lambda>s.
       run_and_report cli
         (aruba_port_commands (dr_model s) (dr_current s) ports (s_port_mirrors (dr_config s)))
         (counted ''Configured '' (length ports) '' ports''))"

definition aruba_reset_ports :: "'d cli \<Rightarrow> string list \<Rightarrow> ('d, config_result) act" where
  "aruba_reset_ports cli port_ids =
     act_bind act_get (\<lambda>s.
       run_and_report cli (aruba_reset_commands (dr_model s) (dr_current s) port_ids)
         (counted ''Reset '' (length port_ids) '' ports to default state''))"

definition aruba_configure_mirror_dest_ports :: "'d cli \<Rightarrow> string list \<Rightarrow> ('d, config_result) act" where
  "aruba_configure_mirror_dest_ports cli port_ids =
     run_and_report cli (aruba_baseline_commands port_ids)
       (counted ''Configured '' (length port_ids) '' mirror destination ports with baseline settings'')"

definition aruba_configure_port_mirrors :: "'d cli \<Rightarrow> port_mirror list \<Rightarrow> ('d, config_result) act" where
  "aruba_configure_port_mirrors cli mirrors =
     act_bind act_get (\<lambda>s.
       run_and_report cli (aruba_mirror_commands (dr_model s) mirrors)
         (counted ''Configured '' (length mirrors) '' port mirrors''))"

definition aruba_apply_snmp_diff :: "'d cli \<Rightarrow> snmp_state_diff \<Rightarrow> ('d, config_result) act" where
  "aruba_apply_snmp_diff cli sd =
     (if \<not> snmp_has_changes sd
      then act_bind act_get (\<lambda>s. act_return
             \<lparr>res_switch = dr_hostname s, res_success = True,
              res_message = ''SNMP configuration already in desired state'', res_commands = []\<rparr>)
      else run_and_report cli (aruba_snmp_diff_commands sd)
             (counted ''Applied '' (aruba_snmp_diff_actions sd) '' SNMP changes''))"

definition aruba_configure_management_vlan :: "'d cli \<Rightarrow> u16 \<Rightarrow> ('d, config_result) act" where
  "aruba_configure_management_vlan cli vlan_id =
     run_and_report cli (aruba_management_vlan_commands vlan_id)
       (''Configured management VLAN '' @ show_u16 vlan_id)"

definition aruba_remove_management_vlan :: "'d cli \<Rightarrow> ('d, config_result) act" where
  "aruba_remove_management_vlan cli =
     run_and_report cli aruba_remove_management_vlan_commands ''Removed management VLAN configuration''"

subsection \<open>The full SNMP replacement\<close>

text \<open>The removal of one trap receiver, from its line in the running configuration.\<close>

definition receiver_removal :: "string \<Rightarrow> string option" where
  "receiver_removal line =
     (case strip_prefix ''snmp-server host '' (trim line) of
        None \<Rightarrow> None
      | Some after_host \<Rightarrow>
          (case split_whitespace after_host of
             [] \<Rightarrow> None
           | host_ip # ps \<Rightarrow>
               (case ps of
                  kw # c # _ \<Rightarrow>
                    if kw = ''community''
                    then Some (''no snmp-server host '' @ host_ip @ '' community ''
                               @ quoted (trim_matches dquote c))
                    else Some (''no snmp-server host '' @ host_ip)
                | _ \<Rightarrow> Some (''no snmp-server host '' @ host_ip))))"

definition receiver_hosts :: "string \<Rightarrow> string list" where
  "receiver_hosts running_config =
     List.map_filter (\<lambda>line.
       (case strip_prefix ''snmp-server host '' (trim line) of
          None \<Rightarrow> None
        | Some after_host \<Rightarrow>
            (case split_whitespace after_host of [] \<Rightarrow> None | host_ip # _ \<Rightarrow> Some host_ip)))
       (lines running_config)"

definition removal_commands :: "string \<Rightarrow> string list" where
  "removal_commands running_config =
     in_config_mode (List.map_filter receiver_removal (lines running_config))"

definition aruba_configure_snmp :: "'d cli \<Rightarrow> snmp_config \<Rightarrow> ('d, config_result) act" where
  "aruba_configure_snmp cli snmp =
     act_bind (run_commands cli [show_running_config]) (\<lambda>outputs.
       let running_config = first_output outputs;
           removal = removal_commands running_config
       in act_bind (if length removal > 2 then run_commands cli removal else act_return []) (\<lambda>_.
          act_bind (aruba_parse_snmp_trap_status cli) (\<lambda>status.
            let current_traps =
                  (case parse_snmp_config (lines running_config) status of
                     Some c \<Rightarrow> sn_enabled_traps c | None \<Rightarrow> []);
                commands = aruba_snmp_commands snmp current_traps
            in act_bind (run_commands cli commands) (\<lambda>_.
               act_bind (run_commands cli [show_running_config]) (\<lambda>verify.
               act_bind act_get (\<lambda>s.
               act_return
                 \<lparr>res_switch = dr_hostname s, res_success = True,
                  res_message = counted ''Configured SNMP settings (verified: ''
                    (length (receiver_hosts (first_output verify))) '' trap receivers)'',
                  res_commands = commands\<rparr>))))))"

section \<open>\<open>apply_diff\<close>\<close>

definition aruba_remove_stage ::
  "'d cli \<Rightarrow> (u16 list \<Rightarrow> u16 list) \<Rightarrow> state_diff \<Rightarrow> config_result list \<Rightarrow> ('d, config_result list) act" where
  "aruba_remove_stage cli it d results =
     (let vlans = filter (\<lambda>v. v \<noteq> 1) (vlans_to_remove d) in
      if vlans \<noteq> []
      then act_bind act_get (\<lambda>s.
             let migrations = (case dr_current s of
                                 Some st \<Rightarrow> find_ports_to_migrate st vlans | None \<Rightarrow> [])
             in act_bind (push_if (migrations \<noteq> []) (aruba_migrate_ports cli it migrations) results)
                  (push_if True (aruba_remove_vlans cli vlans)))
      else act_return results)"

definition aruba_snmp_stage ::
  "'d cli \<Rightarrow> state_diff \<Rightarrow> config_result list \<Rightarrow> ('d, config_result list) act" where
  "aruba_snmp_stage cli d results =
     (case snmp_diff d of
        Some sd \<Rightarrow> push_if (snmp_has_changes sd) (aruba_apply_snmp_diff cli sd) results
      | None \<Rightarrow>
          if snmp_config_changed d
          then (case snmp_config_new d of
                  Some snmp \<Rightarrow> push_if True (aruba_configure_snmp cli snmp) results
                | None \<Rightarrow> act_return results)
          else act_return results)"

definition aruba_management_stage ::
  "'d cli \<Rightarrow> state_diff \<Rightarrow> config_result list \<Rightarrow> ('d, config_result list) act" where
  "aruba_management_stage cli d results =
     (if management_vlan_changed d
      then (case management_vlan_new d of
              Some vlan_id \<Rightarrow> push_if True (aruba_configure_management_vlan cli vlan_id) results
            | None \<Rightarrow> push_if True (aruba_remove_management_vlan cli) results)
      else act_return results)"

definition aruba_apply_diff ::
  "'d cli \<Rightarrow> (u16 list \<Rightarrow> u16 list) \<Rightarrow> state_diff \<Rightarrow> ('d, config_result list) act" where
  "aruba_apply_diff cli it d =
     act_bind (aruba_remove_stage cli it d []) (\<lambda>r.
     act_bind (push_if (vlans_to_add d \<noteq> []) (aruba_configure_vlans cli (vlans_to_add d)) r) (\<lambda>r.
     act_bind (push_if (vlans_to_update d \<noteq> []) (aruba_configure_vlans cli (vlans_to_update d)) r) (\<lambda>r.
     act_bind (push_if (ports_to_configure d \<noteq> []) (aruba_configure_ports cli (ports_to_configure d)) r) (\<lambda>r.
     act_bind (push_if (ports_to_reset d \<noteq> []) (aruba_reset_ports cli (ports_to_reset d)) r) (\<lambda>r.
     act_bind (push_if (mirror_dest_ports_to_configure d \<noteq> [])
                (aruba_configure_mirror_dest_ports cli (mirror_dest_ports_to_configure d)) r) (\<lambda>r.
     act_bind (push_if (mirrors_to_remove d \<noteq> []) (aruba_remove_mirrors cli (mirrors_to_remove d)) r) (\<lambda>r.
     act_bind (push_if (mirrors_to_add d \<noteq> []) (aruba_configure_port_mirrors cli (mirrors_to_add d)) r) (\<lambda>r.
     act_bind (push_if (mirrors_to_update d \<noteq> []) (aruba_configure_port_mirrors cli (mirrors_to_update d)) r) (\<lambda>r.
     act_bind (aruba_snmp_stage cli d r) (\<lambda>r.
     aruba_management_stage cli d r))))))))))"

section \<open>Applying, saving, rolling back\<close>

definition aruba_apply_configuration ::
  "'d cli \<Rightarrow> (string \<Rightarrow> string) \<Rightarrow> (string \<Rightarrow> string option) \<Rightarrow> (string list \<Rightarrow> string list) \<Rightarrow>
   (string list \<Rightarrow> string list) \<Rightarrow> (u16 list \<Rightarrow> u16 list) \<Rightarrow> hash_iter \<Rightarrow> hash_iter \<Rightarrow>
   ('d, config_result list) act" where
  "aruba_apply_configuration cli ansi hw_id ord ord' mig it it' =
     apply_configuration it it' (aruba_parse_current_state cli ansi hw_id ord)
       (aruba_parse_current_state cli ansi hw_id ord') (aruba_apply_diff cli mig)"

definition aruba_save_configuration :: "'d cli \<Rightarrow> ('d, unit) act" where
  "aruba_save_configuration cli =
     act_bind (run_command cli ''write memory'') (\<lambda>_. act_return ())"

fun aruba_rollback_configuration :: "'d cli \<Rightarrow> rollback_method \<Rightarrow> ('d, unit) act" where
  "aruba_rollback_configuration cli Reload =
     act_bind (run_command_as cli ''Reload failed: '' ''reload'') (\<lambda>_. act_return ())"
| "aruba_rollback_configuration cli RestoreBackup =
     act_bind (run_command_as cli ''Restore failed: '' ''copy startup-config running-config'')
       (\<lambda>_. act_return ())"
| "aruba_rollback_configuration cli RevertCommands =
     act_bind (run_command_as cli ''Revert failed: '' ''copy startup-config running-config'')
       (\<lambda>_. act_return ())"

section \<open>The batches of an apply\<close>

text \<open>
  VLAN removal comes first, after the ports were moved out; then VLANs before the ports that use
  them, ports before mirrors, and SNMP and the management VLAN last.
\<close>

definition aruba_migrations :: "state_diff \<Rightarrow> switch_state option \<Rightarrow> port_migration list" where
  "aruba_migrations d cur =
     (case cur of
        Some st \<Rightarrow> find_ports_to_migrate st (filter (\<lambda>v. v \<noteq> 1) (vlans_to_remove d))
      | None \<Rightarrow> [])"

definition aruba_plan :: "(u16 list \<Rightarrow> u16 list) \<Rightarrow> state_diff \<Rightarrow> 'd driver \<Rightarrow> string list list" where
  "aruba_plan it d s =
     (let vlans = filter (\<lambda>v. v \<noteq> 1) (vlans_to_remove d);
          m = dr_model s; cur = dr_current s;
          migrations = aruba_migrations d cur
      in batch_if (vlans \<noteq> [] \<and> migrations \<noteq> []) (aruba_migrate_commands it migrations)
         @ batch_if (vlans \<noteq> []) (aruba_remove_vlan_commands vlans)
         @ batch_if (vlans_to_add d \<noteq> []) (aruba_vlan_commands (vlans_to_add d))
         @ batch_if (vlans_to_update d \<noteq> []) (aruba_vlan_commands (vlans_to_update d))
         @ batch_if (ports_to_configure d \<noteq> [])
             (aruba_port_commands m cur (ports_to_configure d) (s_port_mirrors (dr_config s)))
         @ batch_if (ports_to_reset d \<noteq> []) (aruba_reset_commands m cur (ports_to_reset d))
         @ batch_if (mirror_dest_ports_to_configure d \<noteq> [])
             (aruba_baseline_commands (mirror_dest_ports_to_configure d))
         @ batch_if (mirrors_to_remove d \<noteq> []) (aruba_remove_mirror_commands (mirrors_to_remove d))
         @ batch_if (mirrors_to_add d \<noteq> []) (aruba_mirror_commands m (mirrors_to_add d))
         @ batch_if (mirrors_to_update d \<noteq> []) (aruba_mirror_commands m (mirrors_to_update d))
         @ (case snmp_diff d of
              Some sd \<Rightarrow> batch_if (snmp_has_changes sd) (aruba_snmp_diff_commands sd)
            | None \<Rightarrow> [])
         @ batch_if (management_vlan_changed d)
             (case management_vlan_new d of
                Some v \<Rightarrow> aruba_management_vlan_commands v
              | None \<Rightarrow> aruba_remove_management_vlan_commands))"

section \<open>The driver sends its plan\<close>

lemma sends_parse_trap_status: "sends (aruba_parse_snmp_trap_status cli) s [[show_traps]]"
  unfolding aruba_parse_snmp_trap_status_def
  using sends_bind [OF sends_run_commands sends_return] by fastforce

lemma sends_aruba_parse:
  "sends (aruba_parse_current_state cli ansi hw_id ord) s [[show_running_config], [show_traps]]"
proof -
  have "sends (aruba_parse_current_state cli ansi hw_id ord) s
      ([[show_running_config]] @ [[show_traps]] @ [] @ [])"
    unfolding aruba_parse_current_state_def aruba_get_running_config_def
    by (intro sends_bind sends_run_command sends_parse_trap_status sends_get sends_return)
  then show ?thesis by simp
qed

lemma sends_configure_ports:
  "sends (aruba_configure_ports cli ports) s
     [aruba_port_commands (dr_model s) (dr_current s) ports (s_port_mirrors (dr_config s))]"
  unfolding aruba_configure_ports_def by (intro sends_with_get sends_run_and_report)

lemma sends_reset_ports:
  "sends (aruba_reset_ports cli ids) s [aruba_reset_commands (dr_model s) (dr_current s) ids]"
  unfolding aruba_reset_ports_def by (intro sends_with_get sends_run_and_report)

lemma sends_configure_mirrors:
  "sends (aruba_configure_port_mirrors cli ms) s [aruba_mirror_commands (dr_model s) ms]"
  unfolding aruba_configure_port_mirrors_def by (intro sends_with_get sends_run_and_report)

lemma sends_apply_snmp_diff:
  "snmp_has_changes sd \<Longrightarrow> sends (aruba_apply_snmp_diff cli sd) s [aruba_snmp_diff_commands sd]"
  by (simp add: aruba_apply_snmp_diff_def sends_run_and_report)

lemma sends_remove_stage:
  "sends (aruba_remove_stage cli it d results) s
     (let vlans = filter (\<lambda>v. v \<noteq> 1) (vlans_to_remove d);
          migrations = aruba_migrations d (dr_current s)
      in batch_if (vlans \<noteq> [] \<and> migrations \<noteq> []) (aruba_migrate_commands it migrations)
         @ batch_if (vlans \<noteq> []) (aruba_remove_vlan_commands vlans))"
proof (cases "filter (\<lambda>v. v \<noteq> 1) (vlans_to_remove d) = []")
  case True
  then show ?thesis by (simp only: aruba_remove_stage_def Let_def batch_if_def) (simp add: sends_return)
next
  case False
  let ?vs = "filter (\<lambda>v. v \<noteq> 1) (vlans_to_remove d)"
  let ?ms = "aruba_migrations d (dr_current s)"
  have "sends (act_bind (push_if (?ms \<noteq> []) (aruba_migrate_ports cli it ?ms) results)
      (push_if True (aruba_remove_vlans cli ?vs))) s
      (batch_if (?ms \<noteq> []) (aruba_migrate_commands it ?ms)
       @ batch_if True (aruba_remove_vlan_commands ?vs))"
    unfolding aruba_migrate_ports_def aruba_remove_vlans_def
    by (intro sends_bind sends_push_batch sends_run_and_report)
  then have "sends (act_bind act_get (\<lambda>s. act_bind (push_if (aruba_migrations d (dr_current s) \<noteq> [])
        (aruba_migrate_ports cli it (aruba_migrations d (dr_current s))) results)
      (push_if True (aruba_remove_vlans cli ?vs)))) s
      (batch_if (?ms \<noteq> []) (aruba_migrate_commands it ?ms)
       @ batch_if True (aruba_remove_vlan_commands ?vs))"
    by (rule sends_with_get)
  with False show ?thesis
    by (simp only: aruba_remove_stage_def aruba_migrations_def Let_def if_True simp_thms not_False_eq_True
        batch_if_def)
qed

lemma sends_snmp_stage:
  assumes "granular_diff d"
  shows "sends (aruba_snmp_stage cli d results) s
    (case snmp_diff d of Some sd \<Rightarrow> batch_if (snmp_has_changes sd) (aruba_snmp_diff_commands sd) | None \<Rightarrow> [])"
proof (cases "snmp_diff d")
  case None
  with assms show ?thesis by (simp add: aruba_snmp_stage_def granular_diff_def sends_return)
next
  case (Some sd)
  have "sends (push_if (snmp_has_changes sd) (aruba_apply_snmp_diff cli sd) results) s
      (if snmp_has_changes sd then [aruba_snmp_diff_commands sd] else [])"
    by (intro sends_push_if sends_apply_snmp_diff)
  with Some show ?thesis by (simp add: aruba_snmp_stage_def batch_if_def)
qed

lemma sends_management_stage:
  "sends (aruba_management_stage cli d results) s
    (batch_if (management_vlan_changed d)
       (case management_vlan_new d of
          Some v \<Rightarrow> aruba_management_vlan_commands v | None \<Rightarrow> aruba_remove_management_vlan_commands))"
proof -
  have "sends (push_if True (aruba_configure_management_vlan cli v) results) s
      [aruba_management_vlan_commands v]"
    "sends (push_if True (aruba_remove_management_vlan cli) results) s
      [aruba_remove_management_vlan_commands]" for v
    using sends_push_batch [of _ s _ True results] sends_run_and_report
    by (fastforce simp: batch_if_def aruba_configure_management_vlan_def aruba_remove_management_vlan_def)+
  then show ?thesis
    by (simp add: aruba_management_stage_def batch_if_def sends_return split: option.splits)
qed

lemma same_driver_plan: "same_driver s t \<Longrightarrow> aruba_plan it d t = aruba_plan it d s"
  by (simp add: aruba_plan_def same_driver_def)

lemma sends_apply_diff:
  assumes "granular_diff d"
  shows "sends (aruba_apply_diff cli it d) s (aruba_plan it d s)"
proof -
  have ports: "sends (push_if c (aruba_configure_ports cli ports) r) t
      (batch_if c (aruba_port_commands (dr_model s) (dr_current s) ports (s_port_mirrors (dr_config s))))"
    and resets: "sends (push_if c (aruba_reset_ports cli ids) r) t
      (batch_if c (aruba_reset_commands (dr_model s) (dr_current s) ids))"
    and mirrors: "sends (push_if c (aruba_configure_port_mirrors cli ms) r) t
      (batch_if c (aruba_mirror_commands (dr_model s) ms))"
    if "same_driver s t" for t c ports ids ms r
  proof -
    have eq: "dr_model s = dr_model t" "dr_current s = dr_current t" "dr_config s = dr_config t"
      using that by (simp_all add: same_driver_def)
    show "sends (push_if c (aruba_configure_ports cli ports) r) t
        (batch_if c (aruba_port_commands (dr_model s) (dr_current s) ports (s_port_mirrors (dr_config s))))"
      unfolding eq by (rule sends_push_batch [OF sends_configure_ports])
    show "sends (push_if c (aruba_reset_ports cli ids) r) t
        (batch_if c (aruba_reset_commands (dr_model s) (dr_current s) ids))"
      unfolding eq by (rule sends_push_batch [OF sends_reset_ports])
    show "sends (push_if c (aruba_configure_port_mirrors cli ms) r) t
        (batch_if c (aruba_mirror_commands (dr_model s) ms))"
      unfolding eq by (rule sends_push_batch [OF sends_configure_mirrors])
  qed
  have others: "sends (push_if c (aruba_configure_vlans cli vs) r) t (batch_if c (aruba_vlan_commands vs))"
    "sends (push_if c (aruba_configure_mirror_dest_ports cli ids) r) t (batch_if c (aruba_baseline_commands ids))"
    "sends (push_if c (aruba_remove_mirrors cli ids) r) t (batch_if c (aruba_remove_mirror_commands ids))"
    for t c vs ids r
    unfolding aruba_configure_vlans_def aruba_configure_mirror_dest_ports_def aruba_remove_mirrors_def
    by (intro sends_push_batch sends_run_and_report)+
  show ?thesis
    unfolding aruba_apply_diff_def aruba_plan_def Let_def append_assoc [symmetric]
    unfolding append_assoc
    apply (rule sends_cong)
     apply (rule sends_bind [OF sends_remove_stage])
     apply (rule sends_bind [OF others(1)])
     apply (rule sends_bind [OF others(1)])
     apply (rule sends_bind [OF ports], blast intro: same_driver_trans)
     apply (rule sends_bind [OF resets], blast intro: same_driver_trans)
     apply (rule sends_bind [OF others(2)])
     apply (rule sends_bind [OF others(3)])
     apply (rule sends_bind [OF mirrors], blast intro: same_driver_trans)
     apply (rule sends_bind [OF mirrors], blast intro: same_driver_trans)
     apply (rule sends_bind [OF sends_snmp_stage [OF assms]])
     apply (rule sends_management_stage)
    apply (simp add: Let_def)
    done
qed

interpretation aruba: switch_driver "aruba_parse_current_state cli ansi hw_id" "aruba_apply_diff cli it"
    "[[show_running_config], [show_traps]]" "aruba_plan it"
  for cli :: "'d cli" and ansi hw_id it
  by unfold_locales (simp_all add: sends_aruba_parse sends_apply_diff)

section \<open>Properties\<close>

text \<open>C7: \<open>apply_diff\<close> implements its plan. For a difference as \<open>compute_diff\<close> yields them it hands over the
  batches of \<open>aruba_plan\<close>, all of them in this order when it succeeds and the first few of
  them when a command fails, whatever the switch answers; and it changes nothing of the driver but the
  session.\<close>

theorem aruba_apply_refines_plan:
  assumes "granular_diff d"
  shows "case aruba_apply_diff cli it d s of
           (Inr results, t) \<Rightarrow> same_driver s t \<and> sent_by t = sent_by s @ aruba_plan it d s
         | (Inl e, t) \<Rightarrow> same_driver s t \<and> (\<exists>n. sent_by t = sent_by s @ take n (aruba_plan it d s))"
  using sends_apply_diff [OF assms, of cli it s] by (simp add: sends_def)

definition example_driver :: "switch_config \<Rightarrow> unit driver" where
  "example_driver config =
     \<lparr>dr_config = config, dr_hostname = ''sw1'', dr_model = Aruba2930F,
      dr_client = Some \<lparr>device = (), sent = []\<rparr>, dr_current = None, dr_enforce = False\<rparr>"

theorem aruba_apply_refines_plan_witness:
  "granular_diff (default_diff\<lparr>vlans_to_remove := [1, 20]\<rparr>) \<and>
   (case aruba_apply_diff silent_cli rev (default_diff\<lparr>vlans_to_remove := [1, 20]\<rparr>)
           (example_driver example_desired) of
      (Inr results, t) \<Rightarrow> sent_by t = [[configure_terminal, ''no vlan 20'', exit_cmd]]
    | (Inl e, t) \<Rightarrow> \<exists>n. sent_by t = take n [[configure_terminal, ''no vlan 20'', exit_cmd]])"
proof -
  let ?d = "default_diff\<lparr>vlans_to_remove := [1, 20]\<rparr>"
  let ?s = "example_driver example_desired"
  have g: "granular_diff ?d" by (simp add: granular_diff_def default_diff_def)
  have plan: "aruba_plan rev ?d ?s = [[configure_terminal, ''no vlan 20'', exit_cmd]]"
    by (simp add: aruba_plan_def default_diff_def example_driver_def batch_if_def aruba_migrations_def
        aruba_remove_vlan_commands_def in_config_mode_def no_vlan_def num_eval)
  have "sent_by ?s = []" by (simp add: example_driver_def sent_by_def)
  then show ?thesis
    using g aruba_apply_refines_plan [OF g, where cli = silent_cli and it = rev and s = ?s] unfolding plan
    by (auto split: sum.splits prod.splits)
qed

subsection \<open>Which VLANs are removed\<close>

lemma not_no_vlan:
  "\<not> starts_with ''no vlan '' (''vlan '' @ x)" "\<not> starts_with ''no vlan '' (''name '' @ x)"
  "\<not> starts_with ''no vlan '' (''interface '' @ x)" "\<not> starts_with ''no vlan '' (''untagged vlan '' @ x)"
  "\<not> starts_with ''no vlan '' (''tagged vlan '' @ x)" "\<not> starts_with ''no vlan '' (''no tagged vlan '' @ x)"
  "\<not> starts_with ''no vlan '' (''no untagged '' @ x)" "\<not> starts_with ''no vlan '' (''no tagged '' @ x)"
  "\<not> starts_with ''no vlan '' (''speed-duplex '' @ x)" "\<not> starts_with ''no vlan '' (''monitor all both mirror '' @ x)"
  "\<not> starts_with ''no vlan '' (''mirror-port '' @ x)" "\<not> starts_with ''no vlan '' (''mirror '' @ x)"
  "\<not> starts_with ''no vlan '' (''no mirror '' @ x)" "\<not> starts_with ''no vlan '' (''ip address '' @ x)"
  "\<not> starts_with ''no vlan '' (''management-vlan '' @ x)"
  "\<not> starts_with ''no vlan '' (''snmp-server community '' @ x)"
  "\<not> starts_with ''no vlan '' (''no snmp-server community '' @ x)"
  "\<not> starts_with ''no vlan '' (''snmp-server host '' @ x)"
  "\<not> starts_with ''no vlan '' (''no snmp-server host '' @ x)"
  by (simp_all add: starts_with_def)

definition keeps_vlans :: "string list \<Rightarrow> bool" where
  "keeps_vlans cmds \<longleftrightarrow> list_all (\<lambda>c. \<not> starts_with ''no vlan '' c) cmds"

lemma keeps_vlans_simps [simp]:
  "keeps_vlans []" "keeps_vlans (c # cs) \<longleftrightarrow> \<not> starts_with ''no vlan '' c \<and> keeps_vlans cs"
  "keeps_vlans (xs @ ys) \<longleftrightarrow> keeps_vlans xs \<and> keeps_vlans ys"
  "keeps_vlans (concat xss) \<longleftrightarrow> list_all keeps_vlans xss"
  by (simp_all add: keeps_vlans_def list_all_iff ball_Un)

lemma keeps_vlans_in_config_mode [simp]: "keeps_vlans (in_config_mode cmds) \<longleftrightarrow> keeps_vlans cmds"
  by (simp add: in_config_mode_def starts_with_def)

lemma keeps_vlans_map: "keeps_vlans (map f xs) \<longleftrightarrow> list_all (\<lambda>x. \<not> starts_with ''no vlan '' (f x)) xs"
  by (simp add: keeps_vlans_def list_all_iff)

lemma keeps_vlan_block: "keeps_vlans (aruba_vlan_block vl)"
proof -
  have "\<not> starts_with ''no vlan '' (aruba_ip_command ip)" for ip
    by (cases ip) (simp_all add: starts_with_def)
  then show ?thesis
    by (simp add: aruba_vlan_block_def aruba_vlan_name_command_def starts_with_def)
qed

lemma keeps_migrate: "keeps_vlans (aruba_migrate_commands it ms)"
  by (simp add: aruba_migrate_commands_def list_all_iff aruba_clean_vlan_def) (simp add: starts_with_def)

lemma keeps_monitor: "keeps_vlans (aruba_monitor_commands m cs)"
proof -
  have "\<not> starts_with ''no vlan '' (aruba_direction_command c)" for c
    by (cases c; cases "snd c") (auto simp: starts_with_def)
  then show ?thesis
    by (simp add: aruba_monitor_commands_def keeps_vlans_map list_all_iff) (simp add: starts_with_def)
qed

lemma keeps_no_tagged: "keeps_vlans (map no_tagged vs)"
  by (simp add: keeps_vlans_map no_tagged_def list_all_iff) (simp add: starts_with_def)

lemma keeps_port_block: "keeps_vlans (aruba_port_block m cur mirrors p)"
proof -
  have "keeps_vlans (aruba_name_commands cur p)"
    by (simp add: aruba_name_commands_def starts_with_def split: option.splits)
  moreover have "keeps_vlans (aruba_mode_commands cur p)"
    by (simp add: aruba_mode_commands_def keeps_no_tagged Let_def starts_with_def
        split: option.splits port_mode.splits)
  moreover have "keeps_vlans (aruba_poe_commands m p)" "keeps_vlans (aruba_mac_commands p)"
    by (simp_all add: aruba_poe_commands_def aruba_mac_commands_def starts_with_def split: option.splits)
  ultimately show ?thesis
    using keeps_monitor by (simp add: aruba_port_block_def Let_def starts_with_def)
qed

lemma keeps_reset: "keeps_vlans (aruba_reset_commands m cur ids)"
  by (simp add: aruba_reset_commands_def list_all_iff aruba_reset_block_def keeps_no_tagged starts_with_def
      split: option.splits)

lemma keeps_baseline: "keeps_vlans (aruba_baseline_commands ids)"
  by (simp add: aruba_baseline_commands_def list_all_iff aruba_baseline_block_def starts_with_def)

lemma keeps_mirrors: "keeps_vlans (aruba_mirror_commands m ms)" "keeps_vlans (aruba_remove_mirror_commands ids)"
  by (simp_all add: aruba_mirror_commands_def aruba_remove_mirror_commands_def keeps_vlans_map list_all_iff
      aruba_mirror_command_def Let_def starts_with_def)

lemma keeps_snmp_diff: "keeps_vlans (aruba_snmp_diff_commands sd)"
proof -
  have "keeps_vlans (aruba_enable_trap t)" "keeps_vlans (aruba_disable_trap t)" for t
    by (cases t; simp add: starts_with_def)+
  then show ?thesis
    by (simp add: aruba_snmp_diff_commands_def list_all_iff keeps_vlans_map no_community_def
        aruba_community_command_def aruba_receiver_command_def starts_with_def)
qed

lemma keeps_management: "keeps_vlans (aruba_management_vlan_commands v)"
    "keeps_vlans aruba_remove_management_vlan_commands"
  by (simp_all add: aruba_management_vlan_commands_def aruba_remove_management_vlan_commands_def starts_with_def)

lemma vlan_removals_batch_if:
  "keeps_vlans b \<Longrightarrow> list_all keeps_vlans (batch_if c b)"
  by (simp add: batch_if_def)

lemma remove_batch:
  "{c \<in> set (aruba_remove_vlan_commands vs). starts_with ''no vlan '' c} = no_vlan ` set vs"
  by (auto simp: aruba_remove_vlan_commands_def in_config_mode_def no_vlan_def starts_with_def)

lemma plan_removals:
  "{c \<in> set (concat (aruba_plan it d s)). starts_with ''no vlan '' c} =
     no_vlan ` (set (vlans_to_remove d) - {1})"
proof -
  let ?vs = "filter (\<lambda>v. v \<noteq> 1) (vlans_to_remove d)"
  let ?P = "\<lambda>c. starts_with ''no vlan '' c"
  have none: "{c \<in> set (concat bs). ?P c} = {}" if "list_all keeps_vlans bs" for bs
    using that by (auto simp: keeps_vlans_def list_all_iff)
  have ports: "keeps_vlans (aruba_port_commands m cur ps ms)" "keeps_vlans (aruba_vlan_commands vs)" for m cur ps ms vs
    by (simp_all add: aruba_port_commands_def aruba_vlan_commands_def list_all_iff keeps_port_block keeps_vlan_block)
  obtain pre post where plan: "aruba_plan it d s = pre @ batch_if (?vs \<noteq> []) (aruba_remove_vlan_commands ?vs) @ post"
    and pre: "list_all keeps_vlans pre" and post: "list_all keeps_vlans post"
    by (rule that, unfold aruba_plan_def Let_def, rule refl)
      (simp_all add: vlan_removals_batch_if keeps_migrate ports keeps_reset keeps_baseline keeps_mirrors
        keeps_snmp_diff keeps_management split: option.splits)
  have "{c \<in> set (concat (aruba_plan it d s)). ?P c} =
      {c \<in> set (concat pre). ?P c} \<union> {c \<in> set (concat (batch_if (?vs \<noteq> []) (aruba_remove_vlan_commands ?vs))). ?P c}
      \<union> {c \<in> set (concat post). ?P c}"
    unfolding plan by auto
  also have "\<dots> = {c \<in> set (concat (batch_if (?vs \<noteq> []) (aruba_remove_vlan_commands ?vs))). ?P c}"
    by (simp only: none [OF pre] none [OF post] Un_empty_left Un_empty_right)
  also have "\<dots> = no_vlan ` set ?vs"
  proof (cases "?vs = []")
    case False
    then show ?thesis using remove_batch [of ?vs] by (simp only: batch_if_def if_True simp_thms) simp
  qed (simp only: batch_if_def, simp)
  also have "set ?vs = set (vlans_to_remove d) - {1}" by auto
  finally show ?thesis .
qed

text \<open>C8: An apply removes exactly the VLANs the difference names, except that VLAN 1, the default VLAN, is
  never removed: among all the commands a successful \<open>apply_diff\<close> has sent, those that begin with
  \<open>no vlan\<close> are these.\<close>

theorem aruba_removes_vlans_exactly:
  assumes "granular_diff d" and "aruba_apply_diff cli it d s = (Inr results, t)"
  shows "{c \<in> set (concat (drop (length (sent_by s)) (sent_by t))). starts_with ''no vlan '' c} =
     no_vlan ` (set (vlans_to_remove d) - {1})"
proof -
  have "sent_by t = sent_by s @ aruba_plan it d s"
    using sends_Inr [OF sends_apply_diff [OF assms(1)] assms(2)] by simp
  then have "drop (length (sent_by s)) (sent_by t) = aruba_plan it d s" by simp
  then show ?thesis by (simp only: plan_removals)
qed

lemma silent_stages:
  "succeeds (aruba_remove_stage silent_cli it d r)" "succeeds (aruba_management_stage silent_cli d r)"
  "granular_diff d \<Longrightarrow> succeeds (aruba_snmp_stage silent_cli d r)"
  "succeeds (aruba_configure_ports silent_cli ports)" "succeeds (aruba_reset_ports silent_cli ids)"
  "succeeds (aruba_configure_port_mirrors silent_cli ms)"
  unfolding aruba_remove_stage_def aruba_management_stage_def aruba_snmp_stage_def aruba_configure_ports_def
    aruba_reset_ports_def aruba_configure_port_mirrors_def aruba_migrate_ports_def aruba_remove_vlans_def
    aruba_apply_snmp_diff_def aruba_configure_management_vlan_def aruba_remove_management_vlan_def Let_def
    granular_diff_def
  by (auto intro!: succeeds_bind succeeds_push succeeds_report succeeds_return succeeds_if
      split: option.splits)

lemma silent_apply:
  assumes "granular_diff d" and "dr_client s \<noteq> None"
  shows "\<exists>r t. aruba_apply_diff silent_cli it d s = (Inr r, t)"
proof -
  have "succeeds (aruba_apply_diff silent_cli it d)"
    unfolding aruba_apply_diff_def aruba_configure_vlans_def aruba_configure_mirror_dest_ports_def
      aruba_remove_mirrors_def
    by (intro succeeds_bind succeeds_push succeeds_report silent_stages assms(1))
  with assms(2) show ?thesis unfolding succeeds_def by blast
qed

theorem aruba_removes_vlans_exactly_witness:
  "granular_diff (default_diff\<lparr>vlans_to_remove := [1, 20]\<rparr>) \<and>
   (\<exists>results t. aruba_apply_diff silent_cli rev (default_diff\<lparr>vlans_to_remove := [1, 20]\<rparr>)
        (example_driver example_desired) = (Inr results, t) \<and>
      {c \<in> set (concat (drop (length (sent_by (example_driver example_desired))) (sent_by t))).
         starts_with ''no vlan '' c} = {no_vlan 20})"
proof -
  let ?d = "default_diff\<lparr>vlans_to_remove := [1, 20]\<rparr>"
  let ?s = "example_driver example_desired"
  have g: "granular_diff ?d" by (simp add: granular_diff_def default_diff_def)
  have h: "dr_client ?s \<noteq> None" by (simp add: example_driver_def)
  from silent_apply [OF g h, of rev] obtain r t where r: "aruba_apply_diff silent_cli rev ?d ?s = (Inr r, t)"
    by blast
  have "set (vlans_to_remove ?d) - {1} = {20}" by auto
  with g r aruba_removes_vlans_exactly [OF g r] show ?thesis by fastforce
qed

end
