(* ===== verification/Aruba_Apply.thy ===== *)
theory Aruba_Apply
  imports Aruba
begin

text \<open>
  The whole apply of an Aruba switch: \<open>apply_configuration\<close> over the reader, \<open>compute_diff\<close> and
  \<open>apply_diff\<close>, through the contract \<open>switch_driver\<close>; the ports that are moved before VLANs go; the
  preview.
\<close>

section \<open>A switch that answers with nothing\<close>

lemma silent_parse:
  "aruba_parse_current_state silent_cli (\<lambda>s. s) (\<lambda>_. None) rev (example_driver config) =
     (Inr default_state,
      (example_driver config)\<lparr>dr_client := Some \<lparr>device = (), sent = [[show_running_config], [show_traps]]\<rparr>\<rparr>)"
proof -
  have l: "lines [] = []" by (simp add: lines_def)
  have f: "aruba_first_pass ansi m [] acc = acc" for ansi m acc
    by (subst aruba_first_pass.simps) simp
  have p: "aruba_parse (\<lambda>s. s) (\<lambda>_. None) rev Aruba2930F [] (False, False) = default_state"
    by (simp add: aruba_parse_def l f empty_reading_def build_ports_def build_mirrors_def
        in_order_def List.map_filter_def parse_snmp_config_def verify_hardware_model_def default_state_def)
  have t: "trap_status [] = (False, False)" by (simp add: trap_status_def l)
  show ?thesis
    by (simp add: aruba_parse_current_state_def aruba_get_running_config_def run_command_def run_command_as_def
        aruba_parse_snmp_trap_status_def act_bind_def act_return_def act_get_def run_commands_def
        silent_cli_def example_driver_def first_output_def t p)
qed

definition bare_config :: switch_config where
  "bare_config =
     example_desired\<lparr>s_vlans := [], s_ports := [], s_port_mirrors := [], s_snmp := None,
                     s_management_vlan := None\<rparr>"

lemma bare_in_sync: "state_in_sync default_state bare_config False"
  by (simp add: state_in_sync_def default_state_def bare_config_def tables_in_sync_def effective_snmp_def
      snmp_in_sync_def)

section \<open>Properties\<close>

text \<open>C9: A switch that is in sync with its configuration is left alone: an apply only sends the two
  reading commands, reports no results, and succeeds.\<close>

theorem aruba_in_sync_untouched:
  assumes "aruba_parse_current_state cli ansi hw_id ord s = (Inr current, s1)"
    and "st_vlans current \<noteq> [] \<or> s_vlans (dr_config s) = [] \<and> s_ports (dr_config s) = []"
    and "state_in_sync current (dr_config s) (dr_enforce s)" and "hash_iter_ok it"
  shows "\<exists>t. aruba_apply_configuration cli ansi hw_id ord ord' mig it it' s = (Inr [], t) \<and>
           sent_by t = sent_by s @ [[show_running_config], [show_traps]]"
proof -
  have c: "check_empty_state_safety current (length (s_vlans (dr_config s)))
      (length (s_ports (dr_config s))) (dr_hostname s) = Inr ()"
    using assms(2) by (auto simp: check_empty_state_safety_def bail_if_def)
  have d: "\<not> has_changes (compute_diff it current (dr_config s) (dr_enforce s))"
    using has_changes_iff_out_of_sync [OF assms(4)] assms(3) by blast
  from aruba.in_sync_sends_nothing [OF assms(1) c d, of it' ord' mig] show ?thesis
    unfolding aruba_apply_configuration_def by blast
qed

theorem aruba_in_sync_untouched_witness:
  "state_in_sync default_state bare_config False \<and>
   (\<exists>t. aruba_apply_configuration silent_cli (\<lambda>s. s) (\<lambda>_. None) rev rev rev plain_iter plain_iter
          (example_driver bare_config) = (Inr [], t) \<and>
        sent_by t = [[show_running_config], [show_traps]])"
proof -
  let ?s = "example_driver bare_config"
  have 2: "st_vlans default_state \<noteq> [] \<or> s_vlans (dr_config ?s) = [] \<and> s_ports (dr_config ?s) = []"
    by (simp add: example_driver_def bare_config_def)
  have 3: "state_in_sync default_state (dr_config ?s) (dr_enforce ?s)"
    using bare_in_sync by (simp add: example_driver_def)
  have "sent_by ?s = []" by (simp add: sent_by_def example_driver_def)
  with aruba_in_sync_untouched [OF silent_parse 2 3 iter_ok(1), of rev rev plain_iter] bare_in_sync
  show ?thesis by simp
qed

text \<open>A reading without any VLAN or port, where the configuration has some, is taken for a failed read:
  the apply fails with a parse error, and no configuration command was sent.\<close>

theorem aruba_refuses_empty_reading:
  assumes "aruba_parse_current_state cli ansi hw_id ord s = (Inr current, s1)"
    and "st_vlans current = []" and "st_ports current = []"
    and "s_vlans (dr_config s) \<noteq> [] \<or> s_ports (dr_config s) \<noteq> []"
  shows "\<exists>msg t. aruba_apply_configuration cli ansi hw_id ord ord' mig it it' s = (Inl (ParseError msg), t) \<and>
           sent_by t = sent_by s @ [[show_running_config], [show_traps]]"
  unfolding aruba_apply_configuration_def by (rule aruba.refuses_empty_reading [OF assms])

theorem aruba_refuses_empty_reading_witness:
  "\<exists>msg t. aruba_apply_configuration silent_cli (\<lambda>s. s) (\<lambda>_. None) rev rev rev plain_iter plain_iter
       (example_driver example_desired) = (Inl (ParseError msg), t) \<and>
     sent_by t = [[show_running_config], [show_traps]]"
proof -
  let ?s = "example_driver example_desired"
  have 1: "st_vlans default_state = []" "st_ports default_state = []" by (simp_all add: default_state_def)
  have 2: "s_vlans (dr_config ?s) \<noteq> [] \<or> s_ports (dr_config ?s) \<noteq> []"
    by (simp add: example_driver_def example_desired_def)
  have "sent_by ?s = []" by (simp add: sent_by_def example_driver_def)
  with aruba_refuses_empty_reading [OF silent_parse 1 2, of rev rev plain_iter plain_iter]
  show ?thesis by simp
qed

text \<open>However an apply ends, also after a failed command, nothing was sent to the switch but the two
  reading commands and batches of the plan for the difference between the state that was read and the
  configuration.\<close>

theorem aruba_sends_only_plan:
  assumes "aruba_apply_configuration cli ansi hw_id ord ord' mig it it' s = (r, t)"
    and "b \<in> set (drop (length (sent_by s)) (sent_by t))"
  shows "b = [show_running_config] \<or> b = [show_traps] \<or>
     (\<exists>current s1. aruba_parse_current_state cli ansi hw_id ord s = (Inr current, s1) \<and>
        b \<in> set (aruba_plan mig (compute_diff it current (dr_config s) (dr_enforce s))
                    (s1\<lparr>dr_current := Some current\<rparr>)))"
  using aruba.sends_only_plan [OF assms(1) [unfolded aruba_apply_configuration_def] assms(2)] by auto

theorem aruba_sends_only_plan_witness:
  "\<exists>t. aruba_apply_configuration broken_cli (\<lambda>s. s) (\<lambda>_. None) rev rev rev plain_iter plain_iter
         (example_driver example_desired) = (Inl (CommandError ''timeout''), t) \<and>
       sent_by t = [[show_running_config]] \<and>
       ([show_running_config] = [show_running_config] \<or> [show_running_config] = [show_traps] \<or>
        (\<exists>current s1. aruba_parse_current_state broken_cli (\<lambda>s. s) (\<lambda>_. None) rev (example_driver example_desired)
             = (Inr current, s1) \<and>
           [show_running_config] \<in> set (aruba_plan rev (compute_diff plain_iter current
              (dr_config (example_driver example_desired)) (dr_enforce (example_driver example_desired)))
              (s1\<lparr>dr_current := Some current\<rparr>))))"
proof -
  let ?s = "example_driver example_desired"
  let ?t = "?s\<lparr>dr_client := Some \<lparr>device = (), sent = [[show_running_config]]\<rparr>\<rparr>"
  have a: "aruba_apply_configuration broken_cli (\<lambda>s. s) (\<lambda>_. None) rev rev rev plain_iter plain_iter ?s =
      (Inl (CommandError ''timeout''), ?t)"
    by (simp add: aruba_apply_configuration_def apply_configuration_def aruba_parse_current_state_def
        aruba_get_running_config_def run_command_def run_command_as_def act_bind_def broken_cli_def example_driver_def)
  have t: "sent_by ?t = [[show_running_config]]" "sent_by ?s = []"
    by (simp_all add: sent_by_def example_driver_def)
  have b: "[show_running_config] \<in> set (drop (length (sent_by ?s)) (sent_by ?t))" by (simp add: t)
  from aruba_sends_only_plan [OF a b] a t(1) show ?thesis by blast
qed

section \<open>Ports leave their VLAN before it is removed\<close>

lemma in_find_ports_to_migrate:
  assumes "p \<in> set (st_ports st)" and "inferred_mode p = Access" and "p_vlan p \<in> set removed"
  shows "\<lparr>pm_port_id = p_port_id p, pm_vlan_being_removed = p_vlan p, pm_action = MoveAccessToVlan1\<rparr>
    \<in> set (find_ports_to_migrate st removed)"
proof -
  have "first_migration removed p is =
      [\<lparr>pm_port_id = p_port_id p, pm_vlan_being_removed = p_vlan p, pm_action = MoveAccessToVlan1\<rparr>]"
    if "p_vlan p \<in> set is" for "is"
    using that by (induction "is") (auto simp: migration_for_def assms(2))
  with assms show ?thesis by (force simp: find_ports_to_migrate_def)
qed

lemma plan_moves_ports:
  assumes "dr_current s = Some st" and "p \<in> set (st_ports st)" and "inferred_mode p = Access"
    and "p_vlan p \<in> set (vlans_to_remove d)" and "p_vlan p \<noteq> 1" and "iterates it"
  shows "\<exists>migrate remove rest pre post. aruba_plan it d s = migrate # remove # rest \<and>
     migrate = pre @ aruba_clean_vlan (aruba_migrations d (Some st)) (p_vlan p) @ post \<and>
     p_port_id p \<in> set (untagged_in (aruba_migrations d (Some st)) (p_vlan p)) \<and>
     no_vlan (p_vlan p) \<in> set remove"
proof -
  let ?vs = "filter (\<lambda>v. v \<noteq> 1) (vlans_to_remove d)"
  let ?ms = "aruba_migrations d (Some st)"
  let ?g = "\<lparr>pm_port_id = p_port_id p, pm_vlan_being_removed = p_vlan p, pm_action = MoveAccessToVlan1\<rparr>"
  have v: "p_vlan p \<in> set ?vs" using assms(4,5) by simp
  have g: "?g \<in> set ?ms"
    using in_find_ports_to_migrate [OF assms(2,3) v] by (simp add: aruba_migrations_def)
  from v have "?vs \<noteq> []" by force
  moreover from g have "?ms \<noteq> []" by force
  ultimately obtain rest where plan:
      "aruba_plan it d s = aruba_migrate_commands it ?ms # aruba_remove_vlan_commands ?vs # rest"
    by (simp only: aruba_plan_def assms(1) Let_def batch_if_def simp_thms if_True append_Cons append_Nil)
  have "p_vlan p \<in> set (it (hash_keys pm_vlan_being_removed ?ms))"
    using g by (force simp: set_iterates [OF assms(6)])
  then obtain us ws where "it (hash_keys pm_vlan_being_removed ?ms) = us @ p_vlan p # ws"
    by (auto dest: split_list)
  then have "aruba_migrate_commands it ?ms =
      (configure_terminal # concat (map (aruba_clean_vlan ?ms) us)) @ aruba_clean_vlan ?ms (p_vlan p)
      @ (concat (map (aruba_clean_vlan ?ms) ws) @ [exit_cmd])"
    by (simp add: aruba_migrate_commands_def in_config_mode_def)
  moreover have "p_port_id p \<in> set (untagged_in ?ms (p_vlan p))"
    using g by (force simp: untagged_in_def)
  moreover have "no_vlan (p_vlan p) \<in> set (aruba_remove_vlan_commands ?vs)"
    using v by (simp add: aruba_remove_vlan_commands_def in_config_mode_def)
  ultimately show ?thesis using plan by blast
qed

text \<open>Before a VLAN is removed from an Aruba switch, every access port in it is taken out of it: the first
  batch a successful \<open>apply_diff\<close> sends has the block of that VLAN, in which \<open>no untagged\<close> lists the
  port, and the batch with the removals follows.\<close>

theorem aruba_moves_ports_before_removal:
  assumes "dr_current s = Some st" and "p \<in> set (st_ports st)" and "inferred_mode p = Access"
    and "p_vlan p \<in> set (vlans_to_remove d)" and "p_vlan p \<noteq> 1" and "iterates it"
    and "granular_diff d" and "aruba_apply_diff cli it d s = (Inr results, t)"
  shows "\<exists>migrate remove rest pre post ids. sent_by t = sent_by s @ migrate # remove # rest \<and>
     migrate = pre @ [''vlan '' @ show_u16 (p_vlan p), ''no untagged '' @ join '','' ids] @ post \<and>
     p_port_id p \<in> set ids \<and> no_vlan (p_vlan p) \<in> set remove"
proof -
  let ?ms = "aruba_migrations d (Some st)"
  from plan_moves_ports [OF assms(1-6)] obtain migrate remove rest pre post where
      plan: "aruba_plan it d s = migrate # remove # rest"
    and migrate: "migrate = pre @ aruba_clean_vlan ?ms (p_vlan p) @ post"
    and port: "p_port_id p \<in> set (untagged_in ?ms (p_vlan p))" and remove: "no_vlan (p_vlan p) \<in> set remove"
    by blast
  have "sent_by t = sent_by s @ migrate # remove # rest"
    using sends_Inr [OF sends_apply_diff [OF assms(7)] assms(8)] plan by simp
  moreover from port have "untagged_in ?ms (p_vlan p) \<noteq> []" by (metis empty_iff list.set(1))
  then obtain post' where "aruba_clean_vlan ?ms (p_vlan p) =
      [''vlan '' @ show_u16 (p_vlan p), ''no untagged '' @ join '','' (untagged_in ?ms (p_vlan p))] @ post'"
    unfolding aruba_clean_vlan_def by (simp only: if_True simp_thms append_Cons append_Nil append_assoc)
  then have "migrate = pre @ [''vlan '' @ show_u16 (p_vlan p),
      ''no untagged '' @ join '','' (untagged_in ?ms (p_vlan p))] @ post' @ post"
    using migrate by simp
  ultimately show ?thesis using port remove by blast
qed

theorem aruba_moves_ports_before_removal_witness:
  "\<exists>results t migrate remove rest pre post ids.
     aruba_apply_diff silent_cli rev (default_diff\<lparr>vlans_to_remove := [20]\<rparr>)
       ((example_driver example_desired)\<lparr>dr_current :=
          Some (example_state\<lparr>st_ports := [(plain_port True ''5'')\<lparr>p_vlan := 20\<rparr>]\<rparr>)\<rparr>) = (Inr results, t) \<and>
     sent_by t = migrate # remove # rest \<and>
     migrate = pre @ [''vlan '' @ show_u16 20, ''no untagged '' @ join '','' ids] @ post \<and>
     ''5'' \<in> set ids \<and> no_vlan 20 \<in> set remove"
proof -
  let ?p = "(plain_port True ''5'')\<lparr>p_vlan := 20\<rparr>"
  let ?st = "example_state\<lparr>st_ports := [?p]\<rparr>"
  let ?s = "(example_driver example_desired)\<lparr>dr_current := Some ?st\<rparr>"
  let ?d = "default_diff\<lparr>vlans_to_remove := [20]\<rparr>"
  have h: "dr_current ?s = Some ?st" "?p \<in> set (st_ports ?st)" "inferred_mode ?p = Access"
    "p_vlan ?p \<in> set (vlans_to_remove ?d)" "p_vlan ?p \<noteq> 1"
    by (simp_all add: inferred_mode_def plain_port_def)
  have g: "granular_diff ?d" by (simp add: granular_diff_def default_diff_def)
  have c: "dr_client ?s \<noteq> None" by (simp add: example_driver_def)
  from silent_apply [OF g c, of rev] obtain r t where r: "aruba_apply_diff silent_cli rev ?d ?s = (Inr r, t)"
    by blast
  have e: "sent_by ?s = []" "p_vlan ?p = 20" "p_port_id ?p = ''5''"
    by (simp_all add: sent_by_def example_driver_def plain_port_def)
  from aruba_moves_ports_before_removal [OF h iterates_rev g r] r show ?thesis
    unfolding e by simp
qed

section \<open>What is left out\<close>

text \<open>
  A trunk that is tagged in two VLANs that go is taken out of the first one only: its migration names
  that VLAN, and the list of VLANs that remain, which would cover the other, is not used.
\<close>

theorem aruba_trunk_leaves_first_vlan_only:
  assumes "distinct (map p_port_id (st_ports st))" and "p \<in> set (st_ports st)" and "inferred_mode p = Trunk"
    and "removed = v # vs" and "v \<in> set (p_tagged_vlans p)" and "w \<noteq> v"
  shows "p_port_id p \<in> set (tagged_in (find_ports_to_migrate st removed) v) \<and>
         p_port_id p \<notin> set (tagged_in (find_ports_to_migrate st removed) w)"
proof -
  let ?ms = "find_ports_to_migrate st removed"
  have first: "first_migration removed p removed =
      [\<lparr>pm_port_id = p_port_id p, pm_vlan_being_removed = v,
        pm_action = RemoveVlanFromTrunk (filter (\<lambda>u. u \<notin> set removed) (p_tagged_vlans p))\<rparr>]"
    using assms(3-5) by (simp add: migration_for_def)
  have id: "g \<in> set (first_migration removed q is) \<Longrightarrow> pm_port_id g = p_port_id q" for g q "is"
    by (induction "is") (auto simp: migration_for_def split: option.splits port_mode.splits if_splits)
  have ms: "g \<in> set ?ms \<longleftrightarrow> (\<exists>q \<in> set (st_ports st). g \<in> set (first_migration removed q removed))" for g
    using assms(4) by (auto simp: find_ports_to_migrate_def)
  have "q = p" if "q \<in> set (st_ports st)" "p_port_id q = p_port_id p" for q
    using that assms(1,2) by (auto simp: distinct_map inj_on_def)
  then have "pm_vlan_being_removed g = v" if "g \<in> set ?ms" "pm_port_id g = p_port_id p" for g
    using that id first unfolding ms by fastforce
  then have "p_port_id p \<notin> set (tagged_in ?ms w)" using assms(6) by (auto simp: tagged_in_def)
  moreover have "\<lparr>pm_port_id = p_port_id p, pm_vlan_being_removed = v,
        pm_action = RemoveVlanFromTrunk (filter (\<lambda>u. u \<notin> set removed) (p_tagged_vlans p))\<rparr> \<in> set ?ms"
    unfolding ms using assms(2) first by force
  then have "p_port_id p \<in> set (tagged_in ?ms v)" by (force simp: tagged_in_def)
  ultimately show ?thesis by blast
qed

text \<open>
  The baseline for a mirror destination leaves the tagged VLANs of the port in place, while a port with
  tagged VLANs does not count as one with the baseline.
\<close>

theorem aruba_baseline_keeps_tagged:
  "list_all (\<lambda>c. \<not> starts_with ''no tagged vlan'' c) (aruba_baseline_block port_id)"
  by (simp add: aruba_baseline_block_def starts_with_def)

theorem tagged_port_not_baseline: "p_tagged_vlans p \<noteq> [] \<Longrightarrow> \<not> is_baseline p"
  by (simp add: is_baseline_def)

text \<open>The preview of an apply is incomplete: for a difference in the management VLAN and in the baseline
  of mirror destinations it shows no command at all, while the apply sends commands for both.\<close>

theorem aruba_preview_incomplete:
  "aruba_commands_for_diff m cur
       (default_diff\<lparr>mirror_dest_ports_to_configure := [port_id], management_vlan_changed := True,
                     management_vlan_new := Some v\<rparr>) = default_preview \<and>
   aruba_plan it
       (default_diff\<lparr>mirror_dest_ports_to_configure := [port_id], management_vlan_changed := True,
                     management_vlan_new := Some v\<rparr>) s =
     [aruba_baseline_commands [port_id], aruba_management_vlan_commands v]"
  by (simp add: aruba_commands_for_diff_def aruba_plan_def default_diff_def default_preview_def extend_if_def
      batch_if_def)

end
