(* ===== verification/Aruba_Roundtrip.thy ===== *)
theory Aruba_Roundtrip
  imports Aruba_Parser
begin

text \<open>
  The commands generated for an Aruba switch, read back by the readers of its configuration.
\<close>

section \<open>Lines that a block reader takes as they are\<close>

definition plain_cmd :: "string \<Rightarrow> bool" where
  "plain_cmd l \<longleftrightarrow>
     l \<noteq> [] \<and> visible (hd l) \<and> visible (last l) \<and> escape \<notin> set l \<and> \<not> block_end l"

text \<open>What is relied on of the regular expression: text without an escape character is left alone.\<close>

definition strips_only_escapes :: "(string \<Rightarrow> string) \<Rightarrow> bool" where
  "strips_only_escapes ansi \<longleftrightarrow> (\<forall>s. escape \<notin> set s \<longrightarrow> ansi s = s)"

lemmas cmd_eval = plain_cmd_def visible_def block_end_def starts_with_def escape_def

lemma scan_plain:
  assumes "strips_only_escapes ansi" and "list_all plain_cmd xs"
  shows "scan_block ansi f (xs @ exit_cmd # rest) s = (fold f xs s, exit_cmd # rest)"
  using assms(2)
proof (induction xs arbitrary: s)
  case Nil
  have "ansi exit_cmd = exit_cmd" using assms(1) by (simp add: strips_only_escapes_def escape_def)
  moreover have "trim exit_cmd = exit_cmd" by (rule trim_visible) (simp_all add: visible_def)
  ultimately show ?case by (simp add: block_end_def)
next
  case (Cons x xs)
  then have "ansi x = x" "trim x = x" "x \<noteq> []" "\<not> block_end x"
    using assms(1) by (auto simp: plain_cmd_def strips_only_escapes_def intro: trim_visible)
  with Cons show ?case by simp
qed

section \<open>Interface blocks\<close>

definition plain_description :: "port \<Rightarrow> bool" where
  "plain_description p \<longleftrightarrow>
     (case p_description p of None \<Rightarrow> True | Some d \<Rightarrow> no_end dquote d \<and> escape \<notin> set d)"

lemma visible_word_last: "visible_word w \<Longrightarrow> visible (last w) \<and> escape \<notin> set w \<and> w \<noteq> []"
  by (auto simp: visible_word_def list_all_iff dest: visible_not_control)

lemma visible_dquote: "visible dquote" "dquote \<noteq> escape"
  by (simp_all add: visible_def dquote_def escape_def)

lemma name_commands_read:
  assumes "plain_description p"
  shows "list_all plain_cmd (aruba_name_commands cur p) \<and>
         fold interface_line (aruba_name_commands cur p) s =
           (case p_description p of None \<Rightarrow> s | Some d \<Rightarrow> s\<lparr>if_description := Some d\<rparr>)"
proof (cases "p_description p")
  case None
  then show ?thesis
    by (auto simp: aruba_name_commands_def cmd_eval interface_line_def strip_prefix_def split: option.splits)
next
  case (Some d)
  with assms have d: "no_end dquote d" "escape \<notin> set d" by (simp_all add: plain_description_def)
  have "plain_cmd (''name '' @ quoted d)"
    using d visible_dquote by (simp add: cmd_eval quoted_def dquote_def)
  moreover have "interface_line (''name '' @ quoted d) s = s\<lparr>if_description := Some d\<rparr>"
    using trim_matches_quoted [OF d(1)] by (simp add: interface_line_def strip_prefix_def quoted_def)
  ultimately show ?thesis using Some by (simp add: aruba_name_commands_def)
qed

lemma last_append_visible: "w \<noteq> [] \<Longrightarrow> visible (last w) \<Longrightarrow> visible (last (l @ w))"
  by simp

lemma no_tagged_read: "plain_cmd (no_tagged v) \<and> interface_line (no_tagged v) s = s"
  using last_show_u16_visible [of v] escape_show_u16 [of v]
  by (simp add: cmd_eval no_tagged_def interface_line_def strip_prefix_def)

lemma untagged_read: "plain_cmd (''untagged vlan '' @ show_u16 v) \<and>
    interface_line (''untagged vlan '' @ show_u16 v) s = s"
  using last_show_u16_visible [of v] escape_show_u16 [of v]
  by (simp add: cmd_eval interface_line_def strip_prefix_def)

lemma visible_word_join:
  assumes "ws \<noteq> []" and "\<And>w. w \<in> set ws \<Longrightarrow> visible_word w"
  shows "visible_word (join '','' ws)"
  using assms
proof (induction "'',''" ws rule: join.induct)
  case (3 s t ts)
  then have "visible_word s" and "visible_word (join '','' (t # ts))" by simp_all
  then show ?case by (simp add: visible_word_def visible_def)
qed simp_all

lemma tagged_read:
  assumes "vs \<noteq> []"
  shows "plain_cmd (''tagged vlan '' @ join '','' (map show_u16 vs)) \<and>
    interface_line (''tagged vlan '' @ join '','' (map show_u16 vs)) s = s"
proof -
  have "visible_word (join '','' (map show_u16 vs))"
    using assms by (intro visible_word_join) (auto simp: visible_word_show_u16)
  then show ?thesis using visible_word_last
    by (auto simp: cmd_eval interface_line_def strip_prefix_def)
qed

lemma no_tagged_all_read:
  "list_all plain_cmd (map no_tagged vs) \<and> fold interface_line (map no_tagged vs) s = s"
  using no_tagged_read by (induction vs) simp_all

lemma mode_commands_read:
  "list_all plain_cmd (aruba_mode_commands cur p) \<and> fold interface_line (aruba_mode_commands cur p) s = s"
  using untagged_read no_tagged_all_read tagged_read
  by (simp add: aruba_mode_commands_def Let_def split: option.splits port_mode.splits)

lemma enabled_read:
  "plain_cmd (if p_enabled p then ''enable'' else ''disable'') \<and>
   interface_line (if p_enabled p then ''enable'' else ''disable'') s = s\<lparr>if_enabled := p_enabled p\<rparr>"
  by (simp add: cmd_eval interface_line_def strip_prefix_def)

lemma poe_commands_read:
  "list_all plain_cmd (aruba_poe_commands m p) \<and>
   fold interface_line (aruba_poe_commands m p) s =
     (if supports_poe m
      then s\<lparr>if_poe_enabled := p_poe_enabled p \<and> port_supports_poe m (p_port_id p)\<rparr> else s)"
  by (simp add: aruba_poe_commands_def port_supports_poe_def supports_poe_cap_def cmd_eval
      interface_line_def strip_prefix_def split: option.splits)

lemma mac_commands_read:
  "list_all plain_cmd (aruba_mac_commands p) \<and>
   fold interface_line (aruba_mac_commands p) s = s\<lparr>if_mac_notify := p_mac_notify p\<rparr>"
  by (simp add: aruba_mac_commands_def cmd_eval interface_line_def strip_prefix_def)

lemma speed_read:
  "plain_cmd (''speed-duplex '' @ to_aruba_syntax d) \<and>
   interface_line (''speed-duplex '' @ to_aruba_syntax d) s = s\<lparr>if_speed_duplex := d\<rparr>"
proof -
  have "visible_word (to_aruba_syntax d)"
    by (cases d) (simp_all add: visible_word_def visible_def)
  moreover from this have "trim (to_aruba_syntax d) = to_aruba_syntax d" by (rule visible_word_trim)
  moreover have "from_aruba_output (to_aruba_syntax d) = Some d"
    by (cases d) (simp_all add: from_aruba_output_def to_ascii_lower_def)
  ultimately show ?thesis using visible_word_last
    by (auto simp: cmd_eval interface_line_def strip_prefix_def)
qed

definition plain_sessions :: "port_mirror list \<Rightarrow> bool" where
  "plain_sessions mirrors \<longleftrightarrow> list_all (\<lambda>m. visible_word (m_session_id m)) mirrors"

lemma direction_command_read:
  assumes "visible_word (fst c)"
  shows "plain_cmd (aruba_direction_command c) \<and>
         interface_line (aruba_direction_command c) s = s\<lparr>if_monitor := True\<rparr>"
  using assms visible_word_last [of "fst c"]
  by (cases c; cases "snd c") (auto simp: cmd_eval interface_line_def strip_prefix_def)

lemma monitor_fold:
  assumes "list_all plain_cmd ls" and "\<And>l s. l \<in> set ls \<Longrightarrow> interface_line l s = s\<lparr>if_monitor := True\<rparr>"
  shows "fold interface_line ls s = (if ls = [] then s else s\<lparr>if_monitor := True\<rparr>)"
  using assms by (induction ls arbitrary: s) auto

lemma monitor_commands_read:
  assumes "list_all (\<lambda>c. visible_word (fst c)) cs"
  shows "list_all plain_cmd (aruba_monitor_commands m cs) \<and>
    fold interface_line (aruba_monitor_commands m cs) s =
      (if cs = [] then s else s\<lparr>if_monitor := True\<rparr>)"
proof -
  have legacy: "plain_cmd ''monitor''" "interface_line ''monitor'' t = t\<lparr>if_monitor := True\<rparr>" for t
    by (simp_all add: cmd_eval interface_line_def strip_prefix_def)
  have all: "plain_cmd l \<and> interface_line l t = t\<lparr>if_monitor := True\<rparr>"
    if l: "l \<in> set (aruba_monitor_commands m cs)" for l t
  proof (cases "uses_legacy_mirror_syntax m")
    case True
    with l have "l = ''monitor''" by (auto simp: aruba_monitor_commands_def)
    with legacy show ?thesis by simp
  next
    case False
    with l obtain c where "c \<in> set cs" and "l = aruba_direction_command c"
      by (auto simp: aruba_monitor_commands_def)
    with assms direction_command_read show ?thesis by (simp add: list_all_iff)
  qed
  then have "list_all plain_cmd (aruba_monitor_commands m cs)" by (auto simp: list_all_iff)
  moreover have "aruba_monitor_commands m cs = [] \<longleftrightarrow> cs = []"
    by (simp add: aruba_monitor_commands_def)
  ultimately show ?thesis using monitor_fold all by auto
qed

lemma mirror_sources_plain:
  "plain_sessions mirrors \<Longrightarrow> list_all (\<lambda>c. visible_word (fst c)) (mirror_sources mirrors i)"
  by (auto simp: mirror_sources_def plain_sessions_def list_all_iff)

lemma interface_header:
  assumes "visible_word i"
  shows "strip_prefix ''interface '' (trim (''interface '' @ i)) = Some i" "trim i = i"
proof -
  have "trim (''interface '' @ i) = ''interface '' @ i"
    using visible_word_last [OF assms] by (intro trim_visible) (auto simp: visible_def)
  then show "strip_prefix ''interface '' (trim (''interface '' @ i)) = Some i"
    by (simp only: strip_prefix_append)
qed (rule visible_word_trim [OF assms])

text \<open>C10: The commands generated for a port say what the configuration says: the reader of interface
  blocks, given the generated block, returns the port's description, administrative state, PoE,
  MAC notification and speed, and stops at the block's \<open>exit\<close>. PoE reads as on only if the model
  and the port have it, and the port reads as monitored exactly if it is the source of a mirror. The
  description must not begin or end with a double quote.\<close>

theorem aruba_port_block_roundtrip:
  assumes "strips_only_escapes ansi" and "visible_word (normalize_port_id (p_port_id p))"
    and "plain_description p" and "plain_sessions mirrors"
  shows "parse_interface_name ansi m (aruba_port_block m cur mirrors p @ rest) =
    (Some (normalize_port_id (p_port_id p),
       \<lparr>if_description = p_description p,
        if_monitor = (mirror_sources mirrors (normalize_port_id (p_port_id p)) \<noteq> []),
        if_poe_enabled = (supports_poe m \<and> p_poe_enabled p \<and> port_supports_poe m (p_port_id p)),
        if_mac_notify = p_mac_notify p, if_enabled = p_enabled p, if_speed_duplex = p_speed_duplex p\<rparr>),
     exit_cmd # rest)"
proof -
  let ?i = "normalize_port_id (p_port_id p)"
  let ?cs = "mirror_sources mirrors ?i"
  let ?xs = "aruba_name_commands cur p @ aruba_mode_commands cur p
    @ [if p_enabled p then ''enable'' else ''disable''] @ aruba_poe_commands m p @ aruba_mac_commands p
    @ [''speed-duplex '' @ to_aruba_syntax (p_speed_duplex p)] @ aruba_monitor_commands m ?cs"
  note mon = monitor_commands_read [OF mirror_sources_plain [OF assms(4)]]
  note reads = name_commands_read [OF assms(3)] mode_commands_read enabled_read poe_commands_read
    mac_commands_read speed_read mon
  have block: "aruba_port_block m cur mirrors p @ rest = (''interface '' @ ?i) # ?xs @ exit_cmd # rest"
    by (simp add: aruba_port_block_def Let_def)
  have plain: "list_all plain_cmd ?xs"
    by (simp only: list_all_append list.pred_inject reads)
  have "scan_block ansi interface_line (?xs @ exit_cmd # rest) (interface_defaults m) =
      (fold interface_line ?xs (interface_defaults m), exit_cmd # rest)"
    by (rule scan_plain [OF assms(1) plain])
  moreover have "fold interface_line ?xs (interface_defaults m) =
      \<lparr>if_description = p_description p, if_monitor = (?cs \<noteq> []),
       if_poe_enabled = (supports_poe m \<and> p_poe_enabled p \<and> port_supports_poe m (p_port_id p)),
       if_mac_notify = p_mac_notify p, if_enabled = p_enabled p, if_speed_duplex = p_speed_duplex p\<rparr>"
    by (simp only: fold_append comp_apply fold.simps id_apply reads)
      (simp add: interface_defaults_def split: option.split)
  ultimately show ?thesis
    unfolding block parse_interface_name_def list.sel interface_header [OF assms(2)] option.case
    by simp
qed

theorem aruba_port_block_roundtrip_witness:
  "parse_interface_name (\<lambda>s. s) Aruba2930F (aruba_port_block Aruba2930F None []
       ((plain_port True ''1/0/7'')\<lparr>p_description := Some ''Uplink to core'', p_speed_duplex := HundredFull\<rparr>) @ []) =
     (Some (''7'',
        \<lparr>if_description = Some ''Uplink to core'', if_monitor = False,
         if_poe_enabled = (supports_poe Aruba2930F \<and> p_poe_enabled (plain_port True ''1/0/7'') \<and>
           port_supports_poe Aruba2930F ''1/0/7''),
         if_mac_notify = p_mac_notify (plain_port True ''1/0/7''),
         if_enabled = p_enabled (plain_port True ''1/0/7''), if_speed_duplex = HundredFull\<rparr>), [exit_cmd])"
proof -
  let ?p = "(plain_port True ''1/0/7'')\<lparr>p_description := Some ''Uplink to core'', p_speed_duplex := HundredFull\<rparr>"
  have 1: "strips_only_escapes (\<lambda>s. s)" by (simp add: strips_only_escapes_def)
  have n: "normalize_port_id (p_port_id ?p) = ''7''"
    by (simp add: plain_port_def normalize_port_id_def)
  have 2: "visible_word (normalize_port_id (p_port_id ?p))"
    by (simp only: n) (simp add: visible_word_def visible_def)
  have 3: "plain_description ?p"
    by (simp add: plain_description_def no_end_def dquote_def escape_def)
  have 4: "plain_sessions []" by (simp add: plain_sessions_def)
  have 5: "p_port_id ?p = ''1/0/7''" by (simp add: plain_port_def)
  show ?thesis
    using aruba_port_block_roundtrip [OF 1 2 3 4, of Aruba2930F None "[]"] n 5
    by (simp add: mirror_sources_def plain_port_def)
qed

section \<open>VLAN blocks\<close>

definition plain_vlan_name :: "string \<Rightarrow> bool" where
  "plain_vlan_name n \<longleftrightarrow>
     n \<noteq> [] \<and> no_end dquote n \<and> escape \<notin> set n \<and> (CHR '' '' \<in> set n \<or> visible (last n))"

fun plain_ip :: "vlan_ip_config \<Rightarrow> bool" where
  "plain_ip (Static a nm) \<longleftrightarrow> visible_word a \<and> visible_word nm"
| "plain_ip _ \<longleftrightarrow> True"

lemma vlan_name_read:
  assumes "plain_vlan_name n"
  shows "plain_cmd (aruba_vlan_name_command n) \<and>
         vlan_block_line (aruba_vlan_name_command n) s = s\<lparr>vb_name := n\<rparr>"
proof (cases "CHR '' '' \<in> set n")
  case True
  with assms show ?thesis
    using trim_matches_quoted [of dquote n] visible_dquote
    by (simp add: aruba_vlan_name_command_def plain_vlan_name_def cmd_eval vlan_block_line_def
        strip_prefix_def quoted_def dquote_def)
next
  case False
  with assms show ?thesis
    using trim_matches_id [of dquote n]
    by (simp add: aruba_vlan_name_command_def plain_vlan_name_def cmd_eval vlan_block_line_def
        strip_prefix_def)
qed

lemma static_ip_read:
  assumes "visible_word a" and "visible_word nm"
  shows "plain_cmd (''ip address '' @ a @ '' '' @ nm) \<and>
         vlan_block_line (''ip address '' @ a @ '' '' @ nm) s = s\<lparr>vb_ip_config := Static a nm\<rparr>"
proof -
  have "a @ '' '' @ nm \<noteq> ''dhcp-bootp''"
  proof
    assume h: "a @ '' '' @ nm = ''dhcp-bootp''"
    have "CHR '' '' \<in> set (a @ '' '' @ nm)" by simp
    then show False unfolding h by simp
  qed
  then have dhcp: "''ip address '' @ a @ '' '' @ nm \<noteq> ''ip address dhcp-bootp''" by simp
  have "split_whitespace (a @ '' '' @ nm) = [a, nm]"
    using split_whitespace_two [OF assms] by simp
  then have "vlan_block_line (''ip address '' @ a @ '' '' @ nm) s = s\<lparr>vb_ip_config := Static a nm\<rparr>"
    using dhcp by (simp add: vlan_block_line_def strip_prefix_def)
  moreover have "plain_cmd (''ip address '' @ a @ '' '' @ nm)"
    using visible_word_last [OF assms(1)] visible_word_last [OF assms(2)] by (auto simp: cmd_eval)
  ultimately show ?thesis by blast
qed

lemma ip_command_read:
  assumes "plain_ip ip"
  shows "plain_cmd (aruba_ip_command ip) \<and>
         vlan_block_line (aruba_ip_command ip) s = s\<lparr>vb_ip_config := ip\<rparr>"
proof (cases ip)
  case (Static a nm)
  with assms static_ip_read show ?thesis by simp
qed (simp_all add: cmd_eval vlan_block_line_def strip_prefix_def)

text \<open>C11: The same for VLANs: the reader of VLAN blocks returns id, name and address configuration of
  the VLAN whose commands it is given, with no ports; a description is not written and reads as none. The
  name must not be empty or begin or end with a double quote.\<close>

theorem aruba_vlan_block_roundtrip:
  assumes "strips_only_escapes ansi" and "plain_vlan_name (v_name vl)" and "plain_ip (v_ip_config vl)"
  shows "parse_vlan_with_ports ansi (aruba_vlan_block vl @ rest) =
           (Some (vl\<lparr>v_description := None\<rparr>, [], []), exit_cmd # rest)"
proof -
  let ?xs = "[aruba_vlan_name_command (v_name vl), aruba_ip_command (v_ip_config vl)]"
  note reads = vlan_name_read [OF assms(2)] ip_command_read [OF assms(3)]
  have block: "aruba_vlan_block vl @ rest = (''vlan '' @ show_u16 (v_id vl)) # ?xs @ exit_cmd # rest"
    by (simp add: aruba_vlan_block_def)
  have t: "trim (''vlan '' @ show_u16 (v_id vl)) = ''vlan '' @ show_u16 (v_id vl)"
    using last_show_u16_visible [of "v_id vl"] by (intro trim_visible) (auto simp: visible_def)
  have h: "strip_prefix ''vlan '' (trim (''vlan '' @ show_u16 (v_id vl))) = Some (show_u16 (v_id vl))"
    unfolding t by (rule strip_prefix_append)
  have i: "parse_u16 (trim (show_u16 (v_id vl))) = Some (v_id vl)"
    by (simp add: visible_word_trim [OF visible_word_show_u16])
  have plain: "list_all plain_cmd ?xs" by (simp add: reads)
  have "scan_block ansi vlan_block_line (?xs @ exit_cmd # rest) s = (fold vlan_block_line ?xs s, exit_cmd # rest)" for s
    by (rule scan_plain [OF assms(1) plain])
  then show ?thesis
    unfolding block parse_vlan_with_ports_def list.sel h option.case i
    by (simp add: reads)
qed

theorem aruba_vlan_block_roundtrip_witness:
  "parse_vlan_with_ports (\<lambda>s. s)
      (aruba_vlan_block \<lparr>v_id = 20, v_name = ''Guest WiFi'', v_description = Some ''guests'',
         v_ip_config = Static ''10.0.20.2'' ''255.255.255.0''\<rparr> @ []) =
   (Some (\<lparr>v_id = 20, v_name = ''Guest WiFi'', v_description = None,
           v_ip_config = Static ''10.0.20.2'' ''255.255.255.0''\<rparr>, [], []), [exit_cmd])"
proof -
  let ?v = "\<lparr>v_id = 20, v_name = ''Guest WiFi'', v_description = Some ''guests'',
         v_ip_config = Static ''10.0.20.2'' ''255.255.255.0''\<rparr>"
  have 1: "strips_only_escapes (\<lambda>s. s)" by (simp add: strips_only_escapes_def)
  have 2: "plain_vlan_name (v_name ?v)"
    by (simp add: plain_vlan_name_def no_end_def dquote_def escape_def)
  have 3: "plain_ip (v_ip_config ?v)" by (simp add: visible_word_def visible_def)
  from aruba_vlan_block_roundtrip [OF 1 2 3, of "[]"] show ?thesis by simp
qed

end
