(* ===== verification/Cisco.thy ===== *)
theory Cisco
  imports Vendor
begin

text \<open>
  The driver of \<open>vendors/cisco.rs\<close> for Catalyst switches: the commands it generates, the reader of the
  management VLAN (the only part of the running configuration it reads), its operations on a session,
  and its place as an instance of the contract \<open>switch_driver\<close>.
\<close>

abbreviation ios_configure :: string where
  "ios_configure \<equiv> ''configure terminal''"

definition ios_mode :: "string list \<Rightarrow> string list" where
  "ios_mode cmds = ios_configure # cmds @ [''end'']"

section \<open>Commands\<close>

definition cisco_vlan_block :: "vlan \<Rightarrow> string list" where
  "cisco_vlan_block vl =
     [''vlan '' @ show_u16 (v_id vl), ''name '' @ v_name vl]
     @ (case v_description vl of Some desc \<Rightarrow> [''description '' @ desc] | None \<Rightarrow> [])
     @ [''exit'']"

definition cisco_vlan_commands :: "vlan list \<Rightarrow> string list" where
  "cisco_vlan_commands vlans = ios_mode (concat (map cisco_vlan_block vlans))"

text \<open>\<open>replacen\<close> of a prefix the identifier begins with.\<close>

definition cisco_normalize_port_id :: "string \<Rightarrow> string" where
  "cisco_normalize_port_id port_id =
     (if starts_with ''GigabitEthernet'' port_id then port_id
      else if starts_with ''TenGigabitEthernet'' port_id then port_id
      else if starts_with ''Gi'' port_id then ''GigabitEthernet'' @ drop 2 port_id
      else if starts_with ''Te'' port_id then ''TenGigabitEthernet'' @ drop 2 port_id
      else if List.member port_id (CHR ''/'') then ''GigabitEthernet'' @ port_id
      else ''GigabitEthernet1/0/'' @ port_id)"

definition cisco_mode_commands :: "port \<Rightarrow> string list" where
  "cisco_mode_commands port =
     (case inferred_mode port of
        Access \<Rightarrow> [''switchport mode access'', ''switchport access vlan '' @ show_u16 (p_vlan port)]
      | Trunk \<Rightarrow>
          [''switchport mode trunk'', ''switchport trunk native vlan '' @ show_u16 (p_vlan port),
           if p_tagged_vlans port \<noteq> []
           then ''switchport trunk allowed vlan '' @ join '','' (map show_u16 (p_tagged_vlans port))
           else ''switchport trunk allowed vlan all''])"

definition cisco_port_block :: "port \<Rightarrow> string list" where
  "cisco_port_block port =
     [''interface '' @ cisco_normalize_port_id (p_port_id port)]
     @ (case p_description port of Some desc \<Rightarrow> [''description '' @ desc] | None \<Rightarrow> [])
     @ cisco_mode_commands port
     @ [if p_enabled port then ''no shutdown'' else ''shutdown'',
        if p_poe_enabled port then ''power inline auto'' else ''power inline never'']
     @ (if p_mac_notify port
        then [''snmp trap mac-notification change added'', ''snmp trap mac-notification change removed'']
        else [''no snmp trap mac-notification change added'', ''no snmp trap mac-notification change removed''])
     @ [''speed '' @ to_cisco_speed (p_speed_duplex port),
        ''duplex '' @ to_cisco_duplex (p_speed_duplex port), ''exit'']"

definition cisco_port_commands :: "port list \<Rightarrow> string list" where
  "cisco_port_commands ports = ios_mode (concat (map cisco_port_block ports))"

fun cisco_direction :: "mirror_direction \<Rightarrow> string" where
  "cisco_direction Rx = ''rx''"
| "cisco_direction Tx = ''tx''"
| "cisco_direction Both = ''both''"

definition cisco_mirror_block :: "port_mirror \<Rightarrow> string list" where
  "cisco_mirror_block mirror =
     [''no monitor session '' @ m_session_id mirror, ''monitor session '' @ m_session_id mirror]
     @ map (\<lambda>source. ''monitor session '' @ m_session_id mirror @ '' source interface ''
              @ cisco_normalize_port_id source @ '' '' @ cisco_direction (m_direction mirror))
         (m_source_ports mirror)
     @ [''monitor session '' @ m_session_id mirror @ '' destination interface ''
        @ cisco_normalize_port_id (m_destination_port mirror)]"

definition cisco_mirror_commands :: "port_mirror list \<Rightarrow> string list" where
  "cisco_mirror_commands mirrors = ios_mode (concat (map cisco_mirror_block mirrors))"

fun cisco_access :: "snmp_access \<Rightarrow> string" where
  "cisco_access Unrestricted = ''RW''"
| "cisco_access Manager = ''RW''"
| "cisco_access Operator = ''RO''"

definition cisco_community :: "snmp_community \<Rightarrow> string" where
  "cisco_community c = ''snmp-server community '' @ c_name c @ '' '' @ cisco_access (c_access c)"

definition cisco_receiver :: "snmp_trap_receiver \<Rightarrow> string" where
  "cisco_receiver r =
     ''snmp-server host '' @ r_host r @ '' version ''
     @ (case r_version r of Some v \<Rightarrow> v | None \<Rightarrow> ''2c'') @ '' '' @ r_community r"

fun cisco_trap :: "trap_type \<Rightarrow> string" where
  "cisco_trap MacNotify = ''snmp-server enable traps mac-notification''"
| "cisco_trap LinkChange = ''snmp-server enable traps link''"
| "cisco_trap AllTraps = ''snmp-server enable traps''"

definition cisco_snmp_commands :: "snmp_config \<Rightarrow> string list" where
  "cisco_snmp_commands snmp =
     ios_mode (map cisco_community (sn_communities snmp) @ map cisco_receiver (sn_trap_receivers snmp)
               @ map cisco_trap (sn_enabled_traps snmp))"

definition cisco_no_community :: "string \<Rightarrow> string" where
  "cisco_no_community name = ''no snmp-server community '' @ name"

definition cisco_snmp_diff_commands :: "snmp_state_diff \<Rightarrow> string list" where
  "cisco_snmp_diff_commands d =
     ios_mode
      (map cisco_no_community (communities_to_remove d)
       @ concat (map (\<lambda>c. [cisco_no_community (c_name c), cisco_community c]) (communities_to_update d))
       @ map cisco_community (communities_to_add d)
       @ map (\<lambda>host. ''no snmp-server host '' @ host) (trap_receivers_to_remove d)
       @ map cisco_receiver (trap_receivers_to_add d)
       @ map cisco_trap (traps_to_enable d)
       @ map (\<lambda>t. ''no '' @ cisco_trap t) (traps_to_disable d))"

definition cisco_snmp_diff_actions :: "snmp_state_diff \<Rightarrow> nat" where
  "cisco_snmp_diff_actions d =
     length (communities_to_remove d) + length (communities_to_update d) + length (communities_to_add d)
     + length (trap_receivers_to_remove d) + length (trap_receivers_to_add d)
     + length (traps_to_enable d) + length (traps_to_disable d)"

definition cisco_remove_vlan_commands :: "u16 list \<Rightarrow> string list" where
  "cisco_remove_vlan_commands vlan_ids = ios_mode (map (\<lambda>v. ''no vlan '' @ show_u16 v) vlan_ids)"

definition cisco_remove_mirror_commands :: "string list \<Rightarrow> string list" where
  "cisco_remove_mirror_commands session_ids = ios_mode (map (\<lambda>i. ''no monitor session '' @ i) session_ids)"

definition cisco_migration :: "port_migration \<Rightarrow> string list" where
  "cisco_migration g =
     (case pm_action g of
        MoveAccessToVlan1 \<Rightarrow> [''interface '' @ pm_port_id g, ''switchport access vlan 1'']
      | RemoveVlanFromTrunk remaining_vlans \<Rightarrow>
          (''interface '' @ pm_port_id g)
          # (if remaining_vlans = [] then [''switchport mode access'', ''switchport access vlan 1'']
             else [''switchport trunk allowed vlan '' @ join '','' (map show_u16 remaining_vlans)]))"

definition cisco_migrate_commands :: "port_migration list \<Rightarrow> string list" where
  "cisco_migrate_commands migrations = ios_mode (concat (map cisco_migration migrations))"

definition cisco_reset_block :: "string \<Rightarrow> string list" where
  "cisco_reset_block port_id =
     [''interface '' @ cisco_normalize_port_id port_id, ''shutdown'', ''no description'',
      ''switchport mode access'', ''switchport access vlan 1'', ''no switchport trunk allowed vlan'',
      ''power inline auto'', ''exit'']"

definition cisco_reset_commands :: "string list \<Rightarrow> string list" where
  "cisco_reset_commands port_ids = ios_mode (concat (map cisco_reset_block port_ids))"

definition cisco_baseline_block :: "string \<Rightarrow> string list" where
  "cisco_baseline_block port_id =
     [''interface '' @ cisco_normalize_port_id port_id, ''switchport mode access'',
      ''switchport access vlan 1'', ''no description'', ''no shutdown'', ''exit'']"

definition cisco_baseline_commands :: "string list \<Rightarrow> string list" where
  "cisco_baseline_commands port_ids = ios_mode (concat (map cisco_baseline_block port_ids))"

fun cisco_svi_address :: "vlan_ip_config \<Rightarrow> string list" where
  "cisco_svi_address (Static a nm) = [''ip address '' @ a @ '' '' @ nm]"
| "cisco_svi_address Dhcp = [''ip address dhcp'']"
| "cisco_svi_address IpNone = []"

definition cisco_management_vlan_commands :: "u16 \<Rightarrow> vlan \<Rightarrow> string list" where
  "cisco_management_vlan_commands vlan_id vlan_config =
     ios_mode ([''interface vlan '' @ show_u16 vlan_id] @ cisco_svi_address (v_ip_config vlan_config)
               @ [''no shutdown'', ''exit''])"

definition cisco_commands_for_diff :: "state_diff \<Rightarrow> command_preview" where
  "cisco_commands_for_diff d =
     default_preview
       \<lparr>vlan_commands :=
          (if vlans_to_remove d \<noteq> [] then cisco_remove_vlan_commands (vlans_to_remove d) else [])
          @ (if vlans_to_add d \<noteq> [] then cisco_vlan_commands (vlans_to_add d) else [])
          @ (if vlans_to_update d \<noteq> [] then cisco_vlan_commands (vlans_to_update d) else []),
        port_commands :=
          (if ports_to_configure d \<noteq> [] then cisco_port_commands (ports_to_configure d) else []),
        mirror_commands :=
          (if mirrors_to_remove d \<noteq> [] then cisco_remove_mirror_commands (mirrors_to_remove d) else [])
          @ (if mirrors_to_add d \<noteq> [] then cisco_mirror_commands (mirrors_to_add d) else [])
          @ (if mirrors_to_update d \<noteq> [] then cisco_mirror_commands (mirrors_to_update d) else []),
        snmp_commands :=
          (case snmp_config_new d of
             Some snmp \<Rightarrow> if snmp_config_changed d then cisco_snmp_commands snmp else []
           | None \<Rightarrow> [])\<rparr>"

section \<open>\<open>validate_configuration\<close>\<close>

definition cisco_vlan_in_range :: "u16 \<Rightarrow> bool" where
  "cisco_vlan_in_range v \<longleftrightarrow> \<not> (v < 1 \<or> v > 4094)"

text \<open>The checks of one port, in order; the first error is returned.\<close>

definition cisco_port_error :: "u16 list \<Rightarrow> port \<Rightarrow> vendor_error option" where
  "cisco_port_error defined_vlans port =
     (if \<not> cisco_vlan_in_range (p_vlan port)
      then Some (ValidationError (''Invalid VLAN ID on port '' @ p_port_id port @ '': ''
                  @ show_u16 (p_vlan port)))
      else if \<not> List.member defined_vlans (p_vlan port)
      then Some (ValidationError (''Port '' @ p_port_id port @ '' references non-existent VLAN ''
                  @ show_u16 (p_vlan port) @ '' as ''
                  @ (case inferred_mode port of Access \<Rightarrow> ''access'' | Trunk \<Rightarrow> ''native/untagged'')
                  @ '' VLAN''))
      else if inferred_mode port = Trunk
      then map_option (\<lambda>v. ValidationError (''Port '' @ p_port_id port @ '' references non-existent VLAN ''
                             @ show_u16 v @ '' in allowed VLANs list''))
             (find (\<lambda>v. \<not> List.member defined_vlans v) (p_tagged_vlans port))
      else None)"

definition cisco_validate_configuration :: "switch_config \<Rightarrow> vendor_error + unit" where
  "cisco_validate_configuration config =
     and_then
       (check_all (\<lambda>vl. if cisco_vlan_in_range (v_id vl) then None
                        else Some (ValidationError (''Invalid VLAN ID: '' @ show_u16 (v_id vl))))
          (s_vlans config))
       (\<lambda>_. check_all (cisco_port_error (map v_id (s_vlans config))) (s_ports config))"

section \<open>Reading\<close>

text \<open>
  The loop of \<open>parse_management_vlan\<close>: inside an SVI, its VLAN, and whether an address was seen. The two
  tests of an address line have the same effect.
\<close>

fun management_vlan_loop :: "string list \<Rightarrow> bool \<Rightarrow> u16 option \<Rightarrow> bool \<Rightarrow> u16 option" where
  "management_vlan_loop [] in_svi current has_ip =
     (if in_svi \<and> has_ip \<and> current \<noteq> None then current else None)"
| "management_vlan_loop (line # ls) in_svi current has_ip =
     (let l = trim line in
      case strip_prefix ''interface Vlan'' l of
        Some r \<Rightarrow>
          (case split_whitespace r of
             [] \<Rightarrow> management_vlan_loop ls in_svi current has_ip
           | vlan_str # _ \<Rightarrow>
               (case parse_u16 vlan_str of
                  Some vlan_id \<Rightarrow> management_vlan_loop ls True (Some vlan_id) False
                | None \<Rightarrow> management_vlan_loop ls in_svi current has_ip))
      | None \<Rightarrow>
          if in_svi
          then if starts_with ''ip address'' l \<and> \<not> contains_str ''dhcp'' l
               then management_vlan_loop ls in_svi current True
               else if l = ''ip address dhcp'' then management_vlan_loop ls in_svi current True
               else if starts_with ''interface '' l \<or> starts_with ''!'' l
               then if has_ip \<and> current \<noteq> None then current
                    else management_vlan_loop ls False None False
               else management_vlan_loop ls in_svi current has_ip
          else management_vlan_loop ls in_svi current has_ip)"

definition cisco_parse_management_vlan :: "string list \<Rightarrow> u16 option" where
  "cisco_parse_management_vlan ls = management_vlan_loop ls False None False"

definition cisco_get_running_config :: "'d cli \<Rightarrow> ('d, string) act" where
  "cisco_get_running_config cli = run_command cli ''show running-config''"

definition cisco_parse :: "(string \<Rightarrow> string option) \<Rightarrow> switch_model \<Rightarrow> string \<Rightarrow> switch_state" where
  "cisco_parse hw_id m config =
     \<lparr>st_vlans = [], st_ports = [], st_port_mirrors = [], st_snmp = None,
      st_management_vlan = cisco_parse_management_vlan (lines config),
      st_warnings = verify_hardware_model hw_id config m\<rparr>"

definition cisco_parse_current_state ::
  "'d cli \<Rightarrow> (string \<Rightarrow> string option) \<Rightarrow> ('d, switch_state) act" where
  "cisco_parse_current_state cli hw_id =
     act_bind (cisco_get_running_config cli) (\<lambda>config.
     act_bind act_get (\<lambda>s.
     act_return (cisco_parse hw_id (dr_model s) config)))"

definition cisco_looks_like_mac :: "string \<Rightarrow> bool" where
  "cisco_looks_like_mac token \<longleftrightarrow>
     (let parts = split_on (CHR ''.'') token
      in length parts = 3 \<and> list_all (\<lambda>p. length p = 4 \<and> list_all is_ascii_hexdigit p) parts)"

definition cisco_mac_line :: "string \<Rightarrow> mac_table_entry option" where
  "cisco_mac_line line =
     (case split_whitespace line of
        v # mac # _ # port_id # _ \<Rightarrow>
          if cisco_looks_like_mac mac
          then Some \<lparr>mt_mac_address = mac, mt_vlan_id = parse_u16 v, mt_port_id = port_id\<rparr>
          else None
      | _ \<Rightarrow> None)"

definition cisco_parse_mac_table :: "string \<Rightarrow> mac_table_entry list" where
  "cisco_parse_mac_table raw = List.map_filter cisco_mac_line (lines raw)"

definition cisco_command_rejected :: "string \<Rightarrow> bool" where
  "cisco_command_rejected raw \<longleftrightarrow> contains_str ''% Invalid input detected'' raw"

definition cisco_get_mac_table :: "'d cli \<Rightarrow> ('d, mac_table_entry list \<times> string) act" where
  "cisco_get_mac_table cli =
     act_bind (run_commands cli [''show mac address-table'']) (\<lambda>outputs.
       let raw = join [newline] outputs in
       if cisco_command_rejected raw
       then act_fail (CommandError (''Switch rejected '' @ [CHR 0x27] @ ''show mac address-table''
                        @ [CHR 0x27] @ '': '' @ trim raw))
       else act_return (cisco_parse_mac_table raw, raw))"

end
