(* ===== verification/Cisco_Apply.thy ===== *)
theory Cisco_Apply
  imports Cisco
begin

text \<open>
  The operations of the Cisco driver on a session, its plan, and what an apply on a Catalyst switch
  comes to: the driver does not read VLANs and ports, so the shared safety check takes every reading
  for a failed one.
\<close>

section \<open>Writing\<close>

definition cisco_remove_vlans :: "'d cli \<Rightarrow> u16 list \<Rightarrow> ('d, config_result) act" where
  "cisco_remove_vlans cli vlan_ids =
     run_and_report cli (cisco_remove_vlan_commands vlan_ids) (counted ''Removed '' (length vlan_ids) '' VLANs'')"

definition cisco_migrate_ports :: "'d cli \<Rightarrow> port_migration list \<Rightarrow> ('d, config_result) act" where
  "cisco_migrate_ports cli migrations =
     run_and_report cli (cisco_migrate_commands migrations)
       (counted ''Migrated '' (length migrations) '' ports before VLAN deletion'')"

definition cisco_remove_mirrors :: "'d cli \<Rightarrow> string list \<Rightarrow> ('d, config_result) act" where
  "cisco_remove_mirrors cli session_ids =
     run_and_report cli (cisco_remove_mirror_commands session_ids)
       (counted ''Removed '' (length session_ids) '' port mirrors'')"

definition cisco_configure_snmp :: "'d cli \<Rightarrow> snmp_config \<Rightarrow> ('d, config_result) act" where
  "cisco_configure_snmp cli snmp = run_and_report cli (cisco_snmp_commands snmp) ''Configured SNMP settings''"

definition cisco_apply_snmp_diff :: "'d cli \<Rightarrow> snmp_state_diff \<Rightarrow> ('d, config_result) act" where
  "cisco_apply_snmp_diff cli sd =
     (if \<not> snmp_has_changes sd
      then act_bind act_get (\<lambda>s. act_return
             \<lparr>res_switch = dr_hostname s, res_success = True,
              res_message = ''SNMP configuration already in desired state'', res_commands = []\<rparr>)
      else run_and_report cli (cisco_snmp_diff_commands sd)
             (counted ''Applied '' (cisco_snmp_diff_actions sd) '' SNMP changes''))"

definition cisco_configure_vlans :: "'d cli \<Rightarrow> vlan list \<Rightarrow> ('d, config_result) act" where
  "cisco_configure_vlans cli vlans =
     run_and_report cli (cisco_vlan_commands vlans) (counted ''Configured '' (length vlans) '' VLANs'')"

definition cisco_configure_ports :: "'d cli \<Rightarrow> port list \<Rightarrow> ('d, config_result) act" where
  "cisco_configure_ports cli ports =
     run_and_report cli (cisco_port_commands ports) (counted ''Configured '' (length ports) '' ports'')"

definition cisco_configure_port_mirrors :: "'d cli \<Rightarrow> port_mirror list \<Rightarrow> ('d, config_result) act" where
  "cisco_configure_port_mirrors cli mirrors =
     run_and_report cli (cisco_mirror_commands mirrors) (counted ''Configured '' (length mirrors) '' port mirrors'')"

definition cisco_reset_ports :: "'d cli \<Rightarrow> string list \<Rightarrow> ('d, config_result) act" where
  "cisco_reset_ports cli port_ids =
     run_and_report cli (cisco_reset_commands port_ids)
       (counted ''Reset '' (length port_ids) '' ports to default state'')"

definition cisco_configure_mirror_dest_ports :: "'d cli \<Rightarrow> string list \<Rightarrow> ('d, config_result) act" where
  "cisco_configure_mirror_dest_ports cli port_ids =
     run_and_report cli (cisco_baseline_commands port_ids)
       (counted ''Configured '' (length port_ids) '' mirror destination ports with baseline settings'')"

definition cisco_configure_management_vlan :: "'d cli \<Rightarrow> u16 \<Rightarrow> ('d, config_result) act" where
  "cisco_configure_management_vlan cli vlan_id =
     act_bind act_get (\<lambda>s.
       case find (\<lambda>v. v_id v = vlan_id) (s_vlans (dr_config s)) of
         None \<Rightarrow> act_fail (ValidationError (''Management VLAN '' @ show_u16 vlan_id
                             @ '' not found in VLAN configuration''))
       | Some vlan_config \<Rightarrow>
           run_and_report cli (cisco_management_vlan_commands vlan_id vlan_config)
             (''Configured management VLAN '' @ show_u16 vlan_id @ '' with SVI''))"

definition cisco_remove_management_vlan :: "('d, config_result) act" where
  "cisco_remove_management_vlan =
     act_bind act_get (\<lambda>s. act_return
       \<lparr>res_switch = dr_hostname s, res_success = True,
        res_message = ''Management VLAN removal not fully implemented for Cisco'', res_commands = []\<rparr>)"

section \<open>\<open>apply_diff\<close>\<close>

definition cisco_remove_stage ::
  "'d cli \<Rightarrow> state_diff \<Rightarrow> config_result list \<Rightarrow> ('d, config_result list) act" where
  "cisco_remove_stage cli d results =
     (if vlans_to_remove d \<noteq> []
      then act_bind act_get (\<lambda>s.
             let migrations = (case dr_current s of
                                 Some st \<Rightarrow> find_ports_to_migrate st (vlans_to_remove d) | None \<Rightarrow> [])
             in act_bind (push_if (migrations \<noteq> []) (cisco_migrate_ports cli migrations) results)
                  (push_if True (cisco_remove_vlans cli (vlans_to_remove d))))
      else act_return results)"

definition cisco_snmp_stage ::
  "'d cli \<Rightarrow> state_diff \<Rightarrow> config_result list \<Rightarrow> ('d, config_result list) act" where
  "cisco_snmp_stage cli d results =
     (case snmp_diff d of
        Some sd \<Rightarrow> push_if (snmp_has_changes sd) (cisco_apply_snmp_diff cli sd) results
      | None \<Rightarrow>
          if snmp_config_changed d
          then (case snmp_config_new d of
                  Some snmp \<Rightarrow> push_if True (cisco_configure_snmp cli snmp) results
                | None \<Rightarrow> act_return results)
          else act_return results)"

definition cisco_management_stage ::
  "'d cli \<Rightarrow> state_diff \<Rightarrow> config_result list \<Rightarrow> ('d, config_result list) act" where
  "cisco_management_stage cli d results =
     (if management_vlan_changed d
      then (case management_vlan_new d of
              Some vlan_id \<Rightarrow> push_if True (cisco_configure_management_vlan cli vlan_id) results
            | None \<Rightarrow> push_if True cisco_remove_management_vlan results)
      else act_return results)"

definition cisco_apply_diff :: "'d cli \<Rightarrow> state_diff \<Rightarrow> ('d, config_result list) act" where
  "cisco_apply_diff cli d =
     act_bind (cisco_remove_stage cli d []) (\<lambda>r.
     act_bind (push_if (vlans_to_add d \<noteq> []) (cisco_configure_vlans cli (vlans_to_add d)) r) (\<lambda>r.
     act_bind (push_if (vlans_to_update d \<noteq> []) (cisco_configure_vlans cli (vlans_to_update d)) r) (\<lambda>r.
     act_bind (push_if (ports_to_configure d \<noteq> []) (cisco_configure_ports cli (ports_to_configure d)) r) (\<lambda>r.
     act_bind (push_if (ports_to_reset d \<noteq> []) (cisco_reset_ports cli (ports_to_reset d)) r) (\<lambda>r.
     act_bind (push_if (mirror_dest_ports_to_configure d \<noteq> [])
                (cisco_configure_mirror_dest_ports cli (mirror_dest_ports_to_configure d)) r) (\<lambda>r.
     act_bind (push_if (mirrors_to_remove d \<noteq> []) (cisco_remove_mirrors cli (mirrors_to_remove d)) r) (\<lambda>r.
     act_bind (push_if (mirrors_to_add d \<noteq> []) (cisco_configure_port_mirrors cli (mirrors_to_add d)) r) (\<lambda>r.
     act_bind (push_if (mirrors_to_update d \<noteq> []) (cisco_configure_port_mirrors cli (mirrors_to_update d)) r) (\<lambda>r.
     act_bind (cisco_snmp_stage cli d r) (\<lambda>r.
     cisco_management_stage cli d r))))))))))"

definition cisco_apply_configuration ::
  "'d cli \<Rightarrow> (string \<Rightarrow> string option) \<Rightarrow> hash_iter \<Rightarrow> hash_iter \<Rightarrow> ('d, config_result list) act" where
  "cisco_apply_configuration cli hw_id it it' =
     apply_configuration it it' (cisco_parse_current_state cli hw_id)
       (cisco_parse_current_state cli hw_id) (cisco_apply_diff cli)"

definition cisco_save_configuration :: "'d cli \<Rightarrow> ('d, unit) act" where
  "cisco_save_configuration cli =
     act_bind (run_command cli ''write memory'') (\<lambda>_. act_return ())"

fun cisco_rollback_configuration :: "'d cli \<Rightarrow> rollback_method \<Rightarrow> ('d, unit) act" where
  "cisco_rollback_configuration cli Reload =
     act_bind (run_command_as cli ''Reload failed: '' ''reload'') (\<lambda>_. act_return ())"
| "cisco_rollback_configuration cli RestoreBackup =
     act_bind (run_command_as cli ''Restore failed: '' ''configure replace nvram:startup-config'')
       (\<lambda>_. act_return ())"
| "cisco_rollback_configuration cli RevertCommands =
     act_bind (run_command_as cli ''Revert failed: '' ''configure replace nvram:startup-config'')
       (\<lambda>_. act_return ())"

section \<open>The plan\<close>

definition cisco_migrations :: "state_diff \<Rightarrow> switch_state option \<Rightarrow> port_migration list" where
  "cisco_migrations d cur =
     (case cur of Some st \<Rightarrow> find_ports_to_migrate st (vlans_to_remove d) | None \<Rightarrow> [])"

definition cisco_svi_batches :: "state_diff \<Rightarrow> vlan list \<Rightarrow> string list list" where
  "cisco_svi_batches d vlans =
     (if management_vlan_changed d
      then (case management_vlan_new d of
              Some i \<Rightarrow>
                (case find (\<lambda>v. v_id v = i) vlans of
                   Some v \<Rightarrow> [cisco_management_vlan_commands i v] | None \<Rightarrow> [])
            | None \<Rightarrow> [])
      else [])"

definition cisco_plan :: "state_diff \<Rightarrow> 'd driver \<Rightarrow> string list list" where
  "cisco_plan d s =
     (batch_if (vlans_to_remove d \<noteq> [] \<and> cisco_migrations d (dr_current s) \<noteq> [])
        (cisco_migrate_commands (cisco_migrations d (dr_current s)))
      @ batch_if (vlans_to_remove d \<noteq> []) (cisco_remove_vlan_commands (vlans_to_remove d)))
     @ batch_if (vlans_to_add d \<noteq> []) (cisco_vlan_commands (vlans_to_add d))
     @ batch_if (vlans_to_update d \<noteq> []) (cisco_vlan_commands (vlans_to_update d))
     @ batch_if (ports_to_configure d \<noteq> []) (cisco_port_commands (ports_to_configure d))
     @ batch_if (ports_to_reset d \<noteq> []) (cisco_reset_commands (ports_to_reset d))
     @ batch_if (mirror_dest_ports_to_configure d \<noteq> [])
         (cisco_baseline_commands (mirror_dest_ports_to_configure d))
     @ batch_if (mirrors_to_remove d \<noteq> []) (cisco_remove_mirror_commands (mirrors_to_remove d))
     @ batch_if (mirrors_to_add d \<noteq> []) (cisco_mirror_commands (mirrors_to_add d))
     @ batch_if (mirrors_to_update d \<noteq> []) (cisco_mirror_commands (mirrors_to_update d))
     @ (case snmp_diff d of
          Some sd \<Rightarrow> batch_if (snmp_has_changes sd) (cisco_snmp_diff_commands sd)
        | None \<Rightarrow> [])
     @ cisco_svi_batches d (s_vlans (dr_config s))"

lemma sends_cisco_parse: "sends (cisco_parse_current_state cli hw_id) s [[''show running-config'']]"
proof -
  have "sends (cisco_parse_current_state cli hw_id) s ([[''show running-config'']] @ [] @ [])"
    unfolding cisco_parse_current_state_def cisco_get_running_config_def
    by (intro sends_bind sends_run_command sends_get sends_return)
  then show ?thesis by simp
qed

lemma sends_cisco_remove_stage:
  "sends (cisco_remove_stage cli d results) s
     (batch_if (vlans_to_remove d \<noteq> [] \<and> cisco_migrations d (dr_current s) \<noteq> [])
        (cisco_migrate_commands (cisco_migrations d (dr_current s)))
      @ batch_if (vlans_to_remove d \<noteq> []) (cisco_remove_vlan_commands (vlans_to_remove d)))"
proof (cases "vlans_to_remove d = []")
  case True
  then show ?thesis by (simp add: cisco_remove_stage_def batch_if_def sends_return)
next
  case False
  let ?ms = "cisco_migrations d (dr_current s)"
  have "sends (act_bind (push_if (?ms \<noteq> []) (cisco_migrate_ports cli ?ms) results)
      (push_if True (cisco_remove_vlans cli (vlans_to_remove d)))) s
      (batch_if (?ms \<noteq> []) (cisco_migrate_commands ?ms)
       @ batch_if True (cisco_remove_vlan_commands (vlans_to_remove d)))"
    unfolding cisco_migrate_ports_def cisco_remove_vlans_def
    by (intro sends_bind sends_push_batch sends_run_and_report)
  then have "sends (act_bind act_get (\<lambda>s. act_bind (push_if (cisco_migrations d (dr_current s) \<noteq> [])
        (cisco_migrate_ports cli (cisco_migrations d (dr_current s))) results)
      (push_if True (cisco_remove_vlans cli (vlans_to_remove d))))) s
      (batch_if (?ms \<noteq> []) (cisco_migrate_commands ?ms)
       @ batch_if True (cisco_remove_vlan_commands (vlans_to_remove d)))"
    by (rule sends_with_get)
  with False show ?thesis by (simp add: cisco_remove_stage_def cisco_migrations_def Let_def)
qed

lemma sends_cisco_snmp_stage:
  assumes "granular_diff d"
  shows "sends (cisco_snmp_stage cli d results) s
    (case snmp_diff d of Some sd \<Rightarrow> batch_if (snmp_has_changes sd) (cisco_snmp_diff_commands sd) | None \<Rightarrow> [])"
proof (cases "snmp_diff d")
  case None
  with assms show ?thesis by (simp add: cisco_snmp_stage_def granular_diff_def sends_return)
next
  case (Some sd)
  have "sends (push_if (snmp_has_changes sd) (cisco_apply_snmp_diff cli sd) results) s
      (if snmp_has_changes sd then [cisco_snmp_diff_commands sd] else [])"
    by (intro sends_push_if) (simp add: cisco_apply_snmp_diff_def sends_run_and_report)
  with Some show ?thesis by (simp add: cisco_snmp_stage_def batch_if_def)
qed

lemma sends_cisco_management_stage:
  "sends (cisco_management_stage cli d results) s (cisco_svi_batches d (s_vlans (dr_config s)))"
proof -
  have conf: "sends (cisco_configure_management_vlan cli i) s
      (case find (\<lambda>v. v_id v = i) (s_vlans (dr_config s)) of
         Some v \<Rightarrow> [cisco_management_vlan_commands i v] | None \<Rightarrow> [])" for i
    unfolding cisco_configure_management_vlan_def
    by (rule sends_with_get) (simp add: sends_fail sends_run_and_report split: option.split)
  have rem: "sends cisco_remove_management_vlan s []"
    unfolding cisco_remove_management_vlan_def by (intro sends_with_get sends_return)
  have push: "sends (push_if True f results) s bs" if "sends f s bs" for f and bs :: "string list list"
    using sends_push_if [of True f s bs results] that by simp
  show ?thesis
    by (simp add: cisco_management_stage_def cisco_svi_batches_def sends_return push [OF rem] push [OF conf]
        split: option.split_asm option.split del: if_split)
qed

lemma sends_cisco_apply_diff:
  assumes "granular_diff d"
  shows "sends (cisco_apply_diff cli d) s (cisco_plan d s)"
proof -
  note defs = cisco_configure_vlans_def cisco_configure_ports_def cisco_reset_ports_def
    cisco_configure_mirror_dest_ports_def cisco_remove_mirrors_def cisco_configure_port_mirrors_def
  have mgmt: "sends (cisco_management_stage cli d r) t (cisco_svi_batches d (s_vlans (dr_config s)))"
    if "same_driver s t" for r t
    using sends_cisco_management_stage [of cli d r t] that by (simp only: same_driver_def)
  show ?thesis
    unfolding cisco_apply_diff_def cisco_plan_def defs
    apply (rule sends_bind [OF sends_cisco_remove_stage])
    apply (rule sends_bind [OF sends_push_batch [OF sends_run_and_report]])+
    apply (rule sends_bind [OF sends_cisco_snmp_stage [OF assms]])
    apply (rule mgmt, (assumption | erule same_driver_trans)+)
    done
qed

interpretation cisco: switch_driver "\<lambda>_ :: unit. cisco_parse_current_state cli hw_id" "cisco_apply_diff cli"
    "[[''show running-config'']]" cisco_plan
  for cli :: "'d cli" and hw_id
  by unfold_locales (simp_all add: sends_cisco_parse sends_cisco_apply_diff)

section \<open>Properties\<close>

lemma cisco_parse_empty:
  "cisco_parse_current_state cli hw_id s = (Inr current, s1) \<Longrightarrow> st_vlans current = [] \<and> st_ports current = []"
  by (auto simp: cisco_parse_current_state_def act_bind_Inr act_return_def act_get_def cisco_parse_def)

text \<open>C20: A Cisco switch is never configured: as long as its configuration has a VLAN or a port, every apply
  fails, and no command but \<open>show running-config\<close> is ever sent. The driver reads no VLANs and ports, and the
  safety check takes that for a failed read.\<close>

theorem cisco_apply_always_refused:
  assumes "s_vlans (dr_config s) \<noteq> [] \<or> s_ports (dr_config s) \<noteq> []"
  shows "\<exists>e t n. cisco_apply_configuration cli hw_id it it' s = (Inl e, t) \<and>
           sent_by t = sent_by s @ take n [[''show running-config'']]"
proof (cases "cisco_parse_current_state cli hw_id s")
  case (Pair r s1)
  show ?thesis
  proof (cases r)
    case (Inl e)
    with Pair have "cisco_apply_configuration cli hw_id it it' s = (Inl e, s1)"
      unfolding cisco_apply_configuration_def by (intro cisco.parse_error) simp
    moreover obtain n where "sent_by s1 = sent_by s @ take n [[''show running-config'']]"
      using sends_prefix [OF sends_cisco_parse Pair] by blast
    ultimately show ?thesis by blast
  next
    case (Inr current)
    with Pair have p: "cisco_parse_current_state cli hw_id s = (Inr current, s1)" by simp
    with cisco_parse_empty have "st_vlans current = []" "st_ports current = []" by blast+
    from cisco.refuses_empty_reading [OF p this assms] obtain msg t where
        "cisco_apply_configuration cli hw_id it it' s = (Inl (ParseError msg), t)"
        "sent_by t = sent_by s @ [[''show running-config'']]"
      unfolding cisco_apply_configuration_def by blast
    moreover have "[[''show running-config'']] = take 1 [[''show running-config'']]" by simp
    ultimately show ?thesis by metis
  qed
qed

definition cisco_example :: "unit driver" where
  "cisco_example =
     \<lparr>dr_config = example_desired, dr_hostname = ''core1'', dr_model = CiscoCatalyst9300_24P_UPOE,
      dr_client = Some \<lparr>device = (), sent = []\<rparr>, dr_current = None, dr_enforce = False\<rparr>"

theorem cisco_apply_always_refused_witness:
  "s_vlans (dr_config cisco_example) \<noteq> [] \<and>
   (\<exists>e t n. cisco_apply_configuration silent_cli (\<lambda>_. None) plain_iter plain_iter cisco_example = (Inl e, t) \<and>
      sent_by t = take n [[''show running-config'']])"
proof -
  have h: "s_vlans (dr_config cisco_example) \<noteq> [] \<or> s_ports (dr_config cisco_example) \<noteq> []"
    by (simp add: cisco_example_def example_desired_def)
  have "sent_by cisco_example = []" by (simp add: sent_by_def cisco_example_def)
  with cisco_apply_always_refused [OF h, of silent_cli "\<lambda>_. None" plain_iter plain_iter] show ?thesis
    by (simp add: cisco_example_def example_desired_def)
qed

text \<open>\<open>validate_configuration\<close> of the Cisco driver accepts a configuration exactly if all VLAN ids and
  native VLANs are between 1 and 4094 and every VLAN a port refers to, native or tagged, is defined.\<close>

theorem cisco_validate_configuration_iff:
  "cisco_validate_configuration config = Inr () \<longleftrightarrow>
     (\<forall>vl \<in> set (s_vlans config). 1 \<le> v_id vl \<and> v_id vl \<le> 4094) \<and>
     (\<forall>p \<in> set (s_ports config). 1 \<le> p_vlan p \<and> p_vlan p \<le> 4094 \<and>
        insert (p_vlan p) (set (p_tagged_vlans p)) \<subseteq> v_id ` set (s_vlans config))"
proof -
  have r: "cisco_vlan_in_range v \<longleftrightarrow> 1 \<le> v \<and> v \<le> 4094" for v
    by (auto simp: cisco_vlan_in_range_def not_less word_le_nat_alt unat_gt_0 Suc_le_eq)
  have p: "cisco_port_error (map v_id (s_vlans config)) p = None \<longleftrightarrow> 1 \<le> p_vlan p \<and> p_vlan p \<le> 4094 \<and>
      insert (p_vlan p) (set (p_tagged_vlans p)) \<subseteq> v_id ` set (s_vlans config)" for p
    by (auto simp: cisco_port_error_def r inferred_mode_def find_None_iff split: if_splits)
  show ?thesis
    by (simp add: cisco_validate_configuration_def res_simps r p)
qed

theorem cisco_validate_configuration_iff_witness:
  "cisco_validate_configuration (example_desired\<lparr>s_ports := [(plain_port True ''1'')\<lparr>p_vlan := 10\<rparr>]\<rparr>) = Inr () \<and>
   cisco_validate_configuration (example_desired\<lparr>s_ports := [(plain_port True ''1'')\<lparr>p_vlan := 10, p_tagged_vlans := [30]\<rparr>]\<rparr>)
     \<noteq> Inr ()"
  unfolding cisco_validate_configuration_iff
  by (simp add: example_desired_def example_vlan_def plain_port_def)

text \<open>Whatever notation a port identifier has, it is normalised to a full interface name, and a normalised
  one stays as it is.\<close>

theorem cisco_normalize_canonical:
  "(starts_with ''GigabitEthernet'' (cisco_normalize_port_id i) \<or>
    starts_with ''TenGigabitEthernet'' (cisco_normalize_port_id i)) \<and>
   cisco_normalize_port_id (cisco_normalize_port_id i) = cisco_normalize_port_id i"
proof -
  have full: "starts_with ''GigabitEthernet'' (cisco_normalize_port_id i) \<or>
    starts_with ''TenGigabitEthernet'' (cisco_normalize_port_id i)"
    by (simp add: cisco_normalize_port_id_def starts_with_def)
  moreover have "cisco_normalize_port_id j = j"
    if "starts_with ''GigabitEthernet'' j \<or> starts_with ''TenGigabitEthernet'' j" for j
    using that unfolding cisco_normalize_port_id_def by presburger
  ultimately show ?thesis by blast
qed

section \<open>The management VLAN of a running configuration\<close>

text \<open>How IOS prints its virtual interfaces.\<close>

fun svi_address_line :: "vlan_ip_config \<Rightarrow> string" where
  "svi_address_line IpNone = '' no ip address''"
| "svi_address_line Dhcp = '' ip address dhcp''"
| "svi_address_line (Static a nm) = '' ip address '' @ a @ '' '' @ nm"

definition svi_lines :: "u16 \<times> vlan_ip_config \<Rightarrow> string list" where
  "svi_lines svi = [''interface Vlan'' @ show_u16 (fst svi), svi_address_line (snd svi), ''!'']"

definition dotted :: "string \<Rightarrow> bool" where
  "dotted a \<longleftrightarrow> a \<noteq> [] \<and> list_all (\<lambda>c. is_ascii_digit c \<or> c = CHR ''.'') a"

fun plain_svi :: "vlan_ip_config \<Rightarrow> bool" where
  "plain_svi (Static a nm) \<longleftrightarrow> dotted a \<and> dotted nm"
| "plain_svi _ \<longleftrightarrow> True"

lemma svi_header:
  "management_vlan_loop ((''interface Vlan'' @ show_u16 i) # ls) in_svi current has_ip =
     management_vlan_loop ls True (Some i) False"
proof -
  have "trim (''interface Vlan'' @ show_u16 i) = ''interface Vlan'' @ show_u16 i"
    using last_show_u16_visible [of i] by (intro trim_visible) (auto simp: visible_def)
  then have "strip_prefix ''interface Vlan'' (trim (''interface Vlan'' @ show_u16 i)) = Some (show_u16 i)"
    by (simp only: strip_prefix_append)
  moreover have "split_whitespace (show_u16 i) = [show_u16 i]"
    using split_whitespace_word [OF visible_word_show_u16, of "[]" i] by simp
  ultimately show ?thesis by (simp only: management_vlan_loop.simps Let_def option.case list.case parse_u16_show_u16)
qed

lemma dotted_visible: "dotted a \<Longrightarrow> visible (last a) \<and> CHR ''h'' \<notin> set a"
proof -
  assume d: "dotted a"
  then have all: "is_ascii_digit c \<or> c = CHR ''.''" if "c \<in> set a" for c
    using that by (simp add: dotted_def list_all_iff)
  from d have "last a \<in> set a" by (simp add: dotted_def)
  with all have "visible (last a)" using visible_digit by (force simp: visible_def)
  moreover have "CHR ''h'' \<notin> set a" using all by (force simp: is_ascii_digit_def)
  ultimately show ?thesis by blast
qed

lemma svi_address_read:
  assumes "plain_svi ip"
  shows "management_vlan_loop (svi_address_line ip # ls) True (Some i) False =
     management_vlan_loop ls True (Some i) (ip \<noteq> IpNone)"
proof (cases ip)
  case (Static a nm)
  let ?l = "''ip address '' @ a @ '' '' @ nm"
  from assms Static have d: "dotted a" "dotted nm" by simp_all
  then have "trim ?l = ?l"
    using dotted_visible by (intro trim_visible) (auto simp: visible_def dotted_def)
  then have t: "trim ('' ip address '' @ a @ '' '' @ nm) = ?l"
    using trim_space [of ?l] by simp
  have "CHR ''h'' \<notin> set ?l" using dotted_visible [OF d(1)] dotted_visible [OF d(2)] by simp
  then have "\<not> contains_str ''dhcp'' ?l" using contains_str_subset [of "''dhcp''" ?l] by auto
  then show ?thesis unfolding Static svi_address_line.simps management_vlan_loop.simps t Let_def
    by (simp add: strip_prefix_def starts_with_def)
next
  case IpNone
  have "trim '' no ip address'' = ''no ip address''" by (simp add: trim_eval)
  then show ?thesis unfolding IpNone svi_address_line.simps management_vlan_loop.simps Let_def
    by (simp add: strip_prefix_def starts_with_def)
next
  case Dhcp
  have "trim '' ip address dhcp'' = ''ip address dhcp''" by (simp add: trim_eval)
  then show ?thesis unfolding Dhcp svi_address_line.simps management_vlan_loop.simps Let_def
    by (simp add: strip_prefix_def starts_with_def)
qed

lemma svi_end:
  "management_vlan_loop (''!'' # ls) True (Some i) has_ip =
     (if has_ip then Some i else management_vlan_loop ls False None False)"
proof -
  have "trim ''!'' = ''!''" by (simp add: trim_eval)
  then show ?thesis by (simp add: strip_prefix_def starts_with_def)
qed

text \<open>From the virtual interfaces of a running configuration the Cisco driver takes as management VLAN the
  first one that has an address, static or by DHCP, and none if no interface has one.\<close>

theorem cisco_management_vlan_first:
  assumes "list_all (\<lambda>svi. plain_svi (snd svi)) svis"
  shows "cisco_parse_management_vlan (concat (map svi_lines svis)) =
           map_option fst (find (\<lambda>svi. snd svi \<noteq> IpNone) svis)"
proof -
  have "management_vlan_loop (concat (map svi_lines svis)) False None False =
      map_option fst (find (\<lambda>svi. snd svi \<noteq> IpNone) svis)"
    using assms
  proof (induction svis)
    case (Cons svi svis)
    have "management_vlan_loop (svi_lines svi @ ls) False None False =
        (if snd svi \<noteq> IpNone then Some (fst svi) else management_vlan_loop ls False None False)" for ls
    proof -
      from Cons.prems have plain: "plain_svi (snd svi)" by simp
      have "svi_lines svi @ ls =
          (''interface Vlan'' @ show_u16 (fst svi)) # svi_address_line (snd svi) # ''!'' # ls"
        by (simp add: svi_lines_def)
      then show ?thesis
        by (simp only: svi_header svi_address_read [OF plain] svi_end)
    qed
    with Cons show ?case by simp
  qed simp
  then show ?thesis by (simp only: cisco_parse_management_vlan_def)
qed

theorem cisco_management_vlan_first_witness:
  "cisco_parse_management_vlan (concat (map svi_lines
     [(1, IpNone), (88, Static ''192.168.88.2'' ''255.255.255.0''), (90, Dhcp)])) = Some 88"
proof -
  have h: "list_all (\<lambda>svi. plain_svi (snd svi))
      [(1, IpNone), (88, Static ''192.168.88.2'' ''255.255.255.0''), (90 :: u16, Dhcp)]"
    by (simp add: dotted_def is_ascii_digit_def)
  show ?thesis unfolding cisco_management_vlan_first [OF h] by simp
qed

end
