(* ===== verification/Fortiswitch_Commands.thy ===== *)
theory Fortiswitch_Commands
  imports Vendor
begin

text \<open>
  The commands \<open>vendors/fortiswitch.rs\<close> generates for a FortiSwitch, and its checks of a configuration.
  FortiOS configures tables: \<open>config <path>\<close>, entries \<open>edit <key> ... next\<close>, \<open>end\<close>. A \<open>u32\<close> index
  of the SNMP table is a \<open>nat\<close>; \<open>free_snmp_index_bounds\<close> keeps it small.
\<close>

section \<open>Ports\<close>

definition forti_normalize_port_id :: "string \<Rightarrow> string" where
  "forti_normalize_port_id port_id =
     (if starts_with ''port'' port_id then port_id
      else ''port'' @ last (split_on (CHR ''/'') port_id))"

definition edit_line :: "string \<Rightarrow> string" where
  "edit_line key = ''edit '' @ key"

definition config_line :: "string \<Rightarrow> string" where
  "config_line path = ''config '' @ path"

definition edit_entry :: "string \<Rightarrow> string list \<Rightarrow> string list" where
  "edit_entry key body = edit_line key # body @ [''next'']"

definition config_table :: "string \<Rightarrow> string list list \<Rightarrow> string list" where
  "config_table path entries = config_line path # concat entries @ [''end'']"

fun forti_speed :: "speed_duplex \<Rightarrow> string" where
  "forti_speed Auto = ''auto''"
| "forti_speed TenHalf = ''10half''"
| "forti_speed TenFull = ''10full''"
| "forti_speed HundredHalf = ''100half''"
| "forti_speed HundredFull = ''100full''"
| "forti_speed ThousandFull = ''1000full''"
| "forti_speed TenGFull = ''10000full''"

definition set_description :: "string option \<Rightarrow> string list" where
  "set_description d = (case d of Some desc \<Rightarrow> [''set description '' @ quoted desc] | None \<Rightarrow> [])"

definition forti_mode_commands :: "port \<Rightarrow> string list" where
  "forti_mode_commands port =
     (case inferred_mode port of
        Access \<Rightarrow>
          [''set native-vlan '' @ show_u16 (p_vlan port), ''set allowed-vlans '' @ show_u16 (p_vlan port),
           ''set untagged-vlans '' @ show_u16 (p_vlan port)]
      | Trunk \<Rightarrow>
          [''set native-vlan '' @ show_u16 (p_vlan port)]
          @ (if p_tagged_vlans port \<noteq> []
             then [''set allowed-vlans '' @ join '' '' (map show_u16 (p_tagged_vlans port))] else [])
          @ [''set untagged-vlans '' @ show_u16 (p_vlan port)])"

definition forti_interface_entry :: "port \<Rightarrow> string list" where
  "forti_interface_entry port =
     edit_entry (forti_normalize_port_id (p_port_id port))
       (set_description (p_description port) @ forti_mode_commands port)"

definition forti_physical_entry :: "port \<Rightarrow> string list" where
  "forti_physical_entry port =
     edit_entry (forti_normalize_port_id (p_port_id port))
       [if p_enabled port then ''set status up'' else ''set status down'',
        if p_poe_enabled port then ''set poe-status enable'' else ''set poe-status disable'',
        ''set speed '' @ forti_speed (p_speed_duplex port)]"

definition forti_port_commands :: "port list \<Rightarrow> string list" where
  "forti_port_commands ports =
     config_table ''switch interface'' (map forti_interface_entry ports)
     @ config_table ''switch physical-port'' (map forti_physical_entry ports)"

definition forti_poe_disable_commands :: "string \<Rightarrow> string list" where
  "forti_poe_disable_commands port_id =
     config_table ''switch physical-port''
       [edit_entry (forti_normalize_port_id port_id) [''set poe-status disable'']]"

definition forti_poe_enable_commands :: "string \<Rightarrow> string list" where
  "forti_poe_enable_commands port_id =
     config_table ''switch physical-port''
       [edit_entry (forti_normalize_port_id port_id) [''set poe-status enable'']]"

definition forti_reset_entry :: "string \<Rightarrow> string list" where
  "forti_reset_entry port_id =
     edit_entry (forti_normalize_port_id port_id)
       [''unset description'', ''set native-vlan 1'', ''set allowed-vlans 1'', ''set default-cos 0'',
        ''set poe-status enable'', ''set admin down'']"

definition forti_reset_commands :: "string list \<Rightarrow> string list" where
  "forti_reset_commands port_ids = config_table ''switch interface'' (map forti_reset_entry port_ids)"

definition forti_baseline_commands :: "string list \<Rightarrow> string list" where
  "forti_baseline_commands port_ids =
     config_table ''switch physical-port''
       (map (\<lambda>i. edit_entry (forti_normalize_port_id i) [''set status up'']) port_ids)"

section \<open>VLANs\<close>

fun forti_svi_address :: "vlan_ip_config \<Rightarrow> string list" where
  "forti_svi_address Dhcp = [''set mode dhcp'', ''set allowaccess ping'']"
| "forti_svi_address (Static a nm) = [''set ip '' @ a @ '' '' @ nm, ''set allowaccess ping'']"
| "forti_svi_address IpNone = []"

definition forti_svi_block :: "vlan \<Rightarrow> string list" where
  "forti_svi_block vl =
     (if v_ip_config vl = IpNone then []
      else config_table ''system interface''
             [edit_entry (''vlan'' @ show_u16 (v_id vl))
                ([''set vlanid '' @ show_u16 (v_id vl)] @ set_description (v_description vl)
                 @ [''set type vlan'', ''set interface internal''] @ forti_svi_address (v_ip_config vl))])"

definition forti_vlan_commands :: "vlan list \<Rightarrow> string list" where
  "forti_vlan_commands vlans =
     config_table ''switch vlan'' (map (\<lambda>vl. edit_entry (show_u16 (v_id vl)) []) vlans)
     @ concat (map forti_svi_block vlans)"

definition forti_remove_vlan_commands :: "u16 list \<Rightarrow> string list" where
  "forti_remove_vlan_commands vlan_ids =
     config_table ''switch vlan'' [map (\<lambda>v. ''delete '' @ show_u16 v) vlan_ids]"

definition management_description :: string where
  "management_description = ''Management VLAN with allowaccess''"

fun forti_management_address :: "vlan_ip_config \<Rightarrow> string list" where
  "forti_management_address (Static a nm) = [''set ip '' @ a @ '' '' @ nm]"
| "forti_management_address Dhcp = [''set mode dhcp'']"
| "forti_management_address IpNone = []"

definition forti_management_vlan_commands :: "u16 \<Rightarrow> vlan \<Rightarrow> string list" where
  "forti_management_vlan_commands vlan_id vlan_config =
     config_table ''system interface''
       [edit_entry (''vlan'' @ show_u16 vlan_id)
          ([''set vlanid '' @ show_u16 vlan_id] @ set_description (Some management_description)
           @ [''set type vlan'', ''set interface internal'']
           @ forti_management_address (v_ip_config vlan_config) @ [''set allowaccess ping https ssh snmp''])]"

section \<open>Mirrors\<close>

definition forti_mirror_entry :: "port_mirror \<Rightarrow> string list" where
  "forti_mirror_entry mirror =
     (let sources = join '' '' (map forti_normalize_port_id (m_source_ports mirror)) in
      edit_entry (m_session_id mirror)
        ([''set status active'', ''set dst '' @ forti_normalize_port_id (m_destination_port mirror)]
         @ (case m_direction mirror of
              Rx \<Rightarrow> [''set src-ingress '' @ sources]
            | Tx \<Rightarrow> [''set src-egress '' @ sources]
            | Both \<Rightarrow> [''set src-ingress '' @ sources, ''set src-egress '' @ sources])))"

definition forti_mirror_commands :: "port_mirror list \<Rightarrow> string list" where
  "forti_mirror_commands mirrors = config_table ''switch mirror'' (map forti_mirror_entry mirrors)"

definition forti_remove_mirror_commands :: "string list \<Rightarrow> string list" where
  "forti_remove_mirror_commands session_ids =
     config_table ''switch mirror'' [map (\<lambda>i. ''delete '' @ i) session_ids]"

section \<open>SNMP\<close>

text \<open>The interface (or secondary address) of the management IP.\<close>

record mgmt_access =
  ma_interface :: string
  ma_secondary_index :: "u32 option"
  ma_allowaccess :: "string list"

definition show_u32 :: "u32 \<Rightarrow> string" where
  "show_u32 w = show_nat (unat w)"

definition snmp_prerequisite_commands :: "bool option \<Rightarrow> mgmt_access option \<Rightarrow> string list" where
  "snmp_prerequisite_commands sysinfo_enabled access =
     (if sysinfo_enabled \<noteq> Some True
      then [''config system snmp sysinfo'', ''set status enable'', ''end''] else [])
     @ (case access of
          None \<Rightarrow> []
        | Some a \<Rightarrow>
            if \<not> List.member (ma_allowaccess a) ''snmp''
            then [''config system interface'', ''edit '' @ quoted (ma_interface a)]
                 @ (case ma_secondary_index a of
                      Some index \<Rightarrow> [''config secondaryip'', ''edit '' @ show_u32 index] | None \<Rightarrow> [])
                 @ [''set allowaccess '' @ join '' '' (ma_allowaccess a @ [''snmp'']), ''next'']
                 @ (if ma_secondary_index a \<noteq> None then [''end'', ''next''] else [])
                 @ [''end'']
            else [])"

text \<open>The lowest free index from \<open>i\<close> up; the search begins at 100.\<close>

function free_index_from :: "nat \<Rightarrow> nat list \<Rightarrow> nat" where
  "free_index_from i occupied =
     (if List.member occupied i then free_index_from (Suc i) occupied else i)"
  by pat_completeness auto
termination
proof (relation "measure (\<lambda>(i, occupied). length (filter (\<lambda>j. i \<le> j) occupied))")
  fix i and occupied :: "nat list"
  assume "List.member occupied i"
  have "length (filter (\<lambda>j. Suc i \<le> j) occupied) < length (filter (\<lambda>j. i \<le> j) occupied)"
    using \<open>List.member occupied i\<close>
  proof (induction occupied)
    case (Cons j js)
    have "length (filter (\<lambda>j. Suc i \<le> j) js) \<le> length (filter (\<lambda>j. i \<le> j) js)"
      by (induction js) auto
    with Cons show ?case by (auto simp: List.member_iff)
  qed simp
  then show "((Suc i, occupied), (i, occupied)) \<in>
      measure (\<lambda>(i, occupied). length (filter (\<lambda>j. i \<le> j) occupied))" by simp
qed simp

declare free_index_from.simps [simp del]

definition free_snmp_index :: "nat list \<Rightarrow> nat" where
  "free_snmp_index occupied = free_index_from 100 occupied"

fun host_error_text :: "host_error \<Rightarrow> string" where
  "host_error_text AutoNotResolved =
     ''allowed_hosts '' @ [CHR 0x27] @ ''auto'' @ [CHR 0x27] @ '' was not resolved to an address''"
| "host_error_text (Ipv6NotSupported n) =
     ''IPv6 manager '' @ [CHR 0x27] @ n @ [CHR 0x27] @ '' is not supported on FortiSwitch yet (only IPv4)''"
| "host_error_text (NotAnAddress n) = [CHR 0x27] @ n @ [CHR 0x27] @ '' is not an IP address or network''"
| "host_error_text (InvalidPrefixLength n) = ''invalid prefix length in '' @ [CHR 0x27] @ n @ [CHR 0x27]"
| "host_error_text (NeitherAutoNorAddress n) = n"

definition host_entry :: "nat \<times> string \<times> string \<Rightarrow> string list" where
  "host_entry h = (case h of (n, addr, nm) \<Rightarrow>
     edit_entry (show_nat (n + 1)) [''set ip '' @ addr @ '' '' @ nm])"

definition fortios_host :: "allowed_host \<Rightarrow> vendor_error + string \<times> string" where
  "fortios_host h = map_err (\<lambda>e. ValidationError (host_error_text e)) (host_to_fortios h)"

definition community_hosts :: "snmp_community \<Rightarrow> vendor_error + (string \<times> string) list" where
  "community_hosts community = traverse fortios_host (c_allowed_hosts community)"

definition set_trap_status :: "bool \<Rightarrow> string list" where
  "set_trap_status on =
     [''set trap-v1-status '' @ (if on then ''enable'' else ''disable''),
      ''set trap-v2c-status '' @ (if on then ''enable'' else ''disable'')]"

definition query_settings :: "string \<Rightarrow> string list" where
  "query_settings name =
     [''set name '' @ quoted name, ''set status enable'', ''set query-v1-status enable'',
      ''set query-v2c-status enable'']"

definition community_entry :: "nat \<Rightarrow> string \<Rightarrow> (string \<times> string) list \<Rightarrow> string list" where
  "community_entry index name hosts =
     edit_entry (show_nat index)
       (query_settings name @ set_trap_status (hosts = [])
        @ (if hosts \<noteq> [] then config_table ''hosts'' (map host_entry (enumerate 0 hosts)) else []))"

definition snmp_community_block :: "nat \<Rightarrow> snmp_community \<Rightarrow> vendor_error + string list" where
  "snmp_community_block index community =
     and_then (community_hosts community) (\<lambda>hosts. Inr (community_entry index (c_name community) hosts))"

definition snmp_allowed_hosts_commands :: "snmp_community \<Rightarrow> string list" where
  "snmp_allowed_hosts_commands community =
     (if c_allowed_hosts community = [] then []
      else (case snmp_community_block 0 community of
              Inr block \<Rightarrow>
                dropWhile (\<lambda>c. c \<noteq> ''set trap-v1-status disable'') (take (length block - 1) block)
            | Inl e \<Rightarrow> []))"

definition max_snmp_communities :: nat where
  "max_snmp_communities = 3"

definition check_snmp_limits :: "snmp_config \<Rightarrow> vendor_error + unit" where
  "check_snmp_limits snmp =
     and_then
       (bail_if (length (sn_communities snmp) > max_snmp_communities)
         (ValidationError
           (''FortiSwitch holds at most '' @ show_nat max_snmp_communities @ '' SNMP communities, ''
            @ show_nat (length (sn_communities snmp))
            @ '' are configured (counting any the service adds itself)'')))
       (\<lambda>_. and_then (traverse (snmp_community_block 0) (sn_communities snmp)) (\<lambda>_. Inr ()))"

fun forti_trap :: "trap_type \<Rightarrow> string" where
  "forti_trap MacNotify = ''mac-notify''"
| "forti_trap LinkChange = ''link-up-down''"
| "forti_trap AllTraps = ''all''"

definition receiver_entry :: "nat \<Rightarrow> snmp_trap_receiver \<Rightarrow> string list" where
  "receiver_entry n receiver =
     edit_entry (show_nat n) [''set ip '' @ r_host receiver, ''set interface internal'']"

definition receiver_community_entry :: "snmp_config \<Rightarrow> string list" where
  "receiver_community_entry snmp =
     edit_entry ''1''
       (query_settings (c_name (hd (sn_communities snmp))) @ set_trap_status True
        @ (if sn_enabled_traps snmp \<noteq> []
           then [''set events '' @ join '' '' (map forti_trap (sn_enabled_traps snmp))] else [])
        @ config_table ''hosts''
            (map (\<lambda>(idx, receiver). receiver_entry (idx + 1) receiver)
              (enumerate 0 (sn_trap_receivers snmp))))"

definition plain_community_entry :: "nat \<times> snmp_community \<Rightarrow> string list" where
  "plain_community_entry c = (case c of (idx, community) \<Rightarrow>
     edit_entry (show_nat idx) (query_settings (c_name community) @ snmp_allowed_hosts_commands community))"

definition forti_snmp_commands :: "snmp_config \<Rightarrow> string list" where
  "forti_snmp_commands snmp =
     config_table ''system snmp community''
       (if sn_trap_receivers snmp \<noteq> [] \<and> sn_communities snmp \<noteq> []
        then receiver_community_entry snmp
             # map plain_community_entry (enumerate 2 (drop 1 (sn_communities snmp)))
        else map plain_community_entry (enumerate 1 (sn_communities snmp)))"

subsection \<open>\<open>apply_snmp_diff\<close>\<close>

text \<open>
  \<open>indices\<close> is \<open>snmp_community_indices\<close>, name to index; \<open>occupied\<close> is the set of the same name. The
  three loops: what is removed, rewritten and added.
\<close>

fun remove_communities ::
  "(string \<times> u16) list \<Rightarrow> string list \<Rightarrow> nat list \<Rightarrow> nat list \<times> string list" where
  "remove_communities indices [] occupied = (occupied, [])"
| "remove_communities indices (name # names) occupied =
     (case map_of indices name of
        Some idx \<Rightarrow>
          (case remove_communities indices names (removeAll (unat idx) occupied) of
             (occupied', cmds) \<Rightarrow> (occupied', (''delete '' @ show_u16 idx) # cmds))
      | None \<Rightarrow>
          (case remove_communities indices names occupied of
             (occupied', cmds) \<Rightarrow> (occupied', (''delete '' @ name) # cmds)))"

fun add_communities ::
  "snmp_community list \<Rightarrow> nat list \<Rightarrow> vendor_error + nat list \<times> string list" where
  "add_communities [] occupied = Inr (occupied, [])"
| "add_communities (c # cs) occupied =
     (let index = free_snmp_index occupied in
      and_then (snmp_community_block index c) (\<lambda>block.
      and_then (add_communities cs (List.insert index occupied)) (\<lambda>(occupied', cmds).
      Inr (occupied', block @ cmds))))"

fun update_communities ::
  "(string \<times> u16) list \<Rightarrow> snmp_community list \<Rightarrow> nat list \<Rightarrow> vendor_error + nat list \<times> string list" where
  "update_communities indices [] occupied = Inr (occupied, [])"
| "update_communities indices (c # cs) occupied =
     (let (delete, index, occupied') =
            (case map_of indices (c_name c) of
               Some idx \<Rightarrow> ([''delete '' @ show_u16 idx], unat idx, occupied)
             | None \<Rightarrow> (let free = free_snmp_index occupied in ([], free, List.insert free occupied))) in
      and_then (snmp_community_block index c) (\<lambda>block.
      and_then (update_communities indices cs occupied') (\<lambda>(occupied'', cmds).
      Inr (occupied'', delete @ block @ cmds))))"

definition add_receiver_commands :: "snmp_trap_receiver list \<Rightarrow> string list" where
  "add_receiver_commands receivers =
     (if receivers \<noteq> []
      then config_table ''system snmp community''
             [edit_entry ''1''
                (config_table ''hosts''
                  (map (\<lambda>(idx, receiver). receiver_entry (100 + idx) receiver) (enumerate 0 receivers)))]
      else [])"

definition remove_receiver_commands :: "string \<Rightarrow> string list" where
  "remove_receiver_commands host =
     config_table ''system snmp community''
       [edit_entry ''1'' (config_table ''hosts'' [[''delete '' @ host]])]"

definition forti_snmp_diff_commands ::
  "(string \<times> u16) list \<Rightarrow> bool option \<Rightarrow> mgmt_access option \<Rightarrow> snmp_state_diff \<Rightarrow> vendor_error + string list" where
  "forti_snmp_diff_commands indices sysinfo access sd =
     (case remove_communities indices (communities_to_remove sd)
             (map (\<lambda>(name, i). unat i) indices) of
        (occupied, removals) \<Rightarrow>
          and_then (update_communities indices (communities_to_update sd) occupied) (\<lambda>(occupied', updates).
          and_then (add_communities (communities_to_add sd) occupied') (\<lambda>(occupied'', additions).
          Inr ((if communities_to_add sd \<noteq> [] \<or> communities_to_update sd \<noteq> []
                then snmp_prerequisite_commands sysinfo access else [])
               @ config_table ''system snmp community'' [removals, updates, additions]
               @ add_receiver_commands (trap_receivers_to_add sd)
               @ concat (map remove_receiver_commands (trap_receivers_to_remove sd))))))"

definition forti_snmp_diff_actions :: "snmp_state_diff \<Rightarrow> nat" where
  "forti_snmp_diff_actions sd =
     length (communities_to_remove sd) + length (communities_to_update sd) + length (communities_to_add sd)
     + length (trap_receivers_to_add sd) + length (trap_receivers_to_remove sd)"

section \<open>Preview and validation\<close>

definition forti_commands_for_diff :: "state_diff \<Rightarrow> command_preview" where
  "forti_commands_for_diff d =
     default_preview
       \<lparr>vlan_commands :=
          (if vlans_to_remove d \<noteq> [] then forti_remove_vlan_commands (vlans_to_remove d) else [])
          @ (if vlans_to_add d \<noteq> [] then forti_vlan_commands (vlans_to_add d) else [])
          @ (if vlans_to_update d \<noteq> [] then forti_vlan_commands (vlans_to_update d) else []),
        port_commands :=
          (if ports_to_configure d \<noteq> [] then forti_port_commands (ports_to_configure d) else []),
        mirror_commands :=
          (if mirrors_to_remove d \<noteq> [] then forti_remove_mirror_commands (mirrors_to_remove d) else [])
          @ (if mirrors_to_add d \<noteq> [] then forti_mirror_commands (mirrors_to_add d) else [])
          @ (if mirrors_to_update d \<noteq> [] then forti_mirror_commands (mirrors_to_update d) else []),
        snmp_commands :=
          (case snmp_config_new d of
             Some snmp \<Rightarrow> if snmp_config_changed d then forti_snmp_commands snmp else []
           | None \<Rightarrow> [])\<rparr>"

definition forti_vlan_in_range :: "u16 \<Rightarrow> bool" where
  "forti_vlan_in_range v \<longleftrightarrow> \<not> (v < 1 \<or> v > 4094)"

definition forti_validate_configuration :: "switch_config \<Rightarrow> vendor_error + unit" where
  "forti_validate_configuration config =
     and_then
       (check_all (\<lambda>vl. if forti_vlan_in_range (v_id vl) then None
                        else Some (ValidationError (''Invalid VLAN ID: '' @ show_u16 (v_id vl))))
          (s_vlans config)) (\<lambda>_.
     and_then
       (check_all (\<lambda>port. if forti_vlan_in_range (p_vlan port) then None
                          else Some (ValidationError (''Invalid VLAN ID on port '' @ p_port_id port @ '': ''
                                      @ show_u16 (p_vlan port))))
          (s_ports config)) (\<lambda>_.
     (case effective_snmp config of
        Some snmp \<Rightarrow> check_snmp_limits snmp
      | None \<Rightarrow> Inr ())))"

section \<open>Lemmas\<close>

lemma free_index_from_spec:
  "i \<le> free_index_from i occupied \<and> free_index_from i occupied \<notin> set occupied \<and>
   (\<forall>j. i \<le> j \<and> j < free_index_from i occupied \<longrightarrow> j \<in> set occupied)"
proof (induction i occupied rule: free_index_from.induct)
  case (1 i occupied)
  show ?case
  proof (cases "i \<in> set occupied")
    case True
    with 1 have IH: "Suc i \<le> free_index_from (Suc i) occupied"
        "free_index_from (Suc i) occupied \<notin> set occupied"
        "\<And>j. Suc i \<le> j \<Longrightarrow> j < free_index_from (Suc i) occupied \<Longrightarrow> j \<in> set occupied"
      by (auto simp: List.member_iff)
    from True have eq: "free_index_from i occupied = free_index_from (Suc i) occupied"
      by (subst free_index_from.simps) (simp add: List.member_iff)
    have "j \<in> set occupied" if "i \<le> j" "j < free_index_from (Suc i) occupied" for j
      using that True IH(3) by (cases "j = i") auto
    with IH show ?thesis unfolding eq by auto
  next
    case False
    then have "free_index_from i occupied = i"
      by (subst free_index_from.simps) (simp add: List.member_iff)
    with False show ?thesis by auto
  qed
qed

lemma free_snmp_index_free: "free_snmp_index occupied \<notin> set occupied"
  by (simp add: free_snmp_index_def free_index_from_spec)

lemma free_snmp_index_bounds:
  "100 \<le> free_snmp_index occupied" "free_snmp_index occupied \<le> 100 + length occupied"
proof -
  let ?f = "free_snmp_index occupied"
  note spec = free_index_from_spec [of 100 occupied, folded free_snmp_index_def]
  then show "100 \<le> ?f" by simp
  have "{100 ..< ?f} \<subseteq> set occupied" using spec by auto
  then have "card {100 ..< ?f} \<le> card (set occupied)" by (intro card_mono) simp_all
  also have "\<dots> \<le> length occupied" by (rule card_length)
  finally show "?f \<le> 100 + length occupied" by simp
qed

end
