(* ===== verification/Fortiswitch_Parser.thy ===== *)
theory Fortiswitch_Parser
  imports Fortiswitch_Commands "HOL-Library.AList"
begin

text \<open>
  How \<open>vendors/fortiswitch.rs\<close> reads a switch. The output of \<open>show\<close> has the form of the commands: tables of
  entries. The readers of tables walk the lines in the same way (\<open>table_step\<close>) and differ in what
  they do with a line of an entry. A hash map of the source is an association list that
  \<open>AList.update\<close> fills; \<open>build_forti_ports\<close> sorts its keys, and only \<open>resolve_mgmt_access\<close> depends on the
  order in which one comes out. The nesting counters are \<open>i32\<close> in the source and \<open>int\<close> here.
\<close>

section \<open>Strings\<close>

definition strip_suffix :: "string \<Rightarrow> string \<Rightarrow> string option" where
  "strip_suffix p s = map_option rev (strip_prefix (rev p) (rev s))"

definition ends_with :: "string \<Rightarrow> string \<Rightarrow> bool" where
  "ends_with p s = starts_with (rev p) (rev s)"

definition trim_end_matches :: "string \<Rightarrow> string \<Rightarrow> string" where
  "trim_end_matches p s = rev (trim_start_matches (rev p) (rev s))"

text \<open>The tokens behind the first one with a property, and the one right behind it.\<close>

definition after_token :: "(string \<Rightarrow> bool) \<Rightarrow> string list \<Rightarrow> string list option" where
  "after_token P ts = (case dropWhile (\<lambda>t. \<not> P t) ts of [] \<Rightarrow> None | _ # r \<Rightarrow> Some r)"

definition token_after :: "(string \<Rightarrow> bool) \<Rightarrow> string list \<Rightarrow> string option" where
  "token_after P ts =
     (case after_token P ts of Some (v # _) \<Rightarrow> Some v | _ \<Rightarrow> None)"

definition unquote :: "string \<Rightarrow> string" where
  "unquote s = trim_matches dquote s"

section \<open>Tables\<close>

text \<open>
  One line: the header of the table opens it, \<open>config\<close> and \<open>end\<close> count the nesting, the \<open>end\<close> of the table
  itself closes it, and what stands directly in the table goes to \<open>body\<close>.
\<close>

type_synonym 's walk = "bool \<times> int \<times> 's"

definition table_step ::
  "string \<Rightarrow> ('s \<Rightarrow> 's) \<Rightarrow> (string \<Rightarrow> 's \<Rightarrow> 's) \<Rightarrow> string \<Rightarrow> 's walk \<Rightarrow> 's walk" where
  "table_step path close body line = (\<lambda>(in_block, depth, s).
     let l = trim line in
     if l = config_line path then (True, 1, s)
     else if \<not> in_block then (in_block, depth, s)
     else if starts_with ''config '' l then (in_block, depth + 1, s)
     else if l = ''end'' then (if depth - 1 = 0 then (False, 0, close s) else (in_block, depth - 1, s))
     else if depth \<noteq> 1 then (in_block, depth, s)
     else (in_block, depth, body l s))"

definition walk_table ::
  "string \<Rightarrow> ('s \<Rightarrow> 's) \<Rightarrow> (string \<Rightarrow> 's \<Rightarrow> 's) \<Rightarrow> string list \<Rightarrow> 's \<Rightarrow> 's" where
  "walk_table path close body ls s = snd (snd (fold (table_step path close body) ls (False, 0, s)))"

text \<open>Tables whose entries become a map: \<open>insert_current\<close> is \<open>if let Some(k) = current.take()\<close>.\<close>

type_synonym ('k, 'v) entries = "('k \<times> 'v) list \<times> 'k option \<times> 'v"

fun insert_current :: "('k, 'v) entries \<Rightarrow> ('k, 'v) entries" where
  "insert_current (result, current, v) =
     (case current of Some k \<Rightarrow> (AList.update k v result, None, v) | None \<Rightarrow> (result, None, v))"

definition entry_line ::
  "(string \<Rightarrow> 'k option) \<Rightarrow> (string \<Rightarrow> 'v \<Rightarrow> 'v) \<Rightarrow> 'v \<Rightarrow> string \<Rightarrow> ('k, 'v) entries \<Rightarrow> ('k, 'v) entries" where
  "entry_line edit_key set_line fresh l st =
     (case edit_key l of
        Some k \<Rightarrow> (fst (insert_current st), Some k, fresh)
      | None \<Rightarrow>
          (case st of (result, current, v) \<Rightarrow>
             if current = None then st
             else if l = ''next'' then (fst (insert_current st), None, fresh)
             else (result, current, set_line l v)))"

definition read_entries ::
  "string \<Rightarrow> (string \<Rightarrow> 'k option) \<Rightarrow> (string \<Rightarrow> 'v \<Rightarrow> 'v) \<Rightarrow> 'v \<Rightarrow> string list \<Rightarrow> ('k \<times> 'v) list" where
  "read_entries path edit_key set_line fresh ls =
     fst (insert_current
       (walk_table path insert_current (entry_line edit_key set_line fresh) ls ([], None, fresh)))"

definition port_edit_key :: "string \<Rightarrow> string option" where
  "port_edit_key l = map_option (\<lambda>r. unquote (trim r)) (strip_prefix ''edit '' l)"

section \<open>VLANs and their interfaces\<close>

record svi_details =
  svi_ip_config :: vlan_ip_config
  svi_description :: "string option"

definition default_svi :: svi_details where
  "default_svi = \<lparr>svi_ip_config = IpNone, svi_description = None\<rparr>"

definition parse_vlan_interface_edit_id :: "string \<Rightarrow> u16 option" where
  "parse_vlan_interface_edit_id l =
     (case strip_prefix ''edit vlan'' l of
        Some r \<Rightarrow> (case split_whitespace r of [] \<Rightarrow> None | v # _ \<Rightarrow> parse_u16 v)
      | None \<Rightarrow>
          (case strip_prefix ''edit '' l of
             Some r \<Rightarrow>
               (case Option.bind (strip_prefix (dquote # ''vlan'') (trim r)) (strip_suffix [dquote]) of
                  Some inner \<Rightarrow> parse_u16 inner
                | None \<Rightarrow> None)
           | None \<Rightarrow> None))"

definition svi_line :: "string \<Rightarrow> svi_details \<Rightarrow> svi_details" where
  "svi_line l s =
     (case strip_prefix ''set description '' l of
        Some desc \<Rightarrow> s\<lparr>svi_description := Some (unquote desc)\<rparr>
      | None \<Rightarrow>
          (case strip_prefix ''set ip '' l of
             Some r \<Rightarrow>
               (case split_whitespace r of
                  [a, nm] \<Rightarrow> s\<lparr>svi_ip_config := Static a nm\<rparr>
                | _ \<Rightarrow> s)
           | None \<Rightarrow> if l = ''set mode dhcp'' then s\<lparr>svi_ip_config := Dhcp\<rparr> else s))"

definition parse_svi_details :: "string list \<Rightarrow> (u16 \<times> svi_details) list" where
  "parse_svi_details ls =
     read_entries ''system interface'' parse_vlan_interface_edit_id svi_line default_svi ls"

text \<open>The VLAN database; here the end of the table ends the loop.\<close>

fun vlan_ids_loop :: "string list \<Rightarrow> bool \<Rightarrow> int \<Rightarrow> u16 list \<Rightarrow> u16 list" where
  "vlan_ids_loop [] in_block depth ids = ids"
| "vlan_ids_loop (line # ls) in_block depth ids =
     (let l = trim line in
      if l = ''config switch vlan'' then vlan_ids_loop ls True 1 ids
      else if \<not> in_block then vlan_ids_loop ls in_block depth ids
      else if starts_with ''config '' l then vlan_ids_loop ls in_block (depth + 1) ids
      else if l = ''end''
      then if depth - 1 = 0 then ids else vlan_ids_loop ls in_block (depth - 1) ids
      else if depth = 1
      then (case Option.bind (port_edit_key l) parse_u16 of
              Some i \<Rightarrow> vlan_ids_loop ls in_block depth (ids @ [i])
            | None \<Rightarrow> vlan_ids_loop ls in_block depth ids)
      else vlan_ids_loop ls in_block depth ids)"

definition parse_switch_vlan_ids :: "string list \<Rightarrow> u16 list" where
  "parse_switch_vlan_ids ls = vlan_ids_loop ls False 0 []"

text \<open>The VLANs of a state: what the device knows of an id, the rest from the configuration.\<close>

definition forti_vlan :: "vlan list \<Rightarrow> (u16 \<times> svi_details) list \<Rightarrow> u16 \<Rightarrow> vlan" where
  "forti_vlan desired_vlans svis i =
     (let svi = map_of svis i;
          desired = find (\<lambda>v. v_id v = i) desired_vlans;
          svi_desc = Option.bind svi svi_description
      in \<lparr>v_id = i,
          v_name =
            (case desired of
               Some v \<Rightarrow> v_name v
             | None \<Rightarrow> (case svi_desc of Some n \<Rightarrow> n | None \<Rightarrow> ''vlan'' @ show_u16 i)),
          v_description =
            (case svi_desc of Some n \<Rightarrow> Some n | None \<Rightarrow> Option.bind desired v_description),
          v_ip_config = (case svi of Some s \<Rightarrow> svi_ip_config s | None \<Rightarrow> IpNone)\<rparr>)"

subsection \<open>The management VLAN\<close>

record mv_state =
  mv_in_system :: bool
  mv_in_vlan :: bool
  mv_vlan :: "u16 option"
  mv_ip :: bool
  mv_access :: bool
  mv_depth :: int

definition mv_outside :: "mv_state \<Rightarrow> mv_state" where
  "mv_outside s = s\<lparr>mv_in_vlan := False, mv_vlan := None, mv_ip := False, mv_access := False\<rparr>"

definition mv_enter :: "u16 \<Rightarrow> mv_state \<Rightarrow> mv_state" where
  "mv_enter i s = s\<lparr>mv_in_vlan := True, mv_vlan := Some i, mv_ip := False, mv_access := False\<rparr>"

text \<open>The text between the quotes of \<open>edit "vlan77"\<close>.\<close>

definition quoted_vlan_id :: "string \<Rightarrow> u16 option" where
  "quoted_vlan_id r =
     Option.bind (strip_prefix (dquote # ''vlan'') r) (\<lambda>vlan_start.
     Option.bind (find_str [dquote] vlan_start) (\<lambda>vlan_end. parse_u16 (take vlan_end vlan_start)))"

definition has_management_access :: "string \<Rightarrow> bool" where
  "has_management_access l \<longleftrightarrow> contains_str ''ssh'' l \<or> contains_str ''https'' l"

text \<open>A trimmed line inside \<open>config system interface\<close>, when it does not change the nesting.\<close>

definition mv_line :: "string \<Rightarrow> mv_state \<Rightarrow> u16 option \<times> mv_state" where
  "mv_line l s =
     (case strip_prefix ''edit vlan'' l of
        Some r \<Rightarrow>
          (case split_whitespace r of
             [] \<Rightarrow> (None, s)
           | v # _ \<Rightarrow> (case parse_u16 v of Some i \<Rightarrow> (None, mv_enter i s) | None \<Rightarrow> (None, s)))
      | None \<Rightarrow>
     (case strip_prefix ''edit '' l of
        Some r \<Rightarrow> (case quoted_vlan_id r of Some i \<Rightarrow> (None, mv_enter i s) | None \<Rightarrow> (None, s))
      | None \<Rightarrow>
          if mv_in_vlan s
          then if starts_with ''set ip '' l \<or> l = ''set mode dhcp'' \<or> l = ''set mode static''
               then (None, s\<lparr>mv_ip := True\<rparr>)
               else if starts_with ''set allowaccess '' l
               then (None, if has_management_access l then s\<lparr>mv_access := True\<rparr> else s)
               else if l = ''next''
               then if mv_ip s \<and> mv_access s \<and> mv_vlan s \<noteq> None then (mv_vlan s, s)
                    else (None, mv_outside s)
               else (None, s)
          else (None, s)))"

text \<open>One line of the loop: the VLAN when the function returns here, and the state.\<close>

definition mv_step :: "string \<Rightarrow> mv_state \<Rightarrow> u16 option \<times> mv_state" where
  "mv_step l s =
     (if l = ''config system interface'' then (None, s\<lparr>mv_in_system := True, mv_depth := 1\<rparr>)
      else if \<not> mv_in_system s then (None, s)
      else if starts_with ''config '' l then (None, s\<lparr>mv_depth := mv_depth s + 1\<rparr>)
      else if l = ''end''
      then if mv_depth s - 1 = 0
           then if mv_in_vlan s \<and> mv_ip s \<and> mv_access s \<and> mv_vlan s \<noteq> None then (mv_vlan s, s)
                else (None, (mv_outside s)\<lparr>mv_in_system := False, mv_depth := 0\<rparr>)
           else (None, s\<lparr>mv_depth := mv_depth s - 1\<rparr>)
      else mv_line l s)"

fun mv_loop :: "string list \<Rightarrow> mv_state \<Rightarrow> u16 option" where
  "mv_loop [] s = (if mv_in_vlan s \<and> mv_ip s \<and> mv_vlan s \<noteq> None then mv_vlan s else None)"
| "mv_loop (line # ls) s =
     (case mv_step (trim line) s of (Some i, _) \<Rightarrow> Some i | (None, s') \<Rightarrow> mv_loop ls s')"

definition mv_start :: mv_state where
  "mv_start =
     \<lparr>mv_in_system = False, mv_in_vlan = False, mv_vlan = None, mv_ip = False, mv_access = False,
      mv_depth = 0\<rparr>"

definition forti_parse_management_vlan :: "string list \<Rightarrow> u16 option" where
  "forti_parse_management_vlan ls = mv_loop ls mv_start"

section \<open>Ports\<close>

record port_interface_info =
  pi_description :: "string option"
  pi_native_vlan :: "u16 option"
  pi_allowed_vlans :: "u16 list"

record physical_port_info =
  ph_enabled :: "bool option"
  ph_poe_enabled :: "bool option"
  ph_speed_duplex :: "speed_duplex option"

definition default_interface :: port_interface_info where
  "default_interface = \<lparr>pi_description = None, pi_native_vlan = None, pi_allowed_vlans = []\<rparr>"

definition default_physical :: physical_port_info where
  "default_physical = \<lparr>ph_enabled = None, ph_poe_enabled = None, ph_speed_duplex = None\<rparr>"

text \<open>Ids and ranges \<open>a-b\<close>, between commas or white space.\<close>

definition vlan_list_part :: "string \<Rightarrow> u16 list" where
  "vlan_list_part part =
     (case (case split_once (CHR ''-'') part of
              Some (a, b) \<Rightarrow>
                (case (parse_u16 (trim a), parse_u16 (trim b)) of
                   (Some start, Some stop) \<Rightarrow> Some (map of_nat [unat start ..< Suc (unat stop)])
                 | _ \<Rightarrow> None)
            | None \<Rightarrow> None) of
        Some vs \<Rightarrow> vs
      | None \<Rightarrow> (case parse_u16 (trim part) of Some v \<Rightarrow> [v] | None \<Rightarrow> []))"

definition parse_vlan_list :: "string \<Rightarrow> u16 list" where
  "parse_vlan_list s =
     concat (map vlan_list_part (concat (map split_whitespace (split_on (CHR '','') s))))"

definition interface_port_line :: "string \<Rightarrow> port_interface_info \<Rightarrow> port_interface_info" where
  "interface_port_line l s =
     (case strip_prefix ''set description '' l of
        Some desc \<Rightarrow> s\<lparr>pi_description := Some (unquote desc)\<rparr>
      | None \<Rightarrow>
     (case strip_prefix ''set native-vlan '' l of
        Some r \<Rightarrow> s\<lparr>pi_native_vlan := parse_u16 (trim r)\<rparr>
      | None \<Rightarrow>
     (case strip_prefix ''set allowed-vlans '' l of
        Some r \<Rightarrow> s\<lparr>pi_allowed_vlans := parse_vlan_list r\<rparr>
      | None \<Rightarrow> s)))"

definition parse_switch_interface_ports :: "string list \<Rightarrow> (string \<times> port_interface_info) list" where
  "parse_switch_interface_ports ls =
     read_entries ''switch interface'' port_edit_key interface_port_line default_interface ls"

definition parse_forti_speed :: "string \<Rightarrow> speed_duplex" where
  "parse_forti_speed s =
     (if s = ''10half'' then TenHalf else if s = ''10full'' then TenFull
      else if s = ''100half'' then HundredHalf else if s = ''100full'' then HundredFull
      else if s = ''1000full'' then ThousandFull else if s = ''10000full'' then TenGFull else Auto)"

definition physical_port_line :: "string \<Rightarrow> physical_port_info \<Rightarrow> physical_port_info" where
  "physical_port_line l s =
     (if l = ''set status up'' then s\<lparr>ph_enabled := Some True\<rparr>
      else if l = ''set status down'' then s\<lparr>ph_enabled := Some False\<rparr>
      else if l = ''set poe-status enable'' then s\<lparr>ph_poe_enabled := Some True\<rparr>
      else if l = ''set poe-status disable'' then s\<lparr>ph_poe_enabled := Some False\<rparr>
      else (case strip_prefix ''set speed '' l of
              Some r \<Rightarrow> s\<lparr>ph_speed_duplex := Some (parse_forti_speed (trim r))\<rparr>
            | None \<Rightarrow> s))"

definition parse_physical_ports :: "string list \<Rightarrow> (string \<times> physical_port_info) list" where
  "parse_physical_ports ls =
     read_entries ''switch physical-port'' port_edit_key physical_port_line default_physical ls"

definition is_numbered_port :: "string \<Rightarrow> bool" where
  "is_numbered_port interface =
     (case strip_prefix ''port'' interface of
        Some r \<Rightarrow> r \<noteq> [] \<and> list_all is_ascii_digit r | None \<Rightarrow> False)"

definition denormalize_port_id :: "string \<Rightarrow> string" where
  "denormalize_port_id interface =
     (case strip_prefix ''port'' interface of Some r \<Rightarrow> r | None \<Rightarrow> interface)"

definition get_or :: "'v \<Rightarrow> ('k \<times> 'v) list \<Rightarrow> 'k \<Rightarrow> 'v" where
  "get_or fresh m k = (case map_of m k of Some v \<Rightarrow> v | None \<Rightarrow> fresh)"

definition opt_or :: "'v \<Rightarrow> 'v option \<Rightarrow> 'v" where
  "opt_or fresh x = (case x of Some v \<Rightarrow> v | None \<Rightarrow> fresh)"

definition build_forti_port ::
  "switch_model \<Rightarrow> string \<Rightarrow> port_interface_info \<Rightarrow> physical_port_info \<Rightarrow> port" where
  "build_forti_port m interface_id iface phys =
     (let port_id = denormalize_port_id interface_id;
          native = opt_or 1 (pi_native_vlan iface);
          tagged = filter (\<lambda>v. v \<noteq> native) (pi_allowed_vlans iface)
      in \<lparr>p_port_id = port_id, p_mode = (if tagged = [] then Access else Trunk), p_vlan = native,
          p_tagged_vlans = tagged, p_description = pi_description iface,
          p_enabled = opt_or True (ph_enabled phys),
          p_poe_enabled = opt_or (port_supports_poe m port_id) (ph_poe_enabled phys),
          p_mac_notify = False, p_speed_duplex = opt_or Auto (ph_speed_duplex phys),
          p_vlan_name = None, p_tagged_vlan_refs = []\<rparr>)"

definition build_forti_ports ::
  "switch_model \<Rightarrow> (string \<times> port_interface_info) list \<Rightarrow> (string \<times> physical_port_info) list \<Rightarrow> port list" where
  "build_forti_ports m interfaces physical =
     map (\<lambda>i. build_forti_port m i (get_or default_interface interfaces i) (get_or default_physical physical i))
       (filter is_numbered_port (sort (remdups (map fst interfaces @ map fst physical))))"

section \<open>Mirrors\<close>

record mirror_reader =
  mr_session_id :: "string option"
  mr_dst :: "string option"
  mr_ingress :: "string list"
  mr_egress :: "string list"
  mr_mirrors :: "port_mirror list"

definition flush_mirror :: "mirror_reader \<Rightarrow> mirror_reader" where
  "flush_mirror s =
     s\<lparr>mr_session_id := None, mr_dst := None, mr_ingress := [], mr_egress := [],
       mr_mirrors :=
         (case (mr_session_id s, mr_dst s) of
            (Some i, Some d) \<Rightarrow>
              if mr_ingress s \<noteq> [] \<or> mr_egress s \<noteq> []
              then mr_mirrors s @
                [\<lparr>m_session_id = i,
                  m_source_ports =
                    map denormalize_port_id (if mr_ingress s \<noteq> [] then mr_ingress s else mr_egress s),
                  m_destination_port = denormalize_port_id d,
                  m_direction =
                    (if mr_egress s = [] then Rx else if mr_ingress s = [] then Tx else Both)\<rparr>]
              else mr_mirrors s
          | _ \<Rightarrow> mr_mirrors s)\<rparr>"

definition mirror_line :: "string \<Rightarrow> mirror_reader \<Rightarrow> mirror_reader" where
  "mirror_line l s =
     (case port_edit_key l of
        Some i \<Rightarrow> (flush_mirror s)\<lparr>mr_session_id := Some i\<rparr>
      | None \<Rightarrow>
          if mr_session_id s = None then s
          else
            (case strip_prefix ''set dst '' l of
               Some r \<Rightarrow> s\<lparr>mr_dst := Some (trim r)\<rparr>
             | None \<Rightarrow>
            (case strip_prefix ''set src-ingress '' l of
               Some r \<Rightarrow> s\<lparr>mr_ingress := split_whitespace r\<rparr>
             | None \<Rightarrow>
            (case strip_prefix ''set src-egress '' l of
               Some r \<Rightarrow> s\<lparr>mr_egress := split_whitespace r\<rparr>
             | None \<Rightarrow> if l = ''next'' then flush_mirror s else s))))"

definition mirror_start :: mirror_reader where
  "mirror_start =
     \<lparr>mr_session_id = None, mr_dst = None, mr_ingress = [], mr_egress = [], mr_mirrors = []\<rparr>"

definition parse_switch_mirrors :: "string list \<Rightarrow> port_mirror list" where
  "parse_switch_mirrors ls =
     mr_mirrors (flush_mirror (walk_table ''switch mirror'' flush_mirror mirror_line ls mirror_start))"

end
