(* ===== verification/Fortiswitch_Queries.thy ===== *)
theory Fortiswitch_Queries
  imports Fortiswitch_Parser
begin

text \<open>
  The rest of what \<open>vendors/fortiswitch.rs\<close> reads: the SNMP table and its indices, whether the SNMP agent is
  on, which interface has the management IP, the MAC table and the status of the ports.
\<close>

section \<open>SNMP communities\<close>

record community_reader =
  cm_communities :: "snmp_community list"
  cm_trap_receivers :: "snmp_trap_receiver list"
  cm_enabled_traps :: "trap_type list"
  cm_in_block :: bool
  cm_depth :: int
  cm_in_community :: bool
  cm_name :: "string option"
  cm_in_hosts :: bool
  cm_current_host :: "string option"
  cm_hosts :: "string list"
  cm_trap_v1_disabled :: bool
  cm_trap_v2c_disabled :: bool

definition community_start :: community_reader where
  "community_start =
     \<lparr>cm_communities = [], cm_trap_receivers = [], cm_enabled_traps = [], cm_in_block = False,
      cm_depth = 0, cm_in_community = False, cm_name = None, cm_in_hosts = False, cm_current_host = None,
      cm_hosts = [], cm_trap_v1_disabled = False, cm_trap_v2c_disabled = False\<rparr>"

fun parse_forti_trap :: "string \<Rightarrow> trap_type option" where
  "parse_forti_trap s =
     (if s = ''mac-notify'' then Some MacNotify
      else if s = ''link-up-down'' then Some LinkChange
      else if s = ''all'' then Some AllTraps else None)"

definition manager_of_host :: "string \<Rightarrow> allowed_host option" where
  "manager_of_host h =
     (case split_whitespace h of
        [] \<Rightarrow> None
      | [addr] \<Rightarrow> (case allowed_host_try_from addr of Inr a \<Rightarrow> Some a | Inl e \<Rightarrow> None)
      | addr # nm # _ \<Rightarrow> host_from_fortios addr nm)"

definition receiver_of_host :: "string \<Rightarrow> string \<Rightarrow> snmp_trap_receiver" where
  "receiver_of_host name h =
     \<lparr>r_host = opt_or h (strip_suffix '' 255.255.255.255'' h), r_community = name, r_version = None\<rparr>"

text \<open>\<open>next\<close> of an entry: the community, and its hosts as managers or as trap receivers.\<close>

definition finish_community :: "community_reader \<Rightarrow> community_reader" where
  "finish_community s =
     (case cm_name s of
        None \<Rightarrow> s
      | Some name \<Rightarrow>
          let s' = s\<lparr>cm_name := None\<rparr>;
              community = snmp_community_new name Unrestricted
          in if cm_trap_v1_disabled s \<and> cm_trap_v2c_disabled s
             then s'\<lparr>cm_communities := cm_communities s @
                    [community\<lparr>c_allowed_hosts := List.map_filter manager_of_host (cm_hosts s)\<rparr>]\<rparr>
             else s'\<lparr>cm_communities := cm_communities s @ [community],
                     cm_trap_receivers := cm_trap_receivers s @ map (receiver_of_host name) (cm_hosts s),
                     cm_hosts := []\<rparr>)\<lparr>cm_in_community := False\<rparr>"

definition host_line :: "string \<Rightarrow> community_reader \<Rightarrow> community_reader" where
  "host_line l s =
     (case strip_prefix ''set ip '' l of
        Some r \<Rightarrow> s\<lparr>cm_current_host := Some (trim r)\<rparr>
      | None \<Rightarrow>
          if l = ''next''
          then (case cm_current_host s of
                  Some h \<Rightarrow> s\<lparr>cm_current_host := None, cm_hosts := cm_hosts s @ [h]\<rparr> | None \<Rightarrow> s)
          else s)"

definition community_line :: "string \<Rightarrow> community_reader \<Rightarrow> community_reader" where
  "community_line l s =
     (if starts_with ''edit '' l
      then s\<lparr>cm_in_community := True, cm_name := None, cm_hosts := [], cm_trap_v1_disabled := False,
             cm_trap_v2c_disabled := False\<rparr>
      else if \<not> cm_in_community s then s
      else
        (case strip_prefix ''set name '' l of
           Some n \<Rightarrow> s\<lparr>cm_name := Some (unquote n)\<rparr>
         | None \<Rightarrow>
        (case strip_prefix ''set events '' l of
           Some r \<Rightarrow> s\<lparr>cm_enabled_traps := List.map_filter parse_forti_trap (split_whitespace r)\<rparr>
         | None \<Rightarrow>
             if l = ''set trap-v1-status disable'' then s\<lparr>cm_trap_v1_disabled := True\<rparr>
             else if l = ''set trap-v2c-status disable'' then s\<lparr>cm_trap_v2c_disabled := True\<rparr>
             else if l = ''next'' then finish_community s
             else s)))"

definition community_step :: "string \<Rightarrow> community_reader \<Rightarrow> community_reader" where
  "community_step line s =
     (let l = trim line in
      if l = ''config system snmp community'' then s\<lparr>cm_in_block := True, cm_depth := 1\<rparr>
      else if \<not> cm_in_block s then s
      else if l = ''config hosts'' then s\<lparr>cm_in_hosts := True, cm_depth := cm_depth s + 1\<rparr>
      else if starts_with ''config '' l then s\<lparr>cm_depth := cm_depth s + 1\<rparr>
      else if l = ''end''
      then (let depth = cm_depth s - 1 in
            if cm_in_hosts s \<and> depth = 1 then s\<lparr>cm_depth := depth, cm_in_hosts := False\<rparr>
            else if depth = 0 then s\<lparr>cm_depth := depth, cm_in_block := False\<rparr>
            else s\<lparr>cm_depth := depth\<rparr>)
      else if cm_in_hosts s then host_line l s
      else if cm_depth s \<noteq> 1 then s
      else community_line l s)"

definition parse_snmp_community :: "string list \<Rightarrow> snmp_config option" where
  "parse_snmp_community ls =
     (let s = fold community_step ls community_start in
      if cm_communities s = [] \<and> cm_trap_receivers s = [] then None
      else Some \<lparr>sn_communities = cm_communities s, sn_trap_receivers = cm_trap_receivers s,
                 sn_enabled_traps = cm_enabled_traps s, sn_reads = None\<rparr>)"

text \<open>The same walk, for the index of each name.\<close>

record index_reader =
  ix_indices :: "(string \<times> u16) list"
  ix_in_block :: bool
  ix_depth :: int
  ix_in_hosts :: bool
  ix_current :: "u16 option"

definition index_start :: index_reader where
  "index_start =
     \<lparr>ix_indices = [], ix_in_block = False, ix_depth = 0, ix_in_hosts = False, ix_current = None\<rparr>"

definition index_step :: "string \<Rightarrow> index_reader \<Rightarrow> index_reader" where
  "index_step line s =
     (let l = trim line in
      if l = ''config system snmp community'' then s\<lparr>ix_in_block := True, ix_depth := 1\<rparr>
      else if \<not> ix_in_block s then s
      else if l = ''config hosts'' then s\<lparr>ix_in_hosts := True, ix_depth := ix_depth s + 1\<rparr>
      else if starts_with ''config '' l then s\<lparr>ix_depth := ix_depth s + 1\<rparr>
      else if l = ''end''
      then (let depth = ix_depth s - 1 in
            s\<lparr>ix_depth := depth, ix_in_hosts := (ix_in_hosts s \<and> depth \<noteq> 1),
              ix_in_block := (depth \<noteq> 0)\<rparr>)
      else if ix_in_hosts s \<or> ix_depth s \<noteq> 1 then s
      else
        (case strip_prefix ''edit '' l of
           Some r \<Rightarrow> s\<lparr>ix_current := parse_u16 (trim r)\<rparr>
         | None \<Rightarrow>
        (case strip_prefix ''set name '' l of
           Some n \<Rightarrow>
             (case ix_current s of
                Some i \<Rightarrow> s\<lparr>ix_indices := AList.update (unquote n) i (ix_indices s)\<rparr> | None \<Rightarrow> s)
         | None \<Rightarrow> if l = ''next'' then s\<lparr>ix_current := None\<rparr> else s)))"

definition parse_snmp_community_indices :: "string list \<Rightarrow> (string \<times> u16) list" where
  "parse_snmp_community_indices ls = ix_indices (fold index_step ls index_start)"

definition adopt_desired_access :: "snmp_config \<Rightarrow> snmp_config \<Rightarrow> snmp_config" where
  "adopt_desired_access parsed desired =
     parsed\<lparr>sn_communities :=
       map (\<lambda>c. case find (\<lambda>d. c_name d = c_name c) (sn_communities desired) of
                  Some wanted \<Rightarrow> c\<lparr>c_access := c_access wanted\<rparr> | None \<Rightarrow> c)
         (sn_communities parsed)\<rparr>"

fun sysinfo_loop :: "string list \<Rightarrow> bool \<Rightarrow> bool" where
  "sysinfo_loop [] in_block = False"
| "sysinfo_loop (line # ls) in_block =
     (let l = trim line in
      if l = ''config system snmp sysinfo'' then sysinfo_loop ls True
      else if in_block \<and> l = ''end'' then False
      else if in_block \<and> l = ''set status enable'' then True
      else sysinfo_loop ls in_block)"

definition parse_snmp_sysinfo_enabled :: "string list \<Rightarrow> bool" where
  "parse_snmp_sysinfo_enabled ls = sysinfo_loop ls False"

section \<open>The interface of the management IP\<close>

record access_reader =
  ac_interface :: "string option"
  ac_primary_access :: "string list"
  ac_primary_matches :: bool
  ac_in_secondary :: bool
  ac_secondary_index :: "u32 option"
  ac_secondary_access :: "string list"
  ac_secondary_matches :: bool
  ac_found_secondary :: "mgmt_access option"

definition access_start :: access_reader where
  "access_start =
     \<lparr>ac_interface = None, ac_primary_access = [], ac_primary_matches = False, ac_in_secondary = False,
      ac_secondary_index = None, ac_secondary_access = [], ac_secondary_matches = False,
      ac_found_secondary = None\<rparr>"

definition access_edit :: "string \<Rightarrow> access_reader \<Rightarrow> access_reader" where
  "access_edit name s =
     (if ac_in_secondary s
      then s\<lparr>ac_secondary_index := parse_u32 (trim name), ac_secondary_access := [],
             ac_secondary_matches := False\<rparr>
      else s\<lparr>ac_interface := Some (unquote (trim name)), ac_primary_access := [],
             ac_primary_matches := False, ac_found_secondary := None\<rparr>)"

definition found_here :: "access_reader \<Rightarrow> mgmt_access option" where
  "found_here s =
     map_option (\<lambda>name. \<lparr>ma_interface = name, ma_secondary_index = ac_secondary_index s,
                          ma_allowaccess = ac_secondary_access s\<rparr>) (ac_interface s)"

definition primary_here :: "access_reader \<Rightarrow> mgmt_access option" where
  "primary_here s =
     map_option (\<lambda>name. \<lparr>ma_interface = name, ma_secondary_index = None,
                          ma_allowaccess = ac_primary_access s\<rparr>) (ac_interface s)"

text \<open>\<open>next\<close>: \<open>Some r\<close> when the function returns \<open>r\<close>.\<close>

definition access_next :: "access_reader \<Rightarrow> mgmt_access option option \<times> access_reader" where
  "access_next s =
     (if ac_in_secondary s \<and> ac_secondary_matches s
      then (None, case found_here s of Some f \<Rightarrow> s\<lparr>ac_found_secondary := Some f\<rparr> | None \<Rightarrow> s)
      else if \<not> ac_in_secondary s \<and> ac_primary_matches s
      then (Some (case ac_found_secondary s of Some f \<Rightarrow> Some f | None \<Rightarrow> primary_here s), s)
      else if \<not> ac_in_secondary s
      then (case ac_found_secondary s of Some f \<Rightarrow> (Some (Some f), s) | None \<Rightarrow> (None, s))
      else (None, s))"

definition access_step :: "string \<Rightarrow> string \<Rightarrow> access_reader \<Rightarrow> mgmt_access option option \<times> access_reader" where
  "access_step management_ip l s =
     (case strip_prefix ''edit '' l of
        Some name \<Rightarrow> (None, access_edit name s)
      | None \<Rightarrow>
          if l = ''config secondaryip'' then (None, s\<lparr>ac_in_secondary := True\<rparr>)
          else if l = ''next'' then access_next s
          else if l = ''end'' then (None, s\<lparr>ac_in_secondary := False\<rparr>)
          else
            (case strip_prefix ''set ip '' l of
               Some r \<Rightarrow>
                 (None,
                  if (case split_whitespace r of a # _ \<Rightarrow> a = management_ip | [] \<Rightarrow> False)
                  then if ac_in_secondary s then s\<lparr>ac_secondary_matches := True\<rparr>
                       else s\<lparr>ac_primary_matches := True\<rparr>
                  else s)
             | None \<Rightarrow>
            (case strip_prefix ''set allowaccess '' l of
               Some r \<Rightarrow>
                 (None,
                  if ac_in_secondary s then s\<lparr>ac_secondary_access := split_whitespace r\<rparr>
                  else s\<lparr>ac_primary_access := split_whitespace r\<rparr>)
             | None \<Rightarrow> (None, s))))"

fun access_loop :: "string \<Rightarrow> string list \<Rightarrow> access_reader \<Rightarrow> mgmt_access option" where
  "access_loop management_ip [] s = None"
| "access_loop management_ip (line # ls) s =
     (case access_step management_ip (trim line) s of
        (Some r, _) \<Rightarrow> r
      | (None, s') \<Rightarrow> access_loop management_ip ls s')"

definition parse_mgmt_access :: "string list \<Rightarrow> string \<Rightarrow> mgmt_access option" where
  "parse_mgmt_access ls management_ip = access_loop management_ip ls access_start"

definition parse_interface_addresses :: "string list \<Rightarrow> (string \<times> string) list" where
  "parse_interface_addresses ls =
     fold (\<lambda>line addresses.
            let tokens = split_whitespace line in
            (case (token_after (\<lambda>t. t = ''name:'') tokens, token_after (\<lambda>t. t = ''ip:'') tokens) of
               (Some name, Some ip) \<Rightarrow> AList.update name ip addresses
             | _ \<Rightarrow> addresses)) ls []"

fun interface_allowaccess_loop :: "string list \<Rightarrow> string \<Rightarrow> bool \<Rightarrow> bool \<Rightarrow> string list option" where
  "interface_allowaccess_loop [] interface in_target in_secondary = None"
| "interface_allowaccess_loop (line # ls) interface in_target in_secondary =
     (let l = trim line in
      case strip_prefix ''edit '' l of
        Some name \<Rightarrow>
          interface_allowaccess_loop ls interface
            (if \<not> in_secondary then unquote (trim name) = interface else in_target) in_secondary
      | None \<Rightarrow>
          if l = ''config secondaryip'' then interface_allowaccess_loop ls interface in_target True
          else if l = ''end'' then interface_allowaccess_loop ls interface in_target False
          else if in_target \<and> \<not> in_secondary
          then (case strip_prefix ''set allowaccess '' l of
                  Some r \<Rightarrow> Some (split_whitespace r)
                | None \<Rightarrow> interface_allowaccess_loop ls interface in_target in_secondary)
          else interface_allowaccess_loop ls interface in_target in_secondary)"

definition interface_allowaccess :: "string list \<Rightarrow> string \<Rightarrow> string list option" where
  "interface_allowaccess ls interface = interface_allowaccess_loop ls interface False False"

text \<open>\<open>it\<close> is the order in which the map of leases comes out.\<close>

definition resolve_mgmt_access ::
  "(string list \<Rightarrow> string list) \<Rightarrow> string list \<Rightarrow> (string \<times> string) list \<Rightarrow> string \<Rightarrow> mgmt_access option" where
  "resolve_mgmt_access it show_lines leases management_ip =
     (case parse_mgmt_access show_lines management_ip of
        Some found \<Rightarrow> Some found
      | None \<Rightarrow>
          if management_ip = [] \<or> management_ip = ''0.0.0.0'' then None
          else
            Option.bind (find (\<lambda>n. map_of leases n = Some management_ip) (it (map fst leases))) (\<lambda>owner.
            map_option (\<lambda>allow. \<lparr>ma_interface = owner, ma_secondary_index = None, ma_allowaccess = allow\<rparr>)
              (interface_allowaccess show_lines owner)))"

section \<open>The MAC table and the status of ports\<close>

definition forti_command_rejected :: "string \<Rightarrow> bool" where
  "forti_command_rejected raw \<longleftrightarrow>
     contains_str ''command parse error'' raw \<or> contains_str ''Command fail. Return code'' raw"

definition forti_looks_like_mac :: "string \<Rightarrow> bool" where
  "forti_looks_like_mac token \<longleftrightarrow>
     (let parts = split_on (CHR '':'') token
      in length parts = 6 \<and> list_all (\<lambda>p. length p = 2 \<and> list_all is_ascii_hexdigit p) parts)"

text \<open>The port of a label's value, \<open>port2(port-id 2)\<close> or \<open>5\<close>; the argument is what follows the label.\<close>

definition extract_port_id :: "string list \<Rightarrow> string option" where
  "extract_port_id behind =
     (case behind of
        [] \<Rightarrow> None
      | v # r \<Rightarrow>
          if contains_str ''port-id'' v
          then (case r of [] \<Rightarrow> None | n # _ \<Rightarrow> Some (trim_end_matches '')'' n))
          else Some (trim_end_matches '')'' v))"

definition labelled_mac :: "string list \<Rightarrow> string \<Rightarrow> mac_table_entry option" where
  "labelled_mac tokens mac =
     map_option (\<lambda>port_id.
        \<lparr>mt_mac_address = mac,
         mt_vlan_id = Option.bind (token_after (\<lambda>t. t = ''VLAN:'') tokens) parse_u16,
         mt_port_id = port_id\<rparr>)
       (Option.bind (after_token (\<lambda>t. t = ''PORT:'' \<or> t = ''Port:'' \<or> t = ''Trunk:'') tokens) extract_port_id)"

definition plain_mac :: "string list \<Rightarrow> mac_table_entry option" where
  "plain_mac tokens =
     (case tokens of
        mac # v # port_id # _ \<Rightarrow>
          if forti_looks_like_mac mac
          then Some \<lparr>mt_mac_address = mac, mt_vlan_id = parse_u16 v, mt_port_id = port_id\<rparr> else None
      | _ \<Rightarrow> None)"

definition forti_mac_line :: "string \<Rightarrow> mac_table_entry option" where
  "forti_mac_line line =
     (let tokens = split_whitespace line in
      case after_token (\<lambda>t. t = ''MAC:'') tokens of
        None \<Rightarrow> plain_mac tokens
      | Some [] \<Rightarrow> None
      | Some (mac # _) \<Rightarrow>
          if forti_looks_like_mac mac
          then (case labelled_mac tokens mac of Some e \<Rightarrow> Some e | None \<Rightarrow> plain_mac tokens)
          else plain_mac tokens)"

definition forti_parse_mac_table :: "string \<Rightarrow> mac_table_entry list" where
  "forti_parse_mac_table raw = List.map_filter forti_mac_line (lines raw)"

definition is_speed_token :: "string \<Rightarrow> bool" where
  "is_speed_token t \<longleftrightarrow> starts_with ''('' t \<and> ends_with ''Mbps'' t"

definition port_status_line :: "string \<Rightarrow> port_status_entry option" where
  "port_status_line line =
     (let tokens = split_whitespace line in
      Option.bind (token_after (\<lambda>t. t = ''name:'') tokens) (\<lambda>port_id.
      map_option (\<lambda>behind_status.
        \<lparr>ps_port_id = port_id,
         ps_link_status = (case behind_status of [] \<Rightarrow> None | v # _ \<Rightarrow> Some v),
         ps_speed = map_option (\<lambda>t. trim_end_matches ''Mbps'' (trim_start_matches ''('' t))
                      (find is_speed_token tokens),
         ps_duplex = map_option (\<lambda>t. trim_end_matches ''-duplex'' (trim_end_matches '')'' t))
                      (token_after is_speed_token tokens),
         ps_poe_status = token_after (\<lambda>t. t = ''poe-status:'') tokens\<rparr>)
        (after_token (\<lambda>t. t = ''link-status:'') tokens)))"

definition parse_port_status_single_line :: "string \<Rightarrow> port_status_entry list" where
  "parse_port_status_single_line raw = List.map_filter port_status_line (lines raw)"

definition extract_field :: "string \<Rightarrow> string \<Rightarrow> string option" where
  "extract_field line key =
     Option.bind (strip_prefix key (trim line)) (\<lambda>r. map_option trim (strip_prefix '':'' (trim_start r)))"

definition status_block_line ::
  "string \<Rightarrow> port_status_entry list \<times> port_status_entry option \<Rightarrow>
   port_status_entry list \<times> port_status_entry option" where
  "status_block_line line = (\<lambda>(entries, current).
     case extract_field line ''name'' of
       Some name \<Rightarrow>
         (entries @ (case current of Some e \<Rightarrow> [e] | None \<Rightarrow> []),
          Some \<lparr>ps_port_id = name, ps_link_status = None, ps_speed = None, ps_duplex = None,
                ps_poe_status = None\<rparr>)
     | None \<Rightarrow>
         (entries, map_option (\<lambda>e.
            case extract_field line ''link-status'' of
              Some v \<Rightarrow> e\<lparr>ps_link_status := Some v\<rparr>
            | None \<Rightarrow>
           (case extract_field line ''speed'' of
              Some v \<Rightarrow> e\<lparr>ps_speed := Some v\<rparr>
            | None \<Rightarrow>
           (case extract_field line ''duplex'' of
              Some v \<Rightarrow> e\<lparr>ps_duplex := Some v\<rparr>
            | None \<Rightarrow>
           (case extract_field line ''poe-status'' of
              Some v \<Rightarrow> e\<lparr>ps_poe_status := Some v\<rparr>
            | None \<Rightarrow> e)))) current))"

definition parse_port_status_block_format :: "string \<Rightarrow> port_status_entry list" where
  "parse_port_status_block_format raw =
     (case fold status_block_line (lines raw) ([], None) of
        (entries, current) \<Rightarrow> entries @ (case current of Some e \<Rightarrow> [e] | None \<Rightarrow> []))"

definition parse_port_status :: "string \<Rightarrow> port_status_entry list" where
  "parse_port_status raw =
     (let single_line = parse_port_status_single_line raw
      in if single_line \<noteq> [] then single_line else parse_port_status_block_format raw)"

end
