(* ===== verification/Fortiswitch.thy ===== *)
theory Fortiswitch
  imports Fortiswitch_Queries
begin

text \<open>
  The operations of the FortiSwitch driver on its session, and the driver as an instance of the contract
  \<open>switch_driver\<close>. The driver remembers, beside the shared fields, what its last reading showed of the SNMP
  setup; the commands of an SNMP change depend on it.
\<close>

section \<open>The driver\<close>

text \<open>\<open>management_ip()\<close> panics, like \<open>hostname()\<close>, when the field is missing; a driver has it.\<close>

record 'd fortiswitch = "'d driver" +
  fs_management_ip :: string
  fs_indices :: "(string \<times> u16) list"
  fs_sysinfo_enabled :: "bool option"
  fs_mgmt_access :: "mgmt_access option"

type_synonym ('d, 'a) fs_act = "'d fortiswitch \<Rightarrow> (vendor_error + 'a) \<times> 'd fortiswitch"

definition new_fortiswitch ::
  "(ip_addr \<Rightarrow> string option) \<Rightarrow> switch_config \<Rightarrow> bool \<Rightarrow> 'd fortiswitch option" where
  "new_fortiswitch route config enforce =
     (let config' = (case resolve_auto_hosts route config of Inr c \<Rightarrow> c | Inl e \<Rightarrow> config) in
      case (hostname_of config', model_of config', s_management_ip config') of
        (Some h, Some m, Some ip) \<Rightarrow>
          Some \<lparr>dr_config = config', dr_hostname = h, dr_model = m, dr_client = None,
                dr_current = None, dr_enforce = enforce, fs_management_ip = ip, fs_indices = [],
                fs_sysinfo_enabled = None, fs_mgmt_access = None\<rparr>
      | _ \<Rightarrow> None)"

section \<open>Reading\<close>

record config_blocks =
  bl_system_interface :: string
  bl_switch_vlan :: string
  bl_switch_interface :: string
  bl_physical_port :: string
  bl_switch_mirror :: string
  bl_snmp_community :: string
  bl_snmp_sysinfo :: string
  bl_interface_addresses :: string

text \<open>Eight commands; that the last one fails is not an error.\<close>

definition get_running_config_blocks :: "'d cli \<Rightarrow> ('d, config_blocks) fs_act" where
  "get_running_config_blocks cli =
     act_bind (run_command cli ''show system interface'') (\<lambda>system_interface.
     act_bind (run_command cli ''show switch vlan'') (\<lambda>switch_vlan.
     act_bind (run_command cli ''show switch interface'') (\<lambda>switch_interface.
     act_bind (run_command cli ''show switch physical-port'') (\<lambda>physical_port.
     act_bind (run_command cli ''show switch mirror'') (\<lambda>switch_mirror.
     act_bind (run_command cli ''show system snmp community'') (\<lambda>snmp_community.
     act_bind (run_command cli ''show system snmp sysinfo'') (\<lambda>snmp_sysinfo.
     act_bind (act_attempt (run_command cli ''get system interface'')) (\<lambda>addresses.
     act_return
       \<lparr>bl_system_interface = system_interface, bl_switch_vlan = switch_vlan,
        bl_switch_interface = switch_interface, bl_physical_port = physical_port,
        bl_switch_mirror = switch_mirror, bl_snmp_community = snmp_community,
        bl_snmp_sysinfo = snmp_sysinfo,
        bl_interface_addresses = (case addresses of Inr output \<Rightarrow> output | Inl e \<Rightarrow> [])\<rparr>))))))))"

definition forti_get_running_config :: "'d cli \<Rightarrow> ('d, string) fs_act" where
  "forti_get_running_config cli = run_command cli ''show system interface''"

text \<open>\<open>hw_id\<close> is the regular expression for the version line.\<close>

definition detect_hardware_model :: "'d cli \<Rightarrow> (string \<Rightarrow> string option) \<Rightarrow> ('d, string list) fs_act" where
  "detect_hardware_model cli hw_id =
     act_bind (act_attempt (run_command cli ''get system status'')) (\<lambda>r.
     act_bind act_get (\<lambda>s.
     act_return (case r of Inr output \<Rightarrow> verify_hardware_model hw_id output (dr_model s) | Inl e \<Rightarrow> [])))"

definition read_snmp :: "switch_config \<Rightarrow> string list \<Rightarrow> snmp_config option" where
  "read_snmp config ls =
     (case (parse_snmp_community ls, effective_snmp config) of
        (Some parsed, Some desired) \<Rightarrow> Some (adopt_desired_access parsed desired)
      | (parsed, _) \<Rightarrow> parsed)"

text \<open>The state the blocks show; \<open>ansi\<close> removes escape sequences.\<close>

definition forti_state ::
  "(string \<Rightarrow> string) \<Rightarrow> switch_config \<Rightarrow> switch_model \<Rightarrow> config_blocks \<Rightarrow> string list \<Rightarrow> switch_state" where
  "forti_state ansi config m raw warnings =
     (let system_interface_lines = lines (ansi (bl_system_interface raw)) in
      \<lparr>st_vlans =
         map (forti_vlan (s_vlans config) (parse_svi_details system_interface_lines))
           (parse_switch_vlan_ids (lines (ansi (bl_switch_vlan raw)))),
       st_ports =
         build_forti_ports m (parse_switch_interface_ports (lines (ansi (bl_switch_interface raw))))
           (parse_physical_ports (lines (ansi (bl_physical_port raw)))),
       st_port_mirrors = parse_switch_mirrors (lines (ansi (bl_switch_mirror raw))),
       st_snmp = read_snmp config (lines (ansi (bl_snmp_community raw))),
       st_management_vlan = forti_parse_management_vlan system_interface_lines,
       st_warnings = warnings\<rparr>)"

text \<open>What the driver remembers.\<close>

definition remember_snmp ::
  "(string \<Rightarrow> string) \<Rightarrow> (string list \<Rightarrow> string list) \<Rightarrow> config_blocks \<Rightarrow> 'd fortiswitch \<Rightarrow> 'd fortiswitch" where
  "remember_snmp ansi it raw s =
     s\<lparr>fs_indices := parse_snmp_community_indices (lines (ansi (bl_snmp_community raw))),
       fs_sysinfo_enabled := Some (parse_snmp_sysinfo_enabled (lines (ansi (bl_snmp_sysinfo raw)))),
       fs_mgmt_access :=
         resolve_mgmt_access it (lines (ansi (bl_system_interface raw)))
           (parse_interface_addresses (lines (ansi (bl_interface_addresses raw)))) (fs_management_ip s)\<rparr>"

definition forti_parse_current_state ::
  "'d cli \<Rightarrow> (string \<Rightarrow> string) \<Rightarrow> (string \<Rightarrow> string option) \<Rightarrow> (string list \<Rightarrow> string list) \<Rightarrow>
   ('d, switch_state) fs_act" where
  "forti_parse_current_state cli ansi hw_id it =
     act_bind (get_running_config_blocks cli) (\<lambda>raw.
     act_bind (act_modify (remember_snmp ansi it raw)) (\<lambda>_.
     act_bind (detect_hardware_model cli hw_id) (\<lambda>warnings.
     act_bind act_get (\<lambda>s.
     act_return (forti_state ansi (dr_config s) (dr_model s) raw warnings)))))"

definition rejected :: "string \<Rightarrow> string \<Rightarrow> vendor_error" where
  "rejected cmd raw = CommandError (''Switch rejected '' @ [CHR 0x27] @ cmd @ [CHR 0x27] @ '': '' @ trim raw)"

definition forti_get_mac_table :: "'d cli \<Rightarrow> ('d, mac_table_entry list \<times> string) fs_act" where
  "forti_get_mac_table cli =
     act_bind (run_command cli ''diagnose switch mac-address list'') (\<lambda>raw.
       if forti_command_rejected raw then act_fail (rejected ''diagnose switch mac-address list'' raw)
       else act_return (forti_parse_mac_table raw, raw))"

definition forti_get_port_status :: "'d cli \<Rightarrow> ('d, port_status_entry list \<times> string) fs_act" where
  "forti_get_port_status cli =
     act_bind (run_command cli ''get switch physical-port'') (\<lambda>raw.
       if forti_command_rejected raw then act_fail (rejected ''get switch physical-port'' raw)
       else act_return (parse_port_status raw, raw))"

text \<open>
  \<open>probe\<close> of the transport is a parameter. Both failures are reported as session errors, unlike those of
  the commands elsewhere.
\<close>

definition resume_session ::
  "('d \<Rightarrow> (string + unit) \<times> 'd) \<Rightarrow> 'd cli \<Rightarrow> ('d, unit) fs_act" where
  "resume_session probe cli s =
     (case dr_client s of
        None \<Rightarrow> (Inl (SshError ''no open session to resume''), s)
      | Some c \<Rightarrow>
          (case probe (device c) of
             (Inl e, d) \<Rightarrow> (Inl (SshError e), s\<lparr>dr_client := Some (c\<lparr>device := d\<rparr>)\<rparr>)
           | (Inr _, d) \<Rightarrow>
               (case cli_run_one cli ''end'' d of
                  (r, d') \<Rightarrow>
                    (map_sum SshError (\<lambda>_. ()) r,
                     s\<lparr>dr_client := Some \<lparr>device = d', sent = sent c @ [[''end'']]\<rparr>\<rparr>))))"

section \<open>Writing\<close>

definition forti_remove_vlans :: "'d cli \<Rightarrow> u16 list \<Rightarrow> ('d, config_result) fs_act" where
  "forti_remove_vlans cli vlan_ids =
     run_and_report cli (forti_remove_vlan_commands vlan_ids) (counted ''Removed '' (length vlan_ids) '' VLANs'')"

definition forti_remove_mirrors :: "'d cli \<Rightarrow> string list \<Rightarrow> ('d, config_result) fs_act" where
  "forti_remove_mirrors cli session_ids =
     run_and_report cli (forti_remove_mirror_commands session_ids)
       (counted ''Removed '' (length session_ids) '' port mirrors'')"

definition forti_configure_snmp :: "'d cli \<Rightarrow> snmp_config \<Rightarrow> ('d, config_result) fs_act" where
  "forti_configure_snmp cli snmp =
     act_bind (act_lift (check_snmp_limits snmp)) (\<lambda>_.
     act_bind act_get (\<lambda>s.
     run_and_report cli
       ((if sn_communities snmp \<noteq> []
         then snmp_prerequisite_commands (fs_sysinfo_enabled s) (fs_mgmt_access s) else [])
        @ forti_snmp_commands snmp)
       ''Configured SNMP settings''))"

definition check_desired_limits :: "switch_config \<Rightarrow> vendor_error + unit" where
  "check_desired_limits config =
     (case effective_snmp config of Some desired \<Rightarrow> check_snmp_limits desired | None \<Rightarrow> Inr ())"

definition forti_apply_snmp_diff :: "'d cli \<Rightarrow> snmp_state_diff \<Rightarrow> ('d, config_result) fs_act" where
  "forti_apply_snmp_diff cli sd =
     act_bind act_get (\<lambda>s.
       if \<not> snmp_has_changes sd
       then act_return
             \<lparr>res_switch = dr_hostname s, res_success = True,
              res_message = ''SNMP configuration already in desired state'', res_commands = []\<rparr>
       else
         act_bind (act_lift (check_desired_limits (dr_config s))) (\<lambda>_.
         act_bind (act_lift (forti_snmp_diff_commands (fs_indices s) (fs_sysinfo_enabled s) (fs_mgmt_access s) sd)) (\<lambda>cmds.
         run_and_report cli cmds (counted ''Applied '' (forti_snmp_diff_actions sd) '' SNMP changes''))))"

definition forti_configure_vlans :: "'d cli \<Rightarrow> vlan list \<Rightarrow> ('d, config_result) fs_act" where
  "forti_configure_vlans cli vlans =
     run_and_report cli (forti_vlan_commands vlans) (counted ''Configured '' (length vlans) '' VLANs'')"

definition forti_configure_ports :: "'d cli \<Rightarrow> port list \<Rightarrow> ('d, config_result) fs_act" where
  "forti_configure_ports cli ports =
     run_and_report cli (forti_port_commands ports) (counted ''Configured '' (length ports) '' ports'')"

definition forti_configure_port_mirrors :: "'d cli \<Rightarrow> port_mirror list \<Rightarrow> ('d, config_result) fs_act" where
  "forti_configure_port_mirrors cli mirrors =
     run_and_report cli (forti_mirror_commands mirrors) (counted ''Configured '' (length mirrors) '' port mirrors'')"

definition forti_reset_ports :: "'d cli \<Rightarrow> string list \<Rightarrow> ('d, config_result) fs_act" where
  "forti_reset_ports cli port_ids =
     run_and_report cli (forti_reset_commands port_ids)
       (counted ''Reset '' (length port_ids) '' ports to default state'')"

definition forti_configure_mirror_dest_ports :: "'d cli \<Rightarrow> string list \<Rightarrow> ('d, config_result) fs_act" where
  "forti_configure_mirror_dest_ports cli port_ids =
     run_and_report cli (forti_baseline_commands port_ids)
       (counted ''Configured '' (length port_ids) '' mirror destination ports with baseline settings'')"

definition forti_configure_management_vlan :: "'d cli \<Rightarrow> u16 \<Rightarrow> ('d, config_result) fs_act" where
  "forti_configure_management_vlan cli vlan_id =
     act_bind act_get (\<lambda>s.
       case find (\<lambda>v. v_id v = vlan_id) (s_vlans (dr_config s)) of
         None \<Rightarrow> act_fail (ValidationError (''Management VLAN '' @ show_u16 vlan_id
                             @ '' not found in VLAN configuration''))
       | Some vlan_config \<Rightarrow>
           run_and_report cli (forti_management_vlan_commands vlan_id vlan_config)
             (''Configured management VLAN '' @ show_u16 vlan_id @ '' with allowaccess''))"

definition forti_remove_management_vlan :: "('d, config_result) fs_act" where
  "forti_remove_management_vlan =
     act_bind act_get (\<lambda>s. act_return
       \<lparr>res_switch = dr_hostname s, res_success = True,
        res_message = ''Management VLAN removal not fully implemented for FortiSwitch'', res_commands = []\<rparr>)"

section \<open>\<open>apply_diff\<close> and \<open>apply_configuration\<close>\<close>

definition forti_snmp_stage ::
  "'d cli \<Rightarrow> state_diff \<Rightarrow> config_result list \<Rightarrow> ('d, config_result list) fs_act" where
  "forti_snmp_stage cli d results =
     (case snmp_diff d of
        Some sd \<Rightarrow> push_if (snmp_has_changes sd) (forti_apply_snmp_diff cli sd) results
      | None \<Rightarrow>
          if snmp_config_changed d
          then (case snmp_config_new d of
                  Some snmp \<Rightarrow> push_if True (forti_configure_snmp cli snmp) results
                | None \<Rightarrow> act_return results)
          else act_return results)"

definition forti_management_stage ::
  "'d cli \<Rightarrow> state_diff \<Rightarrow> config_result list \<Rightarrow> ('d, config_result list) fs_act" where
  "forti_management_stage cli d results =
     (if management_vlan_changed d
      then (case management_vlan_new d of
              Some vlan_id \<Rightarrow> push_if True (forti_configure_management_vlan cli vlan_id) results
            | None \<Rightarrow> push_if True forti_remove_management_vlan results)
      else act_return results)"

definition forti_apply_diff :: "'d cli \<Rightarrow> state_diff \<Rightarrow> ('d, config_result list) fs_act" where
  "forti_apply_diff cli d =
     act_bind (push_if (vlans_to_remove d \<noteq> []) (forti_remove_vlans cli (vlans_to_remove d)) []) (\<lambda>r.
     act_bind (push_if (vlans_to_add d \<noteq> []) (forti_configure_vlans cli (vlans_to_add d)) r) (\<lambda>r.
     act_bind (push_if (vlans_to_update d \<noteq> []) (forti_configure_vlans cli (vlans_to_update d)) r) (\<lambda>r.
     act_bind (push_if (ports_to_configure d \<noteq> []) (forti_configure_ports cli (ports_to_configure d)) r) (\<lambda>r.
     act_bind (push_if (ports_to_reset d \<noteq> []) (forti_reset_ports cli (ports_to_reset d)) r) (\<lambda>r.
     act_bind (push_if (mirror_dest_ports_to_configure d \<noteq> [])
                (forti_configure_mirror_dest_ports cli (mirror_dest_ports_to_configure d)) r) (\<lambda>r.
     act_bind (push_if (mirrors_to_remove d \<noteq> []) (forti_remove_mirrors cli (mirrors_to_remove d)) r) (\<lambda>r.
     act_bind (push_if (mirrors_to_add d \<noteq> []) (forti_configure_port_mirrors cli (mirrors_to_add d)) r) (\<lambda>r.
     act_bind (push_if (mirrors_to_update d \<noteq> []) (forti_configure_port_mirrors cli (mirrors_to_update d)) r) (\<lambda>r.
     act_bind (forti_snmp_stage cli d r) (\<lambda>r.
     forti_management_stage cli d r))))))))))"

definition forti_apply_configuration ::
  "'d cli \<Rightarrow> (string \<Rightarrow> string) \<Rightarrow> (string \<Rightarrow> string option) \<Rightarrow> (string list \<Rightarrow> string list) \<Rightarrow>
   (string list \<Rightarrow> string list) \<Rightarrow> hash_iter \<Rightarrow> hash_iter \<Rightarrow> ('d, config_result list) fs_act" where
  "forti_apply_configuration cli ansi hw_id ord ord' it it' =
     apply_configuration it it' (forti_parse_current_state cli ansi hw_id ord)
       (forti_parse_current_state cli ansi hw_id ord') (forti_apply_diff cli)"

definition forti_save_configuration :: "'d cli \<Rightarrow> ('d, unit) fs_act" where
  "forti_save_configuration cli =
     act_bind (run_command cli ''execute backup config flash default-config'') (\<lambda>_. act_return ())"

fun forti_rollback_configuration :: "'d cli \<Rightarrow> rollback_method \<Rightarrow> ('d, unit) fs_act" where
  "forti_rollback_configuration cli Reload =
     act_bind (run_command_as cli ''Reboot failed: '' ''execute reboot'') (\<lambda>_. act_return ())"
| "forti_rollback_configuration cli RestoreBackup =
     act_bind (run_command_as cli ''Restore failed: '' ''execute restore config'') (\<lambda>_. act_return ())"
| "forti_rollback_configuration cli RevertCommands =
     act_bind (run_command_as cli ''Revert failed: '' ''execute restore config'') (\<lambda>_. act_return ())"

section \<open>The plan\<close>

definition forti_reads :: "string list list" where
  "forti_reads =
     [[''show system interface''], [''show switch vlan''], [''show switch interface''],
      [''show switch physical-port''], [''show switch mirror''], [''show system snmp community''],
      [''show system snmp sysinfo''], [''get system interface''], [''get system status'']]"

definition forti_snmp_batches :: "state_diff \<Rightarrow> 'd fortiswitch \<Rightarrow> string list list" where
  "forti_snmp_batches d s =
     (case snmp_diff d of
        None \<Rightarrow> []
      | Some sd \<Rightarrow>
          if snmp_has_changes sd then
            (case and_then (check_desired_limits (dr_config s)) (\<lambda>_.
                    forti_snmp_diff_commands (fs_indices s) (fs_sysinfo_enabled s) (fs_mgmt_access s) sd) of
               Inr cmds \<Rightarrow> [cmds] | Inl e \<Rightarrow> [])
          else [])"

definition forti_svi_batches :: "state_diff \<Rightarrow> vlan list \<Rightarrow> string list list" where
  "forti_svi_batches d vlans =
     (if management_vlan_changed d
      then (case management_vlan_new d of
              Some i \<Rightarrow>
                (case find (\<lambda>v. v_id v = i) vlans of
                   Some v \<Rightarrow> [forti_management_vlan_commands i v] | None \<Rightarrow> [])
            | None \<Rightarrow> [])
      else [])"

definition forti_plan :: "state_diff \<Rightarrow> 'd fortiswitch \<Rightarrow> string list list" where
  "forti_plan d s =
     batch_if (vlans_to_remove d \<noteq> []) (forti_remove_vlan_commands (vlans_to_remove d))
     @ batch_if (vlans_to_add d \<noteq> []) (forti_vlan_commands (vlans_to_add d))
     @ batch_if (vlans_to_update d \<noteq> []) (forti_vlan_commands (vlans_to_update d))
     @ batch_if (ports_to_configure d \<noteq> []) (forti_port_commands (ports_to_configure d))
     @ batch_if (ports_to_reset d \<noteq> []) (forti_reset_commands (ports_to_reset d))
     @ batch_if (mirror_dest_ports_to_configure d \<noteq> [])
         (forti_baseline_commands (mirror_dest_ports_to_configure d))
     @ batch_if (mirrors_to_remove d \<noteq> []) (forti_remove_mirror_commands (mirrors_to_remove d))
     @ batch_if (mirrors_to_add d \<noteq> []) (forti_mirror_commands (mirrors_to_add d))
     @ batch_if (mirrors_to_update d \<noteq> []) (forti_mirror_commands (mirrors_to_update d))
     @ forti_snmp_batches d s
     @ forti_svi_batches d (s_vlans (dr_config s))"

section \<open>The driver keeps to its plan\<close>

lemma act_attempt_eq: "act_attempt f s = (Inr (fst (f s)), snd (f s))"
  by (simp add: act_attempt_def split_beta)

lemma blocks_send:
  fixes cli :: "'d cli"
  shows "sends (get_running_config_blocks cli) s (take 8 forti_reads) \<and>
   (\<forall>raw t. get_running_config_blocks cli s = (Inr raw, t) \<longrightarrow> dr_client t \<noteq> None)"
proof
  have *: "sends (act_bind (act_attempt (run_command cli ''get system interface'')) g) t ([[''get system interface'']] @ [])"
    if "dr_client t \<noteq> None" "\<And>x u. sends (g x) u []" for t and g :: "vendor_error + string \<Rightarrow> ('d, config_blocks) fs_act"
    by (rule sends_bind, use sends_attempt_command [OF that(1)] in blast, rule that(2))
  have "sends (get_running_config_blocks cli) s
      ([[''show system interface'']] @ [[''show switch vlan'']] @ [[''show switch interface'']] @
       [[''show switch physical-port'']] @ [[''show switch mirror'']] @ [[''show system snmp community'']] @
       [[''show system snmp sysinfo'']] @ [[''get system interface'']] @ [])"
    unfolding get_running_config_blocks_def
    by (intro sends_bind [OF sends_run_command] * sends_return) (erule run_command_connected)
  then show "sends (get_running_config_blocks cli) s (take 8 forti_reads)"
    by (rule sends_cong) (simp add: forti_reads_def)
  show "\<forall>raw t. get_running_config_blocks cli s = (Inr raw, t) \<longrightarrow> dr_client t \<noteq> None"
  proof (intro allI impI)
    fix raw t assume "get_running_config_blocks cli s = (Inr raw, t)"
    then obtain u x y where "run_command cli ''show system snmp sysinfo'' u = (Inr x, y)"
        and t: "t = snd (act_attempt (run_command cli ''get system interface'') y)"
      by (auto simp: get_running_config_blocks_def act_bind_Inr act_return_def act_attempt_eq)
    then have "dr_client y \<noteq> None" using run_command_connected by blast
    with sends_attempt_command [of y cli "''get system interface''"] t show "dr_client t \<noteq> None" by blast
  qed
qed

lemma same_driver_remember: "same_driver s (remember_snmp ansi it raw s)" "dr_client (remember_snmp ansi it raw s) = dr_client s"
  by (simp_all add: same_driver_def remember_snmp_def)

lemma sends_forti_parse:
  fixes cli :: "'d cli"
  shows "sends (forti_parse_current_state cli ansi hw_id it) s forti_reads"
proof -
  have status: "sends (detect_hardware_model cli hw_id) t ([[''get system status'']] @ [] @ [])"
    if "dr_client t \<noteq> None" for t
    unfolding detect_hardware_model_def
    by (intro sends_bind sends_get sends_return) (use sends_attempt_command [OF that] in blast)
  have rest: "sends (act_bind (act_modify (remember_snmp ansi it raw)) (\<lambda>_.
     act_bind (detect_hardware_model cli hw_id) (\<lambda>warnings.
     act_bind act_get (\<lambda>s.
     act_return (forti_state ansi (dr_config s) (dr_model s) raw warnings))))) t
     ([] @ ([[''get system status'']] @ [] @ []) @ [] @ [])" if "dr_client t \<noteq> None" for raw t
    by (intro sends_bind sends_modify same_driver_remember status sends_get sends_return)
      (use that in \<open>auto simp: act_modify_def same_driver_remember\<close>)
  have "sends (forti_parse_current_state cli ansi hw_id it) s
      (take 8 forti_reads @ ([] @ ([[''get system status'']] @ [] @ []) @ [] @ []))"
    unfolding forti_parse_current_state_def
    by (rule sends_bind) (use blocks_send [of cli s] rest in blast)+
  then show ?thesis by (rule sends_cong) (simp add: forti_reads_def)
qed

lemma sends_forti_snmp_diff:
  fixes cli :: "'d cli"
  assumes "snmp_has_changes sd"
  shows "sends (forti_apply_snmp_diff cli sd) s
    (case and_then (check_desired_limits (dr_config s)) (\<lambda>_.
        forti_snmp_diff_commands (fs_indices s) (fs_sysinfo_enabled s) (fs_mgmt_access s) sd) of
       Inr cmds \<Rightarrow> [cmds] | Inl e \<Rightarrow> [])"
proof -
  have bind_lift: "act_bind (act_lift r) g t = (case r of Inl e \<Rightarrow> (Inl e, t) | Inr x \<Rightarrow> g x t)"
    for r :: "vendor_error + 'b" and g :: "'b \<Rightarrow> ('d, config_result) fs_act" and t
    by (cases r) (simp_all add: act_bind_def act_lift_def)
  have lifted: "sends (act_bind (act_lift r) g) s bs"
    if "\<And>e. r = Inl e \<Longrightarrow> bs = []" "\<And>x. r = Inr x \<Longrightarrow> sends (g x) s bs"
    for r :: "vendor_error + 'b" and g :: "'b \<Rightarrow> ('d, config_result) fs_act" and bs
    using that by (cases r) (simp_all add: sends_def bind_lift)
  show ?thesis
    unfolding forti_apply_snmp_diff_def
    by (rule sends_with_get, simp only: assms not_True_eq_False if_False, intro lifted)
      (simp_all add: sends_run_and_report)
qed

lemma sends_forti_snmp_stage:
  assumes "granular_diff d"
  shows "sends (forti_snmp_stage cli d results) s (forti_snmp_batches d s)"
proof (cases "snmp_diff d")
  case None
  with assms show ?thesis
    by (simp add: forti_snmp_stage_def forti_snmp_batches_def granular_diff_def sends_return)
next
  case (Some sd)
  then show ?thesis
    using sends_push_if [of "snmp_has_changes sd" "forti_apply_snmp_diff cli sd" s _ results, OF sends_forti_snmp_diff]
    by (simp add: forti_snmp_stage_def forti_snmp_batches_def)
qed

lemma sends_forti_management_stage:
  fixes cli :: "'d cli"
  shows "sends (forti_management_stage cli d results) s (forti_svi_batches d (s_vlans (dr_config s)))"
proof -
  have conf: "sends (forti_configure_management_vlan cli i) s
      (case find (\<lambda>v. v_id v = i) (s_vlans (dr_config s)) of
         Some v \<Rightarrow> [forti_management_vlan_commands i v] | None \<Rightarrow> [])" for i
    unfolding forti_configure_management_vlan_def
    by (rule sends_with_get) (simp add: sends_fail sends_run_and_report split: option.split)
  have rem: "sends forti_remove_management_vlan s []"
    unfolding forti_remove_management_vlan_def by (intro sends_with_get sends_return)
  have push: "sends (push_if True f results) s bs"
    if "sends f s bs" for f :: "('d, config_result) fs_act" and bs :: "string list list"
    using sends_push_if [of True f s bs results] that by simp
  show ?thesis
    by (simp add: forti_management_stage_def forti_svi_batches_def sends_return push [OF rem] push [OF conf]
        split: option.split_asm option.split del: if_split)
qed

lemma keeps_more_forti_snmp_stage:
  fixes cli :: "'d cli"
  shows "keeps_more (forti_snmp_stage cli d results)"
proof -
  have get: "keeps_more (act_bind act_get f)" if "\<And>s. keeps_more (f s)" for f :: "'d fortiswitch \<Rightarrow> ('d, config_result) fs_act"
    using that by (intro keeps_more_bind) simp_all
  have diff: "keeps_more (forti_apply_snmp_diff cli sd)" for sd
    unfolding forti_apply_snmp_diff_def
    by (intro get) (auto intro!: keeps_more_bind keeps_more_report)
  have "keeps_more (forti_configure_snmp cli snmp)" for snmp
    unfolding forti_configure_snmp_def by (intro keeps_more_bind get keeps_more_report) simp_all
  with diff show ?thesis
    by (auto simp: forti_snmp_stage_def intro!: keeps_more_push_if split: option.split)
qed

lemma sends_forti_apply_diff:
  assumes "granular_diff d"
  shows "sends (forti_apply_diff cli d) s (forti_plan d s)"
proof -
  note defs = forti_remove_vlans_def forti_configure_vlans_def forti_configure_ports_def forti_reset_ports_def
    forti_configure_mirror_dest_ports_def forti_remove_mirrors_def forti_configure_port_mirrors_def
  have snmp: "sends (forti_snmp_stage cli d r) t (forti_snmp_batches d s)"
    if "same_driver s t" "driver.more t = driver.more s" for r t
  proof -
    from that(2) have "fs_indices t = fs_indices s" "fs_sysinfo_enabled t = fs_sysinfo_enabled s"
        "fs_mgmt_access t = fs_mgmt_access s"
      by (cases s, cases t, simp)+
    moreover from that(1) have "dr_config t = dr_config s" by (simp add: same_driver_def)
    ultimately have "forti_snmp_batches d t = forti_snmp_batches d s"
      unfolding forti_snmp_batches_def by (simp only:)
    with sends_forti_snmp_stage [OF assms, of cli r t] show ?thesis by (simp only:)
  qed
  have mgmt: "sends (forti_management_stage cli d r) t (forti_svi_batches d (s_vlans (dr_config s)))"
    if "same_driver s t" for r t
    using sends_forti_management_stage [of cli d r t] that by (simp only: same_driver_def)
  show ?thesis
    unfolding forti_apply_diff_def forti_plan_def defs
    apply (rule sends_bind_keep [OF sends_push_batch [OF sends_run_and_report] keeps_more_push_if [OF keeps_more_report]])+
    apply (rule sends_bind_keep [OF snmp keeps_more_forti_snmp_stage])
      apply ((assumption | erule same_driver_trans)+)[1]
     apply (simp only:)
    apply (rule mgmt, (assumption | erule same_driver_trans)+)
    done
qed

interpretation fortiswitch: switch_driver "forti_parse_current_state cli ansi hw_id" "forti_apply_diff cli"
    forti_reads forti_plan
  for cli :: "'d cli" and ansi hw_id
  by unfold_locales (simp_all add: sends_forti_parse sends_forti_apply_diff)

end
