(* ===== verification/Fortiswitch_Roundtrip.thy ===== *)
theory Fortiswitch_Roundtrip
  imports Fortiswitch_Queries
begin

text \<open>
  The commands generated for a FortiSwitch, read back: \<open>show\<close> prints a table in the form in which it is
  written.
\<close>

section \<open>Tables\<close>

text \<open>A line inside an entry that a reader takes as it is: it does not change the nesting.\<close>

definition table_line :: "string \<Rightarrow> bool" where
  "table_line l \<longleftrightarrow>
     l \<noteq> [] \<and> visible (hd l) \<and> visible (last l) \<and> \<not> starts_with ''config '' l \<and> l \<noteq> ''end''"

text \<open>One that sets something.\<close>

definition setting_line :: "string \<Rightarrow> bool" where
  "setting_line l \<longleftrightarrow> table_line l \<and> \<not> starts_with ''edit '' l \<and> l \<noteq> ''next''"

lemma table_line_trim: "table_line l \<Longrightarrow> trim l = l"
  by (simp add: table_line_def trim_visible)

lemma setting_line_table: "setting_line l \<Longrightarrow> table_line l"
  by (simp add: setting_line_def)

lemma table_line_next: "table_line ''next''"
  by (simp add: table_line_def visible_def starts_with_def)

lemma table_line_edit: "visible_word key \<Longrightarrow> table_line (edit_line key)"
  by (auto simp: table_line_def edit_line_def visible_def starts_with_def visible_word_def list_all_iff)

lemma setting_lineI:
  assumes "w \<noteq> []" and "visible (last w)"
  shows "setting_line (''set '' @ w)"
  using assms by (simp add: setting_line_def table_line_def visible_def starts_with_def)

lemma setting_lineI2: "w \<noteq> [] \<Longrightarrow> visible (last w) \<Longrightarrow> setting_line (''set '' @ p @ w)"
  by (rule setting_lineI) simp_all

lemma walk_lines:
  "list_all table_line ls \<Longrightarrow> fold (table_step path close body) ls (True, 1, s) = (True, 1, fold body ls s)"
proof (induction ls arbitrary: s)
  case (Cons l ls)
  then have "trim l = l" "\<not> starts_with ''config '' l" "l \<noteq> ''end''"
    by (simp_all add: table_line_def table_line_trim)
  moreover from this have "l \<noteq> config_line path" by (metis config_line_def starts_with_append)
  ultimately show ?case using Cons by (simp add: table_step_def)
qed simp

lemma walk_config_table:
  assumes "list_all table_line (concat es)" and "path \<noteq> []" and "visible (last path)"
  shows "walk_table path close body (config_table path es) s = close (fold body (concat es) s)"
proof -
  have "trim (config_line path) = config_line path"
    using assms(2,3) by (intro trim_visible) (simp_all add: visible_def config_line_def)
  then have 1: "table_step path close body (config_line path) (False, 0, s) = (True, 1, s)"
    by (simp add: table_step_def)
  have e: "trim ''end'' = ''end''" by (simp add: trim_eval)
  have 2: "table_step path close body ''end'' (True, 1, t) = (False, 0, close t)" for t
    by (simp add: table_step_def e starts_with_def config_line_def)
  show ?thesis
    unfolding walk_table_def config_table_def
    by (simp only: fold.simps fold_append comp_apply id_apply 1 walk_lines [OF assms(1)] 2 snd_conv)
qed

text \<open>The entries of a table one after the other, from the state in which no entry is open.\<close>

lemma fold_entry:
  assumes "edit_key (edit_line key) = Some k" and "edit_key ''next'' = None"
    and "\<And>l. l \<in> set body \<Longrightarrow> edit_key l = None \<and> l \<noteq> ''next''"
  shows "fold (entry_line edit_key set_line fresh) (edit_entry key body) (m, None, fresh) =
           (AList.update k (fold set_line body fresh) m, None, fresh)"
proof -
  have "fold (entry_line edit_key set_line fresh) ls (m, Some k, v) = (m, Some k, fold set_line ls v)"
    if "set ls \<subseteq> set body" for ls v
    using that assms(3) by (induction ls arbitrary: v) (auto simp: entry_line_def)
  from this [of body] show ?thesis
    using assms(1,2) by (simp add: edit_entry_def entry_line_def)
qed

lemma fold_entries:
  assumes "\<And>x. x \<in> set xs \<Longrightarrow> edit_key (edit_line (key x)) = Some (k x)" and "edit_key ''next'' = None"
    and "\<And>x l. x \<in> set xs \<Longrightarrow> l \<in> set (body x) \<Longrightarrow> edit_key l = None \<and> l \<noteq> ''next''"
  shows "fold (entry_line edit_key set_line fresh) (concat (map (\<lambda>x. edit_entry (key x) (body x)) xs)) (m, None, fresh) =
           (fold (\<lambda>x. AList.update (k x) (fold set_line (body x) fresh)) xs m, None, fresh)"
  using assms
proof (induction xs arbitrary: m)
  case (Cons x xs)
  have "fold (entry_line edit_key set_line fresh) (edit_entry (key x) (body x)) (m, None, fresh) =
      (AList.update (k x) (fold set_line (body x) fresh) m, None, fresh)"
    by (intro fold_entry Cons.prems) (simp_all add: Cons.prems)
  moreover have "fold (entry_line edit_key set_line fresh) (concat (map (\<lambda>x. edit_entry (key x) (body x)) xs))
      (AList.update (k x) (fold set_line (body x) fresh) m, None, fresh) =
      (fold (\<lambda>x. AList.update (k x) (fold set_line (body x) fresh)) xs
        (AList.update (k x) (fold set_line (body x) fresh) m), None, fresh)"
    by (rule Cons.IH) (use Cons.prems in auto)
  ultimately show ?case by simp
qed simp

lemma fold_update_new:
  "distinct (map k xs) \<Longrightarrow> k ` set xs \<inter> fst ` set m = {} \<Longrightarrow>
     fold (\<lambda>x. AList.update (k x) (f x)) xs m = m @ map (\<lambda>x. (k x, f x)) xs"
proof (induction xs arbitrary: m)
  case (Cons x xs)
  then have "AList.update (k x) (f x) m = m @ [(k x, f x)]"
  proof -
    from Cons.prems have "k x \<notin> fst ` set m" by auto
    then show ?thesis by (induction m) auto
  qed
  moreover have "k ` set xs \<inter> fst ` set (m @ [(k x, f x)]) = {}" using Cons.prems by auto
  ultimately show ?case using Cons by simp
qed simp

text \<open>What is needed of the entries \<open>xs\<close> of a table, with distinct keys.\<close>

lemma read_entries_table:
  assumes "\<And>x. x \<in> set xs \<Longrightarrow> visible_word (key x) \<and> edit_key (edit_line (key x)) = Some (k x)"
    and "\<And>l. setting_line l \<Longrightarrow> edit_key l = None" and "edit_key ''next'' = None"
    and "\<And>x. x \<in> set xs \<Longrightarrow> list_all setting_line (body x)"
    and "distinct (map k xs)" and "path \<noteq> []" and "visible (last path)"
  shows "read_entries path edit_key set_line fresh (config_table path (map (\<lambda>x. edit_entry (key x) (body x)) xs)) =
           map (\<lambda>x. (k x, fold set_line (body x) fresh)) xs"
proof -
  have lines: "list_all table_line (concat (map (\<lambda>x. edit_entry (key x) (body x)) xs))"
    using assms(1,4) table_line_edit table_line_next setting_line_table
    by (auto simp: list_all_iff edit_entry_def)
  have "edit_key l = None \<and> l \<noteq> ''next''" if "x \<in> set xs" "l \<in> set (body x)" for x l
    using assms(2,4) that by (auto simp: list_all_iff setting_line_def)
  then have "fold (entry_line edit_key set_line fresh) (concat (map (\<lambda>x. edit_entry (key x) (body x)) xs)) ([], None, fresh) =
      (map (\<lambda>x. (k x, fold set_line (body x) fresh)) xs, None, fresh)"
    using fold_entries [of xs edit_key key k body set_line fresh "[]"] assms(1,3)
      fold_update_new [OF assms(5), of "[]"] by simp
  then show ?thesis
    unfolding read_entries_def walk_config_table [OF lines assms(6,7)] by simp
qed

section \<open>Ports\<close>

lemma port_edit_key_line:
  assumes "visible_word key" and "no_end dquote key"
  shows "port_edit_key (edit_line key) = Some key"
  using assms by (simp add: port_edit_key_def edit_line_def strip_prefix_def visible_word_trim unquote_def trim_matches_id)

lemma port_edit_key_setting: "setting_line l \<Longrightarrow> port_edit_key l = None"
  by (simp add: setting_line_def port_edit_key_def strip_prefix_def starts_with_def)

lemma port_edit_key_next: "port_edit_key ''next'' = None"
  by (simp add: port_edit_key_def strip_prefix_def)

definition plain_text :: "string option \<Rightarrow> bool" where
  "plain_text d \<longleftrightarrow> (case d of None \<Rightarrow> True | Some x \<Rightarrow> no_end dquote x)"

lemma dquote_visible: "visible dquote"
  by (simp add: visible_def dquote_def)

lemma unquote_quoted: "no_end dquote s \<Longrightarrow> unquote (quoted s) = s"
  by (simp add: unquote_def quoted_def trim_matches_quoted)

lemma setting_description: "list_all setting_line (set_description d)"
proof (cases d)
  case (Some x)
  have "setting_line (''set '' @ ''description '' @ quoted x)"
    by (rule setting_lineI) (simp_all add: quoted_def dquote_visible)
  with Some show ?thesis by (simp add: set_description_def)
qed (simp add: set_description_def)

lemma setting_u16: "setting_line (''set '' @ p @ show_u16 v)"
  by (rule setting_lineI) (simp_all add: last_show_u16_visible)

lemma visible_last_join:
  assumes "ws \<noteq> []" and "\<And>w. w \<in> set ws \<Longrightarrow> visible_word w"
  shows "join '' '' ws \<noteq> [] \<and> visible (last (join '' '' ws))"
  using assms
proof (induction "'' ''" ws rule: join.induct)
  case (2 w)
  then show ?case by (auto simp: visible_word_def list_all_iff)
next
  case (3 s t ts)
  then have "join '' '' (t # ts) \<noteq> []" "visible (last (join '' '' (t # ts)))" by auto
  then show ?case by simp
qed simp

lemma digits_no_sep: "CHR '','' \<notin> set (show_u16 v)" "CHR ''-'' \<notin> set (show_u16 v)" "CHR ''.'' \<notin> set (show_u16 v)"
  using show_nat_is_digit by (fastforce simp: show_u16_def is_ascii_digit_def)+

lemma set_join: "set (join sep ws) \<subseteq> set sep \<union> \<Union> (set ` set ws)"
  by (induction sep ws rule: join.induct) auto

lemma vlan_list_part_single: "vlan_list_part (show_u16 v) = [v]"
  by (simp add: vlan_list_part_def split_once_def digits_no_sep visible_word_trim visible_word_show_u16)

lemma parse_vlan_list_spaces: "parse_vlan_list (join '' '' (map show_u16 vs)) = vs"
proof -
  have "set (join '' '' (map show_u16 vs)) \<subseteq> {CHR '' ''} \<union> \<Union> (set ` show_u16 ` set vs)"
    using set_join [of "'' ''" "map show_u16 vs"] by simp
  then have "CHR '','' \<notin> set (join '' '' (map show_u16 vs))"
    using digits_no_sep(1) by fastforce
  then have "split_on (CHR '','') (join '' '' (map show_u16 vs)) = [join '' '' (map show_u16 vs)]"
    by (rule split_on_no_sep)
  moreover have "split_whitespace (join '' '' (map show_u16 vs)) = map show_u16 vs"
    by (rule split_whitespace_words) (auto simp: visible_word_show_u16)
  moreover have "concat (map (vlan_list_part \<circ> show_u16) vs) = vs"
    by (induction vs) (simp_all add: vlan_list_part_single)
  ultimately show ?thesis by (simp add: parse_vlan_list_def)
qed

text \<open>How a FortiSwitch prints the ids of VLANs: single ids and ranges, between commas.\<close>

definition show_range :: "u16 \<times> u16 \<Rightarrow> string" where
  "show_range r = (if fst r = snd r then show_u16 (fst r) else show_u16 (fst r) @ CHR ''-'' # show_u16 (snd r))"

definition range_ids :: "u16 \<times> u16 \<Rightarrow> u16 list" where
  "range_ids r = map of_nat [unat (fst r) ..< Suc (unat (snd r))]"

lemma vlan_list_part_range: "vlan_list_part (show_range r) = range_ids r"
proof (cases "fst r = snd r")
  case True
  then show ?thesis by (simp add: show_range_def range_ids_def vlan_list_part_single)
next
  case False
  let ?a = "show_u16 (fst r)" and ?b = "show_u16 (snd r)"
  have "split_once (CHR ''-'') (?a @ CHR ''-'' # ?b) = Some (?a, ?b)"
    by (simp add: split_once_Some digits_no_sep)
  with False show ?thesis
    by (simp add: show_range_def range_ids_def vlan_list_part_def visible_word_trim visible_word_show_u16)
qed

lemma visible_word_show_range: "visible_word (show_range r)"
  using visible_word_show_u16 by (simp add: show_range_def visible_word_def visible_def)

lemma no_comma_show_range: "CHR '','' \<notin> set (show_range r)"
  by (simp add: show_range_def digits_no_sep)

text \<open>The list of allowed VLANs that a FortiSwitch prints, single ids and ranges between commas, reads as
  exactly the ids it stands for, in order.\<close>

theorem forti_vlan_ranges_read:
  "parse_vlan_list (join '','' (map show_range rs)) = concat (map range_ids rs)"
proof (cases "rs = []")
  case True
  then show ?thesis by (simp add: parse_vlan_list_def vlan_list_part_def)
next
  case False
  have "split_on (CHR '','') (join '','' (map show_range rs)) = map show_range rs"
    using False by (intro split_on_join) (auto simp: no_comma_show_range)
  moreover have "split_whitespace (show_range r) = [show_range r]" for r
    using split_whitespace_word [OF visible_word_show_range, of "[]" r] by simp
  then have "concat (map (split_whitespace \<circ> show_range) rs) = map show_range rs"
    by (induction rs) simp_all
  moreover have "concat (map (vlan_list_part \<circ> show_range) rs) = concat (map range_ids rs)"
    by (simp add: comp_def vlan_list_part_range)
  ultimately show ?thesis by (simp add: parse_vlan_list_def)
qed

section \<open>The port tables\<close>

lemma mode_settings: "list_all setting_line (forti_mode_commands p)"
proof -
  have u: "setting_line (''set native-vlan '' @ show_u16 v)" "setting_line (''set allowed-vlans '' @ show_u16 v)"
      "setting_line (''set untagged-vlans '' @ show_u16 v)" for v
    using setting_u16 [of "''native-vlan ''" v] setting_u16 [of "''allowed-vlans ''" v]
      setting_u16 [of "''untagged-vlans ''" v] by simp_all
  have j: "setting_line (''set allowed-vlans '' @ join '' '' (map show_u16 vs))" if "vs \<noteq> []" for vs
  proof -
    have "join '' '' (map show_u16 vs) \<noteq> [] \<and> visible (last (join '' '' (map show_u16 vs)))"
      using that by (intro visible_last_join) (auto simp: visible_word_show_u16)
    then have "setting_line (''set '' @ ''allowed-vlans '' @ join '' '' (map show_u16 vs))"
      by (intro setting_lineI) simp_all
    then show ?thesis by simp
  qed
  show ?thesis using u j unfolding forti_mode_commands_def
    by (simp only: list_all_append list.pred_inject simp_thms split: port_mode.split if_split) blast
qed

lemma mode_read:
  "fold interface_port_line (forti_mode_commands p) s =
     s\<lparr>pi_native_vlan := Some (p_vlan p),
       pi_allowed_vlans := (if p_tagged_vlans p = [] then [p_vlan p] else p_tagged_vlans p)\<rparr>"
proof -
  have single: "parse_vlan_list (show_u16 v) = [v]" for v
    using parse_vlan_list_spaces [of "[v]"] by simp
  show ?thesis
    by (simp add: forti_mode_commands_def inferred_mode_def interface_port_line_def strip_prefix_def
        parse_vlan_list_spaces single visible_word_trim visible_word_show_u16)
qed

lemma description_read:
  assumes "plain_text d"
  shows "fold interface_port_line (set_description d) s =
           (case d of None \<Rightarrow> s | Some x \<Rightarrow> s\<lparr>pi_description := Some x\<rparr>)"
  using assms unquote_quoted
  by (simp add: plain_text_def set_description_def interface_port_line_def strip_prefix_def split: option.splits)

definition physical_lines :: "port \<Rightarrow> string list" where
  "physical_lines p =
     [if p_enabled p then ''set status up'' else ''set status down'',
      if p_poe_enabled p then ''set poe-status enable'' else ''set poe-status disable'',
      ''set speed '' @ forti_speed (p_speed_duplex p)]"

lemma forti_speed_read: "parse_forti_speed (trim (forti_speed d)) = d" "visible_word (forti_speed d)"
proof -
  show v: "visible_word (forti_speed d)" by (cases d) (simp_all add: visible_word_def visible_def)
  show "parse_forti_speed (trim (forti_speed d)) = d"
    unfolding visible_word_trim [OF v] by (cases d) (simp_all add: parse_forti_speed_def)
qed

lemma physical_settings: "list_all setting_line (physical_lines p)"
proof -
  have "setting_line (''set '' @ ''speed '' @ forti_speed d)" for d
    using forti_speed_read(2) [of d]
    by (intro setting_lineI) (auto simp: visible_word_def list_all_iff)
  moreover have "setting_line ''set status up''" "setting_line ''set status down''"
      "setting_line ''set poe-status enable''" "setting_line ''set poe-status disable''"
    by (simp_all add: setting_line_def table_line_def visible_def starts_with_def)
  ultimately show ?thesis by (simp add: physical_lines_def)
qed

lemma physical_read:
  "fold physical_port_line (physical_lines p) s =
     \<lparr>ph_enabled = Some (p_enabled p), ph_poe_enabled = Some (p_poe_enabled p),
      ph_speed_duplex = Some (p_speed_duplex p)\<rparr>"
  by (simp add: physical_lines_def physical_port_line_def strip_prefix_def forti_speed_read(1))

text \<open>The ports a FortiSwitch has: \<open>1\<close>, \<open>2\<close>, ... A port that is written and its reading.\<close>

definition plain_forti_port :: "port \<Rightarrow> bool" where
  "plain_forti_port p \<longleftrightarrow>
     p_port_id p \<noteq> [] \<and> list_all is_ascii_digit (p_port_id p) \<and> plain_text (p_description p)"

definition as_read :: "port \<Rightarrow> port" where
  "as_read p =
     (let tagged = filter (\<lambda>v. v \<noteq> p_vlan p) (p_tagged_vlans p) in
      p\<lparr>p_mode := (if tagged = [] then Access else Trunk), p_tagged_vlans := tagged, p_mac_notify := False,
        p_vlan_name := None, p_tagged_vlan_refs := []\<rparr>)"

definition port_name :: "string \<Rightarrow> string" where
  "port_name i = ''port'' @ i"

lemma port_name_simps [simp]: "port_name i = port_name j \<longleftrightarrow> i = j" "port_name i \<le> port_name j \<longleftrightarrow> i \<le> j"
  by (simp_all add: port_name_def)

lemma plain_port_key:
  assumes "plain_forti_port p"
  shows "forti_normalize_port_id (p_port_id p) = port_name (p_port_id p)"
    and "visible_word (port_name (p_port_id p))" and "no_end dquote (port_name (p_port_id p))"
    and "is_numbered_port (port_name (p_port_id p))" and "denormalize_port_id (port_name (p_port_id p)) = p_port_id p"
proof -
  from assms have d: "p_port_id p \<noteq> []" "\<And>c. c \<in> set (p_port_id p) \<Longrightarrow> is_ascii_digit c"
    by (simp_all add: plain_forti_port_def list_all_iff)
  then have "is_ascii_digit (hd (p_port_id p))" by simp
  then have "hd (p_port_id p) \<noteq> CHR ''p''" by (auto simp: is_ascii_digit_def)
  then have "\<not> starts_with ''port'' (p_port_id p)"
    using d(1) by (cases "p_port_id p") (auto simp: starts_with_def)
  moreover have "CHR ''/'' \<notin> set (p_port_id p)" using d(2) by (force simp: is_ascii_digit_def)
  ultimately show "forti_normalize_port_id (p_port_id p) = port_name (p_port_id p)"
    by (simp add: forti_normalize_port_id_def split_on_no_sep port_name_def)
  from d have v: "visible_word (p_port_id p)" by (auto simp: visible_word_def list_all_iff intro: visible_digit)
  then show "visible_word (port_name (p_port_id p))" by (simp add: visible_word_def visible_def port_name_def)
  have "last (p_port_id p) \<noteq> dquote"
    using d(1) d(2) [of "last (p_port_id p)"] by (auto simp: is_ascii_digit_def dquote_def)
  then show "no_end dquote (port_name (p_port_id p))" using d(1) by (simp add: no_end_def dquote_def port_name_def)
  show "is_numbered_port (port_name (p_port_id p))" "denormalize_port_id (port_name (p_port_id p)) = p_port_id p"
    using d by (simp_all add: is_numbered_port_def denormalize_port_id_def strip_prefix_def list_all_iff port_name_def)
qed

lemma sorted_port_names: "sorted js \<Longrightarrow> sorted (map port_name js)"
  by (induction js) auto

lemma port_names_in_order:
  assumes "distinct (map p_port_id ports)"
  shows "sort (remdups (map (\<lambda>p. port_name (p_port_id p)) ports @ map (\<lambda>p. port_name (p_port_id p)) ports)) =
           map (\<lambda>p. port_name (p_port_id p)) (sort_key p_port_id ports)"
proof (rule sorted_distinct_set_unique)
  have "sorted (map port_name (map p_port_id (sort_key p_port_id ports)))"
    by (intro sorted_port_names sorted_sort_key)
  then show "sorted (map (\<lambda>p. port_name (p_port_id p)) (sort_key p_port_id ports))" by (simp add: comp_def)
  from assms have "distinct (map p_port_id (sort_key p_port_id ports))"
    by (simp add: distinct_map)
  then show "distinct (map (\<lambda>p. port_name (p_port_id p)) (sort_key p_port_id ports))"
    by (simp add: distinct_map inj_on_def)
qed auto

lemma get_or_map:
  assumes "distinct (map k xs)" and "x \<in> set xs"
  shows "get_or fresh (map (\<lambda>x. (k x, f x)) xs) (k x) = f x"
proof -
  have "map_of (map (\<lambda>x. (k x, f x)) xs) (k x) = Some (f x)"
    using assms by (intro map_of_is_SomeI) (simp_all add: comp_def)
  then show ?thesis by (simp add: get_or_def)
qed

lemma port_tables_read:
  assumes "list_all plain_forti_port ports" and "distinct (map p_port_id ports)"
  shows "build_forti_ports m
           (parse_switch_interface_ports (config_table ''switch interface'' (map forti_interface_entry ports)))
           (parse_physical_ports (config_table ''switch physical-port'' (map forti_physical_entry ports)))
         = map as_read (sort_key p_port_id ports)"
proof -
  let ?k = "\<lambda>p. port_name (p_port_id p)"
  let ?body = "\<lambda>p. set_description (p_description p) @ forti_mode_commands p"
  have plain: "plain_forti_port p" if "p \<in> set ports" for p
    using assms(1) that by (simp add: list_all_iff)
  have keys: "visible_word (?k p) \<and> port_edit_key (edit_line (?k p)) = Some (?k p)" if "p \<in> set ports" for p
    using plain_port_key(2,3) [OF plain [OF that]] port_edit_key_line by blast
  have dist: "distinct (map ?k ports)"
    using assms(2) by (simp add: distinct_map inj_on_def)
  have bodies: "list_all setting_line (?body p)" for p
    by (simp add: setting_description mode_settings)
  have entries: "map forti_interface_entry ports = map (\<lambda>p. edit_entry (?k p) (?body p)) ports"
      "map forti_physical_entry ports = map (\<lambda>p. edit_entry (?k p) (physical_lines p)) ports"
    using plain_port_key(1) [OF plain]
    by (simp_all add: forti_interface_entry_def forti_physical_entry_def physical_lines_def)
  have path: "''switch interface'' \<noteq> [] \<and> visible (last ''switch interface'')"
      "''switch physical-port'' \<noteq> [] \<and> visible (last ''switch physical-port'')" by (simp_all add: visible_def)
  let ?ifs = "map (\<lambda>p. (?k p, fold interface_port_line (?body p) default_interface)) ports"
  let ?phs = "map (\<lambda>p. (?k p, fold physical_port_line (physical_lines p) default_physical)) ports"
  have ifs: "parse_switch_interface_ports (config_table ''switch interface'' (map forti_interface_entry ports)) = ?ifs"
    unfolding parse_switch_interface_ports_def entries
    using path(1) by (intro read_entries_table keys port_edit_key_setting port_edit_key_next bodies dist) auto
  have phs: "parse_physical_ports (config_table ''switch physical-port'' (map forti_physical_entry ports)) = ?phs"
    unfolding parse_physical_ports_def entries
    using path(2) by (intro read_entries_table keys port_edit_key_setting port_edit_key_next physical_settings dist) auto
  have "build_forti_port m (?k p) (get_or default_interface ?ifs (?k p)) (get_or default_physical ?phs (?k p)) = as_read p"
    if "p \<in> set ports" for p
  proof -
    from plain [OF that] have "plain_text (p_description p)" by (simp add: plain_forti_port_def)
    note d = description_read [OF this]
    show ?thesis
      unfolding get_or_map [OF dist that] build_forti_port_def plain_port_key(5) [OF plain [OF that]] fold_append
        comp_apply d mode_read physical_read as_read_def Let_def
      by (cases p; cases "p_description p") (simp_all add: default_interface_def opt_or_def)
  qed
  moreover have "filter is_numbered_port (sort (remdups (map fst ?ifs @ map fst ?phs))) = map ?k (sort_key p_port_id ports)"
  proof -
    have "map fst ?ifs @ map fst ?phs = map ?k ports @ map ?k ports" by (simp add: comp_def)
    then have "sort (remdups (map fst ?ifs @ map fst ?phs)) = map ?k (sort_key p_port_id ports)"
      using port_names_in_order [OF assms(2)] by (simp only:)
    moreover have "list_all is_numbered_port (map ?k (sort_key p_port_id ports))"
      using plain_port_key(4) [OF plain] by (simp add: list_all_iff)
    ultimately show ?thesis by (simp only:) (simp only: filter_id_conv list_all_iff)
  qed
  ultimately show ?thesis unfolding ifs phs build_forti_ports_def by (simp cong: map_cong)
qed

lemma as_read_equivalent: "ports_equivalent_for_model (as_read p) p poe \<longleftrightarrow> \<not> p_mac_notify p"
  by (auto simp: as_read_def ports_equivalent_for_model_def inferred_mode_def Let_def)

text \<open>C15: The commands that configure ports say what the configuration says: from the two tables they write
  the driver reads back these ports, in the order of their ids (a native VLAN among the tagged ones is
  not repeated; MAC notification is not written and reads as off). So a port that was configured
  needs no further configuration, unless MAC notification is wanted for it: then it needs it forever.
  Descriptions must not begin or end with a double quote.\<close>

theorem forti_ports_converge:
  assumes "list_all plain_forti_port ports" and "distinct (map p_port_id ports)"
    and reading: "reading = build_forti_ports m
       (parse_switch_interface_ports (config_table ''switch interface'' (map forti_interface_entry ports)))
       (parse_physical_ports (config_table ''switch physical-port'' (map forti_physical_entry ports)))"
  shows "reading = map as_read (sort_key p_port_id ports) \<and>
    (\<forall>p \<in> set ports. port_needs_config poe reading p \<longleftrightarrow> p_mac_notify p)"
proof (intro conjI ballI)
  let ?rs = "map as_read (sort_key p_port_id ports)"
  show r: "reading = ?rs" unfolding reading by (rule port_tables_read [OF assms(1,2)])
  fix p assume p: "p \<in> set ports"
  have ids: "map p_port_id ?rs = map p_port_id (sort_key p_port_id ports)" by (simp add: as_read_def Let_def)
  have "distinct (map p_port_id ?rs)"
    unfolding ids using assms(2) by (simp add: distinct_map)
  moreover have "as_read p \<in> set ?rs" using p by simp
  ultimately have "collect p_port_id ?rs (p_port_id (as_read p)) = Some (as_read p)" by (rule collect_distinct)
  moreover have "p_port_id (as_read p) = p_port_id p" by (simp add: as_read_def Let_def)
  ultimately have "collect p_port_id reading (p_port_id p) = Some (as_read p)" unfolding r by simp
  then show "port_needs_config poe reading p \<longleftrightarrow> p_mac_notify p"
    by (simp add: port_needs_config_def as_read_equivalent)
qed

definition example_uplink :: port where
  "example_uplink =
     (plain_port True ''2'')\<lparr>p_description := Some ''Uplink'', p_vlan := 10, p_tagged_vlans := [10, 20]\<rparr>"

definition example_notifier :: port where
  "example_notifier = (plain_port True ''11'')\<lparr>p_mac_notify := True\<rparr>"

theorem forti_ports_converge_witness:
  "\<not> port_needs_config True
     (build_forti_ports Fortiswitch124F_FPOE
       (parse_switch_interface_ports (config_table ''switch interface''
          (map forti_interface_entry [example_uplink, example_notifier])))
       (parse_physical_ports (config_table ''switch physical-port''
          (map forti_physical_entry [example_uplink, example_notifier])))) example_uplink \<and>
   port_needs_config True
     (build_forti_ports Fortiswitch124F_FPOE
       (parse_switch_interface_ports (config_table ''switch interface''
          (map forti_interface_entry [example_uplink, example_notifier])))
       (parse_physical_ports (config_table ''switch physical-port''
          (map forti_physical_entry [example_uplink, example_notifier])))) example_notifier"
proof -
  note defs = example_uplink_def example_notifier_def plain_port_def
  have 1: "list_all plain_forti_port [example_uplink, example_notifier]"
    by (simp add: plain_forti_port_def plain_text_def no_end_def dquote_def is_ascii_digit_def defs)
  have 2: "distinct (map p_port_id [example_uplink, example_notifier])" by (simp add: defs)
  have 3: "\<not> p_mac_notify example_uplink" "p_mac_notify example_notifier" by (simp_all add: defs)
  note all = conjunct2 [OF forti_ports_converge [OF 1 2 refl, of Fortiswitch124F_FPOE True]]
  have "example_uplink \<in> set [example_uplink, example_notifier]" "example_notifier \<in> set [example_uplink, example_notifier]"
    by simp_all
  with bspec [OF all] 3 show ?thesis by blast
qed

section \<open>Mirrors\<close>

text \<open>Ports by number, at least one source.\<close>

definition port_number :: "string \<Rightarrow> bool" where
  "port_number i \<longleftrightarrow> i \<noteq> [] \<and> list_all is_ascii_digit i"

definition plain_mirror :: "port_mirror \<Rightarrow> bool" where
  "plain_mirror mirror \<longleftrightarrow>
     visible_word (m_session_id mirror) \<and> no_end dquote (m_session_id mirror) \<and>
     port_number (m_destination_port mirror) \<and> m_source_ports mirror \<noteq> [] \<and>
     list_all port_number (m_source_ports mirror)"

lemma port_number_names:
  assumes "port_number i"
  shows "forti_normalize_port_id i = port_name i" "visible_word (port_name i)"
    "denormalize_port_id (port_name i) = i"
  using plain_port_key(1,2,5) [of "plain_port True i"] assms
  by (simp_all add: port_number_def plain_forti_port_def plain_text_def plain_port_def)

lemma sources_read:
  assumes "list_all port_number is" and "is \<noteq> []"
  shows "split_whitespace (join '' '' (map forti_normalize_port_id is)) = map port_name is"
    and "setting_line (''set src-ingress '' @ join '' '' (map forti_normalize_port_id is))"
    and "setting_line (''set src-egress '' @ join '' '' (map forti_normalize_port_id is))"
proof -
  have names: "map forti_normalize_port_id is = map port_name is"
    using assms(1) port_number_names(1) by (simp add: list_all_iff)
  have words: "visible_word w" if "w \<in> set (map port_name is)" for w
    using that assms(1) port_number_names(2) by (auto simp: list_all_iff)
  show "split_whitespace (join '' '' (map forti_normalize_port_id is)) = map port_name is"
    unfolding names by (rule split_whitespace_words) (rule words)
  have j: "join '' '' (map port_name is) \<noteq> [] \<and> visible (last (join '' '' (map port_name is)))"
    using assms(2) words by (intro visible_last_join) (simp, blast)
  show "setting_line (''set src-ingress '' @ join '' '' (map forti_normalize_port_id is))"
    "setting_line (''set src-egress '' @ join '' '' (map forti_normalize_port_id is))"
    unfolding names
    using setting_lineI2 [of "join '' '' (map port_name is)" "''src-ingress ''"]
      setting_lineI2 [of "join '' '' (map port_name is)" "''src-egress ''"] j
    by (simp_all only: append.simps simp_thms)
qed

definition mirror_body :: "port_mirror \<Rightarrow> string list" where
  "mirror_body mirror =
     (let sources = join '' '' (map forti_normalize_port_id (m_source_ports mirror)) in
      [''set status active'', ''set dst '' @ forti_normalize_port_id (m_destination_port mirror)]
      @ (case m_direction mirror of
           Rx \<Rightarrow> [''set src-ingress '' @ sources]
         | Tx \<Rightarrow> [''set src-egress '' @ sources]
         | Both \<Rightarrow> [''set src-ingress '' @ sources, ''set src-egress '' @ sources]))"

lemma mirror_settings:
  assumes "plain_mirror mirror"
  shows "list_all setting_line (mirror_body mirror)"
proof -
  from assms have p: "port_number (m_destination_port mirror)" "list_all port_number (m_source_ports mirror)"
      "m_source_ports mirror \<noteq> []" by (simp_all add: plain_mirror_def)
  have "setting_line (''set '' @ ''dst '' @ port_name (m_destination_port mirror))"
    using port_number_names(2) [OF p(1)]
    by (intro setting_lineI) (auto simp: visible_word_def list_all_iff)
  moreover have "setting_line ''set status active''"
    by (simp add: setting_line_def table_line_def visible_def starts_with_def)
  ultimately show ?thesis
    using sources_read(2,3) [OF p(2,3)] port_number_names(1) [OF p(1)]
    by (simp add: mirror_body_def Let_def split: mirror_direction.split)
qed

lemma fold_mirror_entry:
  assumes "plain_mirror mirror"
  shows "fold mirror_line (forti_mirror_entry mirror) (mirror_start\<lparr>mr_mirrors := ms\<rparr>) =
           mirror_start\<lparr>mr_mirrors := ms @ [mirror]\<rparr>"
proof -
  from assms have p: "port_number (m_destination_port mirror)" "list_all port_number (m_source_ports mirror)"
      "m_source_ports mirror \<noteq> []" by (simp_all add: plain_mirror_def)
  have key: "port_edit_key (edit_line (m_session_id mirror)) = Some (m_session_id mirror)"
    using assms by (intro port_edit_key_line) (simp_all add: plain_mirror_def)
  have "denormalize_port_id (port_name i) = i" if "i \<in> set (m_source_ports mirror)" for i
    using that p(2) port_number_names(3) by (auto simp: list_all_iff)
  then have denorm: "map denormalize_port_id (map port_name (m_source_ports mirror)) = m_source_ports mirror"
    by (simp add: map_idI)
  have ne: "map port_name (m_source_ports mirror) \<noteq> []" using p(3) by simp
  let ?open = "mirror_start\<lparr>mr_session_id := Some (m_session_id mirror), mr_mirrors := ms\<rparr>"
  have 1: "mirror_line (edit_line (m_session_id mirror)) (mirror_start\<lparr>mr_mirrors := ms\<rparr>) = ?open"
    by (simp add: mirror_line_def key flush_mirror_def mirror_start_def)
  have 2: "mirror_line ''set status active'' ?open = ?open"
    by (simp add: mirror_line_def port_edit_key_def strip_prefix_def)
  have 3: "mirror_line (''set dst '' @ forti_normalize_port_id (m_destination_port mirror)) ?open =
      ?open\<lparr>mr_dst := Some (port_name (m_destination_port mirror))\<rparr>"
    using visible_word_trim [OF port_number_names(2) [OF p(1)]]
    by (simp add: mirror_line_def port_edit_key_def strip_prefix_def port_number_names(1) [OF p(1)] mirror_start_def)
  have 4: "mirror_line (''set src-ingress '' @ join '' '' (map forti_normalize_port_id (m_source_ports mirror))) s =
      s\<lparr>mr_ingress := map port_name (m_source_ports mirror)\<rparr>"
    "mirror_line (''set src-egress '' @ join '' '' (map forti_normalize_port_id (m_source_ports mirror))) s =
      s\<lparr>mr_egress := map port_name (m_source_ports mirror)\<rparr>" if "mr_session_id s \<noteq> None" for s
    using that sources_read(1) [OF p(2,3)] by (auto simp: mirror_line_def port_edit_key_def strip_prefix_def)
  have 5: "mirror_line ''next'' s = flush_mirror s" if "mr_session_id s \<noteq> None" for s
    using that by (auto simp: mirror_line_def port_edit_key_def strip_prefix_def)
  show ?thesis
    unfolding forti_mirror_entry_def edit_entry_def Let_def
    apply (cases "m_direction mirror")
      apply (simp_all only: mirror_direction.case fold.simps fold_append comp_apply id_apply 1 2 3)
      apply (simp_all add: 4 [unfolded append.simps] 5 mirror_start_def flush_mirror_def ne denorm [unfolded map_map] port_number_names(3) [OF p(1)] p(3))
    done
qed

text \<open>C16: Port mirrors survive the round trip: from the table that the commands for a list of mirrors write, the
  driver reads back the same mirrors, with their session, sources, destination and direction.\<close>

theorem forti_mirrors_roundtrip:
  assumes "list_all plain_mirror mirrors"
  shows "parse_switch_mirrors (forti_mirror_commands mirrors) = mirrors"
proof -
  have entry: "forti_mirror_entry mirror = edit_entry (m_session_id mirror) (mirror_body mirror)" for mirror
    by (simp add: forti_mirror_entry_def mirror_body_def Let_def)
  have lines: "list_all table_line (concat (map forti_mirror_entry mirrors))"
    using assms mirror_settings setting_line_table table_line_edit table_line_next
    by (auto simp: list_all_iff entry edit_entry_def plain_mirror_def)
  have "fold mirror_line (concat (map forti_mirror_entry mirrors)) (mirror_start\<lparr>mr_mirrors := ms\<rparr>) =
      mirror_start\<lparr>mr_mirrors := ms @ mirrors\<rparr>" for ms
    using assms
  proof (induction mirrors arbitrary: ms)
    case (Cons mirror mirrors)
    then show ?case using fold_mirror_entry [of mirror ms] by simp
  qed simp
  from this [of "[]"] have f: "fold mirror_line (concat (map forti_mirror_entry mirrors)) mirror_start =
      mirror_start\<lparr>mr_mirrors := mirrors\<rparr>" by (simp add: mirror_start_def)
  have path: "''switch mirror'' \<noteq> []" "visible (last ''switch mirror'')" by (simp_all add: visible_def)
  show ?thesis
    unfolding parse_switch_mirrors_def forti_mirror_commands_def walk_config_table [OF lines path] f
    by (simp add: flush_mirror_def mirror_start_def)
qed

theorem forti_mirrors_roundtrip_witness:
  "parse_switch_mirrors (forti_mirror_commands
     [\<lparr>m_session_id = ''tap'', m_source_ports = [''3'', ''4''], m_destination_port = ''24'', m_direction = Tx\<rparr>]) =
     [\<lparr>m_session_id = ''tap'', m_source_ports = [''3'', ''4''], m_destination_port = ''24'', m_direction = Tx\<rparr>]"
  by (rule forti_mirrors_roundtrip)
    (simp add: plain_mirror_def port_number_def visible_word_def visible_def no_end_def dquote_def is_ascii_digit_def)

end
