(* ===== verification/Fortiswitch_Snmp.thy ===== *)
theory Fortiswitch_Snmp
  imports Fortiswitch Fortiswitch_Roundtrip
begin

text \<open>
  SNMP on a FortiSwitch: the communities that are written are read back with their managers, and the
  changes use indices that no other community has.
\<close>

section \<open>Reading a written community\<close>

text \<open>A reader that stands between two entries of the table.\<close>

definition between_entries :: "community_reader \<Rightarrow> bool" where
  "between_entries s \<longleftrightarrow>
     cm_in_block s \<and> cm_depth s = 1 \<and> \<not> cm_in_hosts s \<and> cm_current_host s = None"

definition inside_entry :: "community_reader \<Rightarrow> bool" where
  "inside_entry s \<longleftrightarrow> between_entries s \<and> cm_in_community s"

lemma community_step_direct:
  assumes "table_line l" and "cm_in_block s" and "\<not> cm_in_hosts s" and "cm_depth s = 1"
  shows "community_step l s = community_line l s"
proof -
  from assms(1) have "trim l = l" "\<not> starts_with ''config '' l" "l \<noteq> ''end''"
    by (simp_all add: table_line_trim table_line_def)
  moreover from this have "l \<noteq> ''config system snmp community''" "l \<noteq> ''config hosts''"
    by (auto simp: starts_with_def)
  ultimately show ?thesis using assms(2-4) by (simp add: community_step_def)
qed

lemma community_step_host:
  assumes "table_line l" and "cm_in_block s" and "cm_in_hosts s"
  shows "community_step l s = host_line l s"
proof -
  from assms(1) have "trim l = l" "\<not> starts_with ''config '' l" "l \<noteq> ''end''"
    by (simp_all add: table_line_trim table_line_def)
  moreover from this have "l \<noteq> ''config system snmp community''" "l \<noteq> ''config hosts''"
    by (auto simp: starts_with_def)
  ultimately show ?thesis using assms(2,3) by (simp add: community_step_def)
qed

definition host_text :: "string \<times> string \<Rightarrow> string" where
  "host_text h = fst h @ '' '' @ snd h"

definition plain_hosts :: "(string \<times> string) list \<Rightarrow> bool" where
  "plain_hosts hosts \<longleftrightarrow> list_all (\<lambda>h. visible_word (fst h) \<and> visible_word (snd h)) hosts"

lemma visible_word_show_nat: "visible_word (show_nat n)"
  by (simp add: visible_word_def list_all_visible_show_nat)

lemma host_entry_read:
  assumes "visible_word (fst h)" and "visible_word (snd h)"
    and "cm_in_block s" and "cm_in_hosts s" and "cm_current_host s = None"
  shows "fold community_step (host_entry (n, h)) s = s\<lparr>cm_hosts := cm_hosts s @ [host_text h]\<rparr>"
proof -
  let ?set = "''set ip '' @ host_text h"
  have vis: "host_text h \<noteq> []" "visible (hd (host_text h))" "visible (last (host_text h))"
    using assms(1,2) by (auto simp: host_text_def visible_word_def list_all_iff)
  have lines: "table_line (edit_line (show_nat (n + 1)))" "table_line ?set" "table_line ''next''"
    using vis setting_line_table [OF setting_lineI2, of "host_text h" "''ip ''"]
    by (simp_all add: table_line_edit visible_word_show_nat table_line_next)
  have "trim (host_text h) = host_text h" using vis by (rule trim_visible)
  then have 2: "community_step ?set t = t\<lparr>cm_current_host := Some (host_text h)\<rparr>"
    if "cm_in_block t" "cm_in_hosts t" for t
    using community_step_host [OF lines(2) that] by (simp add: host_line_def strip_prefix_def)
  have 1: "community_step (edit_line (show_nat (n + 1))) s = s"
    using community_step_host [OF lines(1) assms(3,4)]
    by (simp add: host_line_def strip_prefix_def edit_line_def)
  have 3: "community_step ''next'' t = t\<lparr>cm_current_host := None, cm_hosts := cm_hosts t @ [x]\<rparr>"
    if "cm_in_block t" "cm_in_hosts t" "cm_current_host t = Some x" for t x
    using community_step_host [OF lines(3) that(1,2)] that(3) by (simp add: host_line_def strip_prefix_def)
  have e: "host_entry (n, h) = [edit_line (show_nat (n + 1)), ?set, ''next'']"
    by (cases h) (simp add: host_entry_def edit_entry_def host_text_def)
  show ?thesis
    unfolding e by (simp only: fold.simps comp_apply id_apply 1 2 [OF assms(3,4)])
      (use assms(3-5) in \<open>simp add: 3 [where x = "host_text h"]\<close>)
qed

lemma hosts_read:
  assumes "plain_hosts hosts" and "cm_in_block s" and "cm_in_hosts s" and "cm_current_host s = None"
  shows "fold community_step (concat (map host_entry (enumerate n hosts))) s =
           s\<lparr>cm_hosts := cm_hosts s @ map host_text hosts\<rparr>"
  using assms
proof (induction hosts arbitrary: n s)
  case (Cons h hosts)
  then have "fold community_step (host_entry (n, h)) s = s\<lparr>cm_hosts := cm_hosts s @ [host_text h]\<rparr>"
    by (intro host_entry_read) (simp_all add: plain_hosts_def)
  with Cons show ?case by (simp add: plain_hosts_def)
qed simp

text \<open>The nested table of hosts as a whole.\<close>

lemma hosts_table_read:
  assumes "plain_hosts hosts" and "between_entries s"
  shows "fold community_step (config_table ''hosts'' (map host_entry (enumerate n hosts))) s =
           s\<lparr>cm_hosts := cm_hosts s @ map host_text hosts\<rparr>"
proof -
  have t: "trim ''config hosts'' = ''config hosts''" "trim ''end'' = ''end''" by (simp_all add: trim_eval)
  have 1: "community_step ''config hosts'' s = s\<lparr>cm_in_hosts := True, cm_depth := 2\<rparr>"
    using assms(2) by (simp add: community_step_def t between_entries_def)
  have 2: "community_step ''end'' u = u\<lparr>cm_depth := 1, cm_in_hosts := False\<rparr>"
    if "cm_in_block u" "cm_in_hosts u" "cm_depth u = 2" for u
    using that by (simp add: community_step_def t starts_with_def)
  have e: "config_line ''hosts'' = ''config hosts''" by (simp add: config_line_def)
  have 3: "fold community_step (concat (map host_entry (enumerate n hosts))) (s\<lparr>cm_in_hosts := True, cm_depth := 2\<rparr>) =
      s\<lparr>cm_in_hosts := True, cm_depth := 2, cm_hosts := cm_hosts s @ map host_text hosts\<rparr>"
    using hosts_read [OF assms(1), of "s\<lparr>cm_in_hosts := True, cm_depth := 2\<rparr>" n] assms(2)
    by (simp add: between_entries_def)
  show ?thesis
    unfolding config_table_def e
    by (simp only: fold.simps fold_append comp_apply id_apply 1 3)
      (use assms(2) in \<open>simp add: 2 between_entries_def\<close>)
qed

text \<open>An entry.\<close>

definition managers :: "(string \<times> string) list \<Rightarrow> allowed_host list" where
  "managers hosts = List.map_filter manager_of_host (map host_text hosts)"

lemma query_settings_read:
  assumes "no_end dquote name" and "inside_entry s"
  shows "fold community_step (query_settings name) s = s\<lparr>cm_name := Some name\<rparr>"
proof -
  have q: "quoted name \<noteq> []" "visible (last (quoted name))" by (simp_all add: quoted_def dquote_visible)
  have lines: "table_line (''set name '' @ quoted name)" "table_line ''set status enable''"
      "table_line ''set query-v1-status enable''" "table_line ''set query-v2c-status enable''"
    using setting_line_table [OF setting_lineI2 [OF q, of "''name ''"]]
    by (simp_all add: table_line_def visible_def starts_with_def)
  have step: "community_step l t = community_line l t" if "table_line l" "inside_entry t" for l t
    using that by (intro community_step_direct) (simp_all add: inside_entry_def between_entries_def)
  have 1: "community_step (''set name '' @ quoted name) s = s\<lparr>cm_name := Some name\<rparr>"
    using step [OF lines(1) assms(2)] assms unquote_quoted
    by (simp add: community_line_def strip_prefix_def starts_with_def inside_entry_def)
  have inside: "inside_entry (s\<lparr>cm_name := Some name\<rparr>)"
    using assms(2) by (simp add: inside_entry_def between_entries_def)
  have 2: "community_step l (s\<lparr>cm_name := Some name\<rparr>) = s\<lparr>cm_name := Some name\<rparr>"
    if "l \<in> {''set status enable'', ''set query-v1-status enable'', ''set query-v2c-status enable''}" for l
    using that lines(2-4) step [OF _ inside] assms(2)
    by (auto simp: community_line_def strip_prefix_def starts_with_def inside_entry_def)
  show ?thesis
    unfolding query_settings_def by (simp only: fold.simps comp_apply id_apply 1 2 insert_iff simp_thms)
qed

lemma trap_status_read:
  assumes "inside_entry s"
  shows "fold community_step (set_trap_status on) s =
           (if on then s else s\<lparr>cm_trap_v1_disabled := True, cm_trap_v2c_disabled := True\<rparr>)"
proof -
  have lines: "table_line ''set trap-v1-status enable''" "table_line ''set trap-v2c-status enable''"
      "table_line ''set trap-v1-status disable''" "table_line ''set trap-v2c-status disable''"
    by (simp_all add: table_line_def visible_def starts_with_def)
  have step: "community_step l t = community_line l t" if "table_line l" "inside_entry t" for l t
    using that by (intro community_step_direct) (simp_all add: inside_entry_def between_entries_def)
  have inside: "inside_entry (s\<lparr>cm_trap_v1_disabled := True\<rparr>)"
    using assms by (simp add: inside_entry_def between_entries_def)
  show ?thesis
    using assms step [OF lines(1) assms] step [OF lines(2) assms] step [OF lines(3) assms] step [OF lines(4) inside]
    by (cases on) (simp_all add: set_trap_status_def community_line_def strip_prefix_def starts_with_def inside_entry_def)
qed

lemma community_entry_read:
  assumes "between_entries s" and "no_end dquote name" and "plain_hosts hosts"
  shows "\<exists>t. fold community_step (community_entry index name hosts) s = t \<and> between_entries t \<and>
    cm_communities t = cm_communities s @ [(snmp_community_new name Unrestricted)\<lparr>c_allowed_hosts := managers hosts\<rparr>] \<and>
    cm_trap_receivers t = cm_trap_receivers s \<and> cm_enabled_traps t = cm_enabled_traps s"
proof -
  let ?s1 = "s\<lparr>cm_in_community := True, cm_name := None, cm_hosts := [], cm_trap_v1_disabled := False,
             cm_trap_v2c_disabled := False\<rparr>"
  let ?s2 = "?s1\<lparr>cm_name := Some name\<rparr>"
  let ?s3 = "if hosts = [] then ?s2 else ?s2\<lparr>cm_trap_v1_disabled := True, cm_trap_v2c_disabled := True\<rparr>"
  let ?s4 = "?s3\<lparr>cm_hosts := map host_text hosts\<rparr>"
  have step: "community_step l t = community_line l t" if "table_line l" "between_entries t" for l t
    using that by (intro community_step_direct) (simp_all add: between_entries_def)
  have 1: "community_step (edit_line (show_nat index)) s = ?s1"
    using step [OF table_line_edit [OF visible_word_show_nat] assms(1)]
    by (simp add: community_line_def edit_line_def starts_with_def)
  have b: "inside_entry ?s1" "inside_entry ?s2" "between_entries ?s3" "between_entries ?s4" "inside_entry ?s4"
    using assms(1) by (simp_all add: inside_entry_def between_entries_def)
  have 2: "fold community_step (query_settings name) ?s1 = ?s2"
    by (rule query_settings_read [OF assms(2) b(1)])
  have 3: "fold community_step (set_trap_status (hosts = [])) ?s2 = ?s3"
    using trap_status_read [OF b(2)] by simp
  have 4: "fold community_step (if hosts \<noteq> [] then config_table ''hosts'' (map host_entry (enumerate 0 hosts)) else []) ?s3 = ?s4"
    using hosts_table_read [OF assms(3) b(3), of 0] by (cases "hosts = []") simp_all
  have 5: "community_step ''next'' ?s4 = finish_community ?s4"
    using step [OF table_line_next b(4)] by (simp add: community_line_def strip_prefix_def starts_with_def)
  have f: "fold community_step (community_entry index name hosts) s = finish_community ?s4"
    unfolding community_entry_def edit_entry_def
    by (simp only: fold.simps fold_append comp_apply id_apply 1 2 3 4 5)
  have plain: "snmp_community_new name Unrestricted = (snmp_community_new name Unrestricted)\<lparr>c_allowed_hosts := []\<rparr>"
    by (simp add: snmp_community_new_def)
  show ?thesis
    unfolding f using assms(1) plain
    by (simp add: finish_community_def managers_def between_entries_def List.map_filter_def)
qed

section \<open>The table\<close>

text \<open>Managers that FortiOS can express, in the form in which it prints them.\<close>

definition canonical_host :: "allowed_host \<Rightarrow> bool" where
  "canonical_host h \<longleftrightarrow>
     (case host_to_fortios h of Inr (a, nm) \<Rightarrow> host_from_fortios a nm = Some h | Inl e \<Rightarrow> False)"

definition canonical_community :: "snmp_community \<Rightarrow> bool" where
  "canonical_community c \<longleftrightarrow> no_end dquote (c_name c) \<and> list_all canonical_host (c_allowed_hosts c)"

definition community_table ::
  "(nat \<times> snmp_community) list \<Rightarrow> vendor_error + string list" where
  "community_table ics =
     and_then (traverse (\<lambda>(i, c). snmp_community_block i c) ics)
       (\<lambda>blocks. Inr (config_table ''system snmp community'' blocks))"

lemma visible_word_ipv4: "visible_word (show_ipv4 w)"
  by (simp add: show_ipv4_def Let_def visible_word_def list_all_visible_show_nat visible_def)

lemma canonical_hosts_read:
  assumes "list_all canonical_host hs"
  shows "\<exists>hosts. traverse fortios_host hs = Inr hosts \<and>
           plain_hosts hosts \<and> managers hosts = hs"
  using assms
proof (induction hs)
  case Nil
  show ?case by (simp add: plain_hosts_def managers_def List.map_filter_def)
next
  case (Cons h hs)
  then have "list_all canonical_host hs" by simp
  with Cons.IH obtain hosts where IH: "traverse fortios_host hs = Inr hosts"
      "plain_hosts hosts" "managers hosts = hs" by blast
  from Cons.prems obtain a nm where h: "host_to_fortios h = Inr (a, nm)" "host_from_fortios a nm = Some h"
    by (auto simp: canonical_host_def split: sum.splits prod.splits)
  then have vis: "visible_word a" "visible_word nm"
    using host_to_fortios_InrD [OF h(1)] visible_word_ipv4 by auto
  then have "split_whitespace (host_text (a, nm)) = [a, nm]"
    using split_whitespace_two [OF vis] by (simp add: host_text_def)
  then have "manager_of_host (host_text (a, nm)) = Some h"
    by (simp add: manager_of_host_def h(2))
  with IH(3) have m: "managers ((a, nm) # hosts) = h # hs"
    by (simp add: managers_def List.map_filter_def)
  have "fortios_host h = Inr (a, nm)" by (simp add: fortios_host_def map_err_def h(1))
  with IH(1) have t: "traverse fortios_host (h # hs) = Inr ((a, nm) # hosts)" by simp
  have "plain_hosts ((a, nm) # hosts)" using IH(2) vis by (simp add: plain_hosts_def)
  with t m show ?case by blast
qed

lemma community_block_read:
  assumes "canonical_community c"
  shows "\<exists>hosts. snmp_community_block i c = Inr (community_entry i (c_name c) hosts) \<and>
           plain_hosts hosts \<and> managers hosts = c_allowed_hosts c"
  using canonical_hosts_read [of "c_allowed_hosts c"] assms
  by (auto simp: snmp_community_block_def community_hosts_def canonical_community_def)

definition as_read_community :: "snmp_community \<Rightarrow> snmp_community" where
  "as_read_community c = (snmp_community_new (c_name c) Unrestricted)\<lparr>c_allowed_hosts := c_allowed_hosts c\<rparr>"

lemma community_entries_read:
  assumes "list_all canonical_community (map snd ics)" and "between_entries s"
  shows "\<exists>bs t. traverse (\<lambda>(i, c). snmp_community_block i c) ics = Inr bs \<and>
    fold community_step (concat bs) s = t \<and> between_entries t \<and>
    cm_communities t = cm_communities s @ map (as_read_community \<circ> snd) ics \<and>
    cm_trap_receivers t = cm_trap_receivers s \<and> cm_enabled_traps t = cm_enabled_traps s"
  using assms
proof (induction ics arbitrary: s)
  case (Cons x ics)
  obtain i c where x: "x = (i, c)" by fastforce
  with Cons.prems have c: "canonical_community c" "no_end dquote (c_name c)" by (simp_all add: canonical_community_def)
  from community_block_read [OF c(1), of i] obtain hosts where h:
    "snmp_community_block i c = Inr (community_entry i (c_name c) hosts)" "plain_hosts hosts"
    "managers hosts = c_allowed_hosts c" by blast
  from community_entry_read [OF Cons.prems(2) c(2) h(2), of i] obtain u where
    u: "fold community_step (community_entry i (c_name c) hosts) s = u" "between_entries u"
      "cm_communities u = cm_communities s @ [as_read_community c]"
      "cm_trap_receivers u = cm_trap_receivers s" "cm_enabled_traps u = cm_enabled_traps s"
    by (auto simp: as_read_community_def h(3))
  from Cons.IH [OF _ u(2)] Cons.prems obtain bs t where
    "traverse (\<lambda>(i, c). snmp_community_block i c) ics = Inr bs" "fold community_step (concat bs) u = t"
    "between_entries t" "cm_communities t = cm_communities u @ map (as_read_community \<circ> snd) ics"
    "cm_trap_receivers t = cm_trap_receivers u" "cm_enabled_traps t = cm_enabled_traps u" by auto
  with x h(1) u show ?case by simp
qed simp

lemma community_table_read:
  assumes "list_all canonical_community (map snd ics)"
  shows "\<exists>ls. community_table ics = Inr ls \<and>
    parse_snmp_community ls =
      (if ics = [] then None
       else Some \<lparr>sn_communities = map (as_read_community \<circ> snd) ics, sn_trap_receivers = [],
                  sn_enabled_traps = [], sn_reads = None\<rparr>)"
proof -
  have t: "trim ''config system snmp community'' = ''config system snmp community''" "trim ''end'' = ''end''"
    by (simp_all add: trim_eval)
  let ?s = "community_start\<lparr>cm_in_block := True, cm_depth := 1\<rparr>"
  have 1: "community_step (config_line ''system snmp community'') community_start = ?s"
    by (simp add: community_step_def t config_line_def)
  have "between_entries ?s" by (simp add: between_entries_def community_start_def)
  from community_entries_read [OF assms this] obtain bs u where bs:
    "traverse (\<lambda>(i, c). snmp_community_block i c) ics = Inr bs" and u:
    "fold community_step (concat bs) ?s = u" "between_entries u"
    "cm_communities u = map (as_read_community \<circ> snd) ics" "cm_trap_receivers u = []" "cm_enabled_traps u = []"
    by (auto simp: community_start_def)
  have 2: "community_step ''end'' u = u\<lparr>cm_depth := 0, cm_in_block := False\<rparr>"
    using u(2) by (simp add: community_step_def t starts_with_def between_entries_def)
  have "fold community_step (config_table ''system snmp community'' bs) community_start =
      u\<lparr>cm_depth := 0, cm_in_block := False\<rparr>"
    unfolding config_table_def by (simp only: fold.simps fold_append comp_apply id_apply 1 u(1) 2)
  with u bs show ?thesis by (auto simp: community_table_def parse_snmp_community_def)
qed

lemma adopted_read:
  assumes "distinct (map c_name cs)"
  shows "map (\<lambda>c. case find (\<lambda>d. c_name d = c_name c) cs of
              Some w \<Rightarrow> c\<lparr>c_access := c_access w\<rparr> | None \<Rightarrow> c) (map as_read_community cs)
         = map (\<lambda>c. (as_read_community c)\<lparr>c_access := c_access c\<rparr>) cs"
proof -
  have "find (\<lambda>d. c_name d = c_name c) ds = Some c" if "distinct (map c_name ds)" "c \<in> set ds" for c ds
    using that
  proof (induction ds)
    case (Cons d ds)
    then show ?case by (cases "c = d") (auto simp: rev_image_eqI)
  qed simp
  with assms have "find (\<lambda>d. c_name d = c_name c) cs = Some c" if "c \<in> set cs" for c
    using that by blast
  then show ?thesis by (simp add: as_read_community_def snmp_community_new_def)
qed

lemma adopted_in_sync:
  assumes "distinct (map c_name cs)"
  shows "tables_in_sync c_name same_community (\<lambda>_. False)
           (map (\<lambda>c. (as_read_community c)\<lparr>c_access := c_access c\<rparr>) cs) cs"
  unfolding tables_in_sync_def
proof
  let ?read = "map (\<lambda>c. (as_read_community c)\<lparr>c_access := c_access c\<rparr>) cs"
  fix k assume "k \<in> c_name ` set ?read \<union> c_name ` set cs"
  then obtain c where c: "c \<in> set cs" "k = c_name c"
    by (auto simp: as_read_community_def snmp_community_new_def)
  have d: "distinct (map c_name ?read)"
    using assms by (simp add: as_read_community_def snmp_community_new_def comp_def)
  have "collect c_name ?read (c_name ((as_read_community c)\<lparr>c_access := c_access c\<rparr>)) =
      Some ((as_read_community c)\<lparr>c_access := c_access c\<rparr>)"
    by (rule collect_distinct [OF d]) (use c(1) in auto)
  then have 1: "collect c_name ?read k = Some ((as_read_community c)\<lparr>c_access := c_access c\<rparr>)"
    by (simp add: c(2) as_read_community_def snmp_community_new_def)
  have 2: "collect c_name cs k = Some c"
    unfolding c(2) by (rule collect_distinct [OF assms c(1)])
  show "case (collect c_name ?read k, collect c_name cs k) of
      (Some c, Some d) \<Rightarrow> same_community c d | (Some c, None) \<Rightarrow> False | _ \<Rightarrow> False"
    unfolding 1 2 by (simp add: same_community_def same_hosts_def as_read_community_def)
qed


definition example_communities :: "snmp_config" where
  "example_communities =
     \<lparr>sn_communities =
        [(snmp_community_new ''public'' Operator)\<lparr>c_allowed_hosts := [Network (show_ipv4 3221225984 @ CHR ''/'' # show_nat 24)]\<rparr>,
         snmp_community_new ''probe'' Manager],
      sn_trap_receivers = [], sn_enabled_traps = [], sn_reads = None\<rparr>"

lemma canonical_network:
  "p < 32 \<Longrightarrow> canonical_host (Network (show_ipv4 w @ CHR ''/'' # show_nat p))"
  "canonical_host (Network (show_ipv4 w))"
  using host_from_fortios_show [of 32 w] host_to_fortios_show(2) [of 32 w]
  by (simp_all add: canonical_host_def host_to_fortios_show(1) host_from_fortios_show)

lemma canonical_examples: "list_all canonical_community (sn_communities example_communities)"
  by (simp add: example_communities_def canonical_community_def snmp_community_new_def canonical_network
      no_end_def dquote_def)


section \<open>The commands of a difference\<close>

text \<open>The communities that a difference adds go to free indices: pairwise different, 100 or more, and none
  that another community has.\<close>

theorem forti_new_indices_free:
  assumes "add_communities cs occupied = Inr (occupied', cmds)"
  shows "\<exists>is blocks. length is = length cs \<and> distinct is \<and> (\<forall>i \<in> set is. 100 \<le> i \<and> i \<notin> set occupied) \<and>
    set occupied' = set occupied \<union> set is \<and>
    traverse (\<lambda>(i, c). snmp_community_block i c) (zip is cs) = Inr blocks \<and> cmds = concat blocks"
  using assms
proof (induction cs arbitrary: occupied cmds)
  case (Cons c cs)
  let ?i = "free_snmp_index occupied"
  from Cons.prems obtain block cmds' where b: "snmp_community_block ?i c = Inr block"
    "add_communities cs (List.insert ?i occupied) = Inr (occupied', cmds')" "cmds = block @ cmds'"
    by (auto simp: Let_def res_simps)
  from Cons.IH [OF b(2)] obtain js blocks where js: "length js = length cs" "distinct js"
    "\<forall>j \<in> set js. 100 \<le> j \<and> j \<notin> set (List.insert ?i occupied)"
    "set occupied' = set (List.insert ?i occupied) \<union> set js"
    "traverse (\<lambda>(i, c). snmp_community_block i c) (zip js cs) = Inr blocks" "cmds' = concat blocks" by blast
  have "?i \<notin> set occupied" "100 \<le> ?i" by (simp_all add: free_snmp_index_free free_snmp_index_bounds)
  with js b show ?case
    by (intro exI [of _ "?i # js"] exI [of _ "block # blocks"]) auto
qed simp

theorem forti_new_indices_free_witness:
  "\<exists>i j. i \<noteq> j \<and> 100 \<le> i \<and> 100 \<le> j \<and> {i, j} \<inter> {1, 100, 102 :: nat} = {}"
proof -
  have "\<exists>occupied' cmds. add_communities [snmp_community_new ''a'' Operator, snmp_community_new ''b'' Operator] [1, 100, 102]
      = Inr (occupied', cmds)"
    by (simp add: Let_def snmp_community_block_def community_hosts_def snmp_community_new_def)
  then obtain occupied' cmds where
    "add_communities [snmp_community_new ''a'' Operator, snmp_community_new ''b'' Operator] [1, 100, 102]
      = Inr (occupied', cmds)" by blast
  from forti_new_indices_free [OF this] obtain ks where
    "length ks = length [snmp_community_new ''a'' Operator, snmp_community_new ''b'' Operator]"
    "distinct ks" "\<forall>i \<in> set ks. 100 \<le> i \<and> i \<notin> set [1, 100, 102 :: nat]" by blast
  moreover from this obtain i j where "ks = [i, j]" by (auto simp: length_Suc_conv)
  ultimately show ?thesis by (intro exI [of _ i] exI [of _ j]) simp
qed

text \<open>A community can be written at one index if it can be written at another.\<close>

lemma community_block_total:
  "\<exists>block. snmp_community_block i c = Inr block" if "snmp_community_block j c = Inr b"
  using that by (auto simp: snmp_community_block_def res_simps)

lemma add_communities_total:
  "\<forall>c \<in> set cs. \<exists>b. snmp_community_block 0 c = Inr b \<Longrightarrow> \<exists>r. add_communities cs occupied = Inr r"
proof (induction cs arbitrary: occupied)
  case (Cons c cs)
  let ?i = "free_snmp_index occupied"
  from Cons.prems obtain b where "snmp_community_block ?i c = Inr b"
    using community_block_total by (metis list.set_intros(1))
  moreover obtain r where "add_communities cs (List.insert ?i occupied) = Inr r" using Cons by fastforce
  ultimately show ?case by (cases r) (simp add: Let_def)
qed simp

lemma update_communities_total:
  "\<forall>c \<in> set cs. \<exists>b. snmp_community_block 0 c = Inr b \<Longrightarrow> \<exists>r. update_communities indices cs occupied = Inr r"
proof (induction cs arbitrary: occupied)
  case (Cons c cs)
  then have "\<exists>b. snmp_community_block i c = Inr b" for i
    using community_block_total by (metis list.set_intros(1))
  then obtain b where b: "\<And>i. snmp_community_block i c = Inr (b i)" by metis
  from Cons have "\<exists>r. update_communities indices cs oc = Inr r" for oc by simp
  then obtain r where r: "\<And>oc. update_communities indices cs oc = Inr (r oc)" by metis
  show ?case
    by (cases "map_of indices (c_name c)") (simp_all add: Let_def b r split: prod.split)
qed simp

lemma list_all2_left: "list_all2 P xs ys \<Longrightarrow> x \<in> set xs \<Longrightarrow> \<exists>y \<in> set ys. P x y"
  by (induction xs ys rule: list_all2_induct) auto

text \<open>C18: A configuration that passes the check of the FortiSwitch limits (at most three communities, managers
  with IPv4 addresses) never fails to be turned into commands: whatever SNMP setup the switch has, the
  commands for the difference exist.\<close>

theorem forti_checked_snmp_has_commands:
  assumes "check_snmp_limits desired = Inr ()" and "hash_iter_ok it"
  shows "\<exists>cmds. forti_snmp_diff_commands indices sysinfo access (compute_snmp_diff it current desired) = Inr cmds"
proof -
  let ?sd = "compute_snmp_diff it current desired"
  from assms(1) have ok: "\<exists>b. snmp_community_block 0 c = Inr b" if "c \<in> set (sn_communities desired)" for c
  proof -
    from assms(1) obtain bs where "list_all2 (\<lambda>c b. snmp_community_block 0 c = Inr b) (sn_communities desired) bs"
      by (auto simp: check_snmp_limits_def res_simps traverse_Inr_iff)
    with that show ?thesis by (auto dest: list_all2_left)
  qed
  have ch: "community_changes it (sn_communities current) (sn_communities desired) =
      (communities_to_add ?sd, communities_to_remove ?sd, communities_to_update ?sd)"
    by (simp only: compute_snmp_diff_tables)
  have "set (communities_to_add ?sd) \<union> set (communities_to_update ?sd) \<subseteq> set (sn_communities desired)"
    using community_table.adds [OF assms(2) ch] community_table.updates [OF assms(2) ch]
    by (auto dest: collect_SomeD)
  with ok have adds: "\<exists>r. add_communities (communities_to_add ?sd) occ = Inr r"
      and upds: "\<exists>r. update_communities indices (communities_to_update ?sd) occ = Inr r" for occ
    by (intro add_communities_total update_communities_total; blast)+
  obtain oc rem where r: "remove_communities indices (communities_to_remove ?sd) (map (\<lambda>(name, i). unat i) indices) = (oc, rem)"
    by fastforce
  from upds obtain oc1 u where u: "update_communities indices (communities_to_update ?sd) oc = Inr (oc1, u)" by fastforce
  from adds obtain oc2 a where a: "add_communities (communities_to_add ?sd) oc1 = Inr (oc2, a)" by fastforce
  show ?thesis by (simp add: forti_snmp_diff_commands_def r u a)
qed

theorem forti_checked_snmp_has_commands_witness:
  "\<exists>cmds. forti_snmp_diff_commands [(''old'', 1)] None None
     (compute_snmp_diff plain_iter (example_communities\<lparr>sn_communities := []\<rparr>) example_communities) = Inr cmds"
proof (rule forti_checked_snmp_has_commands)
  have "\<exists>b. snmp_community_block 0 c = Inr b" if "c \<in> set (sn_communities example_communities)" for c
    using community_block_read [of c 0] canonical_examples that by (auto simp: list_all_iff)
  then obtain b where b: "\<And>c. c \<in> set (sn_communities example_communities) \<Longrightarrow> snmp_community_block 0 c = Inr (b c)"
    by metis
  have "list_all2 (\<lambda>c b. snmp_community_block 0 c = Inr b) (sn_communities example_communities)
      (map b (sn_communities example_communities))"
    using b by (simp add: list_all2_map2 list_all2_same)
  then have "traverse (snmp_community_block 0) (sn_communities example_communities) =
      Inr (map b (sn_communities example_communities))" by (simp only: traverse_Inr_iff)
  moreover have "length (sn_communities example_communities) \<le> max_snmp_communities"
    by (simp add: example_communities_def max_snmp_communities_def)
  ultimately show "check_snmp_limits example_communities = Inr ()"
    by (simp add: check_snmp_limits_def)
  show "hash_iter_ok plain_iter" by (rule iter_ok)
qed

text \<open>A change of the traps alone is a change for which nothing is written: a table without entries.\<close>

theorem forti_trap_changes_unwritten:
  "forti_snmp_diff_commands indices sysinfo access
     (sd\<lparr>communities_to_add := [], communities_to_remove := [], communities_to_update := [],
         trap_receivers_to_add := [], trap_receivers_to_remove := []\<rparr>) =
     Inr [''config system snmp community'', ''end'']"
  by (simp add: forti_snmp_diff_commands_def add_receiver_commands_def config_table_def config_line_def)

end
