(* ===== verification/Fortiswitch_Apply.thy ===== *)
theory Fortiswitch_Apply
  imports Fortiswitch_Snmp
begin

text \<open>
  What an apply on a FortiSwitch comes to: VLANs and their interfaces read back, the management VLAN of an
  interface table, and two places where writing and reading do not fit together.
\<close>

section \<open>The interface table\<close>

definition interface_name :: "u16 \<Rightarrow> string" where
  "interface_name i = ''vlan'' @ show_u16 i"

text \<open>A table of VLAN interfaces with the lines of each.\<close>

definition interface_table :: "(u16 \<times> string list) list \<Rightarrow> string list" where
  "interface_table xs =
     config_table ''system interface'' (map (\<lambda>x. edit_entry (interface_name (fst x)) (snd x)) xs)"

definition svi_body :: "vlan \<Rightarrow> string list" where
  "svi_body vl =
     [''set vlanid '' @ show_u16 (v_id vl)] @ set_description (v_description vl)
     @ [''set type vlan'', ''set interface internal''] @ forti_svi_address (v_ip_config vl)"

definition management_body :: "vlan \<Rightarrow> string list" where
  "management_body vl =
     [''set vlanid '' @ show_u16 (v_id vl)] @ set_description (Some management_description)
     @ [''set type vlan'', ''set interface internal'']
     @ forti_management_address (v_ip_config vl) @ [''set allowaccess ping https ssh snmp'']"

lemma svi_block_table:
  "v_ip_config vl \<noteq> IpNone \<Longrightarrow> forti_svi_block vl = interface_table [(v_id vl, svi_body vl)]"
  by (simp add: forti_svi_block_def interface_table_def svi_body_def interface_name_def)

lemma management_table:
  "forti_management_vlan_commands (v_id vl) vl = interface_table [(v_id vl, management_body vl)]"
  by (simp add: forti_management_vlan_commands_def interface_table_def management_body_def interface_name_def)

lemma visible_word_interface: "visible_word (interface_name i)"
  using visible_word_show_u16 [of i] by (simp add: interface_name_def visible_word_def visible_def)

lemma interface_edit_id: "parse_vlan_interface_edit_id (edit_line (interface_name i)) = Some i"
proof -
  have "strip_prefix ''edit vlan'' (edit_line (interface_name i)) = Some (show_u16 i)"
    by (simp add: edit_line_def interface_name_def strip_prefix_def)
  moreover have "split_whitespace (show_u16 i) = [show_u16 i]"
    using split_whitespace_word [OF visible_word_show_u16, of "[]" i] by simp
  ultimately show ?thesis by (simp only: parse_vlan_interface_edit_id_def option.case list.case parse_u16_show_u16)
qed

lemma not_edit:
  assumes "\<not> starts_with ''edit '' l"
  shows "strip_prefix ''edit vlan'' l = None" and "strip_prefix ''edit '' l = None"
proof -
  show "strip_prefix ''edit '' l = None" using assms by (simp add: strip_prefix_def starts_with_def)
  have "starts_with ''edit '' l" if "starts_with ''edit vlan'' l"
    using that by (auto simp: starts_with_iff)
  with assms show "strip_prefix ''edit vlan'' l = None" by (auto simp: strip_prefix_def starts_with_def)
qed

lemma interface_edit_setting: "setting_line l \<Longrightarrow> parse_vlan_interface_edit_id l = None"
  by (simp add: setting_line_def parse_vlan_interface_edit_id_def not_edit)

lemma svi_details_table:
  assumes "distinct (map fst xs)" and "list_all (\<lambda>x. list_all setting_line (snd x)) xs"
  shows "parse_svi_details (interface_table xs) = map (\<lambda>x. (fst x, fold svi_line (snd x) default_svi)) xs"
proof -
  have "''system interface'' \<noteq> [] \<and> visible (last ''system interface'')" by (simp add: visible_def)
  moreover have "parse_vlan_interface_edit_id ''next'' = None"
    by (simp add: parse_vlan_interface_edit_id_def strip_prefix_def)
  ultimately show ?thesis
    unfolding parse_svi_details_def interface_table_def
    using assms visible_word_interface interface_edit_id
    by (intro read_entries_table) (auto simp: list_all_iff interface_edit_setting)
qed

section \<open>The management VLAN\<close>

definition gives_address :: "string \<Rightarrow> bool" where
  "gives_address l \<longleftrightarrow> starts_with ''set ip '' l \<or> l = ''set mode dhcp'' \<or> l = ''set mode static''"

definition gives_access :: "string \<Rightarrow> bool" where
  "gives_access l \<longleftrightarrow> starts_with ''set allowaccess '' l \<and> has_management_access l"

definition managed :: "string list \<Rightarrow> bool" where
  "managed body \<longleftrightarrow> list_ex gives_address body \<and> list_ex gives_access body"

text \<open>The reader inside the table, outside of an entry and in one.\<close>

definition mv_between :: mv_state where
  "mv_between = mv_start\<lparr>mv_in_system := True, mv_depth := 1\<rparr>"

definition mv_inside :: "u16 \<Rightarrow> bool \<Rightarrow> bool \<Rightarrow> mv_state" where
  "mv_inside i ip acc =
     mv_between\<lparr>mv_in_vlan := True, mv_vlan := Some i, mv_ip := ip, mv_access := acc\<rparr>"

lemma mv_step_line:
  assumes "table_line l" and "mv_in_system s"
  shows "mv_step l s = mv_line l s"
proof -
  from assms(1) have "\<not> starts_with ''config '' l" "l \<noteq> ''end''" by (simp_all add: table_line_def)
  moreover from this have "l \<noteq> ''config system interface''" by (auto simp: starts_with_def)
  ultimately show ?thesis using assms(2) by (simp add: mv_step_def)
qed

lemma mv_edit:
  "mv_loop (edit_line (interface_name i) # ls) mv_between = mv_loop ls (mv_inside i False False)"
proof -
  have t: "table_line (edit_line (interface_name i))" by (rule table_line_edit [OF visible_word_interface])
  have "strip_prefix ''edit vlan'' (edit_line (interface_name i)) = Some (show_u16 i)"
    by (simp add: edit_line_def interface_name_def strip_prefix_def)
  moreover have "split_whitespace (show_u16 i) = [show_u16 i]"
    using split_whitespace_word [OF visible_word_show_u16, of "[]" i] by simp
  ultimately have "mv_line (edit_line (interface_name i)) mv_between = (None, mv_enter i mv_between)"
    by (simp only: mv_line_def option.case list.case parse_u16_show_u16)
  moreover have "mv_enter i mv_between = mv_inside i False False"
    by (simp add: mv_enter_def mv_inside_def mv_between_def)
  ultimately show ?thesis
    using mv_step_line [OF t, of mv_between] table_line_trim [OF t] by (simp add: mv_between_def)
qed

lemma mv_setting:
  assumes "setting_line l"
  shows "mv_loop (l # ls) (mv_inside i ip acc) =
           mv_loop ls (mv_inside i (ip \<or> gives_address l) (acc \<or> gives_access l))"
proof -
  from assms have t: "table_line l" and e: "\<not> starts_with ''edit '' l" and n: "l \<noteq> ''next''"
    by (simp_all add: setting_line_def)
  have excl: "\<not> starts_with ''set allowaccess '' l" if "gives_address l"
    using that by (auto simp: gives_address_def starts_with_iff)
  have "mv_line l (mv_inside i ip acc) = (None, mv_inside i (ip \<or> gives_address l) (acc \<or> gives_access l))"
    using n excl
    by (cases "gives_address l")
      (auto simp: mv_line_def not_edit [OF e] gives_address_def gives_access_def mv_inside_def)
  then show ?thesis
    using mv_step_line [OF t, of "mv_inside i ip acc"] table_line_trim [OF t]
    by (simp add: mv_inside_def mv_between_def)
qed

lemma mv_settings:
  "list_all setting_line body \<Longrightarrow>
     mv_loop (body @ ls) (mv_inside i ip acc) =
       mv_loop ls (mv_inside i (ip \<or> list_ex gives_address body) (acc \<or> list_ex gives_access body))"
  by (induction body arbitrary: ip acc) (simp_all add: mv_setting disj_assoc del: mv_loop.simps)

lemma mv_next:
  "mv_loop (''next'' # ls) (mv_inside i ip acc) = (if ip \<and> acc then Some i else mv_loop ls mv_between)"
proof -
  have "trim ''next'' = ''next''" by (simp add: trim_eval)
  moreover have "mv_step ''next'' (mv_inside i ip acc) =
      (if ip \<and> acc then (Some i, mv_inside i ip acc) else (None, mv_between))"
    by (auto simp: mv_step_line [OF table_line_next] mv_inside_def mv_between_def mv_start_def mv_line_def
        strip_prefix_def starts_with_def mv_outside_def)
  ultimately show ?thesis by simp
qed

lemma mv_entry:
  assumes "list_all setting_line body"
  shows "mv_loop (edit_entry (interface_name i) body @ ls) mv_between =
           (if managed body then Some i else mv_loop ls mv_between)"
  by (simp add: edit_entry_def mv_edit mv_settings [OF assms] mv_next managed_def del: mv_loop.simps)

text \<open>From its interface table a FortiSwitch takes as management VLAN the first VLAN interface that has an
  address, fixed or by DHCP, and allows SSH or HTTPS, and none if there is no such interface. The lines
  of the interfaces are arbitrary settings without nested tables.\<close>

theorem forti_management_vlan_first:
  assumes "list_all (\<lambda>x. list_all setting_line (snd x)) xs"
  shows "forti_parse_management_vlan (interface_table xs) = map_option fst (find (\<lambda>x. managed (snd x)) xs)"
proof -
  have h: "trim (config_line ''system interface'') = ''config system interface''"
    by (simp add: config_line_def trim_eval)
  have 1: "mv_loop (config_line ''system interface'' # ls) mv_start = mv_loop ls mv_between" for ls
    by (simp add: h mv_step_def mv_between_def)
  have e: "trim ''end'' = ''end''" by (simp add: trim_eval)
  have 2: "mv_loop [''end''] mv_between = None"
    by (simp add: e mv_step_def mv_between_def mv_start_def starts_with_def mv_outside_def)
  have "mv_loop (concat (map (\<lambda>x. edit_entry (interface_name (fst x)) (snd x)) xs) @ [''end'']) mv_between =
      map_option fst (find (\<lambda>x. managed (snd x)) xs)"
    using assms
  proof (induction xs)
    case Nil
    show ?case by (simp add: 2 del: mv_loop.simps)
  next
    case (Cons x xs)
    then have "list_all setting_line (snd x)" by simp
    from mv_entry [OF this] Cons show ?case by (simp del: mv_loop.simps)
  qed
  then show ?thesis
    by (simp add: forti_parse_management_vlan_def interface_table_def config_table_def 1 del: mv_loop.simps)
qed

section \<open>VLANs\<close>

text \<open>A VLAN whose values survive being printed.\<close>

definition plain_address :: "vlan_ip_config \<Rightarrow> bool" where
  "plain_address ip \<longleftrightarrow> (case ip of Static a nm \<Rightarrow> visible_word a \<and> visible_word nm | _ \<Rightarrow> True)"

definition plain_vlan :: "vlan \<Rightarrow> bool" where
  "plain_vlan vl \<longleftrightarrow> plain_text (v_description vl) \<and> plain_address (v_ip_config vl)"

lemma setting_literals:
  "setting_line ''set mode dhcp''" "setting_line ''set allowaccess ping''" "setting_line ''set type vlan''"
  "setting_line ''set interface internal''" "setting_line ''set allowaccess ping https ssh snmp''"
  by (simp_all add: setting_line_def table_line_def visible_def starts_with_def)

lemma setting_address:
  "visible_word nm \<Longrightarrow> setting_line (''set ip '' @ a @ '' '' @ nm)"
  using setting_lineI2 [of "a @ '' '' @ nm" "''ip ''"] by (simp add: visible_word_def list_all_iff)

lemma setting_vlanid: "setting_line (''set vlanid '' @ show_u16 i)"
  using setting_u16 [of "''vlanid ''" i] by simp

lemma bodies_setting:
  assumes "plain_vlan vl"
  shows "list_all setting_line (svi_body vl)" and "list_all setting_line (management_body vl)"
  using assms setting_vlanid setting_description
  by (cases "v_ip_config vl";
      simp add: svi_body_def management_body_def setting_literals setting_address [unfolded append.simps]
        plain_vlan_def plain_address_def)+

lemma description_svi:
  assumes "plain_text d"
  shows "fold svi_line (set_description d) s = (case d of None \<Rightarrow> s | Some x \<Rightarrow> s\<lparr>svi_description := Some x\<rparr>)"
  using assms unquote_quoted
  by (simp add: plain_text_def set_description_def svi_line_def strip_prefix_def split: option.splits)

lemma address_svi:
  assumes "visible_word a" and "visible_word nm"
  shows "svi_line (''set ip '' @ a @ '' '' @ nm) s = s\<lparr>svi_ip_config := Static a nm\<rparr>"
  using split_whitespace_two [OF assms] by (simp add: svi_line_def strip_prefix_def)

lemma svi_ignored:
  "svi_line (''set vlanid '' @ show_u16 i) s = s" "svi_line ''set type vlan'' s = s"
  "svi_line ''set interface internal'' s = s" "svi_line ''set allowaccess ping'' s = s"
  "svi_line ''set allowaccess ping https ssh snmp'' s = s"
  "svi_line ''set mode dhcp'' s = s\<lparr>svi_ip_config := Dhcp\<rparr>"
  by (simp_all add: svi_line_def strip_prefix_def)

lemma addresses_keep_description:
  "plain_address ip \<Longrightarrow> fold svi_line (forti_svi_address ip) (default_svi\<lparr>svi_description := d\<rparr>) =
     (default_svi\<lparr>svi_ip_config := ip, svi_description := d\<rparr>)"
  "plain_address ip \<Longrightarrow> fold svi_line (forti_management_address ip) (default_svi\<lparr>svi_description := d\<rparr>) =
     (default_svi\<lparr>svi_ip_config := ip, svi_description := d\<rparr>)"
  by (cases ip; simp add: plain_address_def svi_ignored address_svi [unfolded append.simps] default_svi_def)+

lemma description_default:
  "plain_text d \<Longrightarrow> fold svi_line (set_description d) default_svi = default_svi\<lparr>svi_description := d\<rparr>"
  by (cases d) (simp_all add: description_svi default_svi_def)

lemma bodies_read:
  assumes "plain_vlan vl"
  shows "fold svi_line (svi_body vl) default_svi =
           \<lparr>svi_ip_config = v_ip_config vl, svi_description = v_description vl\<rparr>"
    and "fold svi_line (management_body vl) default_svi =
           \<lparr>svi_ip_config = v_ip_config vl, svi_description = Some management_description\<rparr>"
proof -
  have d: "plain_text (v_description vl)" "plain_text (Some management_description)" "plain_address (v_ip_config vl)"
    using assms by (simp_all add: plain_vlan_def plain_text_def management_description_def no_end_def dquote_def)
  note reads = svi_ignored description_default [OF d(1)] description_default [OF d(2)]
    addresses_keep_description [OF d(3)]
  show "fold svi_line (svi_body vl) default_svi =
           \<lparr>svi_ip_config = v_ip_config vl, svi_description = v_description vl\<rparr>"
    unfolding svi_body_def fold_append
    by (simp only: fold.simps comp_apply id_apply reads) (simp add: default_svi_def)
  show "fold svi_line (management_body vl) default_svi =
           \<lparr>svi_ip_config = v_ip_config vl, svi_description = Some management_description\<rparr>"
    unfolding management_body_def fold_append
    by (simp only: fold.simps comp_apply id_apply reads) (simp add: default_svi_def)
qed

text \<open>The VLAN database, and the interfaces of VLANs as the driver leaves them: one VLAN at most has been configured
  for management.\<close>

definition vlan_database :: "vlan list \<Rightarrow> string list" where
  "vlan_database vlans = config_table ''switch vlan'' (map (\<lambda>vl. edit_entry (show_u16 (v_id vl)) []) vlans)"

definition written_body :: "u16 option \<Rightarrow> vlan \<Rightarrow> string list" where
  "written_body managed_id vl = (if managed_id = Some (v_id vl) then management_body vl else svi_body vl)"

definition written_interfaces :: "u16 option \<Rightarrow> vlan list \<Rightarrow> string list" where
  "written_interfaces managed_id vlans =
     interface_table (map (\<lambda>vl. (v_id vl, written_body managed_id vl))
       (filter (\<lambda>vl. v_ip_config vl \<noteq> IpNone) vlans))"

definition relabelled :: "u16 option \<Rightarrow> vlan \<Rightarrow> vlan" where
  "relabelled managed_id vl =
     (if managed_id = Some (v_id vl) \<and> v_ip_config vl \<noteq> IpNone
      then vl\<lparr>v_description := Some management_description\<rparr> else vl)"

lemma forti_vlan_commands_tables:
  "forti_vlan_commands vlans = vlan_database vlans @ concat (map forti_svi_block vlans)"
  by (simp add: forti_vlan_commands_def vlan_database_def)

lemma vlan_entry_read:
  "vlan_ids_loop (edit_line (show_u16 i) # ''next'' # ls) True 1 ids = vlan_ids_loop ls True 1 (ids @ [i])"
proof -
  have t: "table_line (edit_line (show_u16 i))" by (rule table_line_edit [OF visible_word_show_u16])
  have "no_end dquote (show_u16 i)"
  proof -
    have "dquote \<notin> set (show_u16 i)"
      using show_nat_is_digit by (fastforce simp: show_u16_def is_ascii_digit_def dquote_def)
    with visible_word_show_u16 [of i] show ?thesis
      by (metis no_end_def hd_in_set last_in_set visible_word_def)
  qed
  then have k: "port_edit_key (edit_line (show_u16 i)) = Some (show_u16 i)"
    by (rule port_edit_key_line [OF visible_word_show_u16])
  have n: "trim ''next'' = ''next''" by (simp add: trim_eval)
  have e: "\<not> starts_with ''config '' (edit_line (show_u16 i))" "edit_line (show_u16 i) \<noteq> ''end''"
    "edit_line (show_u16 i) \<noteq> ''config switch vlan''" "\<not> starts_with ''config '' ''next''"
    by (simp_all add: edit_line_def starts_with_def)
  show ?thesis
    by (simp add: table_line_trim [OF t] e k n Let_def port_edit_key_next)
qed

lemma vlan_database_read: "parse_switch_vlan_ids (vlan_database vlans) = map v_id vlans"
proof -
  have h: "trim (config_line ''switch vlan'') = ''config switch vlan''" "trim ''end'' = ''end''"
    by (simp_all add: config_line_def trim_eval)
  have "vlan_ids_loop (concat (map (\<lambda>vl. edit_entry (show_u16 (v_id vl)) []) vlans) @ [''end'']) True 1 ids =
      ids @ map v_id vlans" for ids
  proof (induction vlans arbitrary: ids)
    case Nil
    show ?case by (simp add: h starts_with_def)
  next
    case (Cons vl vlans)
    then show ?case by (simp add: edit_entry_def vlan_entry_read del: vlan_ids_loop.simps)
  qed
  from this [of "[]"] show ?thesis
    by (simp add: parse_switch_vlan_ids_def vlan_database_def config_table_def h)
qed

lemma written_settings:
  assumes "list_all plain_vlan vlans"
  shows "list_all (\<lambda>x. list_all setting_line (snd x))
           (map (\<lambda>vl. (v_id vl, written_body managed_id vl)) (filter P vlans))"
  using assms bodies_setting by (auto simp: list_all_iff written_body_def)

lemma written_vlan_read:
  assumes "list_all plain_vlan vlans" and "distinct (map v_id vlans)" and "vl \<in> set vlans"
  shows "forti_vlan vlans (parse_svi_details (written_interfaces managed_id vlans)) (v_id vl) =
           relabelled managed_id vl"
proof -
  let ?with = "filter (\<lambda>vl. v_ip_config vl \<noteq> IpNone) vlans"
  have d: "distinct (map v_id ?with)" using assms(2) by (rule distinct_map_filter)
  have "parse_svi_details (written_interfaces managed_id vlans) =
      map (\<lambda>vl. (v_id vl, fold svi_line (written_body managed_id vl) default_svi)) ?with"
    unfolding written_interfaces_def
    using svi_details_table [OF _ written_settings [OF assms(1)]] d by (simp add: comp_def)
  moreover have "map_of (map (\<lambda>vl. (v_id vl, fold svi_line (written_body managed_id vl) default_svi)) ?with) (v_id vl) =
      (if v_ip_config vl \<noteq> IpNone then Some (fold svi_line (written_body managed_id vl) default_svi) else None)"
  proof (cases "v_ip_config vl = IpNone")
    case True
    then have "v_id vl \<notin> v_id ` set ?with" using assms(2,3) by (auto simp: distinct_map inj_on_def)
    with True show ?thesis by (simp add: map_of_eq_None_iff image_image)
  next
    case False
    with assms(3) d show ?thesis by (simp add: map_of_is_SomeI comp_def)
  qed
  moreover have "find (\<lambda>v. v_id v = v_id vl) vlans = Some vl"
    using assms(2,3) by (induction vlans) (auto simp: rev_image_eqI)
  moreover have "plain_vlan vl" using assms(1,3) by (simp add: list_all_iff)
  ultimately show ?thesis
    using bodies_read [of vl]
    by (cases "v_description vl") (auto simp: forti_vlan_def relabelled_def written_body_def Let_def)
qed

lemma svi_not_managed: "plain_vlan vl \<Longrightarrow> \<not> managed (svi_body vl)"
proof -
  have "\<not> gives_access ''set allowaccess ping''"
    by (simp add: gives_access_def has_management_access_def starts_with_def)
  moreover have "\<not> gives_access l" if "\<not> starts_with ''set allowaccess '' l" for l
    using that by (simp add: gives_access_def)
  ultimately have "\<not> list_ex gives_access (svi_body vl)"
    by (cases "v_ip_config vl"; cases "v_description vl")
      (simp_all add: svi_body_def set_description_def starts_with_def)
  then show ?thesis by (simp add: managed_def)
qed

lemma management_managed: "v_ip_config vl \<noteq> IpNone \<Longrightarrow> managed (management_body vl)"
proof -
  assume "v_ip_config vl \<noteq> IpNone"
  then have "list_ex gives_address (management_body vl)"
    by (cases "v_ip_config vl") (simp_all add: management_body_def gives_address_def starts_with_def)
  moreover have "gives_access ''set allowaccess ping https ssh snmp''"
    by (simp add: gives_access_def has_management_access_def starts_with_def)
  then have "list_ex gives_access (management_body vl)" by (simp add: management_body_def)
  ultimately show ?thesis by (simp add: managed_def)
qed

lemma written_management:
  assumes "list_all plain_vlan vlans"
  shows "forti_parse_management_vlan (written_interfaces managed_id vlans) =
    map_option v_id (find (\<lambda>vl. v_ip_config vl \<noteq> IpNone \<and> managed_id = Some (v_id vl)) vlans)"
proof -
  let ?with = "filter (\<lambda>vl. v_ip_config vl \<noteq> IpNone) vlans"
  let ?xs = "map (\<lambda>vl. (v_id vl, written_body managed_id vl)) ?with"
  have "managed (written_body managed_id vl) \<longleftrightarrow> managed_id = Some (v_id vl)"
    if "vl \<in> set vlans" "v_ip_config vl \<noteq> IpNone" for vl
    using that assms svi_not_managed management_managed by (simp add: written_body_def list_all_iff)
  then have "map_option fst (find (\<lambda>x. managed (snd x)) ?xs) =
      map_option v_id (find (\<lambda>vl. v_ip_config vl \<noteq> IpNone \<and> managed_id = Some (v_id vl)) vlans)"
    by (induction vlans) auto
  with forti_management_vlan_first [OF written_settings [OF assms]] show ?thesis
    unfolding written_interfaces_def by (rule trans)
qed

text \<open>The VLANs of a state read from these tables.\<close>

lemma written_vlans_read:
  assumes "list_all plain_vlan vlans" and "distinct (map v_id vlans)"
  shows "map (forti_vlan vlans (parse_svi_details (written_interfaces managed_id vlans)))
           (parse_switch_vlan_ids (vlan_database vlans)) = map (relabelled managed_id) vlans"
  using written_vlan_read [OF assms] by (simp add: vlan_database_read)

text \<open>C14: VLANs survive the round trip: from the VLAN database and the interfaces that the driver writes for the
  VLANs of a configuration, it reads back the same VLANs, with their names, descriptions and
  addresses, and no management VLAN. The ids must be distinct and the descriptions not begin or end with a double
  quote.\<close>

theorem forti_vlans_roundtrip:
  assumes "list_all plain_vlan vlans" and "distinct (map v_id vlans)"
  shows "map (forti_vlan vlans (parse_svi_details (written_interfaces None vlans)))
           (parse_switch_vlan_ids (vlan_database vlans)) = vlans \<and>
         forti_parse_management_vlan (written_interfaces None vlans) = None"
proof
  have "map (relabelled None) vlans = vlans" by (simp add: relabelled_def map_idI)
  then show "map (forti_vlan vlans (parse_svi_details (written_interfaces None vlans)))
           (parse_switch_vlan_ids (vlan_database vlans)) = vlans"
    unfolding written_vlans_read [OF assms] .
  show "forti_parse_management_vlan (written_interfaces None vlans) = None"
    unfolding written_management [OF assms(1)] by (induction vlans) auto
qed

text \<open>C19: A FortiSwitch with a management VLAN that has an address and a description of its own never gets in
  sync. What configures the VLAN leaves no access by SSH or HTTPS on its interface, so that it is not
  recognised as management VLAN and is configured as such; that replaces the description, so that
  the VLAN differs and is configured again, which takes the access away.\<close>

theorem forti_management_vlan_alternates:
  assumes "list_all plain_vlan (s_vlans config)" and "distinct (map v_id (s_vlans config))"
    and "vl \<in> set (s_vlans config)" and "s_management_vlan config = Some (v_id vl)"
    and "v_ip_config vl \<noteq> IpNone" and "v_description vl \<noteq> Some management_description"
    and "s_model config = Some Fortiswitch124F_FPOE" and "hash_iter_ok it"
    and "lines (ansi (bl_switch_vlan raw)) = vlan_database (s_vlans config)"
    and "lines (ansi (bl_system_interface raw)) = written_interfaces managed_id (s_vlans config)"
    and d: "d = compute_diff it (forti_state ansi config Fortiswitch124F_FPOE raw warnings) config f"
  shows "(managed_id = None \<longrightarrow>
            vlans_to_update d = [] \<and> management_vlan_changed d \<and> management_vlan_new d = Some (v_id vl)) \<and>
         (managed_id = Some (v_id vl) \<longrightarrow> set (vlans_to_update d) = {vl} \<and> \<not> management_vlan_changed d)"
proof -
  let ?st = "forti_state ansi config Fortiswitch124F_FPOE raw warnings"
  have vlans: "st_vlans ?st = map (relabelled managed_id) (s_vlans config)"
    unfolding forti_state_def Let_def assms(9,10) by (simp add: written_vlans_read [OF assms(1,2)])
  have mgmt: "st_management_vlan ?st = map_option v_id
      (find (\<lambda>v. v_ip_config v \<noteq> IpNone \<and> managed_id = Some (v_id v)) (s_vlans config))"
    unfolding forti_state_def Let_def assms(10) by (simp add: written_management [OF assms(1)])
  have ch: "vlan_changes it True (map (relabelled managed_id) (s_vlans config)) (s_vlans config) =
      (vlans_to_add d, vlans_to_remove d, vlans_to_update d)"
    using compute_diff_vlans [of it ?st config f] assms(7)
    by (simp add: d vlans model_supports_def supports_vlan_description_def)
  note upd = vlan_table.updates [of "(it, True)", simplified, OF assms(8) ch]
  have ids: "v_id (relabelled managed_id v) = v_id v" for v by (simp add: relabelled_def)
  have des: "collect v_id (s_vlans config) (v_id v) = Some v" if "v \<in> set (s_vlans config)" for v
    using assms(2) that by (rule collect_distinct)
  have cur: "collect v_id (map (relabelled managed_id) (s_vlans config)) (v_id v) = Some (relabelled managed_id v)"
    if "v \<in> set (s_vlans config)" for v
    using collect_distinct [of v_id "map (relabelled managed_id) (s_vlans config)" "relabelled managed_id v"]
      assms(2) that by (simp add: ids comp_def)
  have upds: "v \<in> set (vlans_to_update d) \<longleftrightarrow>
      v \<in> set (s_vlans config) \<and> managed_id = Some (v_id v) \<and> v_ip_config v \<noteq> IpNone \<and>
      v_description v \<noteq> Some management_description" for v
  proof (cases "v \<in> set (s_vlans config)")
    case True
    then show ?thesis unfolding upd des [OF True] cur [OF True]
      by (auto simp: vlans_equivalent_for_model_def relabelled_def)
  next
    case False
    then show ?thesis unfolding upd by (auto dest: collect_SomeD)
  qed
  show ?thesis
  proof (intro conjI impI)
    assume none: "managed_id = None"
    then have "st_management_vlan ?st = None" using mgmt by (simp add: find_None_iff)
    with assms(4) show "management_vlan_changed d" "management_vlan_new d = Some (v_id vl)"
      by (simp_all add: d compute_diff_management)
    have "v \<notin> set (vlans_to_update d)" for v unfolding upds none by simp
    then show "vlans_to_update d = []" by (cases "vlans_to_update d") auto
  next
    assume some: "managed_id = Some (v_id vl)"
    with assms(3,5) have "find (\<lambda>v. v_ip_config v \<noteq> IpNone \<and> managed_id = Some (v_id v)) (s_vlans config) \<noteq> None"
      by (auto simp: find_None_iff)
    then obtain v where "find (\<lambda>v. v_ip_config v \<noteq> IpNone \<and> managed_id = Some (v_id v)) (s_vlans config) = Some v"
      by blast
    then have "st_management_vlan ?st = Some (v_id vl)"
      using mgmt some by (auto simp: find_Some_iff)
    then show "\<not> management_vlan_changed d"
      using assms(4) by (simp add: d compute_diff_management(1))
    have unique: "v = vl" if "v \<in> set (s_vlans config)" "v_id v = v_id vl" for v
      using that assms(2,3) by (simp add: distinct_map inj_on_def)
    have "v \<in> set (vlans_to_update d) \<longleftrightarrow> v = vl" for v
      unfolding upds [of v] some option.inject using assms(3,5,6) unique [of v] by metis
    then show "set (vlans_to_update d) = {vl}" by blast
  qed
qed

definition example_managed :: vlan where
  "example_managed =
     \<lparr>v_id = 77, v_name = ''mgmt'', v_description = Some ''Management'',
      v_ip_config = Static ''192.0.2.9'' ''255.255.255.0''\<rparr>"

definition example_forti_config :: switch_config where
  "example_forti_config = (example_switch (Some Fortiswitch124F_FPOE) example_communities)
     \<lparr>s_vlans := [example_vlan 10 ''office'', example_managed], s_management_vlan := Some 77\<rparr>"

lemma example_vlans_plain:
  "list_all plain_vlan (s_vlans example_forti_config)" "distinct (map v_id (s_vlans example_forti_config))"
proof -
  have "visible_word ''192.0.2.9''" "visible_word ''255.255.255.0''" by (simp_all add: visible_word_def visible_def)
  then show "list_all plain_vlan (s_vlans example_forti_config)"
    by (simp add: example_forti_config_def example_managed_def example_vlan_def plain_vlan_def plain_text_def
        plain_address_def no_end_def dquote_def)
  show "distinct (map v_id (s_vlans example_forti_config))"
    by (simp add: example_forti_config_def example_managed_def example_vlan_def)
qed

theorem forti_vlans_roundtrip_witness:
  "map (forti_vlan (s_vlans example_forti_config)
       (parse_svi_details (written_interfaces None (s_vlans example_forti_config))))
     (parse_switch_vlan_ids (vlan_database (s_vlans example_forti_config))) =
       [example_vlan 10 ''office'', example_managed] \<and>
   forti_parse_management_vlan (written_interfaces None (s_vlans example_forti_config)) = None"
  unfolding conjunct1 [OF forti_vlans_roundtrip [OF example_vlans_plain]]
    conjunct2 [OF forti_vlans_roundtrip [OF example_vlans_plain]]
  by (simp add: example_forti_config_def)

theorem forti_management_vlan_first_witness:
  "forti_parse_management_vlan (interface_table
     [(1, [''set ip 192.0.2.1 255.255.255.0'', ''set allowaccess ping'']),
      (5, [''set mode dhcp'', ''set allowaccess ping https'']), (7, [''set mode dhcp'', ''set allowaccess ssh''])]) =
   Some 5"
proof -
  have h: "list_all (\<lambda>x. list_all setting_line (snd x))
     [(1, [''set ip 192.0.2.1 255.255.255.0'', ''set allowaccess ping'']),
      (5, [''set mode dhcp'', ''set allowaccess ping https'']), (7 :: u16, [''set mode dhcp'', ''set allowaccess ssh''])]"
    by (simp add: setting_line_def table_line_def visible_def starts_with_def)
  show ?thesis unfolding forti_management_vlan_first [OF h]
    by (simp add: managed_def gives_address_def gives_access_def has_management_access_def starts_with_def)
qed

text \<open>What the switch prints for the tables of a configuration.\<close>

definition printed_blocks :: "u16 option \<Rightarrow> vlan list \<Rightarrow> config_blocks" where
  "printed_blocks managed_id vlans =
     \<lparr>bl_system_interface = unlines (written_interfaces managed_id vlans), bl_switch_vlan = unlines (vlan_database vlans),
      bl_switch_interface = [], bl_physical_port = [], bl_switch_mirror = [], bl_snmp_community = [],
      bl_snmp_sysinfo = [], bl_interface_addresses = []\<rparr>"

lemma one_line_simps:
  "one_line []" "one_line (x # xs) \<longleftrightarrow> x \<noteq> newline \<and> x \<noteq> carriage_return \<and> one_line xs"
  "one_line (xs @ ys) \<longleftrightarrow> one_line xs \<and> one_line ys"
  by (auto simp: one_line_def)

lemma one_line_show_u16: "one_line (show_u16 i)"
  using show_nat_is_digit by (fastforce simp: one_line_def show_u16_def is_ascii_digit_def newline_def carriage_return_def)

lemma example_lines:
  "lines (unlines (vlan_database (s_vlans example_forti_config))) = vlan_database (s_vlans example_forti_config)"
  "lines (unlines (written_interfaces (Some 77) (s_vlans example_forti_config))) =
     written_interfaces (Some 77) (s_vlans example_forti_config)"
proof -
  note lines_defs = config_table_def config_line_def edit_entry_def edit_line_def interface_name_def one_line_simps
    one_line_show_u16 newline_def carriage_return_def
  have "list_all one_line (vlan_database vlans)" for vlans
    by (auto simp: vlan_database_def list_all_iff lines_defs)
  then show "lines (unlines (vlan_database (s_vlans example_forti_config))) = vlan_database (s_vlans example_forti_config)"
    by (intro lines_unlines) (simp add: list_all_iff)
  have "list_all one_line (management_body example_managed)"
    by (simp add: management_body_def example_managed_def set_description_def management_description_def quoted_def
        dquote_def lines_defs)
  moreover have "written_interfaces (Some 77) (s_vlans example_forti_config) =
      interface_table [(77, management_body example_managed)]"
    by (simp add: written_interfaces_def example_forti_config_def example_managed_def example_vlan_def written_body_def)
  ultimately have "list_all one_line (written_interfaces (Some 77) (s_vlans example_forti_config))"
    by (simp add: interface_table_def lines_defs)
  then show "lines (unlines (written_interfaces (Some 77) (s_vlans example_forti_config))) =
     written_interfaces (Some 77) (s_vlans example_forti_config)"
    by (intro lines_unlines) (simp add: list_all_iff)
qed

theorem forti_management_vlan_alternates_witness:
  "set (vlans_to_update (compute_diff plain_iter
      (forti_state (\<lambda>s. s) example_forti_config Fortiswitch124F_FPOE
        (printed_blocks (Some 77) (s_vlans example_forti_config)) []) example_forti_config True)) = {example_managed}"
proof -
  have c: "example_managed \<in> set (s_vlans example_forti_config)" "s_management_vlan example_forti_config = Some (v_id example_managed)"
    "v_ip_config example_managed \<noteq> IpNone" "v_description example_managed \<noteq> Some management_description"
    "s_model example_forti_config = Some Fortiswitch124F_FPOE"
    by (simp_all add: example_forti_config_def example_managed_def management_description_def example_switch_def)
  have l: "lines ((\<lambda>s. s) (bl_switch_vlan (printed_blocks (Some 77) (s_vlans example_forti_config)))) =
      vlan_database (s_vlans example_forti_config)"
    "lines ((\<lambda>s. s) (bl_system_interface (printed_blocks (Some 77) (s_vlans example_forti_config)))) =
      written_interfaces (Some 77) (s_vlans example_forti_config)"
    by (simp_all add: printed_blocks_def example_lines)
  have "Some 77 = Some (v_id example_managed)" by (simp add: example_managed_def)
  with forti_management_vlan_alternates [OF example_vlans_plain c iter_ok(1) l refl] show ?thesis by blast
qed

section \<open>Resetting ports\<close>

text \<open>The ports of a reading have different ids.\<close>

lemma distinct_build_ports: "distinct (map p_port_id (build_forti_ports m ifs phs))"
proof -
  have "port_name (denormalize_port_id i) = i" if "is_numbered_port i" for i
    using that by (auto simp: is_numbered_port_def denormalize_port_id_def port_name_def strip_prefix_Some
        split: option.splits)
  then have "inj_on denormalize_port_id {i. is_numbered_port i}" by (metis (mono_tags) inj_onI mem_Collect_eq)
  then have "inj_on denormalize_port_id (set (filter is_numbered_port (sort (remdups (map fst ifs @ map fst phs)))))"
    by (rule inj_on_subset) auto
  then have "distinct (map denormalize_port_id (filter is_numbered_port (sort (remdups (map fst ifs @ map fst phs)))))"
    by (simp add: distinct_map)
  then show ?thesis by (simp add: build_forti_ports_def build_forti_port_def Let_def comp_def)
qed

text \<open>With \<open>enforce_port_config\<close>, a port of a FortiSwitch that is not in the configuration is reset in
  every apply: a reset writes the table of interfaces only, the state of a port is read from the
  table of physical ports, and as long as that one does not say \<open>down\<close>, the port counts as enabled and is to be
  reset, whatever the table of interfaces says.\<close>

theorem forti_reset_forever:
  assumes "hash_iter_ok it" and "i \<notin> p_port_id ` set (s_ports config)"
    and "i \<notin> m_destination_port ` set (s_port_mirrors config)"
    and phs: "phs = parse_physical_ports (lines (ansi (bl_physical_port raw)))"
    and "port_name i \<in> fst ` set phs" and "is_numbered_port (port_name i)"
    and "ph_enabled (get_or default_physical phs (port_name i)) \<noteq> Some False"
  shows "i \<in> set (ports_to_reset (compute_diff it (forti_state ansi config m raw warnings) config True)) \<and>
    config_line ''switch physical-port'' \<notin> set (forti_reset_commands ids)"
proof
  let ?ports = "st_ports (forti_state ansi config m raw warnings)"
  define ifs where "ifs = parse_switch_interface_ports (lines (ansi (bl_switch_interface raw)))"
  have p: "?ports = build_forti_ports m ifs phs" by (simp add: forti_state_def Let_def ifs_def phs)
  let ?p = "build_forti_port m (port_name i) (get_or default_interface ifs (port_name i)) (get_or default_physical phs (port_name i))"
  have id: "p_port_id ?p = i"
    by (simp add: build_forti_port_def Let_def denormalize_port_id_def port_name_def strip_prefix_def)
  have mem: "?p \<in> set ?ports" unfolding p build_forti_ports_def using assms(5,6) by auto
  have "p_enabled ?p"
    using assms(7) by (auto simp: build_forti_port_def Let_def opt_or_def split: option.split)
  then have nd: "\<not> is_port_in_default_state ?p" by (simp add: is_port_in_default_state_def)
  have c: "collect p_port_id ?ports i = Some ?p"
    using collect_distinct [OF distinct_build_ports, of ?p m ifs phs] mem unfolding p id by simp
  from mem id have "i \<in> p_port_id ` set ?ports" by force
  then show "i \<in> set (ports_to_reset (compute_diff it (forti_state ansi config m raw warnings) config True))"
    using assms(2,3) c nd by (simp add: compute_diff_ports set_reset_ports [OF assms(1)])
  show "config_line ''switch physical-port'' \<notin> set (forti_reset_commands ids)"
    by (auto simp: forti_reset_commands_def forti_reset_entry_def config_table_def edit_entry_def config_line_def edit_line_def)
qed

theorem forti_reset_forever_witness:
  "''3'' \<in> set (ports_to_reset (compute_diff plain_iter
     (forti_state (\<lambda>s. s) example_forti_config Fortiswitch124F_FPOE
       ((printed_blocks None [])\<lparr>bl_physical_port := unlines (config_table ''switch physical-port''
          [edit_entry ''port3'' [''set status up'']])\<rparr>) []) example_forti_config True))"
proof -
  let ?ls = "config_table ''switch physical-port'' [edit_entry ''port3'' [''set status up'']]"
  have "list_all one_line ?ls"
    by (simp add: config_table_def config_line_def edit_entry_def edit_line_def one_line_simps newline_def carriage_return_def)
  then have l: "lines (unlines ?ls) = ?ls" by (intro lines_unlines) (simp add: list_all_iff)
  have "parse_physical_ports ?ls = [(''port3'', default_physical\<lparr>ph_enabled := Some True\<rparr>)]"
    using read_entries_table [of "[()]" "\<lambda>_. ''port3''" port_edit_key "\<lambda>_. ''port3''" "\<lambda>_. [''set status up'']"
        "''switch physical-port''" physical_port_line default_physical]
      port_edit_key_line [of "''port3''"] port_edit_key_setting port_edit_key_next
    by (simp add: parse_physical_ports_def physical_port_line_def visible_word_def visible_def no_end_def dquote_def
        setting_line_def table_line_def starts_with_def)
  with l have p: "[(''port3'', default_physical\<lparr>ph_enabled := Some True\<rparr>)] =
      parse_physical_ports (lines ((\<lambda>s. s) (bl_physical_port ((printed_blocks None [])\<lparr>bl_physical_port := unlines ?ls\<rparr>))))"
    by simp
  have n: "port_name ''3'' = ''port3''" by (simp add: port_name_def)
  show ?thesis
    by (rule conjunct1 [OF forti_reset_forever [of plain_iter _ _ _ "\<lambda>s. s", OF iter_ok(1) _ _ p, where ids = "[]"]])
      (simp_all add: n get_or_def is_numbered_port_def strip_prefix_def is_ascii_digit_def example_forti_config_def
        example_switch_def default_physical_def)
qed

section \<open>An apply as a whole\<close>

text \<open>C13: Carrying out a difference on a FortiSwitch refines the plan that the difference and the last reading
  give: on success exactly the batches of the plan have been sent, in order, and after a failure the
  first ones of them; the identity of the driver stays as it is.\<close>

theorem forti_apply_refines_plan:
  "case forti_apply_diff cli (compute_diff it current config f) s of
     (Inr results, t) \<Rightarrow>
       same_driver s t \<and> sent_by t = sent_by s @ forti_plan (compute_diff it current config f) s
   | (Inl e, t) \<Rightarrow>
       same_driver s t \<and> (\<exists>n. sent_by t = sent_by s @ take n (forti_plan (compute_diff it current config f) s))"
  using sends_forti_apply_diff [OF granular_compute_diff] unfolding sends_def .

end
