(* ===== verification/Jump_Host.thy ===== *)
theory Jump_Host
  imports Switch_Types Rust_Text
begin

text \<open>
  \<^verbatim>\<open>ssh/jump_host_parser.rs\<close>: the notation \<open>user@host:port\<close> for a jump host, and how the fields of its
  configuration, the notation and the defaults take precedence. The environment variable \<open>USER\<close> is an argument.
\<close>

section \<open>The code\<close>

datatype jump_error =
    InvalidPort string
  | EmptyHostname

record resolved_jump_host =
  rj_hostname :: string
  rj_port :: u16
  rj_username :: string
  rj_ssh_key_path :: "string option"
  rj_password :: "string option"

definition parse_host_string :: "string \<Rightarrow> jump_error + string option \<times> string \<times> u16 option" where
  "parse_host_string host =
     (let (user, host_port) =
            (case split_once (CHR ''@'') host of Some (u, r) \<Rightarrow> (Some u, r) | None \<Rightarrow> (None, host)) in
      and_then
        (case rsplit_once (CHR '':'') host_port of
           Some (hostname, port_str) \<Rightarrow>
             (case parse_u16 port_str of
                Some port \<Rightarrow> Inr (hostname, Some port) | None \<Rightarrow> Inl (InvalidPort port_str))
         | None \<Rightarrow> Inr (host_port, None))
        (\<lambda>(hostname, port). if hostname = [] then Inl EmptyHostname else Inr (user, hostname, port)))"

definition or_else :: "'a option \<Rightarrow> 'a option \<Rightarrow> 'a option" where
  "or_else x y = (case x of Some a \<Rightarrow> Some a | None \<Rightarrow> y)"

definition resolve_jump_host ::
  "string option \<Rightarrow> jump_host \<Rightarrow> string \<Rightarrow> jump_error + resolved_jump_host" where
  "resolve_jump_host env_user jump_host target_username =
     and_then (parse_host_string (j_host jump_host)) (\<lambda>(embedded_user, hostname, embedded_port).
       Inr \<lparr>rj_hostname = hostname,
            rj_port = (case or_else (j_port jump_host) embedded_port of Some p \<Rightarrow> p | None \<Rightarrow> 22),
            rj_username =
              (case or_else (or_else (j_username jump_host) embedded_user) env_user of
                 Some u \<Rightarrow> u | None \<Rightarrow> target_username),
            rj_ssh_key_path = j_ssh_key_path jump_host, rj_password = j_password jump_host\<rparr>)"

section \<open>Properties\<close>

text \<open>The notation of a user, a host and a port.\<close>

definition show_host :: "string option \<Rightarrow> string \<Rightarrow> u16 option \<Rightarrow> string" where
  "show_host user host port =
     (case user of Some u \<Rightarrow> u @ ''@'' | None \<Rightarrow> []) @ host
     @ (case port of Some p \<Rightarrow> '':'' @ show_u16 p | None \<Rightarrow> [])"

definition plain_host :: "string option \<Rightarrow> string \<Rightarrow> u16 option \<Rightarrow> bool" where
  "plain_host user host port \<longleftrightarrow>
     host \<noteq> [] \<and> CHR ''@'' \<notin> set (case user of Some u \<Rightarrow> u | None \<Rightarrow> host) \<and>
     (port = None \<longrightarrow> CHR '':'' \<notin> set host)"

lemma rsplit_once_Some:
  "rsplit_once c s = Some (a, b) \<longleftrightarrow> s = a @ c # b \<and> c \<notin> set b"
proof -
  have "rsplit_once c s = Some (a, b) \<longleftrightarrow> split_once c (rev s) = Some (rev b, rev a)"
    by (auto simp: rsplit_once_def)
  also have "\<dots> \<longleftrightarrow> rev s = rev (a @ c # b) \<and> c \<notin> set b"
    by (simp add: split_once_Some)
  finally show ?thesis by (simp only: rev_is_rev_conv)
qed

lemma rsplit_once_None: "c \<notin> set s \<Longrightarrow> rsplit_once c s = None"
  using split_once_None [of c "rev s"] by (simp add: rsplit_once_def)

lemma show_u16_no: "CHR ''@'' \<notin> set (show_u16 p)" "CHR '':'' \<notin> set (show_u16 p)"
  using show_nat_is_digit by (fastforce simp: show_u16_def is_ascii_digit_def)+

text \<open>C30: Every jump host with a user, a host and a port, each of the first and the last optional, can be written in
  the notation and is read back from it, also if the host is an IPv6 address, as long as a port follows it.\<close>

theorem jump_host_roundtrip:
  assumes "plain_host user host port"
  shows "parse_host_string (show_host user host port) = Inr (user, host, port)"
proof -
  let ?tail = "host @ (case port of Some p \<Rightarrow> '':'' @ show_u16 p | None \<Rightarrow> [])"
  have at: "(case split_once (CHR ''@'') (show_host user host port) of Some (u, r) \<Rightarrow> (Some u, r)
      | None \<Rightarrow> (None, show_host user host port)) = (user, ?tail)"
  proof (cases user)
    case (Some u)
    with assms have "split_once (CHR ''@'') (show_host user host port) = Some (u, ?tail)"
      by (simp add: split_once_Some show_host_def plain_host_def)
    with Some show ?thesis by simp
  next
    case None
    with assms have "split_once (CHR ''@'') (show_host user host port) = None"
      by (cases port) (simp_all add: split_once_None show_host_def plain_host_def show_u16_no)
    with None show ?thesis by (simp add: show_host_def)
  qed
  have "(case rsplit_once (CHR '':'') ?tail of
           Some (hostname, port_str) \<Rightarrow>
             (case parse_u16 port_str of
                Some port \<Rightarrow> Inr (hostname, Some port) | None \<Rightarrow> Inl (InvalidPort port_str))
         | None \<Rightarrow> Inr (?tail, None)) = Inr (host, port)"
  proof (cases port)
    case None
    with assms show ?thesis by (simp add: rsplit_once_None plain_host_def)
  next
    case (Some p)
    have "rsplit_once (CHR '':'') (host @ '':'' @ show_u16 p) = Some (host, show_u16 p)"
      by (simp add: rsplit_once_Some show_u16_no)
    with Some show ?thesis by simp
  qed
  with at assms show ?thesis by (simp add: parse_host_string_def plain_host_def)
qed

theorem jump_host_roundtrip_witness:
  "parse_host_string (show_host (Some ''admin'') ''2001:db8::1'' (Some 2222)) =
     Inr (Some ''admin'', ''2001:db8::1'', Some 2222) \<and>
   parse_host_string (show_host None ''bastion'' None) = Inr (None, ''bastion'', None)"
  using jump_host_roundtrip [of "Some ''admin''" "''2001:db8::1''" "Some 2222"]
    jump_host_roundtrip [of None "''bastion''" None] by (simp add: plain_host_def)

text \<open>An IPv6 address without a port is taken apart at its last colon: the last group is read as port.\<close>

theorem jump_host_ipv6_misread:
  "parse_host_string (''2001:db8::'' @ show_u16 p) = Inr (None, ''2001:db8:'', Some p)"
proof -
  have 1: "split_once (CHR ''@'') (''2001:db8::'' @ show_u16 p) = None"
    by (simp add: split_once_None show_u16_no)
  have "rsplit_once (CHR '':'') (''2001:db8:'' @ CHR '':'' # show_u16 p) = Some (''2001:db8:'', show_u16 p)"
    unfolding rsplit_once_Some by (simp add: show_u16_no)
  then have 2: "rsplit_once (CHR '':'') (''2001:db8::'' @ show_u16 p) = Some (''2001:db8:'', show_u16 p)"
    by simp
  show ?thesis unfolding parse_host_string_def 1 by (simp only: option.case prod.case Let_def 2) simp
qed

text \<open>What is set in the configuration of a jump host has precedence, and the password and the key are kept.\<close>

lemma resolve_explicit_wins:
  assumes "resolve_jump_host env_user j target = Inr r"
  shows "(j_port j = Some p \<longrightarrow> rj_port r = p) \<and> (j_username j = Some u \<longrightarrow> rj_username r = u) \<and>
    rj_ssh_key_path r = j_ssh_key_path j \<and> rj_password r = j_password j \<and> rj_hostname r \<noteq> []"
  using assms
  by (auto simp: resolve_jump_host_def parse_host_string_def or_else_def Let_def and_then_Inr_iff
      split: prod.splits option.splits if_splits sum.splits)

end
