(* ===== verification/Snmp_Tables.thy ===== *)
theory Snmp_Tables
  imports Fortiswitch_Queries Snmp_Policy
begin

text \<open>
  Reading over SNMP: \<^verbatim>\<open>snmp/mod.rs\<close> (values), \<^verbatim>\<open>snmp/mapping.rs\<close> (rows of tables to the types of the API)
  and \<^verbatim>\<open>snmp/lookup.rs\<close>. The connection to a switch is an argument: it fails or gives the walks over a table.
\<close>

section \<open>Values\<close>

datatype snmp_value =
    Integer int
  | Octets string

type_synonym oid = "u32 list"
type_synonym row = "oid \<times> snmp_value"

text \<open>\<open>String::from_utf8_lossy\<close>: how many bytes the next step takes, and whether they are a character.\<close>

definition byte_in :: "nat \<Rightarrow> nat \<Rightarrow> nat \<Rightarrow> string \<Rightarrow> bool" where
  "byte_in n lo hi s \<longleftrightarrow> n < length s \<and> lo \<le> of_char (s ! n) \<and> of_char (s ! n) \<le> hi"

definition utf8_step :: "string \<Rightarrow> nat \<times> bool" where
  "utf8_step s =
     (let b = (of_char (hd s) :: nat) in
      if b < 128 then (1, True)
      else if 194 \<le> b \<and> b \<le> 223 then (if byte_in 1 128 191 s then (2, True) else (1, False))
      else if 224 \<le> b \<and> b \<le> 239
      then (if \<not> byte_in 1 (if b = 224 then 160 else 128) (if b = 237 then 159 else 191) s then (1, False)
            else if \<not> byte_in 2 128 191 s then (2, False) else (3, True))
      else if 240 \<le> b \<and> b \<le> 244
      then (if \<not> byte_in 1 (if b = 240 then 144 else 128) (if b = 244 then 143 else 191) s then (1, False)
            else if \<not> byte_in 2 128 191 s then (2, False)
            else if \<not> byte_in 3 128 191 s then (3, False) else (4, True))
      else (1, False))"

definition replacement_character :: string where
  "replacement_character = [char_of (239 :: nat), char_of (191 :: nat), char_of (189 :: nat)]"

lemma utf8_step_pos: "0 < fst (utf8_step s)"
  by (simp add: utf8_step_def Let_def)

function from_utf8_lossy :: "string \<Rightarrow> string" where
  "from_utf8_lossy s =
     (if s = [] then []
      else (case utf8_step s of (n, ok) \<Rightarrow>
              (if ok then take n s else replacement_character) @ from_utf8_lossy (drop n s)))"
  by pat_completeness auto
termination
proof (relation "measure length")
  fix s :: string and n :: nat and ok :: bool
  assume "s \<noteq> []" and "(n, ok) = utf8_step s"
  moreover from this have "0 < n" using utf8_step_pos [of s] by (metis fst_conv)
  ultimately show "(drop n s, s) \<in> measure length" by simp
qed simp

declare from_utf8_lossy.simps [simp del]

definition trim_nul :: "string \<Rightarrow> string" where
  "trim_nul s = rev (dropWhile (\<lambda>c. c = CHR 0x00) (rev s))"

fun as_int :: "snmp_value \<Rightarrow> int option" where
  "as_int (Integer n) = Some n"
| "as_int (Octets bs) = None"

fun as_text :: "snmp_value \<Rightarrow> string option" where
  "as_text (Octets bs) = Some (trim_nul (from_utf8_lossy bs))"
| "as_text (Integer n) = None"

fun as_octets :: "snmp_value \<Rightarrow> string option" where
  "as_octets (Octets bs) = Some bs"
| "as_octets (Integer n) = None"

section \<open>Rows by index\<close>

definition if_name :: oid where "if_name = [1, 3, 6, 1, 2, 1, 31, 1, 1, 1, 1]"
definition if_oper_status :: oid where "if_oper_status = [1, 3, 6, 1, 2, 1, 2, 2, 1, 8]"
definition if_high_speed :: oid where "if_high_speed = [1, 3, 6, 1, 2, 1, 31, 1, 1, 1, 15]"
definition dot3_duplex_status :: oid where "dot3_duplex_status = [1, 3, 6, 1, 2, 1, 10, 7, 2, 1, 19]"
definition peth_port_admin_enable :: oid where "peth_port_admin_enable = [1, 3, 6, 1, 2, 1, 105, 1, 1, 1, 3]"
definition peth_port_detection_status :: oid where
  "peth_port_detection_status = [1, 3, 6, 1, 2, 1, 105, 1, 1, 1, 6]"
definition fdb_table :: oid where "fdb_table = [1, 3, 6, 1, 2, 1, 17, 4, 3, 1]"
definition fdb_address :: oid where "fdb_address = [1, 3, 6, 1, 2, 1, 17, 4, 3, 1, 1]"
definition fdb_port :: oid where "fdb_port = [1, 3, 6, 1, 2, 1, 17, 4, 3, 1, 2]"
definition fdb_status :: oid where "fdb_status = [1, 3, 6, 1, 2, 1, 17, 4, 3, 1, 3]"

record port_status_rows =
  rw_if_name :: "row list"
  rw_if_oper_status :: "row list"
  rw_if_high_speed :: "row list"
  rw_duplex :: "row list"
  rw_peth_admin :: "row list"
  rw_peth_detection :: "row list"

record mac_table_rows =
  rw_address :: "row list"
  rw_port :: "row list"
  rw_status :: "row list"

definition index_of :: "oid \<Rightarrow> oid \<Rightarrow> oid option" where
  "index_of oid column = (if take (length column) oid = column then Some (drop (length column) oid) else None)"

text \<open>Insertion in a \<open>BTreeMap\<close>, which replaces an entry.\<close>

fun tree_insert :: "'k::linorder \<Rightarrow> 'v \<Rightarrow> ('k \<times> 'v) list \<Rightarrow> ('k \<times> 'v) list" where
  "tree_insert k v [] = [(k, v)]"
| "tree_insert k v ((k', v') # m) =
     (if k < k' then (k, v) # (k', v') # m
      else if k = k' then (k, v) # m
      else (k', v') # tree_insert k v m)"

definition by_index :: "row list \<Rightarrow> oid \<Rightarrow> (oid \<times> snmp_value) list" where
  "by_index rows column =
     fold (\<lambda>(oid, v) m. case index_of oid column of Some i \<Rightarrow> tree_insert i v m | None \<Rightarrow> m) rows []"

definition int_at :: "(oid \<times> snmp_value) list \<Rightarrow> oid \<Rightarrow> int option" where
  "int_at table i = Option.bind (map_of table i) as_int"

section \<open>Port status\<close>

definition show_i64 :: "int \<Rightarrow> string" where
  "show_i64 n = (if n < 0 then ''-'' @ show_nat (nat (- n)) else show_nat (nat n))"

definition detection_text :: "int \<Rightarrow> string" where
  "detection_text status =
     (if status = 1 then ''disabled'' else if status = 2 then ''searching''
      else if status = 3 then ''delivering'' else if status = 4 \<or> status = 6 then ''fault''
      else if status = 5 then ''test'' else ''unknown'')"

definition poe_status_of ::
  "(oid \<times> snmp_value) list \<Rightarrow> (oid \<times> snmp_value) list \<Rightarrow> string \<Rightarrow> string option" where
  "poe_status_of admin detection name =
     Option.bind (Option.bind (strip_prefix ''port'' name) parse_u32) (\<lambda>port.
       if int_at admin [1, port] = Some 2 then Some ''disabled''
       else map_option detection_text (int_at detection [1, port]))"

definition duplex_of :: "int option \<Rightarrow> string option" where
  "duplex_of d = (if d = Some 3 then Some ''full'' else if d = Some 2 then Some ''half'' else None)"

definition status_entry ::
  "port_status_rows \<Rightarrow> (string \<Rightarrow> bool) \<Rightarrow> oid \<Rightarrow> string \<Rightarrow> port_status_entry" where
  "status_entry rows poe i name =
     (let oper = by_index (rw_if_oper_status rows) if_oper_status;
          speed = by_index (rw_if_high_speed rows) if_high_speed;
          duplex = by_index (rw_duplex rows) dot3_duplex_status;
          up = int_at oper i = Some 1
      in \<lparr>ps_port_id = name,
          ps_link_status = map_option (\<lambda>_. if up then ''up'' else ''down'') (map_of oper i),
          ps_speed =
            (if up then (case int_at speed i of Some n \<Rightarrow> if n > 0 then Some (show_i64 n) else None | None \<Rightarrow> None)
             else None),
          ps_duplex = (if up then duplex_of (int_at duplex i) else None),
          ps_poe_status =
            (if poe name
             then poe_status_of (by_index (rw_peth_admin rows) peth_port_admin_enable)
                    (by_index (rw_peth_detection rows) peth_port_detection_status) name
             else None)\<rparr>)"

text \<open>A name that is listed twice: the entry with a speed stays.\<close>

fun keep_entry :: "port_status_entry \<Rightarrow> port_status_entry list \<Rightarrow> port_status_entry list" where
  "keep_entry entry [] = [entry]"
| "keep_entry entry (e # es) =
     (if ps_port_id e = ps_port_id entry
      then (if ps_speed e = None \<and> ps_speed entry \<noteq> None then entry else e) # es
      else e # keep_entry entry es)"

definition status_step ::
  "port_status_rows \<Rightarrow> (string \<Rightarrow> bool) \<Rightarrow> oid \<times> snmp_value \<Rightarrow>
   port_status_entry list \<Rightarrow> port_status_entry list" where
  "status_step rows poe iv entries =
     (case as_text (snd iv) of
        None \<Rightarrow> entries
      | Some name \<Rightarrow>
          if name = [] then entries else keep_entry (status_entry rows poe (fst iv) name) entries)"

definition port_status_from :: "port_status_rows \<Rightarrow> (string \<Rightarrow> bool) \<Rightarrow> port_status_entry list" where
  "port_status_from rows poe =
     fold (status_step rows poe) (by_index (rw_if_name rows) if_name) []"

section \<open>The MAC table\<close>

definition hex_digit :: "nat \<Rightarrow> char" where
  "hex_digit n = char_of (if n < 10 then 48 + n else 87 + n)"

definition hex_byte :: "nat \<Rightarrow> string" where
  "hex_byte b = [hex_digit (b div 16), hex_digit (b mod 16)]"

definition mac_bytes :: "oid \<Rightarrow> string option \<Rightarrow> nat list option" where
  "mac_bytes i octets =
     (case octets of
        Some bs \<Rightarrow> if length bs = 6 then Some (map of_char bs) else None
      | None \<Rightarrow>
          if length i = 6 \<and> list_all (\<lambda>a. a \<le> 255) i then Some (map unat i) else None)"

definition mac_row ::
  "(oid \<times> snmp_value) list \<Rightarrow> (oid \<times> snmp_value) list \<Rightarrow> oid \<times> snmp_value \<Rightarrow> mac_table_entry option" where
  "mac_row address status iv =
     (if (case int_at status (fst iv) of Some st \<Rightarrow> \<not> (3 \<le> st \<and> st \<le> 5) | None \<Rightarrow> False) then None
      else
        Option.bind (as_int (snd iv)) (\<lambda>port_number.
        map_option (\<lambda>bytes.
          \<lparr>mt_mac_address = join '':'' (map hex_byte bytes), mt_vlan_id = None,
           mt_port_id = show_i64 port_number\<rparr>)
          (mac_bytes (fst iv) (Option.bind (map_of address (fst iv)) as_octets))))"

definition mac_table_from :: "mac_table_rows \<Rightarrow> mac_table_entry list" where
  "mac_table_from rows =
     List.map_filter (mac_row (by_index (rw_address rows) fdb_address) (by_index (rw_status rows) fdb_status))
       (by_index (rw_port rows) fdb_port)"

section \<open>Lookups\<close>

record snmp_target =
  tg_host :: string
  tg_port :: u16
  tg_community :: string

text \<open>\<open>management_ip()\<close> panics when the field is missing: \<open>Inl ()\<close>.\<close>

definition target_for :: "switch_config \<Rightarrow> unit + snmp_target option" where
  "target_for switch =
     (if \<not> reads_enabled switch then Inr None
      else
        (case Option.bind (s_snmp switch) (\<lambda>snmp. Option.bind (sn_reads snmp) rd_community) of
           None \<Rightarrow> Inr None
         | Some c \<Rightarrow>
             if c_name c = [] then Inr None
             else
               (case s_management_ip switch of
                  None \<Rightarrow> Inl ()
                | Some ip \<Rightarrow>
                    Inr (Some \<lparr>tg_host = ip, tg_port = snmp_port (s_settings switch), tg_community = c_name c\<rparr>))))"

text \<open>
  The walks of \<open>fetch_port_status\<close> run side by side and the first error ends them; here the first one in
  their order does.
\<close>

type_synonym snmp_session = "oid \<Rightarrow> string + row list"

definition fetch_port_status ::
  "(snmp_target \<Rightarrow> string + snmp_session) \<Rightarrow> snmp_target \<Rightarrow> (string \<Rightarrow> bool) \<Rightarrow>
   string + port_status_entry list \<times> string" where
  "fetch_port_status connect target poe =
     and_then (connect target) (\<lambda>walk.
     and_then (walk if_name) (\<lambda>names.
     and_then (walk if_oper_status) (\<lambda>oper.
     and_then (walk if_high_speed) (\<lambda>speed.
     and_then (walk dot3_duplex_status) (\<lambda>duplex.
     and_then (walk peth_port_admin_enable) (\<lambda>admin.
     and_then (walk peth_port_detection_status) (\<lambda>detection.
       if names = []
       then Inl (tg_host target @ '':'' @ show_u16 (tg_port target)
                 @ '' answered over SNMP but lists no interfaces (IF-MIB not populated)'')
       else
         Inr (port_status_from
                \<lparr>rw_if_name = names, rw_if_oper_status = oper, rw_if_high_speed = speed, rw_duplex = duplex,
                 rw_peth_admin = admin, rw_peth_detection = detection\<rparr> poe,
              ''(read over SNMP from '' @ tg_host target @ '':'' @ show_u16 (tg_port target)
              @ ''; no console output)''))))))))"

definition column_rows :: "row list \<Rightarrow> oid \<Rightarrow> row list" where
  "column_rows rows wanted = filter (\<lambda>(oid, v). take (length wanted) oid = wanted) rows"

definition fetch_mac_table ::
  "(snmp_target \<Rightarrow> string + snmp_session) \<Rightarrow> snmp_target \<Rightarrow> string + mac_table_entry list \<times> string" where
  "fetch_mac_table connect target =
     and_then (connect target) (\<lambda>walk.
     and_then (walk fdb_table) (\<lambda>rows.
       Inr (mac_table_from
              \<lparr>rw_address = column_rows rows fdb_address, rw_port = column_rows rows fdb_port,
               rw_status = column_rows rows fdb_status\<rparr>,
            ''(read over SNMP from '' @ tg_host target @ '':'' @ show_u16 (tg_port target)
            @ ''; no console output; BRIDGE-MIB has no VLAN)'')))"

section \<open>Properties\<close>

lemma set_tree_insert:
  "x \<in> set (tree_insert k v m) \<Longrightarrow> x = (k, v) \<or> x \<in> set m"
  by (induction k v m rule: tree_insert.induct) (auto split: if_splits)

lemma keys_tree_insert: "fst ` set (tree_insert k v m) = insert k (fst ` set m)"
  by (induction k v m rule: tree_insert.induct) auto

lemma ordered_tree_insert: "ordered_map m \<Longrightarrow> ordered_map (tree_insert k v m)"
proof (induction k v m rule: tree_insert.induct)
  case (2 k v k' v' m)
  from "2.prems" have ord: "ordered_map m" and above: "\<forall>x \<in> fst ` set m. k' < x"
    by (auto simp: ordered_map_def)
  consider "k < k'" | "k = k'" | "k' < k" by fastforce
  then show ?case
  proof cases
    case 3
    with "2.IH" ord have "ordered_map (tree_insert k v m)" by auto
    moreover have "\<forall>x \<in> fst ` set (tree_insert k v m). k' < x"
      unfolding keys_tree_insert using 3 above by simp
    ultimately show ?thesis using 3 by (auto simp: ordered_map_def)
  qed (use ord above in \<open>fastforce simp: ordered_map_def\<close>)+
qed (simp add: ordered_map_def)

lemma ordered_by_index: "ordered_map (by_index rows column)"
proof -
  have "ordered_map (fold (\<lambda>(oid, v) m. case index_of oid column of Some i \<Rightarrow> tree_insert i v m | None \<Rightarrow> m) rows m)"
    if "ordered_map m" for m
    using that by (induction rows arbitrary: m) (auto simp: ordered_tree_insert split: option.split)
  then show ?thesis by (simp add: by_index_def)
qed

text \<open>What every entry of a port status is like, in the shape the console has.\<close>

definition port_entry_ok :: "(string \<Rightarrow> bool) \<Rightarrow> port_status_entry \<Rightarrow> bool" where
  "port_entry_ok poe e \<longleftrightarrow>
     ps_port_id e \<noteq> [] \<and>
     (ps_link_status e = Some ''up'' \<or> ps_speed e = None \<and> ps_duplex e = None) \<and>
     ps_duplex e \<in> {None, Some ''full'', Some ''half''} \<and> (poe (ps_port_id e) \<or> ps_poe_status e = None)"

lemma port_entry_ok_status_entry: "name \<noteq> [] \<Longrightarrow> port_entry_ok poe (status_entry rows poe i name)"
  by (auto simp: port_entry_ok_def status_entry_def Let_def duplex_of_def int_at_def bind_eq_Some_conv)

lemma keep_entry_ok:
  assumes "list_all P es" and "P e"
  shows "list_all P (keep_entry e es)"
  using assms by (induction e es rule: keep_entry.induct) auto

lemma keep_entry_ids:
  "set (map ps_port_id (keep_entry e es)) = insert (ps_port_id e) (set (map ps_port_id es))"
  by (induction e es rule: keep_entry.induct) auto

lemma keep_entry_distinct: "distinct (map ps_port_id es) \<Longrightarrow> distinct (map ps_port_id (keep_entry e es))"
proof (induction e es rule: keep_entry.induct)
  case (2 entry e es)
  then show ?case using keep_entry_ids [of entry es] by auto
qed simp

text \<open>C31: However often a switch lists an interface over SNMP, the port status has each name once, and every entry
  has the shape of the console's: speed and duplex only for a port that is up, a PoE status only
  for a port that can have PoE.\<close>

theorem port_status_wellformed:
  "distinct (map ps_port_id (port_status_from rows poe)) \<and> list_all (port_entry_ok poe) (port_status_from rows poe)"
proof -
  have "distinct (map ps_port_id (fold (status_step rows poe) ivs es)) \<and>
      list_all (port_entry_ok poe) (fold (status_step rows poe) ivs es)"
    if "distinct (map ps_port_id es)" "list_all (port_entry_ok poe) es" for ivs es
    using that
  proof (induction ivs arbitrary: es)
    case (Cons iv ivs)
    have "distinct (map ps_port_id (status_step rows poe iv es)) \<and> list_all (port_entry_ok poe) (status_step rows poe iv es)"
      using Cons.prems keep_entry_distinct keep_entry_ok port_entry_ok_status_entry
      by (auto simp: status_step_def split: option.split)
    with Cons.IH show ?case by simp
  qed simp
  from this [of "[]"] show ?thesis by (simp add: port_status_from_def)
qed

lemma hex_digit_code: "n < 16 \<Longrightarrow> of_char (hex_digit n) = (if n < 10 then 48 + n else 87 + n)"
  by (simp add: hex_digit_def)

lemma hex_digit_ok: "n < 16 \<Longrightarrow> is_ascii_hexdigit (hex_digit n) \<and> hex_digit n \<noteq> CHR '':''"
proof
  assume n: "n < 16"
  show "is_ascii_hexdigit (hex_digit n)"
    using n by (simp add: is_ascii_hexdigit_def is_ascii_digit_def hex_digit_code)
  show "hex_digit n \<noteq> CHR '':''"
  proof
    assume "hex_digit n = CHR '':''"
    then have "of_char (hex_digit n) = (58 :: nat)" by simp
    with n show False by (simp add: hex_digit_code split: if_splits)
  qed
qed

lemma hex_byte_ok:
  assumes "b < 256"
  shows "length (hex_byte b) = 2" and "list_all is_ascii_hexdigit (hex_byte b)" and "CHR '':'' \<notin> set (hex_byte b)"
proof -
  from assms have "b div 16 < 16" by simp
  from hex_digit_ok [OF this] hex_digit_ok [of "b mod 16"]
  show "length (hex_byte b) = 2" "list_all is_ascii_hexdigit (hex_byte b)" "CHR '':'' \<notin> set (hex_byte b)"
    by (auto simp: hex_byte_def)
qed

lemma mac_bytes_ok: "mac_bytes i octets = Some bs \<Longrightarrow> length bs = 6 \<and> (\<forall>b \<in> set bs. b < 256)"
proof -
  assume m: "mac_bytes i octets = Some bs"
  have "of_char c < (256 :: nat)" for c by simp
  moreover have "unat a < 256" if "a \<le> 255" for a :: u32
    using that by (simp add: word_le_nat_alt)
  ultimately show ?thesis using m
    by (auto simp: mac_bytes_def list_all_iff split: option.splits if_splits)
qed

text \<open>Whatever a switch answers over SNMP, every address of the MAC table has the form that the reader of the
  console's MAC table accepts: six pairs of hexadecimal digits with colons.\<close>

theorem snmp_mac_addresses_wellformed:
  "list_all (\<lambda>e. forti_looks_like_mac (mt_mac_address e) \<and> mt_vlan_id e = None) (mac_table_from rows)"
proof -
  have "forti_looks_like_mac (join '':'' (map hex_byte bs))" if "length bs = 6" "\<forall>b \<in> set bs. b < 256" for bs
  proof -
    have "split_on (CHR '':'') (join '':'' (map hex_byte bs)) = map hex_byte bs"
      using that hex_byte_ok(3) by (intro split_on_join) auto
    moreover have "list_all (\<lambda>p. length p = 2 \<and> list_all is_ascii_hexdigit p) (map hex_byte bs)"
      using that(2) hex_byte_ok(1,2) by (auto simp: list_all_iff)
    ultimately show ?thesis unfolding forti_looks_like_mac_def Let_def using that(1) by (simp only: length_map simp_thms)
  qed
  then have "forti_looks_like_mac (mt_mac_address e) \<and> mt_vlan_id e = None" if "mac_row a st iv = Some e" for a st iv e
    using that mac_bytes_ok by (force simp: mac_row_def bind_eq_Some_conv split: if_splits)
  then show ?thesis by (auto simp: mac_table_from_def list_all_iff)
qed

lemma by_index_column: "by_index (column_rows rows column) column = by_index rows column"
proof -
  have "fold (\<lambda>(oid, v) m. case index_of oid column of Some i \<Rightarrow> tree_insert i v m | None \<Rightarrow> m) (column_rows rows column) m =
      fold (\<lambda>(oid, v) m. case index_of oid column of Some i \<Rightarrow> tree_insert i v m | None \<Rightarrow> m) rows m" for m
    by (induction rows arbitrary: m) (auto simp: column_rows_def index_of_def)
  then show ?thesis by (simp add: by_index_def)
qed

text \<open>Walking the whole table once and splitting it gives what walking the three columns would give: the MAC table is
  that of the rows of all columns together.\<close>

theorem fetch_mac_table_single_walk:
  "fetch_mac_table connect target =
     map_sum id (\<lambda>rows.
       (mac_table_from \<lparr>rw_address = rows, rw_port = rows, rw_status = rows\<rparr>,
        ''(read over SNMP from '' @ tg_host target @ '':'' @ show_u16 (tg_port target)
        @ ''; no console output; BRIDGE-MIB has no VLAN)'')) (and_then (connect target) (\<lambda>walk. walk fdb_table))"
  by (simp add: fetch_mac_table_def mac_table_from_def by_index_column and_then_def split: sum.split)

text \<open>The service only asks a switch over SNMP when it may read it, and with the community it was given.\<close>

lemma target_for_SomeD:
  assumes "target_for sw = Inr (Some t)"
  shows "reads_enabled sw \<and> tg_community t \<noteq> [] \<and> s_management_ip sw = Some (tg_host t)"
  using assms by (auto simp: target_for_def split: if_splits option.splits)

end
