(* ===== verification/Api_Config.thy ===== *)
theory Api_Config
  imports Merge Turns Vendor
begin

text \<open>
  The configuration store (\<^verbatim>\<open>config.rs\<close>) and the handlers of \<^verbatim>\<open>api/handlers.rs\<close> that change the
  configuration held in memory: creating or replacing, patching and deleting a switch, and reloading the
  files. A handler is a function from the store to its answer and the store; status codes and the data of
  an error are kept, the texts of answers are not. Reading the files is an argument. A handler that takes
  several locks is one step here, as if no other request came in between.
\<close>

section \<open>The store\<close>

record 'e cached =
  ca_entries :: "'e list"
  ca_raw_output :: string
  ca_fetched_at :: int
  ca_generation_id :: nat

datatype api_failure =
    Alone switch_failure
  | Merged merge_failure

fun failure_id :: "api_failure \<Rightarrow> string" where
  "failure_id (Alone f) = f_switch_id f"
| "failure_id (Merged f) = mf_switch_id f"

text \<open>The registry of secrets is not a field of the code's struct but belongs to the process.\<close>

record 's store =
  sr_switches :: "switch_config list"
  sr_tracker :: "'s tracker"
  sr_failures :: "api_failure list"
  sr_mac_table_cache :: "string \<rightharpoonup> mac_table_entry cached"
  sr_port_status_cache :: "string \<rightharpoonup> port_status_entry cached"
  sr_registry :: "string list"

definition new_store :: "nat \<Rightarrow> switch_config list \<Rightarrow> string list \<Rightarrow> 's store" where
  "new_store now switches registry =
     \<lparr>sr_switches = switches, sr_tracker = new_tracker now, sr_failures = [], sr_mac_table_cache = Map.empty,
      sr_port_status_cache = Map.empty, sr_registry = registry\<rparr>"

definition find_switch :: "string \<Rightarrow> switch_config list \<Rightarrow> switch_config option" where
  "find_switch sid = List.find (\<lambda>s. s_id s = sid)"

text \<open>\<open>iter_mut().find(..)\<close> and an assignment to what it found, or a push.\<close>

fun upsert :: "('a \<Rightarrow> 'k) \<Rightarrow> 'a \<Rightarrow> 'a list \<Rightarrow> 'a list" where
  "upsert key x [] = [x]"
| "upsert key x (y # ys) = (if key y = key x then x # ys else y # upsert key x ys)"

section \<open>Requests\<close>

datatype api_error =
    IdMismatch string string
  | NewSwitchRequires string "string list"
  | ValidationFailed config_error
  | SwitchNotFound string
  | NotInFiles string
  | NoMetadata
  | ReloadFailed string
  | BusyConfiguring string
  | BusyPending string
  | Panicked

text \<open>\<open>Panicked\<close> is no answer: the connection is closed.\<close>

fun status_code :: "api_error \<Rightarrow> nat option" where
  "status_code (IdMismatch _ _) = Some 400"
| "status_code (NewSwitchRequires _ _) = Some 400"
| "status_code (ValidationFailed _) = Some 400"
| "status_code (SwitchNotFound _) = Some 404"
| "status_code (NotInFiles _) = Some 404"
| "status_code NoMetadata = Some 500"
| "status_code (ReloadFailed _) = Some 500"
| "status_code (BusyConfiguring _) = Some 409"
| "status_code (BusyPending _) = Some 409"
| "status_code Panicked = None"

record set_request =
  rq_id :: "string option"
  rq_hostname :: "string option"
  rq_model :: "switch_model option"
  rq_management_ip :: "string option"
  rq_credentials :: "credentials option"
  rq_vlans :: "vlan list"
  rq_ports :: "port list"
  rq_port_mirrors :: "port_mirror list"
  rq_snmp :: "snmp_config option"
  rq_management_vlan :: "u16 option"

record patch_request =
  pq_id :: "string option"
  pq_hostname :: "string option"
  pq_model :: "switch_model option"
  pq_management_ip :: "string option"
  pq_credentials :: "credentials option"
  pq_vlans :: "vlan list option"
  pq_ports :: "port list option"
  pq_port_mirrors :: "port_mirror list option"
  pq_snmp :: "snmp_config option"
  pq_management_vlan :: "u16 option"

definition list_switches ::
  "'s store \<Rightarrow> (string \<times> string option \<times> switch_model option \<times> string option \<times> nat \<times> nat) list" where
  "list_switches st =
     map (\<lambda>s. (s_id s, s_hostname s, s_model s, s_management_ip s, length (s_vlans s), length (s_ports s)))
       (sr_switches st)"

definition check_body_id :: "string option \<Rightarrow> string \<Rightarrow> api_error + unit" where
  "check_body_id body_id sid =
     (case body_id of Some b \<Rightarrow> if b \<noteq> sid then Inl (IdMismatch sid b) else Inr () | None \<Rightarrow> Inr ())"

definition missing_for_new :: "set_request \<Rightarrow> string list" where
  "missing_for_new request =
     (if rq_hostname request = None then [''hostname''] else [])
     @ (if rq_model request = None then [''model''] else [])
     @ (if rq_management_ip request = None then [''management_ip''] else [])
     @ (if rq_credentials request = None then [''credentials''] else [])"

definition requested_config :: "string \<Rightarrow> set_request \<Rightarrow> switch_config" where
  "requested_config sid request =
     \<lparr>s_id = sid, s_hostname = rq_hostname request, s_model = rq_model request,
      s_management_ip = rq_management_ip request, s_credentials = rq_credentials request,
      s_vlans = rq_vlans request, s_ports = rq_ports request, s_port_mirrors = rq_port_mirrors request,
      s_snmp = rq_snmp request, s_management_vlan = rq_management_vlan request, s_validation = None,
      s_vendor_specific = Map.empty, s_settings = default_settings\<rparr>"

text \<open>The answer tells whether the switch is new (201) or replaced (200).\<close>

definition set_switch_config ::
  "(string \<Rightarrow> bool) \<Rightarrow> secret_env \<Rightarrow> string \<Rightarrow> set_request \<Rightarrow> 's store \<Rightarrow> (api_error + bool) \<times> 's store" where
  "set_switch_config is_range env sid request st =
     (case check_body_id (rq_id request) sid of
        Inl e \<Rightarrow> (Inl e, st)
      | Inr _ \<Rightarrow>
          let is_new = find_switch sid (sr_switches st) = None in
          if is_new \<and> missing_for_new request \<noteq> []
          then (Inl (NewSwitchRequires sid (missing_for_new request)), st)
          else
            (case validate_switch_config is_range env (requested_config sid request) (sr_registry st) of
               (Inl e, R) \<Rightarrow> (Inl (ValidationFailed e), st\<lparr>sr_registry := R\<rparr>)
             | (Inr new_config, R) \<Rightarrow>
                 (Inr is_new, st\<lparr>sr_registry := R, sr_switches := upsert s_id new_config (sr_switches st)\<rparr>)))"

definition or_keep :: "'a option \<Rightarrow> 'a option \<Rightarrow> 'a option" where
  "or_keep given old = (case given of Some x \<Rightarrow> Some x | None \<Rightarrow> old)"

definition upserts :: "('a \<Rightarrow> 'k) \<Rightarrow> 'a list option \<Rightarrow> 'a list \<Rightarrow> 'a list" where
  "upserts key given old = (case given of Some xs \<Rightarrow> fold (upsert key) xs old | None \<Rightarrow> old)"

definition patched_config :: "patch_request \<Rightarrow> switch_config \<Rightarrow> switch_config" where
  "patched_config request sw =
     sw\<lparr>s_hostname := or_keep (pq_hostname request) (s_hostname sw),
        s_model := or_keep (pq_model request) (s_model sw),
        s_management_ip := or_keep (pq_management_ip request) (s_management_ip sw),
        s_credentials := or_keep (pq_credentials request) (s_credentials sw),
        s_management_vlan := or_keep (pq_management_vlan request) (s_management_vlan sw),
        s_vlans := upserts v_id (pq_vlans request) (s_vlans sw),
        s_ports := upserts p_port_id (pq_ports request) (s_ports sw),
        s_port_mirrors := upserts m_session_id (pq_port_mirrors request) (s_port_mirrors sw),
        s_snmp := or_keep (pq_snmp request) (s_snmp sw)\<rparr>"

text \<open>The switch is changed in place and put back when its validation fails.\<close>

definition patch_switch_config ::
  "(string \<Rightarrow> bool) \<Rightarrow> secret_env \<Rightarrow> string \<Rightarrow> patch_request \<Rightarrow> 's store \<Rightarrow> (api_error + unit) \<times> 's store" where
  "patch_switch_config is_range env sid request st =
     (case check_body_id (pq_id request) sid of
        Inl e \<Rightarrow> (Inl e, st)
      | Inr _ \<Rightarrow>
          (case find_switch sid (sr_switches st) of
             None \<Rightarrow> (Inl (SwitchNotFound sid), st)
           | Some original \<Rightarrow>
               (case validate_switch_config is_range env (patched_config request original) (sr_registry st) of
                  (Inl e, R) \<Rightarrow>
                    (Inl (ValidationFailed e),
                     st\<lparr>sr_registry := R, sr_switches := upsert s_id original (sr_switches st)\<rparr>)
                | (Inr sw, R) \<Rightarrow>
                    (Inr (), st\<lparr>sr_registry := R, sr_switches := upsert s_id sw (sr_switches st)\<rparr>))))"

datatype merge_preview =
    InvalidPreview api_failure
  | ValidPreview switch_config

definition get_merge_preview :: "string \<Rightarrow> 's store \<Rightarrow> api_error + merge_preview" where
  "get_merge_preview sid st =
     (case List.find (\<lambda>f. failure_id f = sid) (sr_failures st) of
        Some failure \<Rightarrow> Inr (InvalidPreview failure)
      | None \<Rightarrow>
          (case find_switch sid (sr_switches st) of
             Some sw \<Rightarrow> Inr (ValidPreview sw) | None \<Rightarrow> Inl (SwitchNotFound sid)))"

definition get_desired_config :: "string \<Rightarrow> 's store \<Rightarrow> api_error + switch_config" where
  "get_desired_config sid st =
     (case find_switch sid (sr_switches st) of Some sw \<Rightarrow> Inr sw | None \<Rightarrow> Inl (SwitchNotFound sid))"

definition delete_switch_config :: "string \<Rightarrow> 's store \<Rightarrow> (api_error + unit) \<times> 's store" where
  "delete_switch_config sid st =
     (let kept = filter (\<lambda>s. s_id s \<noteq> sid) (sr_switches st) in
      if length kept < length (sr_switches st)
      then (Inr (), st\<lparr>sr_switches := kept, sr_mac_table_cache := (sr_mac_table_cache st)(sid := None),
                       sr_port_status_cache := (sr_port_status_cache st)(sid := None)\<rparr>)
      else (Inl (SwitchNotFound sid), st))"

section \<open>Reloading the files\<close>

text \<open>What reading and parsing gives: one file, or a main file with those of the folders.\<close>

datatype config_files =
    OneFile "switch_config list"
  | SeveralFiles config_with_metadata "config_with_metadata list"

record loader =
  ld_is_range :: "string \<Rightarrow> bool"
  ld_env :: secret_env
  ld_iter :: "string list \<Rightarrow> string list"
  ld_read :: "string \<Rightarrow> string list \<Rightarrow> string + config_files"
  ld_message :: "merge_error \<Rightarrow> string"

definition load_files ::
  "loader \<Rightarrow> string \<times> string list \<Rightarrow> string list \<Rightarrow>
   (string + switch_config list \<times> api_failure list) \<times> string list" where
  "load_files ld paths registry =
     (case ld_read ld (fst paths) (snd paths) of
        Inl e \<Rightarrow> (Inl e, registry)
      | Inr (OneFile switches) \<Rightarrow>
          (case validate_all_switches (ld_is_range ld) (ld_env ld) switches registry of
             ((valid, failures), R) \<Rightarrow> (Inr (valid, map Alone failures), R))
      | Inr (SeveralFiles main folders) \<Rightarrow>
          (case load_multi (ld_is_range ld) (ld_env ld) (ld_iter ld) main folders registry of
             (Inl e, R) \<Rightarrow> (Inl (ld_message ld e), R)
           | (Inr (valid, failures), R) \<Rightarrow> (Inr (valid, map Merged failures), R)))"

text \<open>The switches whose turn was taken, those that are busy, and the tracker.\<close>

fun acquire_each ::
  "'s sem_ops \<Rightarrow> switch_config list \<Rightarrow> 's tracker \<Rightarrow> switch_config list \<times> string list \<times> 's tracker" where
  "acquire_each ops [] tr = ([], [], tr)"
| "acquire_each ops (sw # sws) tr =
     (case try_acquire_configuring ops (s_id sw) tr of
        (got, tr1) \<Rightarrow>
          (case acquire_each ops sws tr1 of
             (taken, skipped, tr2) \<Rightarrow>
               if got then (sw # taken, skipped, tr2) else (taken, s_id sw # skipped, tr2)))"

definition prune :: "switch_config list \<Rightarrow> (string \<rightharpoonup> 'a) \<Rightarrow> (string \<rightharpoonup> 'a)" where
  "prune switches cache = (\<lambda>sid. if find_switch sid switches = None then None else cache sid)"

text \<open>The answer has the switches to configure, each by a task of its own, and those that are skipped.\<close>

definition reload_config ::
  "'s sem_ops \<Rightarrow> loader \<Rightarrow> nat \<Rightarrow> 's store \<Rightarrow> (api_error + switch_config list \<times> string list) \<times> 's store" where
  "reload_config ops ld now st =
     (case get_config_paths (sr_tracker st) of
        None \<Rightarrow> (Inl NoMetadata, st)
      | Some paths \<Rightarrow>
          (case load_files ld paths (sr_registry st) of
             (Inl e, R) \<Rightarrow>
               (Inl (ReloadFailed e),
                st\<lparr>sr_registry := R,
                   sr_tracker := record_error now ''ConfigReload'' e None ''reload_config'' (sr_tracker st)\<rparr>)
           | (Inr (switches, failures), R) \<Rightarrow>
               (case initialize_switches switches (sr_tracker st) of
                  (panic, tr1) \<Rightarrow>
                    let st1 = st\<lparr>sr_registry := R, sr_failures := failures, sr_switches := switches, sr_tracker := tr1\<rparr> in
                    if panic then (Inl Panicked, st1)
                    else
                      (case acquire_each ops switches tr1 of
                         (taken, skipped, tr2) \<Rightarrow>
                           (Inr (taken, skipped),
                            st1\<lparr>sr_tracker := tr2,
                                sr_mac_table_cache := prune switches (sr_mac_table_cache st1),
                                sr_port_status_cache := prune switches (sr_port_status_cache st1)\<rparr>)))))"

text \<open>\<open>release\<close> of a guard, or its \<open>drop\<close>, whose cleanup task is taken to run at once (see \<open>Turns\<close>).\<close>

definition release_guard :: "'s sem_ops \<Rightarrow> string \<Rightarrow> 's tracker \<Rightarrow> 's tracker" where
  "release_guard ops sid tr = set_turn (sem_release ops) sid (clear_currently_configuring sid tr)"

text \<open>On success the guard goes to the task that applies the configuration; otherwise it is dropped.\<close>

definition reload_switch_config ::
  "'s sem_ops \<Rightarrow> loader \<Rightarrow> string \<Rightarrow> 's store \<Rightarrow>
   (api_error + switch_config) \<times> 's store" where
  "reload_switch_config ops ld sid st =
     (case try_acquire_configuring ops sid (sr_tracker st) of
        (False, tr) \<Rightarrow>
          (Inl (if is_currently_configuring sid tr then BusyConfiguring sid else BusyPending sid),
           st\<lparr>sr_tracker := tr\<rparr>)
      | (True, tr) \<Rightarrow>
          (case get_config_paths tr of
             None \<Rightarrow> (Inl NoMetadata, st\<lparr>sr_tracker := release_guard ops sid tr\<rparr>)
           | Some paths \<Rightarrow>
               (case load_files ld paths (sr_registry st) of
                  (Inl e, R) \<Rightarrow>
                    (Inl (ReloadFailed e), st\<lparr>sr_registry := R, sr_tracker := release_guard ops sid tr\<rparr>)
                | (Inr (switches, failures), R) \<Rightarrow>
                    let st1 = st\<lparr>sr_registry := R, sr_failures := failures\<rparr> in
                    (case find_switch sid switches of
                       None \<Rightarrow> (Inl (NotInFiles sid), st1\<lparr>sr_tracker := release_guard ops sid tr\<rparr>)
                     | Some sw \<Rightarrow>
                         let st2 = st1\<lparr>sr_switches := upsert s_id sw (sr_switches st1)\<rparr> in
                         (case initialize_switches [sw] tr of
                            (True, tr1) \<Rightarrow> (Inl Panicked, st2\<lparr>sr_tracker := release_guard ops sid tr1\<rparr>)
                          | (False, tr1) \<Rightarrow> (Inr sw, st2\<lparr>sr_tracker := tr1\<rparr>))))))"

end
