(* ===== verification/Api_Store.thy ===== *)
theory Api_Store
  imports Api_Config
begin

text \<open>
  What the requests of \<open>Api_Config\<close> keep of the configuration held in memory: the invariant of the store,
  what a rejected request leaves, what a patch changes, and how the busy flag is given back.
\<close>

section \<open>Lists with a key\<close>

lemma upsert_keys:
  "map key (upsert key x xs) = (if key x \<in> set (map key xs) then map key xs else map key xs @ [key x])"
  by (induction xs) auto

lemma distinct_upsert: "distinct (map key xs) \<Longrightarrow> distinct (map key (upsert key x xs))"
  by (simp add: upsert_keys)

lemma set_upsert: "y \<in> set (upsert key x xs) \<Longrightarrow> y = x \<or> y \<in> set xs"
  by (induction xs) (auto split: if_splits)

lemma upsert_same: "List.find (\<lambda>y. key y = key x) xs = Some x \<Longrightarrow> upsert key x xs = xs"
  by (induction xs) (auto split: if_splits)

lemma find_upsert:
  "List.find (\<lambda>y. key y = k) (upsert key x xs) =
     (if key x = k then Some x else List.find (\<lambda>y. key y = k) xs)"
  by (induction xs) auto

lemma find_switch_Some: "find_switch sid sws = Some sw \<Longrightarrow> sw \<in> set sws \<and> s_id sw = sid"
  by (auto simp: find_switch_def find_Some_iff)

lemma find_switch_None: "find_switch sid sws = None \<longleftrightarrow> sid \<notin> s_id ` set sws"
  by (auto simp: find_switch_def find_None_iff)

lemma find_switch_upsert:
  "find_switch sid (upsert s_id sw sws) = (if s_id sw = sid then Some sw else find_switch sid sws)"
  by (simp add: find_switch_def find_upsert)

lemma distinct_partL: "mset xs + mset ys = mset zs \<Longrightarrow> distinct zs \<Longrightarrow> distinct xs"
  using mset_eq_imp_distinct_iff [of "xs @ ys" zs] by simp

section \<open>The invariant of the store\<close>

definition usable_switch :: "(string \<Rightarrow> bool) \<Rightarrow> switch_config \<Rightarrow> bool" where
  "usable_switch is_range sw \<longleftrightarrow>
     get_missing_required_fields sw = [] \<and> references_ok is_range sw \<and>
     list_all no_pending_names (s_ports sw) \<and> check_vendor_support sw = Inr ()"

definition store_ok :: "(string \<Rightarrow> bool) \<Rightarrow> 's store \<Rightarrow> bool" where
  "store_ok is_range st \<longleftrightarrow>
     distinct (map s_id (sr_switches st)) \<and> list_all (usable_switch is_range) (sr_switches st)"

lemma validated_usable:
  assumes "validate_switch_config is_range env sw R = (Inr sw', R')"
  shows "usable_switch is_range sw' \<and> s_id sw' = s_id sw"
  using validate_switch_config_sound [OF assms] by (auto simp: usable_switch_def valid_switch_def list_all_iff)

lemma upsert_switches_ok:
  assumes "distinct (map s_id sws)" and "list_all (usable_switch is_range) sws" and "usable_switch is_range sw"
  shows "distinct (map s_id (upsert s_id sw sws)) \<and> list_all (usable_switch is_range) (upsert s_id sw sws)"
  using assms distinct_upsert set_upsert by (fastforce simp: list_all_iff)

lemma set_switch_config_ok:
  assumes "store_ok is_range st"
  shows "store_ok is_range (snd (set_switch_config is_range env sid request st))"
  using assms upsert_switches_ok validated_usable
  by (fastforce simp: set_switch_config_def store_ok_def Let_def split: sum.split prod.split)

lemma rollback_same:
  "find_switch sid sws = Some sw \<Longrightarrow> upsert s_id sw sws = sws"
  using find_switch_Some [of sid sws sw] by (auto simp: find_switch_def intro: upsert_same)

lemma patch_switch_config_ok:
  assumes "store_ok is_range st"
  shows "store_ok is_range (snd (patch_switch_config is_range env sid request st))"
  using assms upsert_switches_ok validated_usable
  by (fastforce simp: patch_switch_config_def store_ok_def rollback_same split: sum.split prod.split option.split)

lemma delete_switch_config_ok:
  assumes "store_ok is_range st"
  shows "store_ok is_range (snd (delete_switch_config sid st))"
  using assms by (auto simp: delete_switch_config_def store_ok_def Let_def list_all_iff distinct_map_filter)

text \<open>Files are loaded in the iteration order of hash maps; a file that is loaded alone is not checked for
  ids that occur twice.\<close>

definition loader_ok :: "(string \<Rightarrow> bool) \<Rightarrow> loader \<Rightarrow> bool" where
  "loader_ok is_range ld \<longleftrightarrow>
     ld_is_range ld = is_range \<and> iterates (ld_iter ld) \<and>
     (\<forall>file folders switches. ld_read ld file folders = Inr (OneFile switches) \<longrightarrow> distinct (map s_id switches))"

lemma load_files_ok:
  assumes "loader_ok is_range ld" and "load_files ld paths R = (Inr (switches, failures), R')"
  shows "distinct (map s_id switches) \<and> list_all (usable_switch is_range) switches"
proof (cases "ld_read ld (fst paths) (snd paths)")
  case (Inr files)
  show ?thesis
  proof (cases files)
    case (OneFile sws)
    with assms Inr obtain fs where v: "validate_all_switches is_range (ld_env ld) sws R = ((switches, fs), R')"
      by (auto simp: load_files_def loader_ok_def split: prod.splits)
    note part = validate_all_switches_partition [OF v]
    moreover have "distinct (map s_id sws)" using assms(1) Inr OneFile by (auto simp: loader_ok_def)
    ultimately have "distinct (map s_id switches)" using distinct_partL by blast
    with part show ?thesis by (auto simp: usable_switch_def valid_switch_def list_all_iff)
  next
    case (SeveralFiles main folders)
    with assms Inr obtain fs where
      m: "merge_configs is_range (ld_env ld) (ld_iter ld) (sort_key cm_merge_priority (main # folders)) R =
        (Inr (switches, fs), R')" and it: "iterates (ld_iter ld)"
      by (auto simp: load_files_def load_multi_def loader_ok_def split: sum.splits prod.splits)
    note part = merge_configs_sound [OF m it]
    then have "distinct (map s_id switches)" using distinct_partL distinct_remdups by blast
    with part show ?thesis by (auto simp: usable_switch_def list_all_iff)
  qed
qed (use assms(2) in \<open>simp add: load_files_def\<close>)

lemma reload_config_ok:
  assumes "store_ok is_range st" and "loader_ok is_range ld"
  shows "store_ok is_range (snd (reload_config ops ld now st))"
  using assms(1) load_files_ok [OF assms(2)]
  by (fastforce simp: reload_config_def store_ok_def Let_def split: sum.split prod.split option.split)

lemma reload_switch_config_ok:
  assumes "store_ok is_range st" and "loader_ok is_range ld"
  shows "store_ok is_range (snd (reload_switch_config ops ld sid st))"
proof -
  have "usable_switch is_range sw"
    if "load_files ld paths R = (Inr (sws, fs), R')" and "find_switch sid sws = Some sw" for paths R sws fs R' sw
    using load_files_ok [OF assms(2) that(1)] find_switch_Some [OF that(2)] by (auto simp: list_all_iff)
  with assms(1) upsert_switches_ok show ?thesis
    by (fastforce simp: reload_switch_config_def store_ok_def Let_def split: sum.split prod.split option.split bool.split)
qed

section \<open>Any requests\<close>

datatype api_request =
    PutSwitch string set_request
  | PatchSwitch string patch_request
  | DeleteSwitch string
  | ReloadAll loader nat
  | ReloadSwitch loader string

fun request_ok :: "(string \<Rightarrow> bool) \<Rightarrow> api_request \<Rightarrow> bool" where
  "request_ok is_range (ReloadAll ld now) = loader_ok is_range ld"
| "request_ok is_range (ReloadSwitch ld sid) = loader_ok is_range ld"
| "request_ok is_range _ = True"

fun failed :: "'e + 'a \<Rightarrow> 'e option" where
  "failed (Inl e) = Some e"
| "failed (Inr _) = None"

text \<open>The error, if any, and the store after a request.\<close>

fun serve ::
  "'s sem_ops \<Rightarrow> (string \<Rightarrow> bool) \<Rightarrow> secret_env \<Rightarrow> api_request \<Rightarrow> 's store \<Rightarrow> api_error option \<times> 's store" where
  "serve ops is_range env (PutSwitch sid request) st = map_prod failed id (set_switch_config is_range env sid request st)"
| "serve ops is_range env (PatchSwitch sid request) st = map_prod failed id (patch_switch_config is_range env sid request st)"
| "serve ops is_range env (DeleteSwitch sid) st = map_prod failed id (delete_switch_config sid st)"
| "serve ops is_range env (ReloadAll ld now) st = map_prod failed id (reload_config ops ld now st)"
| "serve ops is_range env (ReloadSwitch ld sid) st = map_prod failed id (reload_switch_config ops ld sid st)"

definition serve_all ::
  "'s sem_ops \<Rightarrow> (string \<Rightarrow> bool) \<Rightarrow> secret_env \<Rightarrow> api_request list \<Rightarrow> 's store \<Rightarrow> 's store" where
  "serve_all ops is_range env = fold (\<lambda>r st. snd (serve ops is_range env r st))"

lemma serve_ok:
  "store_ok is_range st \<Longrightarrow> request_ok is_range r \<Longrightarrow> store_ok is_range (snd (serve ops is_range env r st))"
  by (cases r) (simp_all add: set_switch_config_ok patch_switch_config_ok delete_switch_config_ok
      reload_config_ok reload_switch_config_ok)

lemma serve_all_ok:
  "store_ok is_range st \<Longrightarrow> list_all (request_ok is_range) rs \<Longrightarrow> store_ok is_range (serve_all ops is_range env rs st)"
  by (induction rs arbitrary: st) (simp_all add: serve_all_def serve_ok)

lemma usable_driver: "usable_switch is_range sw \<Longrightarrow> new_driver sw enforce \<noteq> None"
  by (cases "s_hostname sw"; cases "s_model sw")
    (simp_all add: usable_switch_def get_missing_required_fields_def new_driver_def hostname_of_def model_of_def)


definition example_loader :: loader where
  "example_loader =
     \<lparr>ld_is_range = (\<lambda>_. False), ld_env = example_secret_env, ld_iter = (\<lambda>xs. xs),
      ld_read = (\<lambda>_ _. Inr (OneFile [example_complete [plain_port True ''1'']])), ld_message = (\<lambda>_. [])\<rparr>"

lemma example_loads:
  "load_files example_loader paths [] = (Inr ([example_complete [plain_port True ''1'']], []), [])"
proof -
  have "validate_switch_config (\<lambda>_. False) example_secret_env (example_complete [plain_port True ''1'']) [] =
     (Inr (example_complete [plain_port True ''1'']), [])"
    by (rule example_validates) simp
  then show ?thesis by (simp add: load_files_def example_loader_def)
qed

lemma example_loader_ok: "loader_ok (\<lambda>_. False) example_loader"
  by (simp add: loader_ok_def example_loader_def iterates_id)


section \<open>Rejected requests\<close>

lemma usable_initial: "usable_switch is_range sw \<Longrightarrow> initial_status sw \<noteq> None"
  by (auto simp: usable_switch_def get_missing_required_fields_def split: option.splits if_splits)

lemma usable_no_panic: "list_all (usable_switch is_range) sws \<Longrightarrow> \<not> fst (initialize_switches sws tr)"
proof (induction sws arbitrary: tr)
  case (Cons sw sws)
  then obtain st where "initial_status sw = Some st" using usable_initial by fastforce
  with Cons show ?case by (simp del: initial_status.simps)
qed simp

lemma reload_config_rejected:
  assumes "reload_config ops ld now st = (Inl e, st')" and "loader_ok is_range ld"
  shows "sr_switches st' = sr_switches st \<and> sr_mac_table_cache st' = sr_mac_table_cache st \<and>
    sr_port_status_cache st' = sr_port_status_cache st \<and> e \<noteq> Panicked"
proof -
  have "\<not> fst (initialize_switches sws (sr_tracker st))"
    if "load_files ld paths R = (Inr (sws, fs), R')" for paths R sws fs R'
    using load_files_ok [OF assms(2) that] usable_no_panic by blast
  with assms(1) show ?thesis
    by (fastforce simp: reload_config_def Let_def split: option.splits sum.splits prod.splits if_splits)
qed

lemma reload_switch_config_rejected:
  assumes "reload_switch_config ops ld sid st = (Inl e, st')" and "loader_ok is_range ld"
  shows "sr_switches st' = sr_switches st \<and> sr_mac_table_cache st' = sr_mac_table_cache st \<and>
    sr_port_status_cache st' = sr_port_status_cache st \<and> e \<noteq> Panicked"
proof -
  have "\<not> fst (initialize_switches [sw] tr)"
    if "load_files ld paths R = (Inr (sws, fs), R')" and "find_switch sid sws = Some sw" for paths R sws fs R' sw tr
    using load_files_ok [OF assms(2) that(1)] find_switch_Some [OF that(2)] usable_no_panic [of is_range "[sw]" tr]
    by (simp add: list_all_iff)
  note calm = this
  obtain got tr where got: "try_acquire_configuring ops sid (sr_tracker st) = (got, tr)" by fastforce
  show ?thesis
  proof (cases "got \<and> get_config_paths tr \<noteq> None")
    case True
    then obtain paths where paths: "got" "get_config_paths tr = Some paths" by auto
    obtain x R' where l0: "load_files ld paths (sr_registry st) = (x, R')" by fastforce
    show ?thesis
    proof (cases x)
      case (Inr loaded)
      then obtain sws fs where l: "load_files ld paths (sr_registry st) = (Inr (sws, fs), R')"
        using l0 by (cases loaded) simp
      show ?thesis
      proof (cases "find_switch sid sws")
        case (Some sw)
        from calm [OF l Some, of tr] obtain tr1 where "initialize_switches [sw] tr = (False, tr1)"
          by (cases "initialize_switches [sw] tr") simp
        with assms(1) got paths l Some show ?thesis
          by (simp add: reload_switch_config_def Let_def del: initialize_switches.simps)
      qed (use assms(1) got paths l in \<open>auto simp: reload_switch_config_def Let_def\<close>)
    qed (use assms(1) got paths l0 in \<open>auto simp: reload_switch_config_def\<close>)
  next
    case False
    then have "got \<longrightarrow> get_config_paths tr = None" by blast
    with assms(1) got show ?thesis by (cases got) (auto simp: reload_switch_config_def split: if_splits)
  qed
qed


definition no_patch :: patch_request where
  "no_patch =
     \<lparr>pq_id = None, pq_hostname = None, pq_model = None, pq_management_ip = None, pq_credentials = None,
      pq_vlans = None, pq_ports = None, pq_port_mirrors = None, pq_snmp = None, pq_management_vlan = None\<rparr>"

lemma example_invalid:
  "validate_switch_config (\<lambda>_. False) example_secret_env
     ((example_complete [plain_port True ''1''])\<lparr>s_vlans := [example_vlan 10 ''office'', example_vlan 0 ''zero'']\<rparr>) [] =
   (Inl StructureInvalid, [])" (is "validate_switch_config _ _ ?sw _ = _")
proof -
  have "expand_port_ranges ?sw = Inr ?sw"
    by (rule expanded_fixpoint) (simp add: expanded_def example_complete_def)
  moreover have "\<not> structure_ok ?sw"
    by (simp add: structure_ok_iff valid_vlan_id_def example_vlan_def)
  moreover have "get_missing_required_fields ?sw = []"
    by (simp add: get_missing_required_fields_def example_complete_def)
  ultimately show ?thesis
    by (simp add: validate_switch_config_def validate_required_fields_def validate_structure_def)
qed

lemma example_rejected:
  "serve fifo_ops (\<lambda>_. False) example_secret_env (PatchSwitch ''sw1'' (no_patch\<lparr>pq_vlans := Some [example_vlan 0 ''zero'']\<rparr>))
     (new_store 0 [example_complete [plain_port True ''1'']] []) =
   (Some (ValidationFailed StructureInvalid), new_store 0 [example_complete [plain_port True ''1'']] [])"
proof -
  have "find_switch ''sw1'' [example_complete [plain_port True ''1'']] = Some (example_complete [plain_port True ''1''])"
    by (simp add: find_switch_def example_complete_def)
  moreover have "patched_config (no_patch\<lparr>pq_vlans := Some [example_vlan 0 ''zero'']\<rparr>) (example_complete [plain_port True ''1'']) =
      (example_complete [plain_port True ''1''])\<lparr>s_vlans := [example_vlan 10 ''office'', example_vlan 0 ''zero'']\<rparr>"
    by (simp add: patched_config_def no_patch_def or_keep_def upserts_def example_complete_def example_vlan_def)
  moreover have "upsert s_id (example_complete ps) [example_complete ps] = [example_complete ps]" for ps
    by simp
  moreover have "pq_id no_patch = None" by (simp add: no_patch_def)
  ultimately show ?thesis by (simp add: patch_switch_config_def check_body_id_def new_store_def example_invalid)
qed


section \<open>What a request changes\<close>

lemma validate_switch_config_frame:
  assumes "validate_switch_config is_range env sw R = (Inr sw', R')"
  shows "\<exists>ps ms x. sw' = sw\<lparr>s_ports := ps, s_port_mirrors := ms, s_snmp := x\<rparr>"
proof -
  from assms obtain sw1 sw2 sw3 where exp: "expand_port_ranges sw = Inr sw1"
    and sec: "resolve_snmp_secrets env (sw1, R) = (None, (sw2, R'))"
    and nam: "resolve_vlan_names False sw2 = Inr sw3"
    and ref: "validate_vlan_references_inner is_range False sw3 = Inr sw'"
    by (auto simp: validate_switch_config_def validate_vlan_references_def res_simps
        split: sum.splits prod.splits option.splits)
  obtain ps ms where sw1: "sw1 = sw\<lparr>s_ports := ps, s_port_mirrors := ms\<rparr>" using expand_port_ranges_frame [OF exp] by blast
  obtain x where sw2: "sw2 = sw1\<lparr>s_snmp := x\<rparr>" using resolve_snmp_secrets_frame [OF sec] by blast
  obtain qs where sw3: "sw3 = sw2\<lparr>s_ports := qs\<rparr>" using resolve_vlan_names_InrE [OF nam] by metis
  obtain rs where sw': "sw' = sw3\<lparr>s_ports := rs\<rparr>"
    using validate_vlan_references_result [OF ref] by (auto split: if_splits)
  show ?thesis unfolding sw' sw3 sw2 sw1 by (intro exI [of _ rs] exI [of _ ms] exI [of _ x]) simp
qed

text \<open>What \<open>PUT\<close> stores is what \<open>GET\<close> gives, validated; other switches stay. What a request cannot
  give is reset, also for a switch that had it (\<open>enforce_port_config\<close> among the settings).\<close>

theorem put_then_get:
  assumes "set_switch_config is_range env sid request st = (Inr is_new, st')"
  shows "is_new = (find_switch sid (sr_switches st) = None) \<and>
    (\<exists>sw R. validate_switch_config is_range env (requested_config sid request) (sr_registry st) = (Inr sw, R) \<and>
       get_desired_config sid st' = Inr sw \<and> s_vlans sw = rq_vlans request \<and>
       s_settings sw = default_settings \<and> s_validation sw = None) \<and>
    (sid' = sid \<or> get_desired_config sid' st' = get_desired_config sid' st)"
proof -
  from assms obtain sw R where v: "validate_switch_config is_range env (requested_config sid request) (sr_registry st) = (Inr sw, R)"
    and n: "is_new = (find_switch sid (sr_switches st) = None)"
    and st': "st' = st\<lparr>sr_registry := R, sr_switches := upsert s_id sw (sr_switches st)\<rparr>"
    by (auto simp: set_switch_config_def Let_def split: sum.splits prod.splits if_splits)
  have "s_id sw = sid" using validated_usable [OF v] by (simp add: requested_config_def)
  moreover have "s_vlans sw = rq_vlans request \<and> s_settings sw = default_settings \<and> s_validation sw = None"
    using validate_switch_config_frame [OF v] by (auto simp: requested_config_def)
  ultimately show ?thesis
    using v n by (auto simp: st' get_desired_config_def find_switch_upsert)
qed

lemma find_upserts:
  "List.find (\<lambda>y. key y = k) (upserts key given old) =
     (case Option.bind given (\<lambda>xs. List.find (\<lambda>y. key y = k) (rev xs)) of
        Some x \<Rightarrow> Some x | None \<Rightarrow> List.find (\<lambda>y. key y = k) old)"
proof (cases given)
  case (Some xs)
  have "List.find (\<lambda>y. key y = k) (fold (upsert key) xs old) =
      (case List.find (\<lambda>y. key y = k) (rev xs) of Some x \<Rightarrow> Some x | None \<Rightarrow> List.find (\<lambda>y. key y = k) old)"
  proof (induction xs rule: rev_induct)
    case (snoc x xs)
    then show ?case by (simp add: find_upsert)
  qed simp
  with Some show ?thesis by (simp add: upserts_def)
qed (simp add: upserts_def)


lemma example_find: "find_switch ''sw1'' [example_complete ps] = Some (example_complete ps)"
  by (simp add: find_switch_def example_complete_def)

lemma example_put: "upsert s_id (example_complete ps) [example_complete qs] = [example_complete ps]"
  by (simp add: example_complete_def)

lemma example_ports_patched:
  "patched_config (no_patch\<lparr>pq_ports := Some qs\<rparr>) (example_complete ps) = example_complete (fold (upsert p_port_id) qs ps)"
  by (simp add: patched_config_def no_patch_def or_keep_def upserts_def example_complete_def)

lemma example_patched:
  assumes "validate_switch_config (\<lambda>_. False) example_secret_env (example_complete (fold (upsert p_port_id) qs ps)) [] =
    (Inr (example_complete rs), [])"
  shows "patch_switch_config (\<lambda>_. False) example_secret_env ''sw1'' (no_patch\<lparr>pq_ports := Some qs\<rparr>)
      (new_store 0 [example_complete ps] []) =
    (Inr (), new_store 0 [example_complete rs] [])"
proof -
  have "pq_id no_patch = None" by (simp add: no_patch_def)
  with assms show ?thesis
    by (simp add: patch_switch_config_def check_body_id_def new_store_def example_find example_ports_patched example_put
        del: upsert.simps)
qed


lemma duplicate_description_never_in_sync:
  "has_changes (compute_diff it cur (example_complete (plain_port True ''1'' # plain_port False ''1'' # ps)) f)"
proof -
  have "\<not> port_view poe (plain_port True ''1'') = port_view poe (plain_port False ''1'')" for poe
    by (simp add: port_view_def plain_port_def)
  then have "filter (port_needs_config poe qs) (plain_port True ''1'' # plain_port False ''1'' # ps) \<noteq> []" for poe qs
    unfolding ports_in_sync_iff by (auto simp: ports_equivalent_for_model_def Let_def plain_port_def)
  then show ?thesis
    using has_changes_compute_diff [of it cur "example_complete (plain_port True ''1'' # plain_port False ''1'' # ps)" f]
    by (auto simp: example_complete_def)
qed

text \<open>A patch is merged by the text of \<open>port_id\<close>, before lists and ranges of ports are expanded: a patch for the ports
  \<open>1, 2\<close> of a switch that has port \<open>1\<close> is accepted and describes port \<open>1\<close> twice, so that no state of the switch
  is in sync with its configuration any more.\<close>

theorem patch_duplicates_port:
  "patch_switch_config (\<lambda>_. False) example_secret_env ''sw1'' (no_patch\<lparr>pq_ports := Some [plain_port False ''1, 2'']\<rparr>)
     (new_store 0 [example_complete [plain_port True ''1'']] []) =
   (Inr (), new_store 0 [example_complete [plain_port True ''1'', plain_port False ''1'', plain_port False ''2'']] []) \<and>
   has_changes (compute_diff it cur
     (example_complete [plain_port True ''1'', plain_port False ''1'', plain_port False ''2'']) f)"
proof -
  let ?sw = "example_complete [plain_port True ''1'', plain_port False ''1, 2'']"
  let ?sw' = "example_complete [plain_port True ''1'', plain_port False ''1'', plain_port False ''2'']"
  have "parse_port_id ''1, 2'' = Inr [''1'', ''2'']"
    by (simp add: parse_port_id_def parse_segment_def split_once_def trim_eval)
  then have exp: "expand_port_ranges ?sw = Inr ?sw'"
    by (simp add: expand_port_ranges_def example_complete_def expand_port_def plain_port_def parse_single_port)
  have "validate_switch_config (\<lambda>_. False) example_secret_env ?sw' [] = (Inr ?sw', [])"
    by (rule example_validates) simp
  moreover have "expand_port_ranges ?sw' = Inr ?sw'"
    by (rule expanded_fixpoint) (simp add: expanded_def example_complete_def plain_port_def)
  ultimately have "validate_switch_config (\<lambda>_. False) example_secret_env ?sw [] = (Inr ?sw', [])"
    by (simp only: validate_switch_config_def exp)
  moreover have "fold (upsert p_port_id) [plain_port False ''1, 2''] [plain_port True ''1''] =
      [plain_port True ''1'', plain_port False ''1, 2'']"
    by (simp add: plain_port_def)
  ultimately show ?thesis using example_patched duplicate_description_never_in_sync by metis
qed

section \<open>The busy flag\<close>

lemma release_after_acquire:
  assumes "fair_semaphore ops view" and "try_acquire_configuring ops sid tr = (True, tr1)"
    and "tr_gates tr sid = Some g" and "l_queue (view (g_turn g)) = []" and "same_turns tr1 tr2"
  shows "tr_currently_configuring (release_guard ops sid tr2) = tr_currently_configuring tr \<and>
    map_option (\<lambda>g. view (g_turn g)) (tr_gates (release_guard ops sid tr2) sid) = Some (view (g_turn g))"
proof -
  note sem = fair_semaphore.view_try [OF assms(1)] fair_semaphore.view_release [OF assms(1)]
    fair_semaphore.try_None [OF assms(1)]
  from assms(2,3) obtain s where "sid \<notin> tr_currently_configuring tr" and s: "sem_try ops (g_turn g) = Some s"
    and tr1: "tr1 = set_currently_configuring sid (on_gate (\<lambda>g. g\<lparr>g_turn := s\<rparr>) sid tr)"
    by (auto simp: try_acquire_configuring_def open_gate_def Let_def split: if_splits option.splits)
  moreover have "l_free (view (g_turn g)) \<noteq> 0" using s sem(3) [of "g_turn g"] by auto
  moreover have "view s = view (g_turn g)\<lparr>l_free := l_free (view (g_turn g)) - 1\<rparr>" by (rule sem(1) [OF s])
  ultimately show ?thesis using assms(3,4,5)
    by (auto simp: release_guard_def clear_currently_configuring_def set_currently_configuring_def on_gate_def
        same_turns_def sem(2) hand_on_def)
qed

text \<open>C35: A reload of one switch that does not hand its guard to the task that applies the configuration gives it back,
  on every way out: the switches that are busy are the same as before, and the semaphore of the switch is in the same state.\<close>

theorem reload_gives_guard_back:
  assumes "fair_semaphore ops view" and "reload_switch_config ops ld sid st = (Inl e, st')"
    and "tr_gates (sr_tracker st) sid = Some g" and "l_queue (view (g_turn g)) = []"
  shows "tr_currently_configuring (sr_tracker st') = tr_currently_configuring (sr_tracker st) \<and>
    map_option (\<lambda>g. view (g_turn g)) (tr_gates (sr_tracker st') sid) = Some (view (g_turn g))"
proof -
  obtain got tr where got: "try_acquire_configuring ops sid (sr_tracker st) = (got, tr)" by fastforce
  show ?thesis
  proof (cases got)
    case False
    with got assms(3) have "tr = sr_tracker st"
      by (auto simp: try_acquire_configuring_def open_gate_def Let_def split: if_splits option.splits)
    with False got assms(2,3) show ?thesis by (auto simp: reload_switch_config_def)
  next
    case True
    with got have acq: "try_acquire_configuring ops sid (sr_tracker st) = (True, tr)" by simp
    have "same_turns tr tr" by (simp add: same_turns_def)
    moreover have "same_turns tr (snd (initialize_switches [sw] tr))" for sw by (rule initialize_same_turns)
    moreover have "\<exists>tr2. sr_tracker st' = release_guard ops sid tr2 \<and>
        (tr2 = tr \<or> (\<exists>sw. tr2 = snd (initialize_switches [sw] tr)))"
      using assms(2) acq
      by (auto simp: reload_switch_config_def Let_def simp del: initialize_switches.simps
          split: option.splits sum.splits prod.splits bool.splits) (metis snd_conv)+
    ultimately obtain tr2 where "sr_tracker st' = release_guard ops sid tr2" "same_turns tr tr2" by auto
    with release_after_acquire [OF assms(1) acq assms(3,4)] show ?thesis by simp
  qed
qed

definition example_idle :: "line store" where
  "example_idle = (new_store 0 [] [])\<lparr>sr_tracker := (new_tracker 0)\<lparr>tr_gates := [''sw1'' \<mapsto> new_gate fifo_ops]\<rparr>\<rparr>"

theorem reload_gives_guard_back_witness:
  "fst (reload_switch_config fifo_ops example_loader ''sw1'' example_idle) = Inl NoMetadata \<and>
   tr_currently_configuring (sr_tracker (snd (reload_switch_config fifo_ops example_loader ''sw1'' example_idle))) = {}"
proof -
  obtain st' where r: "reload_switch_config fifo_ops example_loader ''sw1'' example_idle = (Inl NoMetadata, st')"
    by (simp add: reload_switch_config_def example_idle_def new_store_def new_tracker_def new_gate_def fifo_ops_def
        try_acquire_configuring_def open_gate_def on_gate_def set_currently_configuring_def get_config_paths_def)
  have "tr_gates (sr_tracker example_idle) ''sw1'' = Some (new_gate fifo_ops)"
    "l_queue (g_turn (new_gate fifo_ops)) = []" "tr_currently_configuring (sr_tracker example_idle) = {}"
    by (simp_all add: example_idle_def new_gate_def fifo_ops_def new_tracker_def)
  with reload_gives_guard_back [OF fifo.fair_semaphore_axioms r] show ?thesis by (simp add: r)
qed

end
