(* ===== verification/Api_Lookups.thy ===== *)
theory Api_Lookups
  imports Api_Store Session_Pool Snmp_Tables
begin

text \<open>
  The lookups of \<^verbatim>\<open>api/handlers.rs\<close>: the MAC table and the port status of a switch, their caches, the
  background refresher, and the pooled sessions they run on. A handler is cut where it waits for
  the switch's turn and for the switch, so that other requests can come in between; each part is a function on
  the store. The clock (nanoseconds), fresh identifiers (\<open>Uuid::new_v4\<close>), the SNMP connection, the drivers and
  the masking of secrets in error texts are arguments.
\<close>

section \<open>Answers\<close>

datatype data_source = AutoSource | SnmpSource | ConsoleSource

record lookup_query =
  lq_source :: data_source
  lq_fresh :: bool
  lq_max_age_seconds :: "int option"

record cache_facts =
  cf_etag :: nat
  cf_age :: int
  cf_max_age :: int
  cf_last_modified :: int

record lookup_headers =
  lh_cache :: "cache_facts option"
  lh_source :: "string option"
  lh_fallback :: bool

datatype 'e lookup_answer =
    Served lookup_headers "'e list" string
  | NotModified cache_facts
  | NoSuchSwitch
  | VendorNotSupported vendor
  | SnmpNotEnabled
  | SnmpFailed string
  | StayedBusy nat
  | LookupFailed string
  | LookupPanicked

definition default_max_age_secs :: int where
  "default_max_age_secs = 60"

definition queue_max_wait_sync :: nat where
  "queue_max_wait_sync = 90"

text \<open>\<open>chrono::Duration::seconds\<close> panics beyond \<open>i64::MAX\<close> milliseconds.\<close>

definition duration_seconds :: "int \<Rightarrow> int option" where
  "duration_seconds s = (if \<bar>s\<bar> > 9223372036854775 then None else Some (s * 1000000000))"

definition query_max_age :: "lookup_query \<Rightarrow> int option" where
  "query_max_age q =
     duration_seconds (case lq_max_age_seconds q of Some s \<Rightarrow> s | None \<Rightarrow> default_max_age_secs)"

definition is_cache_fresh :: "int \<Rightarrow> int \<Rightarrow> int \<Rightarrow> bool" where
  "is_cache_fresh now fetched_at max_age \<longleftrightarrow> now - fetched_at < max_age"

definition num_seconds :: "int \<Rightarrow> int" where
  "num_seconds d = (if d < 0 then - ((- d) div 1000000000) else d div 1000000000)"

definition cache_headers :: "int \<Rightarrow> int \<Rightarrow> int \<Rightarrow> nat \<Rightarrow> cache_facts" where
  "cache_headers now fetched_at max_age generation =
     \<lparr>cf_etag = generation, cf_age = max 0 (num_seconds (now - fetched_at)),
      cf_max_age = max 0 (num_seconds max_age), cf_last_modified = max 0 (fetched_at div 1000000000)\<rparr>"

text \<open>\<open>If-None-Match\<close>: \<open>*\<close>, or tags; those that are no identifier of ours match nothing and are left out.\<close>

datatype if_none_match = AnyTag | Tags "nat list"

fun tag_matches :: "if_none_match \<Rightarrow> nat \<Rightarrow> bool" where
  "tag_matches AnyTag g = True"
| "tag_matches (Tags gs) g = List.member gs g"

text \<open>The two readings of the clock are those of the freshness check and of the headers.\<close>

definition cache_response ::
  "(string \<rightharpoonup> 'e cached) \<Rightarrow> string \<Rightarrow> int \<times> int \<Rightarrow> int \<Rightarrow> if_none_match option \<Rightarrow> 'e lookup_answer option" where
  "cache_response cache sid clock max_age inm =
     (case cache sid of
        None \<Rightarrow> None
      | Some c \<Rightarrow>
          if \<not> is_cache_fresh (fst clock) (ca_fetched_at c) max_age then None
          else
            let facts = cache_headers (snd clock) (ca_fetched_at c) max_age (ca_generation_id c) in
            if (case inm of Some tags \<Rightarrow> tag_matches tags (ca_generation_id c) | None \<Rightarrow> False)
            then Some (NotModified facts)
            else Some (Served \<lparr>lh_cache = Some facts, lh_source = None, lh_fallback = False\<rparr>
                         (ca_entries c) (ca_raw_output c)))"

definition mac_table_cache_response where
  "mac_table_cache_response st = cache_response (sr_mac_table_cache st)"

definition port_status_cache_response where
  "port_status_cache_response st = cache_response (sr_port_status_cache st)"

text \<open>A live answer that is also cached.\<close>

definition live_entry :: "int \<Rightarrow> nat \<Rightarrow> 'e list \<times> string \<Rightarrow> 'e cached" where
  "live_entry now generation result =
     \<lparr>ca_entries = fst result, ca_raw_output = snd result, ca_fetched_at = now, ca_generation_id = generation\<rparr>"

definition live_answer :: "int \<times> int \<Rightarrow> int \<Rightarrow> nat \<Rightarrow> string \<Rightarrow> bool \<Rightarrow> 'e list \<times> string \<Rightarrow> 'e lookup_answer" where
  "live_answer clock max_age generation source fell_back result =
     Served \<lparr>lh_cache = Some (cache_headers (snd clock) (fst clock) max_age generation), lh_source = Some source,
             lh_fallback = fell_back\<rparr> (fst result) (snd result)"

definition put_mac_table :: "string \<Rightarrow> mac_table_entry cached \<Rightarrow> 's store \<Rightarrow> 's store" where
  "put_mac_table sid c st = st\<lparr>sr_mac_table_cache := (sr_mac_table_cache st)(sid \<mapsto> c)\<rparr>"

definition put_port_status :: "string \<Rightarrow> port_status_entry cached \<Rightarrow> 's store \<Rightarrow> 's store" where
  "put_port_status sid c st = st\<lparr>sr_port_status_cache := (sr_port_status_cache st)(sid \<mapsto> c)\<rparr>"

section \<open>Sessions\<close>

text \<open>
  A lookup on a pooled session: the session is kept when the lookup succeeds and closed when it fails; one
  that runs into the time limit is dropped and never kept. Result, closed vendors, pool.
\<close>

record 'v pool_env =
  pe_hash :: "connection_identity \<Rightarrow> u64"
  pe_resume :: "'v \<Rightarrow> bool"
  pe_open :: "switch_config \<Rightarrow> string + 'v"
  pe_supports_reuse :: "'v \<Rightarrow> bool"

definition end_session ::
  "'v pool_env \<Rightarrow> bool \<Rightarrow> 'v session \<Rightarrow> 'v pool_state \<Rightarrow> 'v list \<times> 'v pool_state" where
  "end_session pe healthy s st =
     (if healthy then (case release_session (pe_supports_reuse pe) s st of (closed, _, st') \<Rightarrow> (closed, st'))
      else (discard_session s, st))"

definition fetch_live ::
  "'v pool_env \<Rightarrow> bool \<Rightarrow> string \<Rightarrow> ('a \<Rightarrow> bool) \<Rightarrow> switch_config \<Rightarrow> ('v \<Rightarrow> 'a \<times> 'v) \<Rightarrow> 'v pool_state \<Rightarrow>
   (string + 'a) \<times> 'v list \<times> 'v pool_state" where
  "fetch_live pe timed_out timeout_text healthy c run st =
     (if timed_out then (Inl timeout_text, [], snd (take_slot (s_id c) st))
      else
        (case checkout (pe_hash pe) (pe_resume pe) (pe_open pe) c st of
           (Inl e, closed, st1) \<Rightarrow> (Inl (''Connection failed: '' @ e), closed, st1)
         | (Inr s, closed, st1) \<Rightarrow>
             (case run (se_vendor s) of
                (x, v) \<Rightarrow>
                  (case end_session pe (healthy x) (s\<lparr>se_vendor := v\<rparr>) st1 of
                     (closed', st2) \<Rightarrow> (Inr x, closed @ closed', st2)))))"

definition is_ok :: "'e + 'a \<Rightarrow> bool" where
  "is_ok r = (case r of Inl _ \<Rightarrow> False | Inr _ \<Rightarrow> True)"

definition flatten :: "'e + 'e + 'a \<Rightarrow> 'e + 'a" where
  "flatten r = and_then r (\<lambda>x. x)"

text \<open>\<open>get\<close> is the driver's \<open>get_mac_table\<close>.\<close>

definition fetch_mac_table_live ::
  "'v pool_env \<Rightarrow> bool \<Rightarrow> switch_config \<Rightarrow> ('v \<Rightarrow> (string + mac_table_entry list \<times> string) \<times> 'v) \<Rightarrow> 'v pool_state \<Rightarrow>
   (string + mac_table_entry list \<times> string) \<times> 'v list \<times> 'v pool_state" where
  "fetch_mac_table_live pe timed_out c get st =
     (case fetch_live pe timed_out
             (''Timed out after 60s waiting for the switch (a stuck underlying I/O call '' @ em_dash
              @ '' see StatusTracker::try_acquire_configuring'' @ [CHR 0x27]
              @ ''s doc comment for the incident this guards against)'') is_ok c get st of
        (r, closed, st') \<Rightarrow> (flatten r, closed, st'))"

definition fetch_port_status_live ::
  "'v pool_env \<Rightarrow> bool \<Rightarrow> switch_config \<Rightarrow> ('v \<Rightarrow> (string + port_status_entry list \<times> string) \<times> 'v) \<Rightarrow> 'v pool_state \<Rightarrow>
   (string + port_status_entry list \<times> string) \<times> 'v list \<times> 'v pool_state" where
  "fetch_port_status_live pe timed_out c get st =
     (case fetch_live pe timed_out ''Timed out after 60s waiting for the switch'' is_ok c get st of
        (r, closed, st') \<Rightarrow> (flatten r, closed, st'))"

record live_lookups =
  ll_mac_table :: "string + mac_table_entry list \<times> string"
  ll_port_status :: "(string + port_status_entry list \<times> string) option"

definition run_lookups ::
  "('v \<Rightarrow> (string + mac_table_entry list \<times> string) \<times> 'v) \<Rightarrow>
   ('v \<Rightarrow> (string + port_status_entry list \<times> string) \<times> 'v) \<Rightarrow> bool \<Rightarrow> 'v \<Rightarrow> live_lookups \<times> 'v" where
  "run_lookups get_mac get_ports with_port_status v =
     (case get_mac v of
        (mac, v1) \<Rightarrow>
          if with_port_status
          then (case get_ports v1 of (ports, v2) \<Rightarrow> (\<lparr>ll_mac_table = mac, ll_port_status = Some ports\<rparr>, v2))
          else (\<lparr>ll_mac_table = mac, ll_port_status = None\<rparr>, v1))"

definition lookups_healthy :: "live_lookups \<Rightarrow> bool" where
  "lookups_healthy l \<longleftrightarrow>
     is_ok (ll_mac_table l) \<and> (case ll_port_status l of None \<Rightarrow> True | Some r \<Rightarrow> is_ok r)"

definition fetch_lookups_live ::
  "'v pool_env \<Rightarrow> bool \<Rightarrow> switch_config \<Rightarrow> ('v \<Rightarrow> (string + mac_table_entry list \<times> string) \<times> 'v) \<Rightarrow>
   ('v \<Rightarrow> (string + port_status_entry list \<times> string) \<times> 'v) \<Rightarrow> bool \<Rightarrow> 'v pool_state \<Rightarrow>
   (string + live_lookups) \<times> 'v list \<times> 'v pool_state" where
  "fetch_lookups_live pe timed_out c get_mac get_ports with_port_status =
     fetch_live pe timed_out ''Timed out after 60s waiting for the switch'' lookups_healthy c
       (run_lookups get_mac get_ports with_port_status)"

section \<open>The MAC table\<close>

text \<open>A handler that has answered, or one that waits for its turn on a switch.\<close>

datatype 'e lookup_stage =
    Answered "'e lookup_answer"
  | Queueing switch_config int

text \<open>What a handler gets from outside: the SNMP connection and the masking of secrets.\<close>

record lookup_env =
  le_connect :: "snmp_target \<Rightarrow> string + snmp_session"
  le_scrub :: "string \<Rightarrow> string"

definition snmp_headers :: lookup_headers where
  "snmp_headers = \<lparr>lh_cache = None, lh_source = Some ''snmp'', lh_fallback = False\<rparr>"

definition or_queue :: "'e lookup_answer option \<Rightarrow> switch_config \<Rightarrow> int \<Rightarrow> 'e lookup_stage" where
  "or_queue answer sw max_age = (case answer of Some a \<Rightarrow> Answered a | None \<Rightarrow> Queueing sw max_age)"

definition get_mac_table_start ::
  "lookup_env \<Rightarrow> int \<times> int \<Rightarrow> string \<Rightarrow> lookup_query \<Rightarrow> if_none_match option \<Rightarrow> 's store \<Rightarrow>
   mac_table_entry lookup_stage" where
  "get_mac_table_start le clock sid q inm st =
     (case find_switch sid (sr_switches st) of
        None \<Rightarrow> Answered NoSuchSwitch
      | Some sw \<Rightarrow>
          (case model_of sw of
             None \<Rightarrow> Answered LookupPanicked
           | Some m \<Rightarrow>
               if model_vendor m \<notin> {Fortiswitch, Aruba, Cisco} then Answered (VendorNotSupported (model_vendor m))
               else
                 (case query_max_age q of
                    None \<Rightarrow> Answered LookupPanicked
                  | Some max_age \<Rightarrow>
                      if lq_source q = SnmpSource
                      then
                        (case target_for sw of
                           Inl _ \<Rightarrow> Answered LookupPanicked
                         | Inr None \<Rightarrow> Answered SnmpNotEnabled
                         | Inr (Some target) \<Rightarrow>
                             (case fetch_mac_table (le_connect le) target of
                                Inr (entries, raw) \<Rightarrow> Answered (Served snmp_headers entries raw)
                              | Inl e \<Rightarrow> Answered (SnmpFailed (le_scrub le e))))
                      else
                        or_queue
                          (if lq_fresh q then None else mac_table_cache_response st sid clock max_age inm)
                          sw max_age)))"

text \<open>The turn came, or the time to wait for it is over; with the turn, the cache is asked again.\<close>

definition get_mac_table_turn ::
  "bool \<Rightarrow> int \<times> int \<Rightarrow> string \<Rightarrow> lookup_query \<Rightarrow> if_none_match option \<Rightarrow> int \<Rightarrow> 's store \<Rightarrow>
   mac_table_entry lookup_answer option" where
  "get_mac_table_turn got clock sid q inm max_age st =
     (if \<not> got then Some (StayedBusy (min queue_max_wait_sync 30))
      else if lq_fresh q then None else mac_table_cache_response st sid clock max_age inm)"

text \<open>What the driver gave, after the turn was given back.\<close>

definition get_mac_table_finish ::
  "string + mac_table_entry list \<times> string \<Rightarrow> int \<times> int \<Rightarrow> nat \<Rightarrow> string \<Rightarrow> int \<Rightarrow> 's store \<Rightarrow>
   mac_table_entry lookup_answer \<times> 's store" where
  "get_mac_table_finish result clock generation sid max_age st =
     (case result of
        Inl e \<Rightarrow> (LookupFailed e, st)
      | Inr r \<Rightarrow>
          (live_answer clock max_age generation ''console'' False r,
           put_mac_table sid (live_entry (fst clock) generation r) st))"

section \<open>The port status\<close>

definition poe_port :: "switch_model \<Rightarrow> string \<Rightarrow> bool" where
  "poe_port m name = port_supports_poe m (case strip_prefix ''port'' name of Some n \<Rightarrow> n | None \<Rightarrow> name)"

text \<open>The second result says whether SNMP failed before.\<close>

definition get_port_status_start ::
  "lookup_env \<Rightarrow> int \<times> int \<Rightarrow> int \<times> int \<Rightarrow> nat \<Rightarrow> string \<Rightarrow> lookup_query \<Rightarrow> if_none_match option \<Rightarrow> 's store \<Rightarrow>
   port_status_entry lookup_stage \<times> bool \<times> 's store" where
  "get_port_status_start le clock clock' generation sid q inm st =
     (case find_switch sid (sr_switches st) of
        None \<Rightarrow> (Answered NoSuchSwitch, False, st)
      | Some sw \<Rightarrow>
          (case model_of sw of
             None \<Rightarrow> (Answered LookupPanicked, False, st)
           | Some m \<Rightarrow>
               if model_vendor m \<noteq> Fortiswitch then (Answered (VendorNotSupported (model_vendor m)), False, st)
               else
                 (case query_max_age q of
                    None \<Rightarrow> (Answered LookupPanicked, False, st)
                  | Some max_age \<Rightarrow>
                      (case (if \<not> lq_fresh q \<and> lq_source q \<noteq> SnmpSource
                             then port_status_cache_response st sid clock max_age inm else None) of
                         Some answer \<Rightarrow> (Answered answer, False, st)
                       | None \<Rightarrow>
                           if lq_source q = ConsoleSource then (Queueing sw max_age, False, st)
                           else
                             (case target_for sw of
                                Inl _ \<Rightarrow> (Answered LookupPanicked, False, st)
                              | Inr None \<Rightarrow>
                                  if lq_source q = SnmpSource then (Answered SnmpNotEnabled, False, st)
                                  else (Queueing sw max_age, False, st)
                              | Inr (Some target) \<Rightarrow>
                                  (case fetch_port_status (le_connect le) target (poe_port m) of
                                     Inr r \<Rightarrow>
                                       (Answered (live_answer clock' max_age generation ''snmp'' False r), False,
                                        put_port_status sid (live_entry (fst clock') generation r) st)
                                   | Inl e \<Rightarrow>
                                       if lq_source q = SnmpSource
                                       then (Answered (SnmpFailed (le_scrub le e)), False, st)
                                       else (Queueing sw max_age, True, st)))))))"

definition get_port_status_turn ::
  "bool \<Rightarrow> int \<times> int \<Rightarrow> string \<Rightarrow> lookup_query \<Rightarrow> if_none_match option \<Rightarrow> int \<Rightarrow> 's store \<Rightarrow>
   port_status_entry lookup_answer option" where
  "get_port_status_turn got clock sid q inm max_age st =
     (if \<not> got then Some (StayedBusy (min queue_max_wait_sync 30))
      else if lq_fresh q then None else port_status_cache_response st sid clock max_age inm)"

definition get_port_status_finish ::
  "string + port_status_entry list \<times> string \<Rightarrow> int \<times> int \<Rightarrow> nat \<Rightarrow> bool \<Rightarrow> string \<Rightarrow> int \<Rightarrow> 's store \<Rightarrow>
   port_status_entry lookup_answer \<times> 's store" where
  "get_port_status_finish result clock generation fell_back sid max_age st =
     (case result of
        Inl e \<Rightarrow> (LookupFailed e, st)
      | Inr r \<Rightarrow>
          (live_answer clock max_age generation ''console'' fell_back r,
           put_port_status sid (live_entry (fst clock) generation r) st))"

section \<open>The refresher\<close>

definition refreshed_switches :: "'s store \<Rightarrow> switch_config list" where
  "refreshed_switches st =
     filter (\<lambda>s. case model_of s of Some m \<Rightarrow> model_vendor m \<in> {Fortiswitch, Aruba, Cisco} | None \<Rightarrow> False)
       (sr_switches st)"

text \<open>
  The turn of one switch in a cycle: port status over SNMP first, then the rest on one session. \<open>live\<close> is
  \<open>fetch_lookups_live\<close>, asked for the port status as well or not; \<open>clock\<close> and \<open>gens\<close> are the times
  and the fresh identifiers of the three entries. \<open>None\<close> stands for a panic, which ends the refresher.
\<close>

definition put_lookups ::
  "int \<Rightarrow> nat \<Rightarrow> nat \<Rightarrow> string \<Rightarrow> live_lookups \<Rightarrow> 's store \<Rightarrow> 's store" where
  "put_lookups now g g' sid l st =
     (let st1 = (case ll_mac_table l of Inr r \<Rightarrow> put_mac_table sid (live_entry now g r) st | Inl _ \<Rightarrow> st)
      in (case ll_port_status l of
            Some (Inr r) \<Rightarrow> put_port_status sid (live_entry now g' r) st1
          | _ \<Rightarrow> st1))"

definition refresh_session ::
  "(bool \<Rightarrow> string + live_lookups) \<Rightarrow> int \<Rightarrow> nat \<times> nat \<times> nat \<Rightarrow> string \<Rightarrow> bool \<Rightarrow> 's store \<Rightarrow> 's store" where
  "refresh_session live now gens sid with_port_status st =
     (case live with_port_status of
        Inl _ \<Rightarrow> st
      | Inr l \<Rightarrow> put_lookups now (fst (snd gens)) (snd (snd gens)) sid l st)"

definition end_turn :: "'s sem_ops \<Rightarrow> string \<Rightarrow> 's store \<Rightarrow> 's store" where
  "end_turn ops sid st = st\<lparr>sr_tracker := release_guard ops sid (sr_tracker st)\<rparr>"

definition refresh_switch ::
  "'s sem_ops \<Rightarrow> lookup_env \<Rightarrow> (bool \<Rightarrow> string + live_lookups) \<Rightarrow> int \<Rightarrow> nat \<times> nat \<times> nat \<Rightarrow> switch_config \<Rightarrow>
   's store \<Rightarrow> 's store option" where
  "refresh_switch ops le live now gens sw st =
     (case try_acquire_configuring ops (s_id sw) (sr_tracker st) of
        (False, tr) \<Rightarrow> Some (st\<lparr>sr_tracker := tr\<rparr>)
      | (True, tr) \<Rightarrow>
          let st0 = st\<lparr>sr_tracker := tr\<rparr>;
              rest = (\<lambda>b st1. Some (end_turn ops (s_id sw) (refresh_session live now gens (s_id sw) b st1)))
          in (case model_of sw of
                None \<Rightarrow> None
              | Some m \<Rightarrow>
                  if model_vendor m \<noteq> Fortiswitch then rest False st0
                  else
                    (case target_for sw of
                       Inl _ \<Rightarrow> None
                     | Inr None \<Rightarrow> rest True st0
                     | Inr (Some target) \<Rightarrow>
                         (case fetch_port_status (le_connect le) target (poe_port m) of
                            Inl e \<Rightarrow> rest True st0
                          | Inr r \<Rightarrow>
                              rest False (put_port_status (s_id sw) (live_entry now (fst gens) r) st0)))))"

end
