(* ===== verification/Api_Cache.thy ===== *)
theory Api_Cache
  imports Api_Lookups
begin

text \<open>
  The lookups, the refresher and the requests of \<open>Api_Store\<close>, running against each other: what the
  caches hold, what a tag stands for (\<^verbatim>\<open>docs/decisions/0001-cached-api-response-contract.md\<close>), and where the
  answers come from.
\<close>

section \<open>The service as a step relation\<close>

text \<open>A snapshot: identifier, entries, raw output. \<open>told\<close> is what an answer says of its tag.\<close>

type_synonym 'e snapshot = "nat \<times> 'e list \<times> string"

definition snapshot_of :: "'e cached \<Rightarrow> 'e snapshot" where
  "snapshot_of c = (ca_generation_id c, ca_entries c, ca_raw_output c)"

fun told :: "'e lookup_answer \<Rightarrow> 'e snapshot set" where
  "told (Served h es raw) = (case lh_cache h of Some f \<Rightarrow> {(cf_etag f, es, raw)} | None \<Rightarrow> {})"
| "told _ = {}"

text \<open>The store, the identifiers given out, all tagged answers, and all MAC tables that drivers read.\<close>

record 's web =
  wb_store :: "'s store"
  wb_used :: "nat set"
  wb_macs :: "mac_table_entry snapshot set"
  wb_ports :: "port_status_entry snapshot set"
  wb_console :: "(mac_table_entry list \<times> string) set"

definition start_web :: "'s store \<Rightarrow> 's web" where
  "start_web st = \<lparr>wb_store = st, wb_used = {}, wb_macs = {}, wb_ports = {}, wb_console = {}\<rparr>"

definition read_ok :: "'e + 'a \<Rightarrow> 'a set" where
  "read_ok r = (case r of Inr x \<Rightarrow> {x} | Inl _ \<Rightarrow> {})"

definition read_lookups :: "string + live_lookups \<Rightarrow> (mac_table_entry list \<times> string) set" where
  "read_lookups r = (case r of Inr l \<Rightarrow> read_ok (ll_mac_table l) | Inl _ \<Rightarrow> {})"

text \<open>
  A step is a part of a handler as it is cut in \<open>Api_Lookups\<close>; a request of another kind; the turn of a switch in a
  refresh cycle; or a change of the tracker by any other task.
\<close>

inductive web_step :: "'s web \<Rightarrow> 's web \<Rightarrow> bool" where
  request: "web_step w (w\<lparr>wb_store := snd (serve ops is_range env r (wb_store w))\<rparr>)"
| tracker: "web_step w (w\<lparr>wb_store := (wb_store w)\<lparr>sr_tracker := tr\<rparr>\<rparr>)"
| mac_start: "get_mac_table_start le clock sid q inm (wb_store w) = Answered a \<Longrightarrow>
     web_step w (w\<lparr>wb_macs := told a \<union> wb_macs w\<rparr>)"
| mac_turn: "get_mac_table_turn got clock sid q inm max_age (wb_store w) = Some a \<Longrightarrow>
     web_step w (w\<lparr>wb_macs := told a \<union> wb_macs w\<rparr>)"
| mac_finish: "get_mac_table_finish result clock g sid max_age (wb_store w) = (a, st) \<Longrightarrow> g \<notin> wb_used w \<Longrightarrow>
     web_step w (w\<lparr>wb_store := st, wb_used := insert g (wb_used w), wb_macs := told a \<union> wb_macs w,
       wb_console := read_ok result \<union> wb_console w\<rparr>)"
| port_start: "get_port_status_start le clock clock' g sid q inm (wb_store w) = (stage, fell_back, st) \<Longrightarrow> g \<notin> wb_used w \<Longrightarrow>
     web_step w (w\<lparr>wb_store := st, wb_used := insert g (wb_used w),
       wb_ports := (case stage of Answered a \<Rightarrow> told a | Queueing _ _ \<Rightarrow> {}) \<union> wb_ports w\<rparr>)"
| port_turn: "get_port_status_turn got clock sid q inm max_age (wb_store w) = Some a \<Longrightarrow>
     web_step w (w\<lparr>wb_ports := told a \<union> wb_ports w\<rparr>)"
| port_finish: "get_port_status_finish result clock g fell_back sid max_age (wb_store w) = (a, st) \<Longrightarrow> g \<notin> wb_used w \<Longrightarrow>
     web_step w (w\<lparr>wb_store := st, wb_used := insert g (wb_used w), wb_ports := told a \<union> wb_ports w\<rparr>)"
| refresh: "refresh_switch ops le live now (g1, g2, g3) sw (wb_store w) = Some st \<Longrightarrow>
     distinct [g1, g2, g3] \<Longrightarrow> {g1, g2, g3} \<inter> wb_used w = {} \<Longrightarrow>
     web_step w (w\<lparr>wb_store := st, wb_used := {g1, g2, g3} \<union> wb_used w,
       wb_console := (\<Union>b. read_lookups (live b)) \<union> wb_console w\<rparr>)"

definition web_run :: "'s web \<Rightarrow> bool" where
  "web_run w \<longleftrightarrow> (\<exists>now switches registry. web_step\<^sup>*\<^sup>* (start_web (new_store now switches registry)) w)"

section \<open>The invariant of a cache\<close>

definition cached_snapshots :: "(string \<rightharpoonup> 'e cached) \<Rightarrow> 'e snapshot set" where
  "cached_snapshots cache = snapshot_of ` ran cache"

definition tags_ok :: "nat set \<Rightarrow> (string \<rightharpoonup> 'e cached) \<Rightarrow> 'e snapshot set \<Rightarrow> bool" where
  "tags_ok used cache answers \<longleftrightarrow>
     fst ` (cached_snapshots cache \<union> answers) \<subseteq> used \<and> inj_on fst (cached_snapshots cache \<union> answers)"

lemma tags_ok_subset:
  assumes "tags_ok used cache answers" and "used \<subseteq> used'"
    and "cached_snapshots cache' \<union> answers' \<subseteq> cached_snapshots cache \<union> answers"
  shows "tags_ok used' cache' answers'"
  using assms unfolding tags_ok_def by (meson image_mono inj_on_subset subset_trans)

lemma inj_fst_Un:
  "inj_on fst A \<Longrightarrow> inj_on fst B \<Longrightarrow> fst ` A \<inter> fst ` B = {} \<Longrightarrow> inj_on fst (A \<union> B)"
  by (auto simp: inj_on_Un)

lemma tags_ok_fresh:
  assumes "tags_ok used cache answers" and "inj_on fst new" and "fst ` new \<inter> used = {}"
    and "used \<union> fst ` new \<subseteq> used'"
    and "cached_snapshots cache' \<union> answers' \<subseteq> new \<union> (cached_snapshots cache \<union> answers)"
  shows "tags_ok used' cache' answers'"
proof -
  let ?old = "cached_snapshots cache \<union> answers"
  have old: "fst ` ?old \<subseteq> used" "inj_on fst ?old" using assms(1) by (auto simp: tags_ok_def)
  have "inj_on fst (new \<union> ?old)" 
    by (rule inj_fst_Un [OF assms(2) old(2)]) (use assms(3) old(1) in blast)
  moreover have "fst ` (new \<union> ?old) \<subseteq> used'" using old(1) assms(4) by auto
  ultimately show ?thesis
    using assms(5) unfolding tags_ok_def by (meson image_mono inj_on_subset subset_trans)
qed

lemma cached_update: "cached_snapshots (cache(sid \<mapsto> c)) \<subseteq> insert (snapshot_of c) (cached_snapshots cache)"
  by (auto simp: cached_snapshots_def ran_def split: if_splits)

lemma cached_remove: "cached_snapshots (cache(sid := None)) \<subseteq> cached_snapshots cache"
  by (auto simp: cached_snapshots_def ran_def split: if_splits)

lemma cached_prune: "cached_snapshots (prune switches cache) \<subseteq> cached_snapshots cache"
  by (auto simp: cached_snapshots_def ran_def prune_def split: if_splits)

lemma told_cache_response:
  "cache_response cache sid clock max_age inm = Some a \<Longrightarrow> told a \<subseteq> cached_snapshots cache"
  by (auto simp: cache_response_def cached_snapshots_def snapshot_of_def cache_headers_def ran_def image_iff Let_def
      split: option.splits if_splits)

lemma snapshot_live_entry: "snapshot_of (live_entry now g r) = (g, r)"
  by (simp add: snapshot_of_def live_entry_def)

lemma told_live_answer: "told (live_answer clock max_age g source fell_back r) = {(g, r)}"
  by (simp add: live_answer_def cache_headers_def)

lemmas told_simps = told_cache_response snapshot_live_entry told_live_answer

lemma serve_caches:
  "cached_snapshots (sr_mac_table_cache (snd (serve ops is_range env r st))) \<subseteq> cached_snapshots (sr_mac_table_cache st) \<and>
   cached_snapshots (sr_port_status_cache (snd (serve ops is_range env r st))) \<subseteq> cached_snapshots (sr_port_status_cache st)"
proof (cases r)
  case (PutSwitch sid rq)
  then show ?thesis by (auto simp: set_switch_config_def Let_def split: sum.split prod.split)
next
  case (PatchSwitch sid rq)
  then show ?thesis by (auto simp: patch_switch_config_def split: sum.split prod.split option.split)
next
  case (DeleteSwitch sid)
  then show ?thesis by (auto simp: delete_switch_config_def Let_def dest: subsetD [OF cached_remove])
next
  case (ReloadAll ld now)
  then show ?thesis
    by (auto simp: reload_config_def Let_def dest: subsetD [OF cached_prune] split: sum.split prod.split option.split)
next
  case (ReloadSwitch ld sid)
  then show ?thesis
    by (auto simp: reload_switch_config_def Let_def simp del: initialize_switches.simps
        split: sum.split prod.split option.split bool.split)
qed

definition web_ok :: "'s web \<Rightarrow> bool" where
  "web_ok w \<longleftrightarrow>
     tags_ok (wb_used w) (sr_mac_table_cache (wb_store w)) (wb_macs w) \<and>
     tags_ok (wb_used w) (sr_port_status_cache (wb_store w)) (wb_ports w) \<and>
     snd ` (cached_snapshots (sr_mac_table_cache (wb_store w))) \<subseteq> wb_console w"

lemma start_web_ok: "web_ok (start_web (new_store now switches registry))"
  by (simp add: web_ok_def start_web_def new_store_def tags_ok_def cached_snapshots_def)

lemma mac_answer_cached:
  "get_mac_table_start le clock sid q inm st = Answered a \<Longrightarrow> told a \<subseteq> cached_snapshots (sr_mac_table_cache st)"
  "get_mac_table_turn got clock sid q inm max_age st = Some a \<Longrightarrow> told a \<subseteq> cached_snapshots (sr_mac_table_cache st)"
  using told_cache_response [of "sr_mac_table_cache st" sid clock _ inm]
  by (auto simp: get_mac_table_start_def get_mac_table_turn_def or_queue_def mac_table_cache_response_def snmp_headers_def
      dest!: subsetD split: option.splits if_splits sum.splits prod.splits)

lemma port_turn_cached:
  "get_port_status_turn got clock sid q inm max_age st = Some a \<Longrightarrow> told a \<subseteq> cached_snapshots (sr_port_status_cache st)"
  using told_cache_response [of "sr_port_status_cache st" sid clock _ inm]
  by (auto simp: get_port_status_turn_def port_status_cache_response_def dest!: subsetD split: if_splits)

lemma mac_finish_cases:
  assumes "get_mac_table_finish result clock g sid max_age st = (a, st')"
  shows "(st' = st \<and> told a = {}) \<or>
    (\<exists>r. result = Inr r \<and> told a = {(g, r)} \<and> st' = put_mac_table sid (live_entry (fst clock) g r) st)"
  using assms by (cases result) (auto simp: get_mac_table_finish_def told_live_answer)

lemma port_finish_cases:
  assumes "get_port_status_finish result clock g fell_back sid max_age st = (a, st')"
  shows "(st' = st \<and> told a = {}) \<or>
    (\<exists>r. told a = {(g, r)} \<and> st' = put_port_status sid (live_entry (fst clock) g r) st)"
  using assms by (cases result) (auto simp: get_port_status_finish_def told_live_answer)

lemma port_start_cases:
  assumes "get_port_status_start le clock clock' g sid q inm st = (stage, fell_back, st')"
  shows "(st' = st \<and> (case stage of Answered a \<Rightarrow> told a | Queueing _ _ \<Rightarrow> {}) \<subseteq> cached_snapshots (sr_port_status_cache st)) \<or>
    (\<exists>r. (case stage of Answered a \<Rightarrow> told a | Queueing _ _ \<Rightarrow> {}) = {(g, r)} \<and>
       st' = put_port_status sid (live_entry (fst clock') g r) st)"
  using assms
  by (auto simp: get_port_status_start_def port_status_cache_response_def told_live_answer
      dest!: told_cache_response split: option.splits if_splits sum.splits)

lemma put_snapshots:
  "cached_snapshots (sr_mac_table_cache (put_mac_table sid (live_entry now g r) st)) \<subseteq> insert (g, r) (cached_snapshots (sr_mac_table_cache st))"
  "cached_snapshots (sr_port_status_cache (put_port_status sid (live_entry now g r') st)) \<subseteq> insert (g, r') (cached_snapshots (sr_port_status_cache st))"
  using cached_update [of "sr_mac_table_cache st" sid "live_entry now g r"]
    cached_update [of "sr_port_status_cache st" sid "live_entry now g r'"]
  by (simp_all add: put_mac_table_def put_port_status_def snapshot_live_entry)

lemma put_other [simp]:
  "sr_port_status_cache (put_mac_table sid c st) = sr_port_status_cache st"
  "sr_mac_table_cache (put_port_status sid c' st) = sr_mac_table_cache st"
  by (simp_all add: put_mac_table_def put_port_status_def)

lemma put_lookups_snapshots:
  "\<exists>new_ports.
     cached_snapshots (sr_mac_table_cache (put_lookups now g g' sid l st)) \<subseteq> Pair g ` read_ok (ll_mac_table l) \<union> cached_snapshots (sr_mac_table_cache st) \<and>
     cached_snapshots (sr_port_status_cache (put_lookups now g g' sid l st)) \<subseteq> insert (g', new_ports) (cached_snapshots (sr_port_status_cache st))"
  using put_snapshots
  by (fastforce simp: put_lookups_def read_ok_def Let_def split: sum.splits option.splits)

lemma end_turn_caches [simp]:
  "sr_mac_table_cache (end_turn ops sid st) = sr_mac_table_cache st"
  "sr_port_status_cache (end_turn ops sid st) = sr_port_status_cache st"
  by (simp_all add: end_turn_def)

lemma refresh_session_snapshots:
  "\<exists>y. cached_snapshots (sr_mac_table_cache (refresh_session live now (g1, g2, g3) sid b st)) \<subseteq>
      Pair g2 ` read_lookups (live b) \<union> cached_snapshots (sr_mac_table_cache st) \<and>
    cached_snapshots (sr_port_status_cache (refresh_session live now (g1, g2, g3) sid b st)) \<subseteq>
      insert (g3, y) (cached_snapshots (sr_port_status_cache st))"
  using put_lookups_snapshots [of now g2 g3 sid _ st]
  by (cases "live b") (auto simp: refresh_session_def read_lookups_def)

lemma refresh_snapshots:
  assumes "refresh_switch ops le live now (g1, g2, g3) sw st = Some st'"
  shows "\<exists>b x y.
     cached_snapshots (sr_mac_table_cache st') \<subseteq> Pair g2 ` read_lookups (live b) \<union> cached_snapshots (sr_mac_table_cache st) \<and>
     cached_snapshots (sr_port_status_cache st') \<subseteq> {(g1, x), (g3, y)} \<union> cached_snapshots (sr_port_status_cache st)"
proof -
  from assms consider (same) tr where "st' = st\<lparr>sr_tracker := tr\<rparr>"
    | (console) b tr where
        "st' = end_turn ops (s_id sw) (refresh_session live now (g1, g2, g3) (s_id sw) b (st\<lparr>sr_tracker := tr\<rparr>))"
    | (snmp) b tr r where
        "st' = end_turn ops (s_id sw) (refresh_session live now (g1, g2, g3) (s_id sw) b
          (put_port_status (s_id sw) (live_entry now g1 r) (st\<lparr>sr_tracker := tr\<rparr>)))"
    by (auto simp: refresh_switch_def Let_def split: prod.splits bool.splits option.splits if_splits sum.splits)
  then show ?thesis
  proof cases
    case (console b tr)
    then show ?thesis
      using refresh_session_snapshots [of live now g1 g2 g3 "s_id sw" b "st\<lparr>sr_tracker := tr\<rparr>"] by fastforce
  next
    case (snmp b tr r)
    let ?st = "put_port_status (s_id sw) (live_entry now g1 r) (st\<lparr>sr_tracker := tr\<rparr>)"
    have "cached_snapshots (sr_port_status_cache ?st) \<subseteq> insert (g1, r) (cached_snapshots (sr_port_status_cache st))"
      using put_snapshots(2) [of "s_id sw" now g1 r "st\<lparr>sr_tracker := tr\<rparr>"] by simp
    moreover obtain y where
      "cached_snapshots (sr_mac_table_cache st') \<subseteq> Pair g2 ` read_lookups (live b) \<union> cached_snapshots (sr_mac_table_cache st)"
      "cached_snapshots (sr_port_status_cache st') \<subseteq> insert (g3, y) (cached_snapshots (sr_port_status_cache ?st))"
      using refresh_session_snapshots [of live now g1 g2 g3 "s_id sw" b ?st] by (auto simp: snmp)
    ultimately have "cached_snapshots (sr_mac_table_cache st') \<subseteq> Pair g2 ` read_lookups (live b) \<union> cached_snapshots (sr_mac_table_cache st) \<and>
     cached_snapshots (sr_port_status_cache st') \<subseteq> {(g1, r), (g3, y)} \<union> cached_snapshots (sr_port_status_cache st)"
      by blast
    then show ?thesis by blast
  qed auto
qed

lemma web_ok_tell:
  assumes "web_ok w"
  shows "told a \<subseteq> cached_snapshots (sr_mac_table_cache (wb_store w)) \<Longrightarrow> web_ok (w\<lparr>wb_macs := told a \<union> wb_macs w\<rparr>)"
    and "told b \<subseteq> cached_snapshots (sr_port_status_cache (wb_store w)) \<Longrightarrow> web_ok (w\<lparr>wb_ports := told b \<union> wb_ports w\<rparr>)"
  using assms by (auto simp: web_ok_def intro: tags_ok_subset [OF _ subset_refl])

text \<open>Snapshots with new tags come in: into the caches, and into the answers.\<close>

lemma web_ok_grow:
  assumes "web_ok w" and "inj_on fst macs" and "inj_on fst ports"
    and "fst ` macs \<subseteq> gens" and "fst ` ports \<subseteq> gens" and "gens \<inter> wb_used w = {}"
    and "cached_snapshots (sr_mac_table_cache (wb_store w')) \<subseteq> macs \<union> cached_snapshots (sr_mac_table_cache (wb_store w))"
    and "cached_snapshots (sr_port_status_cache (wb_store w')) \<subseteq> ports \<union> cached_snapshots (sr_port_status_cache (wb_store w))"
    and "wb_macs w' \<subseteq> macs \<union> (cached_snapshots (sr_mac_table_cache (wb_store w)) \<union> wb_macs w)"
    and "wb_ports w' \<subseteq> ports \<union> (cached_snapshots (sr_port_status_cache (wb_store w)) \<union> wb_ports w)"
    and "wb_used w' = gens \<union> wb_used w" and "snd ` macs \<union> wb_console w \<subseteq> wb_console w'"
  shows "web_ok w'"
proof -
  have ok: "tags_ok (wb_used w) (sr_mac_table_cache (wb_store w)) (wb_macs w)"
    "tags_ok (wb_used w) (sr_port_status_cache (wb_store w)) (wb_ports w)"
    "snd ` (cached_snapshots (sr_mac_table_cache (wb_store w))) \<subseteq> wb_console w"
    using assms(1) by (simp_all add: web_ok_def)
  have "tags_ok (wb_used w') (sr_mac_table_cache (wb_store w')) (wb_macs w')"
  proof (rule tags_ok_fresh [OF ok(1) assms(2)])
    show "fst ` macs \<inter> wb_used w = {}" using assms(4,6) by fast
    show "wb_used w \<union> fst ` macs \<subseteq> wb_used w'" using assms(4,11) by fast
  qed (use assms(7,9) in fast)
  moreover have "tags_ok (wb_used w') (sr_port_status_cache (wb_store w')) (wb_ports w')"
  proof (rule tags_ok_fresh [OF ok(2) assms(3)])
    show "fst ` ports \<inter> wb_used w = {}" using assms(5,6) by fast
    show "wb_used w \<union> fst ` ports \<subseteq> wb_used w'" using assms(5,11) by fast
  qed (use assms(8,10) in fast)
  moreover have "snd ` (cached_snapshots (sr_mac_table_cache (wb_store w'))) \<subseteq> wb_console w'"
    using image_mono [OF assms(7), of snd] assms(12) ok(3) by (simp only: image_Un) fast
  ultimately show ?thesis by (simp add: web_ok_def)
qed

lemma web_step_ok: "web_step w w' \<Longrightarrow> web_ok w \<Longrightarrow> web_ok w'"
proof (induction rule: web_step.induct)
  case (request w ops is_range env r)
  show ?case
    by (rule web_ok_grow [OF request, of "{}" "{}" "{}"])
      (use serve_caches [of ops is_range env r "wb_store w"] in auto)
next
  case (tracker w tr)
  then show ?case by (simp add: web_ok_def)
next
  case (mac_start le clock sid q inm w a)
  then show ?case by (intro web_ok_tell(1) mac_answer_cached(1))
next
  case (mac_turn got clock sid q inm max_age w a)
  then show ?case by (intro web_ok_tell(1) mac_answer_cached(2))
next
  case (mac_finish result clock g sid max_age w a st)
  from mac_finish_cases [OF mac_finish(1)] obtain macs where m: "inj_on fst macs" "fst ` macs \<subseteq> {g}" "told a \<subseteq> macs"
    "cached_snapshots (sr_mac_table_cache st) \<subseteq> macs \<union> cached_snapshots (sr_mac_table_cache (wb_store w))"
    "sr_port_status_cache st = sr_port_status_cache (wb_store w)" "snd ` macs \<subseteq> read_ok result"
  proof (elim disjE exE conjE)
    assume "st = wb_store w" "told a = {}"
    then show thesis by (intro that [of "{}"]) simp_all
  next
    fix r assume "result = Inr r" "told a = {(g, r)}" "st = put_mac_table sid (live_entry (fst clock) g r) (wb_store w)"
    then show thesis using put_snapshots(1) [of sid "fst clock" g r "wb_store w"]
      by (intro that [of "{(g, r)}"]) (simp_all add: read_ok_def)
  qed
  show ?case
    by (rule web_ok_grow [OF mac_finish(3) m(1), where ports = "{}" and gens = "{g}"]) (use m mac_finish(2) in auto)
next
  case (port_start le clock clock' g sid q inm w stage fell_back st)
  let ?a = "case stage of Answered a \<Rightarrow> told a | Queueing _ _ \<Rightarrow> {}"
  from port_start_cases [OF port_start(1)] obtain ports where m: "inj_on fst ports" "fst ` ports \<subseteq> {g}"
    "?a \<subseteq> ports \<union> cached_snapshots (sr_port_status_cache (wb_store w))"
    "cached_snapshots (sr_port_status_cache st) \<subseteq> ports \<union> cached_snapshots (sr_port_status_cache (wb_store w))"
    "sr_mac_table_cache st = sr_mac_table_cache (wb_store w)"
  proof (elim disjE exE conjE)
    assume "st = wb_store w" "?a \<subseteq> cached_snapshots (sr_port_status_cache (wb_store w))"
    then show thesis by (intro that [of "{}"]) simp_all
  next
    fix r assume "?a = {(g, r)}" "st = put_port_status sid (live_entry (fst clock') g r) (wb_store w)"
    then show thesis using put_snapshots(2) [of sid "fst clock'" g r "wb_store w"]
      by (intro that [of "{(g, r)}"]) simp_all
  qed
  show ?case
    by (rule web_ok_grow [OF port_start(3) _ m(1), where macs = "{}" and gens = "{g}"]) (use m port_start(2) in auto)
next
  case (port_turn got clock sid q inm max_age w a)
  then show ?case by (intro web_ok_tell(2) port_turn_cached)
next
  case (port_finish result clock g fell_back sid max_age w a st)
  from port_finish_cases [OF port_finish(1)] obtain ports where m: "inj_on fst ports" "fst ` ports \<subseteq> {g}" "told a \<subseteq> ports"
    "cached_snapshots (sr_port_status_cache st) \<subseteq> ports \<union> cached_snapshots (sr_port_status_cache (wb_store w))"
    "sr_mac_table_cache st = sr_mac_table_cache (wb_store w)"
  proof (elim disjE exE conjE)
    assume "st = wb_store w" "told a = {}"
    then show thesis by (intro that [of "{}"]) simp_all
  next
    fix r assume "told a = {(g, r)}" "st = put_port_status sid (live_entry (fst clock) g r) (wb_store w)"
    then show thesis using put_snapshots(2) [of sid "fst clock" g r "wb_store w"]
      by (intro that [of "{(g, r)}"]) simp_all
  qed
  show ?case
    by (rule web_ok_grow [OF port_finish(3) _ m(1), where macs = "{}" and gens = "{g}"]) (use m port_finish(2) in auto)
next
  case (refresh ops le live now g1 g2 g3 sw w st)
  from refresh_snapshots [OF refresh(1)] obtain b x y where r:
    "cached_snapshots (sr_mac_table_cache st) \<subseteq> Pair g2 ` read_lookups (live b) \<union> cached_snapshots (sr_mac_table_cache (wb_store w))"
    "cached_snapshots (sr_port_status_cache st) \<subseteq> {(g1, x), (g3, y)} \<union> cached_snapshots (sr_port_status_cache (wb_store w))"
    by blast
  have f: "inj_on fst (Pair g2 ` read_lookups (live b))"
    by (auto simp: inj_on_def read_lookups_def read_ok_def split: sum.splits)
  have f': "inj_on fst {(g1, x), (g3, y)}" using refresh(2) by simp
  show ?case
    by (rule web_ok_grow [OF refresh(4) f f', where gens = "{g1, g2, g3}"]) (use r refresh(3) in auto)
qed

lemma web_run_ok: "web_run w \<Longrightarrow> web_ok w"
proof -
  assume "web_run w"
  then obtain now switches registry where "web_step\<^sup>*\<^sup>* (start_web (new_store now switches registry)) w"
    by (auto simp: web_run_def)
  then show ?thesis by (induction) (simp_all add: start_web_ok web_step_ok)
qed

section \<open>Properties\<close>


definition example_web :: "line web" where
  "example_web = start_web (new_store 0 [example_complete [plain_port True ''1'']] [])"

definition example_web' :: "line web" where
  "example_web' =
     example_web\<lparr>wb_store := put_mac_table ''sw1'' (live_entry 5 7 ([], ''no entries'')) (wb_store example_web),
       wb_used := {7}, wb_macs := {(7, [], ''no entries'')}, wb_console := {([], ''no entries'')}\<rparr>"

lemma example_web_run: "web_run example_web'"
proof -
  have "web_step example_web example_web'"
    using web_step.mac_finish [of "Inr ([], ''no entries'')" "(5, 5)" 7 "''sw1''" 60 example_web]
    by (simp add: get_mac_table_finish_def told_live_answer read_ok_def example_web'_def)
      (simp add: example_web_def start_web_def)
  then show ?thesis unfolding web_run_def example_web_def by blast
qed


text \<open>A MAC table that was not asked for over SNMP comes from the console, where alone the VLANs are known: an answer from
  the cache is a reading of a driver, no older than was asked for, and never given when a fresh one was.\<close>

theorem mac_table_only_from_console:
  assumes "web_run w" and "lq_source q \<noteq> SnmpSource"
    and "get_mac_table_start le clock sid q inm (wb_store w) = Answered (Served h es raw)"
  shows "(es, raw) \<in> wb_console w \<and> \<not> lq_fresh q \<and>
    (\<exists>c max_age. query_max_age q = Some max_age \<and> sr_mac_table_cache (wb_store w) sid = Some c \<and>
       es = ca_entries c \<and> raw = ca_raw_output c \<and> fst clock - ca_fetched_at c < max_age)"
proof -
  from assms(2,3) obtain max_age where "query_max_age q = Some max_age" "\<not> lq_fresh q"
    and r: "cache_response (sr_mac_table_cache (wb_store w)) sid clock max_age inm = Some (Served h es raw)"
    by (auto simp: get_mac_table_start_def or_queue_def mac_table_cache_response_def
        split: option.splits if_splits sum.splits)
  moreover from r obtain c where c: "sr_mac_table_cache (wb_store w) sid = Some c" "es = ca_entries c" "raw = ca_raw_output c"
    "fst clock - ca_fetched_at c < max_age"
    by (auto simp: cache_response_def is_cache_fresh_def Let_def split: option.splits if_splits)
  moreover have "snapshot_of c \<in> cached_snapshots (sr_mac_table_cache (wb_store w))"
    using c(1) by (auto simp: cached_snapshots_def ran_def)
  ultimately show ?thesis
    using web_run_ok [OF assms(1)] by (fastforce simp: web_ok_def snapshot_of_def)
qed

theorem mac_table_only_from_console_witness:
  "get_mac_table_start \<lparr>le_connect = (\<lambda>_. Inl []), le_scrub = id\<rparr> (6, 6) ''sw1''
     \<lparr>lq_source = AutoSource, lq_fresh = False, lq_max_age_seconds = None\<rparr> None (wb_store example_web') =
   Answered (Served \<lparr>lh_cache = Some (cache_headers 6 5 60000000000 7), lh_source = None, lh_fallback = False\<rparr> [] ''no entries'') \<and>
   ([], ''no entries'') \<in> wb_console example_web'"
proof -
  have f: "find_switch ''sw1'' (sr_switches (wb_store example_web')) = Some (example_complete [plain_port True ''1''])"
    by (simp add: example_web'_def example_web_def start_web_def new_store_def put_mac_table_def example_find)
  have r: "get_mac_table_start \<lparr>le_connect = (\<lambda>_. Inl []), le_scrub = id\<rparr> (6, 6) ''sw1''
       \<lparr>lq_source = AutoSource, lq_fresh = False, lq_max_age_seconds = None\<rparr> None (wb_store example_web') =
     Answered (Served \<lparr>lh_cache = Some (cache_headers 6 5 60000000000 7), lh_source = None, lh_fallback = False\<rparr> [] ''no entries'')"
    unfolding get_mac_table_start_def f
    by (simp add: model_of_def example_complete_def query_max_age_def default_max_age_secs_def duration_seconds_def
        or_queue_def mac_table_cache_response_def cache_response_def example_web'_def put_mac_table_def live_entry_def
        is_cache_fresh_def)
  from mac_table_only_from_console [OF example_web_run _ r] r show ?thesis by simp
qed

lemma live_answer_same: "live_answer clock m g s b r = live_answer clock m' g s b r' \<Longrightarrow> r = r'"
  by (cases r; cases r') (simp add: live_answer_def)

lemma not_live_answer: "cache_response cache sid clock m inm = Some (live_answer clock' m' g s b r) \<Longrightarrow> False"
  by (auto simp: cache_response_def live_answer_def Let_def split: option.splits if_splits)

lemma live_answer_distinct:
  "live_answer clock m g s b r \<noteq> NoSuchSwitch" "live_answer clock m g s b r \<noteq> VendorNotSupported v"
  "live_answer clock m g s b r \<noteq> LookupPanicked" "live_answer clock m g s b r \<noteq> SnmpNotEnabled"
  "live_answer clock m g s b r \<noteq> SnmpFailed e"
  by (simp_all add: live_answer_def)

lemmas live_answer_distinct' = live_answer_distinct [symmetric]

text \<open>A port status asked for from the console only may be one that was read over SNMP: after a lookup that was
  answered over SNMP, a request for the console is answered from the cache that this lookup filled.\<close>

theorem console_query_answered_from_snmp:
  assumes "get_port_status_start le clock clock' g sid q inm st =
      (Answered (live_answer clock' max_age g ''snmp'' False r), False, st')"
    and "lq_source q' = ConsoleSource" and "\<not> lq_fresh q'" and "query_max_age q' = Some max_age'"
    and "fst later - fst clock' < max_age'"
  shows "get_port_status_start le' later later' g' sid q' None st' =
    (Answered (Served \<lparr>lh_cache = Some (cache_headers (snd later) (fst clock') max_age' g), lh_source = None,
       lh_fallback = False\<rparr> (fst r) (snd r)), False, st')"
proof -
  from assms(1) obtain sw m where sw: "find_switch sid (sr_switches st) = Some sw" "model_of sw = Some m"
    "model_vendor m = Fortiswitch"
    and st': "st' = put_port_status sid (live_entry (fst clock') g r) st"
    by (auto simp: get_port_status_start_def port_status_cache_response_def live_answer_distinct live_answer_distinct'
        dest: live_answer_same not_live_answer split: option.splits if_splits sum.splits)
  with assms(2-5) show ?thesis
    by (simp add: get_port_status_start_def port_status_cache_response_def cache_response_def put_port_status_def
        live_entry_def is_cache_fresh_def)
qed

text \<open>A FortiSwitch that answers over SNMP and lists one interface.\<close>

definition example_forti :: switch_config where
  "example_forti = (example_complete [])\<lparr>s_model := Some Fortiswitch124F_FPOE, s_snmp := Some example_snmp\<rparr>"

definition example_snmp_env :: lookup_env where
  "example_snmp_env =
     \<lparr>le_connect = (\<lambda>_. Inr (\<lambda>t. Inr (if t = if_name then [(if_name @ [1], Octets ''port1'')] else []))), le_scrub = id\<rparr>"

definition query_of :: "data_source \<Rightarrow> lookup_query" where
  "query_of source = \<lparr>lq_source = source, lq_fresh = False, lq_max_age_seconds = None\<rparr>"

lemma example_snmp_answer:
  "\<exists>r. get_port_status_start example_snmp_env (5, 5) (5, 5) 7 ''sw1'' (query_of AutoSource) None (new_store 0 [example_forti] [] :: line store) =
     (Answered (live_answer (5, 5) 60000000000 7 ''snmp'' False r), False,
      put_port_status ''sw1'' (live_entry 5 7 r) (new_store 0 [example_forti] []))"
proof -
  have f: "find_switch ''sw1'' (sr_switches (new_store 0 [example_forti] [] :: line store)) = Some example_forti"
    by (simp add: find_switch_def new_store_def example_forti_def example_complete_def)
  have "reads_enabled example_forti"
    by (simp add: example_forti_def reads_enabled_def example_snmp_def)
  then have t: "target_for example_forti = Inr (Some \<lparr>tg_host = ''10.0.0.2'', tg_port = snmp_port default_settings, tg_community = ''probe''\<rparr>)"
    by (simp add: target_for_def example_forti_def example_complete_def example_snmp_def)
  have m: "model_of example_forti = Some Fortiswitch124F_FPOE" by (simp add: model_of_def example_forti_def)
  have "\<exists>r. fetch_port_status (le_connect example_snmp_env)
      \<lparr>tg_host = ''10.0.0.2'', tg_port = snmp_port default_settings, tg_community = ''probe''\<rparr> (poe_port Fortiswitch124F_FPOE) = Inr r"
    by (simp add: fetch_port_status_def example_snmp_env_def)
  then obtain r where "fetch_port_status (le_connect example_snmp_env)
      \<lparr>tg_host = ''10.0.0.2'', tg_port = snmp_port default_settings, tg_community = ''probe''\<rparr> (poe_port Fortiswitch124F_FPOE) = Inr r" ..
  then show ?thesis
    unfolding get_port_status_start_def f
    by (intro exI [of _ r])
      (simp add: m t query_of_def query_max_age_def default_max_age_secs_def duration_seconds_def
        port_status_cache_response_def cache_response_def new_store_def)
qed

theorem console_query_answered_from_snmp_witness:
  "\<exists>st r. get_port_status_start example_snmp_env (5, 5) (5, 5) 7 ''sw1'' (query_of AutoSource) None
       (new_store 0 [example_forti] [] :: line store) = (Answered (live_answer (5, 5) 60000000000 7 ''snmp'' False r), False, st) \<and>
     get_port_status_start example_snmp_env (6, 6) (6, 6) 8 ''sw1'' (query_of ConsoleSource) None st =
       (Answered (Served \<lparr>lh_cache = Some (cache_headers 6 5 60000000000 7), lh_source = None, lh_fallback = False\<rparr> (fst r) (snd r)),
        False, st)"
proof -
  obtain r where r: "get_port_status_start example_snmp_env (5, 5) (5, 5) 7 ''sw1'' (query_of AutoSource) None
       (new_store 0 [example_forti] [] :: line store) =
     (Answered (live_answer (5, 5) 60000000000 7 ''snmp'' False r), False,
      put_port_status ''sw1'' (live_entry 5 7 r) (new_store 0 [example_forti] []))"
    using example_snmp_answer by blast
  have q: "lq_source (query_of ConsoleSource) = ConsoleSource" "\<not> lq_fresh (query_of ConsoleSource)"
    "query_max_age (query_of ConsoleSource) = Some 60000000000"
    by (simp_all add: query_of_def query_max_age_def default_max_age_secs_def duration_seconds_def)
  from console_query_answered_from_snmp [OF r q, where later = "(6, 6)" and later' = "(6, 6)" and le' = example_snmp_env and g' = 8] r show ?thesis by fastforce
qed

section \<open>Sessions\<close>

text \<open>C37: A session on which a lookup failed, or ran out of time, is not in the pool afterwards, so that no later operation gets
  it; one on which it went well is kept for the same settings only, when its driver allows it; the sessions
  of other switches are left alone.\<close>

theorem failed_session_not_kept:
  assumes "fetch_live pe timed_out txt healthy c run st = (r, closed, st')"
  shows "(if (case r of Inl _ \<Rightarrow> False | Inr x \<Rightarrow> healthy x)
       then pred_option (\<lambda>slot. sl_fingerprint slot = fingerprint (pe_hash pe) c \<and> pe_supports_reuse pe (sl_vendor slot))
              (ps_slots st' (s_id c))
       else ps_slots st' (s_id c) = None) \<and>
    (sid = s_id c \<or> ps_slots st' sid = ps_slots st sid)"
proof (cases timed_out)
  case True
  with assms show ?thesis by (cases "sid = s_id c") (auto simp: fetch_live_def take_slot_def)
next
  case False
  obtain y cl st1 where co: "checkout (pe_hash pe) (pe_resume pe) (pe_open pe) c st = (y, cl, st1)"
    by (metis prod.collapse)
  then have st1: "ps_slots st1 = (ps_slots st)(s_id c := None)"
    and own: "\<And>s. y = Inr s \<Longrightarrow> se_switch_id s = s_id c \<and> se_fingerprint s = fingerprint (pe_hash pe) c"
    by (auto simp: checkout_def take_slot_def new_session_def Let_def split: option.splits sum.splits if_splits)
  show ?thesis
  proof (cases y)
    case (Inl e)
    with assms False co st1 show ?thesis by (cases "sid = s_id c") (auto simp: fetch_live_def)
  next
    case (Inr s)
    with own have s: "se_switch_id s = s_id c" "se_fingerprint s = fingerprint (pe_hash pe) c" by simp_all
    from assms False co Inr st1 show ?thesis
      by (cases "sid = s_id c") (auto simp: fetch_live_def end_session_def release_session_def s Let_def split: prod.splits if_splits)
  qed
qed

theorem failed_session_not_kept_witness:
  "\<exists>st. fetch_live \<lparr>pe_hash = (\<lambda>_. 0), pe_resume = (\<lambda>_. True), pe_open = example_opener, pe_supports_reuse = (\<lambda>_. True)\<rparr>
     False [] (\<lambda>ok. ok) example_pool_config (\<lambda>v. (False, v)) empty_pool = (Inr False, [''sw1''], st) \<and>
   ps_slots st ''sw1'' = None"
proof -
  have id: "s_id example_pool_config = ''sw1''" by (simp add: example_pool_config_def)
  obtain st where "fetch_live \<lparr>pe_hash = (\<lambda>_. 0), pe_resume = (\<lambda>_. True), pe_open = example_opener, pe_supports_reuse = (\<lambda>_. True)\<rparr>
     False [] (\<lambda>ok. ok) example_pool_config (\<lambda>v. (False, v)) empty_pool = (Inr False, [''sw1''], st)"
    by (simp add: fetch_live_def checkout_def take_slot_def empty_pool_def example_opener_def id new_session_def
        end_session_def discard_session_def)
  with failed_session_not_kept [OF this, of "''sw1''"] show ?thesis by (auto simp: id)
qed

end
