(* ===== verification/Api_Overlay.thy ===== *)
theory Api_Overlay
  imports Merge Status Rust_Text Fortiswitch_Parser
begin

text \<open>
  The handlers of \<^verbatim>\<open>api/handlers.rs\<close> for configuration files: saving, reading and deleting an overlay, and listing the
  sources of a switch. The files are a map from paths to what the code uses of them; writing YAML and
  parsing it are library code, but the VLAN references of a port, which the code rewrites between the two,
  are followed through the (de)serialisation of \<open>VlanRef\<close>.
\<close>

section \<open>Files\<close>

text \<open>A file: its text; the ids under \<open>switches\<close>, if it parses that far; its priority, if it parses as a whole.\<close>

record config_file =
  fi_text :: string
  fi_switch_ids :: "string list option"
  fi_priority :: "u16 option option"

type_synonym file_map = "string \<rightharpoonup> config_file"

datatype overlay_error =
    PathTraversal
  | NotYaml
  | PriorityOutOfRange
  | NoConfigFolder
  | NoConfigFile
  | OverlayInvalid config_error
  | FileNotFound string string
  | SourceUnknown string
  | Unreadable

definition validate_overlay_filename :: "string \<Rightarrow> overlay_error + unit" where
  "validate_overlay_filename filename =
     (if contains_str ''..'' filename \<or> List.member filename (CHR ''/'') \<or> List.member filename (CHR 0x5C)
      then Inl PathTraversal
      else if \<not> ends_with ''.yaml'' filename \<and> \<not> ends_with ''.yml'' filename then Inl NotYaml
      else Inr ())"

text \<open>\<open>Path::join\<close> with a relative name.\<close>

definition join_path :: "string \<Rightarrow> string \<Rightarrow> string" where
  "join_path folder filename = folder @ CHR ''/'' # filename"

definition file_declares_switch :: "file_map \<Rightarrow> string \<Rightarrow> string \<Rightarrow> bool" where
  "file_declares_switch files path sid =
     (case Option.bind (files path) fi_switch_ids of Some ids \<Rightarrow> List.member ids sid | None \<Rightarrow> False)"

definition find_switch_overlay_file ::
  "file_map \<Rightarrow> 's tracker \<Rightarrow> string \<Rightarrow> string \<Rightarrow> overlay_error + string" where
  "find_switch_overlay_file files tr sid filename =
     (case get_config_paths tr of
        None \<Rightarrow> Inl NoConfigFolder
      | Some (_, folders) \<Rightarrow>
          (case List.find (\<lambda>path. files path \<noteq> None \<and> file_declares_switch files path sid)
                  (map (\<lambda>folder. join_path folder filename) folders) of
             Some path \<Rightarrow> Inr path
           | None \<Rightarrow> Inl (FileNotFound filename sid)))"

definition get_first_config_folder :: "'s tracker \<Rightarrow> overlay_error + string" where
  "get_first_config_folder tr =
     (case get_config_paths tr of
        Some (_, folder # _) \<Rightarrow> Inr folder
      | _ \<Rightarrow> Inl NoConfigFolder)"

definition read_main_config :: "file_map \<Rightarrow> 's tracker \<Rightarrow> overlay_error + string" where
  "read_main_config files tr =
     (case get_config_paths tr of
        None \<Rightarrow> Inl NoConfigFile
      | Some (config_file, _) \<Rightarrow>
          (case files config_file of Some f \<Rightarrow> Inr (fi_text f) | None \<Rightarrow> Inl Unreadable))"

definition read_overlay :: "file_map \<Rightarrow> 's tracker \<Rightarrow> string \<Rightarrow> string \<Rightarrow> overlay_error + string" where
  "read_overlay files tr sid filename =
     and_then (validate_overlay_filename filename) (\<lambda>_.
     and_then (find_switch_overlay_file files tr sid filename) (\<lambda>path.
       case files path of Some f \<Rightarrow> Inr (fi_text f) | None \<Rightarrow> Inl Unreadable))"

definition delete_overlay ::
  "file_map \<Rightarrow> 's tracker \<Rightarrow> string \<Rightarrow> string \<Rightarrow> (overlay_error + unit) \<times> file_map" where
  "delete_overlay files tr sid filename =
     (case and_then (validate_overlay_filename filename) (\<lambda>_. find_switch_overlay_file files tr sid filename) of
        Inl e \<Rightarrow> (Inl e, files)
      | Inr path \<Rightarrow> (Inr (), files(path := None)))"

text \<open>The main file and the overlays that declare the switch, with their priorities, the lowest first. \<open>listing\<close>
  gives the paths of a folder that have a YAML extension.\<close>

definition config_sources ::
  "file_map \<Rightarrow> (string \<Rightarrow> string list) \<Rightarrow> 's tracker \<Rightarrow> switch_config list \<Rightarrow> string \<Rightarrow>
   overlay_error + (string \<times> u16) list" where
  "config_sources files listing tr switches sid =
     (if \<not> list_ex (\<lambda>s. s_id s = sid) switches then Inl (SourceUnknown sid)
      else
        Inr (case get_config_paths tr of
               None \<Rightarrow> []
             | Some (main_file, folders) \<Rightarrow>
                 let priority = (\<lambda>default path.
                       case Option.bind (Option.bind (files path) fi_priority) (\<lambda>p. p) of Some p \<Rightarrow> p | None \<Rightarrow> default)
                 in sort_key snd
                      ((main_file, priority 50 main_file)
                       # map (\<lambda>path. (path, priority 100 path))
                           (filter (\<lambda>path. file_declares_switch files path sid) (concat (map listing folders))))))"

section \<open>Saving an overlay\<close>

text \<open>The names of VLANs by id: a later entry replaces an earlier one.\<close>

definition vlan_names :: "vlan list \<Rightarrow> (u64 \<rightharpoonup> string)" where
  "vlan_names vlans i = map_option v_name (collect (\<lambda>v. ucast (v_id v) :: u64) vlans i)"

fun prefer_name :: "(u64 \<rightharpoonup> string) \<Rightarrow> yaml \<Rightarrow> yaml" where
  "prefer_name names (YU64 i) = (case names i of Some n \<Rightarrow> YStr n | None \<Rightarrow> YU64 i)"
| "prefer_name names y = y"

text \<open>The VLAN references of a port as they are written: untagged and tagged.\<close>

definition prefer_vlan_names :: "vlan list \<Rightarrow> port \<Rightarrow> yaml \<times> yaml list" where
  "prefer_vlan_names vlans p =
     (let prefer = (if vlans = [] then (\<lambda>y. y) else prefer_name (vlan_names vlans))
      in (prefer (vlan_ref_ser (VlanId (p_vlan p))), map (\<lambda>i. prefer (vlan_ref_ser (VlanId i))) (p_tagged_vlans p)))"

text \<open>What is written: the priority, and the switches with the references of their ports.\<close>

record overlay_file =
  ov_priority :: u16
  ov_switches :: "(switch_config \<times> (yaml \<times> yaml list) list) list"

definition save_overlay ::
  "config_with_metadata list \<Rightarrow> 's tracker \<Rightarrow> string \<Rightarrow> u16 \<Rightarrow> switch_config list \<Rightarrow>
   overlay_error + string \<times> overlay_file" where
  "save_overlay sources tr filename priority switches =
     and_then (validate_overlay_filename filename) (\<lambda>_.
     and_then (if priority \<le> 10 \<or> priority > 9999 then Inl PriorityOutOfRange else Inr ()) (\<lambda>_.
     and_then (get_first_config_folder tr) (\<lambda>folder.
       let path = join_path folder filename in
       and_then
         (traverse (\<lambda>sw. map_err OverlayInvalid
             (validate_overlay_config (known_external_vlan_ids sources (s_id sw) path) sw)) switches)
         (\<lambda>valid.
           Inr (path,
                \<lparr>ov_priority = priority,
                 ov_switches = map (\<lambda>sw. (sw, map (prefer_vlan_names (s_vlans sw)) (s_ports sw))) valid\<rparr>)))))"

section \<open>Reading back\<close>

text \<open>A port whose VLAN references are read from what was written, its other fields being the same.\<close>

definition read_port_back :: "port \<Rightarrow> yaml \<times> yaml list \<Rightarrow> de_error + port" where
  "read_port_back p refs =
     and_then (vlan_ref_de (fst refs)) (\<lambda>untagged.
     and_then (traverse vlan_ref_de (snd refs)) (\<lambda>tagged.
       Inr (port_from_de
         \<lparr>pd_port_id = p_port_id p, pd_mode = p_mode p, pd_vlan = untagged, pd_tagged_vlans = tagged,
          pd_description = p_description p, pd_enabled = p_enabled p, pd_poe_enabled = p_poe_enabled p,
          pd_mac_notify = p_mac_notify p, pd_speed_duplex = p_speed_duplex p\<rparr>)))"

lemma vlan_names_Some:
  assumes "vlan_names vlans (ucast i) = Some n"
  shows "\<exists>v \<in> set vlans. v_id v = i \<and> v_name v = n"
proof -
  from assms obtain v where "v \<in> set vlans" "(ucast (v_id v) :: u64) = ucast i" "v_name v = n"
    by (auto simp: vlan_names_def dest: collect_SomeD)
  moreover from this(2) have "v_id v = i" by (metis ucast_u16_u64)
  ultimately show ?thesis by blast
qed

lemma overlay_name_unambiguous:
  assumes "unambiguous vlans" and "v \<in> set vlans"
  shows "name_to_id vlans (v_name v) = Some (v_id v)"
proof -
  from collect_ex [OF assms(2), of v_name] obtain w where "collect v_name vlans (v_name v) = Some w" by blast
  moreover from collect_SomeD [OF this] assms have "v_id w = v_id v" unfolding unambiguous_def by blast
  ultimately show ?thesis by (simp add: name_to_id_def)
qed

text \<open>A reference that is written as a name is read as a name that stands for the same id.\<close>

definition written_ref :: "vlan list \<Rightarrow> u16 \<Rightarrow> vlan_ref" where
  "written_ref vlans i = (case vlan_names vlans (ucast i) of Some n \<Rightarrow> VlanName n | None \<Rightarrow> VlanId i)"

lemma prefer_read:
  "i \<noteq> 0 \<Longrightarrow> vlan_ref_de (prefer_name (vlan_names vlans) (vlan_ref_ser (VlanId i))) = Inr (written_ref vlans i)"
  using vlan_ref_roundtrip [of "VlanId i"] by (auto simp: written_ref_def split: option.splits)

lemma prefer_vlan_names_eq:
  "prefer_vlan_names vlans p =
     (prefer_name (vlan_names vlans) (vlan_ref_ser (VlanId (p_vlan p))),
      map (\<lambda>i. prefer_name (vlan_names vlans) (vlan_ref_ser (VlanId i))) (p_tagged_vlans p))"
  by (simp add: prefer_vlan_names_def vlan_names_def)

lemma written_ref_target:
  assumes "unambiguous vlans"
  shows "ref_target (name_to_id vlans) (written_ref vlans i) = Some i"
proof (cases "vlan_names vlans (ucast i)")
  case (Some n)
  from vlan_names_Some [OF this] obtain v where "v \<in> set vlans" "v_id v = i" "v_name v = n" by blast
  with overlay_name_unambiguous [OF assms this(1)] Some show ?thesis by (simp add: written_ref_def ref_target_def)
qed (simp add: written_ref_def ref_target_def)

lemma traverse_map_Inr: "(\<And>x. x \<in> set xs \<Longrightarrow> f (g x) = Inr (h x)) \<Longrightarrow> traverse f (map g xs) = Inr (map h xs)"
  by (induction xs) simp_all

lemma push_new_distinct: "distinct (acc @ is) \<Longrightarrow> push_new acc is = acc @ is"
  by (induction "is" arbitrary: acc) (auto simp: push_new_def)

lemma map_filter_targets:
  "(\<And>i. i \<in> set is \<Longrightarrow> f (g i) = Some i) \<Longrightarrow> List.map_filter f (map g is) = is"
  by (induction "is") (simp_all add: map_filter_simps)

text \<open>What saving an overlay writes for the VLANs of a port (names, where the overlay has them), is read back
  and resolved to the same VLANs, tagged ones in their order, also when a name looks like a number.\<close>

lemma overlay_port_roundtrip:
  assumes "unambiguous vlans" and "no_pending_names p" and "p_vlan p \<noteq> 0" and "distinct (0 # p_tagged_vlans p)"
  shows "\<exists>q. read_port_back p (prefer_vlan_names vlans p) = Inr q \<and>
    resolve_port_names strict (name_to_id vlans) q = Inr p"
proof -
  let ?refs = "map (written_ref vlans) (p_tagged_vlans p)"
  let ?q = "port_from_de
         \<lparr>pd_port_id = p_port_id p, pd_mode = p_mode p, pd_vlan = written_ref vlans (p_vlan p), pd_tagged_vlans = ?refs,
          pd_description = p_description p, pd_enabled = p_enabled p, pd_poe_enabled = p_poe_enabled p,
          pd_mac_notify = p_mac_notify p, pd_speed_duplex = p_speed_duplex p\<rparr>"
  have "traverse vlan_ref_de (map (\<lambda>i. prefer_name (vlan_names vlans) (vlan_ref_ser (VlanId i))) (p_tagged_vlans p)) = Inr ?refs"
    by (rule traverse_map_Inr, rule prefer_read) (use assms(4) in auto)
  then have "read_port_back p (prefer_vlan_names vlans p) = Inr ?q"
    by (simp add: read_port_back_def prefer_vlan_names_eq prefer_read [OF assms(3)] del: vlan_ref_ser.simps)
  moreover have "resolve_port_names strict (name_to_id vlans) ?q = Inr p"
  proof -
    have target: "ref_target (name_to_id vlans) (written_ref vlans i) = Some i" for i
      by (rule written_ref_target [OF assms(1)])
    have filter: "List.map_filter (ref_target (name_to_id vlans)) ?refs = p_tagged_vlans p"
      by (rule map_filter_targets) (rule target)
    have tagged: "resolve_tagged strict (name_to_id vlans) pid ?refs [] = Inr (p_tagged_vlans p)" for pid
      unfolding resolve_tagged_Inr filter using target push_new_distinct [of "[]" "p_tagged_vlans p"] assms(4) by auto
    have plain: "ref_ids ?refs = p_tagged_vlans p" if "\<not> list_ex is_vlan_name ?refs"
    proof -
      from map_VlanId_ref_ids [OF that] have refs: "map VlanId (ref_ids ?refs) = ?refs" .
      have "map (ref_target (name_to_id vlans)) (map VlanId (ref_ids ?refs)) = map Some (p_tagged_vlans p)"
        unfolding refs by (simp add: target)
      then show ?thesis by (simp add: ref_target_def comp_def inj_map_eq_map)
    qed
    have pending: "p_vlan_name p = None" "p_tagged_vlan_refs p = []" using assms(2) by (simp_all add: no_pending_names_def)
    show ?thesis
      using target [of "p_vlan p"] tagged plain pending
      by (cases "written_ref vlans (p_vlan p)"; cases "list_ex is_vlan_name ?refs")
        (auto simp: resolve_port_names_def port_from_de_def Let_def ref_target_def intro!: port.equality)
  qed
  ultimately show ?thesis by blast
qed

lemma overlay_unambiguous:
  assumes "validate_overlay_config known sw = Inr sw'"
  shows "unambiguous (s_vlans sw')"
proof -
  from assms obtain sw1 where "resolve_vlan_names True sw1 = Inr sw'"
    by (auto simp: validate_overlay_config_def res_simps)
  then obtain ps where "unambiguous (s_vlans sw1)" "sw' = sw1\<lparr>s_ports := ps\<rparr>" by (rule resolve_vlan_names_InrE)
  then show ?thesis by simp
qed


text \<open>Deleting an overlay removes one file at most: one that lies directly in a configured folder and declares the
  switch that was named.\<close>

theorem delete_overlay_scoped:
  assumes "delete_overlay files tr sid filename = (r, files')"
  shows "files' = files \<and> r \<noteq> Inr () \<or>
    (\<exists>main folders folder. get_config_paths tr = Some (main, folders) \<and> folder \<in> set folders \<and>
       CHR ''/'' \<notin> set filename \<and> \<not> contains_str ''..'' filename \<and>
       file_declares_switch files (join_path folder filename) sid \<and>
       files' = files(join_path folder filename := None))"
proof (cases r)
  case (Inr u)
  with assms obtain main folders path where "get_config_paths tr = Some (main, folders)"
    "validate_overlay_filename filename = Inr ()"
    "List.find (\<lambda>path. files path \<noteq> None \<and> file_declares_switch files path sid)
       (map (\<lambda>folder. join_path folder filename) folders) = Some path"
    "files' = files(path := None)"
    by (auto simp: delete_overlay_def find_switch_overlay_file_def res_simps split: sum.splits option.splits)
  then show ?thesis
    by (auto simp: find_Some_iff validate_overlay_filename_def in_set_conv_nth split: if_splits)
qed (use assms in \<open>auto simp: delete_overlay_def split: sum.splits\<close>)

definition example_folders :: "unit tracker" where
  "example_folders = (new_tracker 0)\<lparr>tr_config_metadata :=
     Some \<lparr>md_config_file = ''main.yaml'', md_config_folders = [''d''], md_last_loaded = 0, md_switches_count = 1\<rparr>\<rparr>"

lemma example_paths: "get_config_paths example_folders = Some (''main.yaml'', [''d''])"
  by (simp add: get_config_paths_def example_folders_def)

lemma example_filename: "validate_overlay_filename ''a.yaml'' = Inr ()"
  by (simp add: validate_overlay_filename_def starts_with_def ends_with_def)


theorem delete_overlay_scoped_witness:
  "snd (delete_overlay [''d/a.yaml'' \<mapsto> \<lparr>fi_text = [], fi_switch_ids = Some [''sw1''], fi_priority = None\<rparr>]
     example_folders ''sw1'' ''a.yaml'') = Map.empty"
proof -
  let ?files = "[''d/a.yaml'' \<mapsto> \<lparr>fi_text = [], fi_switch_ids = Some [''sw1''], fi_priority = None\<rparr>]"
  have "fst (delete_overlay ?files example_folders ''sw1'' ''a.yaml'') = Inr ()"
    by (simp add: delete_overlay_def example_filename find_switch_overlay_file_def example_paths join_path_def
        file_declares_switch_def)
  moreover have "fst ((r :: overlay_error + unit), f) = r" for r and f :: file_map by simp
  ultimately show ?thesis
    using delete_overlay_scoped [of ?files example_folders "''sw1''" "''a.yaml''"]
    by (cases "delete_overlay ?files example_folders ''sw1'' ''a.yaml''") (auto simp: example_paths join_path_def)
qed

end
