(* ===== verification/Api_Operations.thy ===== *)
theory Api_Operations
  imports Api_Lookups Aruba_Commands Fortiswitch_Commands
begin

text \<open>
  The operations of \<^verbatim>\<open>api/handlers.rs\<close> on a switch: applying its configuration and switching the power of a
  port, with what they record in the tracker, what they tell listeners, and what becomes of the
  switch's turn and session. The background task of an operation is a function of how its wait for the turn
  ended; a vendor object is a value of type \<open>'v\<close>, and its methods are arguments.
\<close>

section \<open>Applying a configuration\<close>

record 'v vendor_methods =
  vm_create :: "switch_config \<Rightarrow> bool \<Rightarrow> string + 'v"
  vm_connect :: "'v \<Rightarrow> (string + unit) \<times> 'v"
  vm_apply :: "'v \<Rightarrow> (string + config_result list) \<times> 'v"
  vm_save :: "'v \<Rightarrow> (string + unit) \<times> 'v"
  vm_disconnect :: "'v \<Rightarrow> 'v"
  vm_warnings :: "'v \<Rightarrow> string list"

text \<open>The three ways an apply fails do the same bookkeeping.\<close>

definition fail_apply ::
  "'s sem_ops \<Rightarrow> nat \<Rightarrow> string \<Rightarrow> string \<Rightarrow> string \<Rightarrow> string \<Rightarrow> 's tracker \<Rightarrow> 's tracker" where
  "fail_apply ops now sid error_type error outcome tr =
     release_guard ops sid
       (record_apply_failure now sid outcome
         (record_error now error_type error (Some sid) ''apply_config'' tr))"

text \<open>Result, tracker, vendors closed by freeing a kept session, pool, and the vendor object in the end.\<close>

definition apply_config_impl ::
  "'s sem_ops \<Rightarrow> 'v vendor_methods \<Rightarrow> nat \<Rightarrow> string \<Rightarrow> switch_config \<Rightarrow> 's tracker \<Rightarrow> 'v pool_state \<Rightarrow>
   (string + config_result list) \<times> 's tracker \<times> 'v list \<times> 'v pool_state \<times> 'v option" where
  "apply_config_impl ops vm now sid sw tr pool =
     (case close_idle sid pool of
        (closed, pool') \<Rightarrow>
          (case vm_create vm sw (enforce_port_config (s_settings sw)) of
             Inl e \<Rightarrow> (Inl e, fail_apply ops now sid ''VendorCreation'' e e tr, closed, pool', None)
           | Inr v \<Rightarrow>
               (case vm_connect vm v of
                  (Inl e, v1) \<Rightarrow>
                    (Inl (''Connection failed: '' @ e),
                     fail_apply ops now sid ''Connection'' e (''Connection failed: '' @ e) tr, closed, pool', Some v1)
                | (Inr _, v1) \<Rightarrow>
                    (case vm_apply vm v1 of
                       (Inl e, v2) \<Rightarrow>
                         (Inl (''Configuration failed: '' @ e),
                          fail_apply ops now sid ''ApplyConfiguration'' e e tr, closed, pool', Some (vm_disconnect vm v2))
                     | (Inr results, v2) \<Rightarrow>
                         (case vm_save vm v2 of
                            (saved, v3) \<Rightarrow>
                              let tr1 = (case saved of
                                    Inl e \<Rightarrow> record_error now ''SaveConfiguration'' e (Some sid) ''apply_config'' tr
                                  | Inr _ \<Rightarrow> tr);
                                  v4 = vm_disconnect vm v3
                              in (Inr results,
                                  release_guard ops sid
                                    (record_apply_success now sid (record_warnings sid (vm_warnings vm v4) tr1)),
                                  closed, pool', Some v4))))))"

text \<open>The handler: the switch to configure, or 404.\<close>

definition apply_config :: "nat \<Rightarrow> string \<Rightarrow> 's store \<Rightarrow> (api_error + switch_config) \<times> 's store" where
  "apply_config now sid st =
     (case find_switch sid (sr_switches st) of
        Some sw \<Rightarrow> (Inr sw, st)
      | None \<Rightarrow>
          (Inl (SwitchNotFound sid),
           st\<lparr>sr_tracker := record_error now ''NotFound''
                (''Switch with id '' @ [CHR 0x27] @ sid @ [CHR 0x27] @ '' not found'') (Some sid) ''apply_config''
                (sr_tracker st)\<rparr>))"

text \<open>Its background task, once the wait for the turn is over.\<close>

definition gave_up :: string where
  "gave_up = ''Gave up after waiting 600s for the switch'' @ [CHR 0x27] @ ''s turn''"

definition apply_config_task ::
  "'s sem_ops \<Rightarrow> 'v vendor_methods \<Rightarrow> nat \<Rightarrow> bool \<Rightarrow> string \<Rightarrow> switch_config \<Rightarrow> 's tracker \<Rightarrow> 'v pool_state \<Rightarrow>
   's tracker \<times> 'v list \<times> 'v pool_state" where
  "apply_config_task ops vm now got sid sw tr pool =
     (if \<not> got then (record_apply_failure now sid gave_up tr, [], pool)
      else (case apply_config_impl ops vm now sid sw tr pool of
              (_, tr', closed, pool', _) \<Rightarrow> (tr', closed, pool')))"

section \<open>Power over Ethernet\<close>

datatype poe_error =
    PoeNoSwitch string
  | PoeNotOnModel switch_model
  | PoeNotOnPort string switch_model
  | PoeNotForVendor vendor
  | PoePanicked

definition poe_op_guard :: "'s store \<Rightarrow> string \<Rightarrow> string \<Rightarrow> poe_error + switch_config" where
  "poe_op_guard st sid port_id =
     (case find_switch sid (sr_switches st) of
        None \<Rightarrow> Inl (PoeNoSwitch sid)
      | Some sw \<Rightarrow>
          (case model_of sw of
             None \<Rightarrow> Inl PoePanicked
           | Some m \<Rightarrow>
               if \<not> supports_poe m then Inl (PoeNotOnModel m)
               else if \<not> port_supports_poe m port_id then Inl (PoeNotOnPort port_id m)
               else if model_vendor m \<notin> {Aruba, Fortiswitch} then Inl (PoeNotForVendor (model_vendor m))
               else Inr sw))"

text \<open>The commands that turn the power off and on.\<close>

definition poe_commands_for :: "switch_model \<Rightarrow> string \<Rightarrow> string list \<times> string list" where
  "poe_commands_for m port_id =
     (case model_vendor m of
        Fortiswitch \<Rightarrow> (forti_poe_disable_commands port_id, forti_poe_enable_commands port_id)
      | _ \<Rightarrow> (poe_disable_commands port_id, poe_enable_commands port_id))"

text \<open>\<open>SseEvent::PoeSet\<close> and \<open>SseEvent::PoeReset\<close>, without the ids, which are the same throughout.\<close>

record poe_event =
  ev_stage :: string
  ev_detail :: "string option"

definition stage :: "string \<Rightarrow> poe_event" where
  "stage s = \<lparr>ev_stage = s, ev_detail = None\<rparr>"

text \<open>An operation with its events, the commands that went through, closed vendors, and the pool.\<close>

record 'v poe_run =
  pr_result :: "string + unit"
  pr_events :: "poe_event list"
  pr_done :: "string list list"
  pr_closed :: "'v list"
  pr_pool :: "'v pool_state"

text \<open>\<open>exec\<close> is the driver's \<open>execute_raw_commands\<close>.\<close>

type_synonym 'v raw_exec = "string list \<Rightarrow> 'v \<Rightarrow> (string + unit) \<times> 'v"

definition end_run ::
  "'v pool_env \<Rightarrow> string + unit \<Rightarrow> poe_event list \<Rightarrow> string list list \<Rightarrow> 'v list \<Rightarrow> 'v session \<Rightarrow> 'v pool_state \<Rightarrow>
   'v poe_run" where
  "end_run pe result events sent_ok closed s pool =
     (case end_session pe (is_ok result) s pool of
        (closed', pool') \<Rightarrow>
          \<lparr>pr_result = result, pr_events = events, pr_done = sent_ok, pr_closed = closed @ closed', pr_pool = pool'\<rparr>)"

definition poe_set_impl ::
  "'v pool_env \<Rightarrow> 'v raw_exec \<Rightarrow> switch_config \<Rightarrow> string list \<times> string list \<Rightarrow> string \<Rightarrow> bool \<Rightarrow> 'v pool_state \<Rightarrow>
   'v poe_run" where
  "poe_set_impl pe exec c commands port_id turn_on pool =
     (case checkout (pe_hash pe) (pe_resume pe) (pe_open pe) c pool of
        (Inl e, closed, pool1) \<Rightarrow>
          \<lparr>pr_result = Inl (''Connection failed: '' @ e), pr_events = [stage ''connecting''], pr_done = [],
           pr_closed = closed, pr_pool = pool1\<rparr>
      | (Inr s, closed, pool1) \<Rightarrow>
          let cmds = (if turn_on then snd commands else fst commands);
              events = [stage ''connecting'', stage ''setting'']
          in (case exec cmds (se_vendor s) of
                (Inl e, v) \<Rightarrow>
                  end_run pe (Inl (''Failed to turn PoE '' @ (if turn_on then ''on'' else ''off'') @ '' on port ''
                    @ port_id @ '': '' @ e)) events [] closed (s\<lparr>se_vendor := v\<rparr>) pool1
              | (Inr _, v) \<Rightarrow> end_run pe (Inr ()) events [cmds] closed (s\<lparr>se_vendor := v\<rparr>) pool1))"

definition waiting :: "poe_event list" where
  "waiting = map (\<lambda>n. \<lparr>ev_stage = ''waiting'', ev_detail = Some (show_nat n)\<rparr>) [3, 2, 1]"

definition poe_reset_impl ::
  "'v pool_env \<Rightarrow> 'v raw_exec \<Rightarrow> switch_config \<Rightarrow> string list \<times> string list \<Rightarrow> string \<Rightarrow> 'v pool_state \<Rightarrow> 'v poe_run" where
  "poe_reset_impl pe exec c commands port_id pool =
     (case checkout (pe_hash pe) (pe_resume pe) (pe_open pe) c pool of
        (Inl e, closed, pool1) \<Rightarrow>
          \<lparr>pr_result = Inl (''Connection failed: '' @ e), pr_events = [stage ''connecting''], pr_done = [],
           pr_closed = closed, pr_pool = pool1\<rparr>
      | (Inr s, closed, pool1) \<Rightarrow>
          let off = fst commands; on = snd commands in
          (case exec off (se_vendor s) of
             (Inl e, v) \<Rightarrow>
               end_run pe (Inl (''Failed to disable PoE: '' @ e)) [stage ''connecting'', stage ''disabling'']
                 [] closed (s\<lparr>se_vendor := v\<rparr>) pool1
           | (Inr _, v) \<Rightarrow>
               let events = [stage ''connecting'', stage ''disabling''] @ waiting @ [stage ''enabling''] in
               (case exec on v of
                  (Inr _, v1) \<Rightarrow> end_run pe (Inr ()) events [off, on] closed (s\<lparr>se_vendor := v1\<rparr>) pool1
                | (Inl _, v1) \<Rightarrow>
                    (case exec on v1 of
                       (Inr _, v2) \<Rightarrow> end_run pe (Inr ()) events [off, on] closed (s\<lparr>se_vendor := v2\<rparr>) pool1
                     | (Inl e2, v2) \<Rightarrow>
                         end_run pe (Inl (''PoE was DISABLED on port '' @ port_id
                           @ '' but re-enable FAILED after retry: '' @ e2 @ ''. Manual intervention required.''))
                           events [off] closed (s\<lparr>se_vendor := v2\<rparr>) pool1))))"

text \<open>The background tasks: the last event, and the record of an error. \<open>kind\<close> and \<open>operation\<close> name them.\<close>

definition poe_task ::
  "'s sem_ops \<Rightarrow> nat \<Rightarrow> string \<Rightarrow> string \<Rightarrow> bool \<Rightarrow> ('v pool_state \<Rightarrow> 'v poe_run) \<Rightarrow> string \<Rightarrow> 's tracker \<Rightarrow> 'v pool_state \<Rightarrow>
   poe_event list \<times> 's tracker \<times> 'v pool_state" where
  "poe_task ops now kind operation got run sid tr pool =
     (if \<not> got
      then ([\<lparr>ev_stage = ''failed'', ev_detail = Some gave_up\<rparr>],
            record_error now kind gave_up (Some sid) operation tr, pool)
      else
        let r = run pool in
        (case pr_result r of
           Inr _ \<Rightarrow> (pr_events r @ [stage ''done''], release_guard ops sid tr, pr_pool r)
         | Inl e \<Rightarrow>
             (pr_events r @ [\<lparr>ev_stage = ''failed'', ev_detail = Some e\<rparr>],
              release_guard ops sid (record_error now kind e (Some sid) operation tr), pr_pool r)))"

definition poe_set_task where
  "poe_set_task ops now got pe exec c commands sid port_id turn_on =
     poe_task ops now ''PoeSet'' (if turn_on then ''poe_on'' else ''poe_off'') got
       (poe_set_impl pe exec c commands port_id turn_on) sid"

definition poe_reset_task where
  "poe_reset_task ops now got pe exec c commands sid port_id =
     poe_task ops now ''PoeReset'' ''poe_reset'' got (poe_reset_impl pe exec c commands port_id) sid"

section \<open>What an operation leaves behind\<close>

lemma status_record_error [simp]:
  "tr_switch_status (record_error now ty m h oper tr) = tr_switch_status tr"
  "tr_currently_configuring (record_error now ty m h oper tr) = tr_currently_configuring tr"
  by (simp_all add: record_error_def Let_def)

lemma status_release_guard [simp]:
  "tr_switch_status (release_guard ops sid tr) = tr_switch_status tr"
  "tr_currently_configuring (release_guard ops sid tr) = tr_currently_configuring tr - {sid}"
  by (simp_all add: release_guard_def clear_currently_configuring_def on_gate_def)

lemma close_idle_slots: "ps_slots (snd (close_idle sid pool)) = (ps_slots pool)(sid := None)"
  by (auto simp: close_idle_def take_slot_def split: option.splits)

text \<open>An apply succeeds when a driver can be made for the switch, connects and carries its configuration out; saving
  it is not needed.\<close>

definition apply_succeeds :: "'v vendor_methods \<Rightarrow> switch_config \<Rightarrow> bool" where
  "apply_succeeds vm sw =
     (case vm_create vm sw (enforce_port_config (s_settings sw)) of
        Inl _ \<Rightarrow> False
      | Inr v \<Rightarrow> is_ok (fst (vm_connect vm v)) \<and> is_ok (fst (vm_apply vm (snd (vm_connect vm v)))))"

definition outcome_recorded :: "nat \<Rightarrow> bool \<Rightarrow> switch_status \<Rightarrow> switch_status \<Rightarrow> bool" where
  "outcome_recorded now good s s' \<longleftrightarrow>
     ss_last_applied s' = Some now \<and> ss_apply_count s' = ss_apply_count s + 1 \<and>
     ss_success_count s' = ss_success_count s + (if good then 1 else 0) \<and>
     ss_failure_count s' = ss_failure_count s + (if good then 0 else 1) \<and>
     (ss_last_result s' = Some ''success'' \<longleftrightarrow> good)"

lemma failure_recorded:
  "rel_option (outcome_recorded now False) (tr_switch_status tr sid) (tr_switch_status (record_apply_failure now sid e tr) sid)"
  by (cases "tr_switch_status tr sid") (simp_all add: record_apply_failure_def on_status_def outcome_recorded_def)

lemma success_recorded:
  "rel_option (outcome_recorded now True) (tr_switch_status tr sid)
     (tr_switch_status (record_apply_success now sid (record_warnings sid ws tr)) sid)"
  by (cases "tr_switch_status tr sid")
    (simp_all add: record_apply_success_def record_warnings_def on_status_def outcome_recorded_def)

lemma bookings_scoped:
  assumes "other \<noteq> sid"
  shows "tr_switch_status (record_apply_failure now sid e tr) other = tr_switch_status tr other"
    and "tr_switch_status (record_apply_success now sid tr) other = tr_switch_status tr other"
    and "tr_switch_status (record_warnings sid ws tr) other = tr_switch_status tr other"
  using assms by (simp_all add: record_apply_failure_def record_apply_success_def record_warnings_def on_status_def)

lemma failure_turns [simp]:
  "tr_currently_configuring (record_apply_failure now sid e tr) = tr_currently_configuring tr"
  by (simp add: record_apply_failure_def on_status_def)

text \<open>The tracker at the end of an apply.\<close>

definition after_apply :: "'s sem_ops \<Rightarrow> nat \<Rightarrow> string \<Rightarrow> bool \<Rightarrow> 's tracker \<Rightarrow> 's tracker \<Rightarrow> bool" where
  "after_apply ops now sid good tr tr' \<longleftrightarrow>
     (\<exists>tr1. tr_switch_status tr1 = tr_switch_status tr \<and>
       (if good then \<exists>ws. tr' = release_guard ops sid (record_apply_success now sid (record_warnings sid ws tr1))
        else \<exists>e. tr' = release_guard ops sid (record_apply_failure now sid e tr1)))"

lemma after_failure: "after_apply ops now sid False tr (fail_apply ops now sid ty error outcome tr)"
  unfolding after_apply_def fail_apply_def using status_record_error(1) by fastforce

lemma after_success:
  "tr_switch_status tr1 = tr_switch_status tr \<Longrightarrow>
   after_apply ops now sid True tr (release_guard ops sid (record_apply_success now sid (record_warnings sid ws tr1)))"
  unfolding after_apply_def by fastforce

lemma apply_impl_tracker:
  assumes "apply_config_impl ops vm now sid sw tr pool = (r, tr', closed, pool', v)"
  shows "pool' = snd (close_idle sid pool) \<and> after_apply ops now sid (apply_succeeds vm sw) tr tr'"
  using assms
  by (auto simp: apply_config_impl_def apply_succeeds_def is_ok_def Let_def after_failure after_success
      split: prod.splits sum.splits)

text \<open>C39: An apply leaves one outcome behind, whatever fails on the way: the counters of the switch go up by one, its last
  result is success exactly when a driver could be made, connected and carried the configuration out, no kept session and no
  busy flag of the switch is left, and the other switches are not touched. A switch without an entry in the status
  (one that came in by PUT) gets none: its outcome is lost.\<close>

theorem apply_records_one_outcome:
  assumes "apply_config_task ops vm now got sid sw tr pool = (tr', closed, pool')"
  shows "rel_option (outcome_recorded now (got \<and> apply_succeeds vm sw)) (tr_switch_status tr sid) (tr_switch_status tr' sid) \<and>
    (if got then sid \<notin> tr_currently_configuring tr' \<and> ps_slots pool' sid = None
     else tr_currently_configuring tr' = tr_currently_configuring tr \<and> pool' = pool) \<and>
    (other = sid \<or> tr_switch_status tr' other = tr_switch_status tr other \<and> ps_slots pool' other = ps_slots pool other)"
proof (cases got)
  case False
  with assms have "tr' = record_apply_failure now sid gave_up tr" and "pool' = pool"
    by (simp_all add: apply_config_task_def)
  with False show ?thesis by (cases "other = sid") (simp_all add: failure_recorded bookings_scoped)
next
  case True
  with assms obtain r v where impl: "apply_config_impl ops vm now sid sw tr pool = (r, tr', closed, pool', v)"
    by (auto simp: apply_config_task_def split: prod.splits)
  from apply_impl_tracker [OF impl] obtain tr1 where "tr_switch_status tr1 = tr_switch_status tr" and
    "pool' = snd (close_idle sid pool)" and
    "if apply_succeeds vm sw
     then \<exists>ws. tr' = release_guard ops sid (record_apply_success now sid (record_warnings sid ws tr1))
     else \<exists>e. tr' = release_guard ops sid (record_apply_failure now sid e tr1)" by (auto simp: after_apply_def)
  with True show ?thesis
    using failure_recorded [of now tr1 sid] success_recorded [of now tr1 sid]
    by (auto simp: close_idle_slots bookings_scoped split: if_splits)
qed

definition example_methods :: "unit vendor_methods" where
  "example_methods = \<lparr>vm_create = (\<lambda>_ _. Inr ()), vm_connect = (\<lambda>v. (Inr (), v)), vm_apply = (\<lambda>v. (Inl ''lost'', v)),
     vm_save = (\<lambda>v. (Inr (), v)), vm_disconnect = (\<lambda>v. v), vm_warnings = (\<lambda>_. [])\<rparr>"

definition example_known :: "line tracker" where
  "example_known = snd (initialize_switches [example_complete []] (new_tracker 0))"

theorem apply_records_one_outcome_witness:
  "\<exists>s'. tr_switch_status (fst (apply_config_task fifo_ops example_methods 7 True ''sw1'' (example_complete [])
       example_known empty_pool)) ''sw1'' = Some s' \<and>
     ss_apply_count s' = 1 \<and> ss_failure_count s' = 1 \<and> ss_last_result s' \<noteq> Some ''success''"
proof -
  obtain tr' closed pool' where t: "apply_config_task fifo_ops example_methods 7 True ''sw1'' (example_complete [])
    example_known empty_pool = (tr', closed, pool')" by (metis prod.collapse)
  have "tr_switch_status example_known ''sw1'' = initial_status (example_complete [])"
    by (simp add: example_known_def example_complete_def)
  then obtain s where "tr_switch_status example_known ''sw1'' = Some s" "ss_apply_count s = 0" "ss_failure_count s = 0"
    by (auto simp: example_complete_def)
  moreover have "\<not> apply_succeeds example_methods (example_complete [])"
    by (simp add: apply_succeeds_def example_methods_def is_ok_def)
  ultimately show ?thesis using apply_records_one_outcome [OF t, of "''sw1''"]
    by (auto simp: t outcome_recorded_def option_rel_Some1)
qed

lemma end_run_fields [simp]:
  "pr_result (end_run pe r events went closed s pool) = r"
  "pr_events (end_run pe r events went closed s pool) = events"
  "pr_done (end_run pe r events went closed s pool) = went"
  by (auto simp: end_run_def split: prod.splits)

definition left_without_power :: "string \<Rightarrow> string \<Rightarrow> string" where
  "left_without_power port_id e =
     ''PoE was DISABLED on port '' @ port_id @ '' but re-enable FAILED after retry: '' @ e @ ''. Manual intervention required.''"

text \<open>How a power cycle can end: its result, its events and the commands that went through.\<close>

lemma poe_reset_ends:
  assumes "r = poe_reset_impl pe exec c (off, on) port_id pool"
  shows "filter (\<lambda>e. ev_stage e \<in> {''done'', ''failed''}) (pr_events r) = [] \<and>
    (pr_result r = Inr () \<and> pr_done r = [off, on] \<or>
     (\<exists>e. pr_result r = Inl (left_without_power port_id e)) \<and> pr_done r = [off] \<or>
     (\<exists>e. pr_result r = Inl e \<and> hd e \<noteq> CHR ''P'') \<and> pr_done r = [])"
  unfolding assms
  by (auto simp: poe_reset_impl_def Let_def stage_def waiting_def left_without_power_def split: prod.splits sum.splits)

lemma length_record_error:
  "length (tr_recent_errors (record_error now ty m h oper tr)) = length (tr_recent_errors tr) \<longleftrightarrow>
   max_errors \<le> length (tr_recent_errors tr)"
  by (auto simp: record_error_def Let_def)

lemma release_guard_errors [simp]: "tr_recent_errors (release_guard ops sid tr) = tr_recent_errors tr"
  by (simp add: release_guard_def clear_currently_configuring_def on_gate_def)

lemma other_texts:
  "gave_up \<noteq> left_without_power port_id e"
  "hd x \<noteq> CHR ''P'' \<Longrightarrow> x \<noteq> left_without_power port_id e"
  by (auto simp: left_without_power_def gave_up_def)


end
