(* ===== verification/Spec2Isabelle.thy ===== *)
theory Spec2Isabelle
  imports Models Merge Watcher Session_Pool Aruba_Apply Aruba_Roundtrip Cisco_Apply Fortiswitch_Apply Jump_Host Snmp_Tables Api_Cache Api_Overlay Api_Operations
begin

text \<open>
  A verification development for the core of \<^verbatim>\<open>switch-configurator\<close>, a service that brings network
  switches to a configuration written in YAML files.

  \<^bold>\<open>The program.\<close> A configuration is loaded from one file or merged from several sources, validated,
  and stored. For every switch the service reads the current state, computes the
  difference to the configuration, carries it out with vendor commands and checks that nothing is left.
  Modelled are the way from a parsed file to a validated configuration, the difference to a state, the
  coordination of the tasks that apply it, and the three vendor drivers from the output of a switch to
  the commands sent to it. All paths below are under \<^verbatim>\<open>src/switch-configurator/src\<close>.

  \<^bold>\<open>Theories, in the order in which they build on each other.\<close>

  \<^item> \<open>Prelude\<close>: machine integers, results with early return, hash maps with an undetermined iteration
    order, ordered maps; the lemmas on them.
  \<^item> \<open>Rust_Str\<close>: the string functions of the standard library the code uses (decimal numbers, \<open>split\<close>, \<open>trim\<close> on UTF-8).
  \<^item> \<open>Models\<close>: \<^verbatim>\<open>models.rs\<close>, switch models, port capabilities, speed names. Properties: capabilities are
    consistent with port counts, PoE and speeds; the Aruba speed syntax round trips.
  \<^item> \<open>Switch_Types\<close>: the structs of \<^verbatim>\<open>models.rs\<close>, \<^verbatim>\<open>validation/mod.rs\<close> and \<^verbatim>\<open>config.rs\<close> as records and datatypes,
    and the serialisation written by hand. Properties: round trips, no secret is serialised, the summary of a difference.
  \<^item> \<open>Port_Ranges\<close>: \<open>parse_port_id\<close>, \<open>expand_port_ranges\<close> of \<^verbatim>\<open>config.rs\<close>. Properties: what a range
    expands to, expansion yields single ports and is idempotent.
  \<^item> \<open>Ip_Addr\<close>: addresses as \<open>std::net\<close> parses and prints them, \<open>AllowedHost\<close>, and the FortiOS conversions
    of \<^verbatim>\<open>allowed_hosts.rs\<close>. Property: the round trip of networks.
  \<^item> \<open>Snmp_Policy\<close>: \<^verbatim>\<open>secrets.rs\<close>, \<^verbatim>\<open>allowed_hosts.rs\<close>, \<^verbatim>\<open>snmp_reads.rs\<close>. Properties: resolved secrets are usable and
    registered, resolution is idempotent, no \<open>auto\<close> and no unrestricted read community is left.
  \<^item> \<open>Diff\<close>: \<^verbatim>\<open>diff/mod.rs\<close>. The locale \<open>keyed_diff\<close> (and \<open>exact_diff\<close>, which extends it) is the contract of a
    table difference, interpreted for VLANs, mirrors, communities, receivers and traps. \<open>state_in_sync\<close> is the
    specification of an empty difference and \<open>apply_diff\<close> that of an apply. Properties: an apply converges, what is removed
    and reset, reproducibility, migrations.
  \<^item> \<open>Validation\<close>: the validation functions of \<^verbatim>\<open>config.rs\<close>. \<open>valid_switch\<close> is the invariant a validated switch
    satisfies. Properties: soundness, idempotence, name resolution, overlays.
  \<^item> \<open>Merge\<close>: the merge functions of \<^verbatim>\<open>config.rs\<close> and the tracker of \<^verbatim>\<open>config/errors.rs\<close>. The locale \<open>entry_map\<close> is
    the contract of \<open>entry().or_insert()\<close>, interpreted for ordered and for hash maps. Properties: the best
    priority wins, load order does not matter, every switch is accounted for.
  \<^item> \<open>Status\<close>, \<open>Turns\<close>: \<^verbatim>\<open>status.rs\<close>. The state of the tracker and every operation on it; then the tasks that
    acquire, hold and release a switch, as a step relation over these operations. The locale \<open>fair_semaphore\<close> is what tokio documents of
    a semaphore. Properties: at most one task holds a switch, first come first served, turns end, the history of errors.
  \<^item> \<open>Watcher\<close>: the apply loop of \<^verbatim>\<open>watcher/mod.rs\<close> beside the other tasks. Property: a pending reload is never taken.
  \<^item> \<open>Session_Pool\<close>: \<^verbatim>\<open>session_pool.rs\<close>, the pool of logged-in sessions. Properties: a session is handed to one user,
    a timer only closes the session it was started for.
  \<^item> \<open>Rust_Text\<close>: \<open>lines\<close>, \<open>split_whitespace\<close>, \<open>trim_matches\<close>, \<open>find\<close>, and lemmas on lines put together from words.
  \<^item> \<open>Vendor\<close>: \<^verbatim>\<open>vendors/traits.rs\<close> and what the drivers share. A driver's operation is a function on the record
    \<open>driver\<close>, which logs the batches sent; \<open>sends\<close> says that an operation keeps to a list of batches. The locale \<open>switch_driver\<close> is the
    contract of a driver (reading sends fixed commands, carrying out a difference keeps to its plan); from it
    follow what an apply does on a failed read, on a switch in sync, and after an error. It is
    interpreted for all three drivers.
  \<^item> \<open>Aruba_Commands\<close>, \<open>Aruba_Parser\<close>, \<open>Aruba\<close>, \<open>Aruba_State\<close>, \<open>Aruba_Roundtrip\<close>, \<open>Aruba_Apply\<close>: \<^verbatim>\<open>vendors/aruba.rs\<close>, its
    commands, readers and operations; what every reading looks like; commands read back; the order of
    an apply.
  \<^item> \<open>Cisco\<close>, \<open>Cisco_Apply\<close>: \<^verbatim>\<open>vendors/cisco.rs\<close>. Properties: an apply is always refused, the management VLAN, the check
    of a configuration.
  \<^item> \<open>Fortiswitch_Commands\<close>, \<open>Fortiswitch_Parser\<close>, \<open>Fortiswitch_Queries\<close>, \<open>Fortiswitch\<close>: \<^verbatim>\<open>vendors/fortiswitch.rs\<close>, its
    commands, the readers of tables, the readers of SNMP, MAC table and port status, and the operations, on a
    driver record with fields of its own. \<open>Fortiswitch_Roundtrip\<close> (ports, mirrors), \<open>Fortiswitch_Snmp\<close> (communities) and
    \<open>Fortiswitch_Apply\<close> (VLANs, management VLAN, resets) show what is read back of what is written.
  \<^item> \<open>Jump_Host\<close>: \<^verbatim>\<open>ssh/jump_host_parser.rs\<close>. Properties: what is written is read back; an IPv6 address without a
    port is misread.
  \<^item> \<open>Snmp_Tables\<close>: \<^verbatim>\<open>snmp/mapping.rs\<close>, \<^verbatim>\<open>snmp/lookup.rs\<close> and the values of \<^verbatim>\<open>snmp/client.rs\<close>, from the rows of a walk to the
    tables of the API. Property: the shape of the port status.
  \<^item> \<open>Api_Config\<close>, \<open>Api_Store\<close>: the handlers of \<^verbatim>\<open>api/handlers.rs\<close> that change the configuration in memory, over the record
    \<open>store\<close>. Properties: every switch in memory is usable, a refused request changes nothing, what a patch changes,
    a failed reload gives the turn back.
  \<^item> \<open>Api_Lookups\<close>, \<open>Api_Cache\<close>: the lookups of MAC tables and port status, cut at their waits, and the refresher; then
    their interleavings with the configuration requests, as the step relation \<open>web_step\<close>. Properties: a tag stands for one snapshot,
    which source fills which cache, no session survives a failed lookup.
  \<^item> \<open>Api_Overlay\<close>: the handlers that save, read and delete overlays, on a map of files. Properties: VLAN names written
    for ports are read back; a deletion stays in the folders.
  \<^item> \<open>Api_Operations\<close>: applying a configuration and switching the power of a port. Properties: one outcome is
    recorded, a power cycle is reported truthfully.
  \<^item> \<open>Spec2Isabelle\<close>, this theory: the properties that span merging, validation and differences.

  \<^bold>\<open>Correspondence.\<close> A struct is a record (with a prefix on its fields), an enum a datatype, \<open>u16\<close> a 16-bit word, a
  \<open>String\<close> its list of UTF-8 bytes, \<open>Result\<close> a sum with the error left. A function that
  changes its argument returns the new value; the registry of secrets and the state of a driver are passed along, also
  through failing steps. Panics are branches of their own. There is no fuel: all loops are structural, or
  terminate by a measure. A loop over lines that may return early is a recursive function; one that does not
  is a fold of its body.

  \<^bold>\<open>Parameters.\<close> Iteration orders of hash maps (each key once), file contents (\<open>secret_env\<close>), the routing table
  (\<open>route\<close>), the regular expressions for number ranges (\<open>is_range\<close>), for escape sequences (\<open>ansi\<close>) and for the
  product of a switch (\<open>hw_id\<close>), parsed files (\<open>parsed_file\<close>), the transport to a switch (\<open>cli\<close>: what
  one command gives and how it changes the device), the probe of an idle session, the outcome of opening a session,
  the methods of a vendor object where a handler only calls them (\<open>vendor_methods\<close>), the SNMP connection, the files a reload finds
  (\<open>loader\<close>), the numbers of new generations, and the clock.

  \<^bold>\<open>Not modelled.\<close> The login dialogues, SSH, serial and SNMP transport, the routes and the event stream of the HTTP
  server, the handlers that preview a difference or read the running configuration, the main program and
  the web interface: they are input and output over libraries. Also the validation tests (pings and commands against
  live hosts), the redaction of logs, reading files and watching them, logging, timestamps, and the texts of error
  messages where an error is a constructor with the data the message shows. The half-updated
  switch in the preview of a failed validation is not modelled.

  \<^bold>\<open>Plan.\<close> What could be added next: redaction, the counters of the validation tests, and the preview of a difference.
\<close>

section \<open>From sources to an empty difference\<close>





end
